(* ===== verification/NePrelude.thy ===== *)
theory NePrelude
  imports Main "HOL-Library.Word"
begin

text \<open>
  The prelude of the development. It names the integer types of
  \<^verbatim>\<open>NeKit/Config.h\<close>, models the byte-addressed memory that the kernel's C++ code
  reaches through pointers (a function from 64-bit addresses to bytes) with its little-endian
  64-bit loads and stores, and collects the generic lemmas on words, lists and memory that the
  component theories share.  The collection \<open>mem_simps\<close> holds the read-after-write
  equations, \<open>align_simps\<close> the facts on page alignment.
\<close>

unbundle bit_operations_syntax

named_theorems mem_simps \<open>reading memory after writing it\<close>
named_theorems align_simps \<open>alignment of addresses\<close>

section \<open>Integer types and memory\<close>

type_synonym u8 = "8 word"
type_synonym u16 = "16 word"
type_synonym u32 = "32 word"
type_synonym u64 = "64 word"

type_synonym mem = "u64 \<Rightarrow> u8"

definition read_bytes :: "mem \<Rightarrow> u64 \<Rightarrow> nat \<Rightarrow> u8 list" where
  "read_bytes m a n = map (\<lambda>i. m (a + of_nat i)) [0..<n]"

definition write_bytes :: "mem \<Rightarrow> u64 \<Rightarrow> u8 list \<Rightarrow> mem" where
  "write_bytes m a bs = (\<lambda>x. if unat (x - a) < length bs then bs ! unat (x - a) else m x)"

fun le_word :: "u8 list \<Rightarrow> u64" where
  "le_word [] = 0"
| "le_word (b # bs) = ucast b OR push_bit 8 (le_word bs)"

definition le_bytes :: "nat \<Rightarrow> u64 \<Rightarrow> u8 list" where
  "le_bytes n v = map (\<lambda>i. ucast (drop_bit (8 * i) v)) [0..<n]"

definition load64 :: "mem \<Rightarrow> u64 \<Rightarrow> u64" where
  "load64 m a = le_word (read_bytes m a 8)"

definition store64 :: "mem \<Rightarrow> u64 \<Rightarrow> u64 \<Rightarrow> mem" where
  "store64 m a v = write_bytes m a (le_bytes 8 v)"

text \<open>Loads and stores of the narrower integer types, \<open>n\<close> bytes wide.\<close>

definition load_le :: "nat \<Rightarrow> mem \<Rightarrow> u64 \<Rightarrow> u64" where
  "load_le n m a = le_word (read_bytes m a n)"

definition store_le :: "nat \<Rightarrow> mem \<Rightarrow> u64 \<Rightarrow> u64 \<Rightarrow> mem" where
  "store_le n m a v = write_bytes m a (le_bytes n v)"

section \<open>Little-endian encoding\<close>

lemma length_le_bytes [simp]: "length (le_bytes n v) = n"
  by (simp add: le_bytes_def)

lemma length_read_bytes [simp]: "length (read_bytes m a n) = n"
  by (simp add: read_bytes_def)

lemma le_bytes_Suc: "le_bytes (Suc n) v = ucast v # le_bytes n (drop_bit 8 v)"
proof -
  have "[0..<Suc n] = 0 # map Suc [0..<n]"
    by (simp add: map_Suc_upt upt_conv_Cons del: upt_Suc)
  then show ?thesis
    by (simp add: le_bytes_def drop_bit_drop_bit add.commute del: upt_Suc)
qed

lemma le_bytes_0 [simp]: "le_bytes 0 v = []"
  by (simp add: le_bytes_def)

lemma le_word_le_bytes: "le_word (le_bytes n v) = take_bit (8 * n) v"
proof (induction n arbitrary: v)
  case 0
  then show ?case by simp
next
  case (Suc n)
  show ?case
    by (rule bit_eqI)
      (auto simp: le_bytes_Suc Suc.IH bit_simps not_less)
qed

lemma le_word_le_bytes8 [mem_simps]: "le_word (le_bytes 8 v) = v"
  by (simp add: le_word_le_bytes take_bit_word_eq_self)

lemma le_word_zeros [simp]: "le_word (replicate n 0) = 0"
  by (induction n) simp_all

section \<open>Memory\<close>

lemma read_bytes_0 [simp]: "read_bytes m a 0 = []"
  by (simp add: read_bytes_def)

lemma unat_of_nat_less [simp]: "i < 2 ^ 64 \<Longrightarrow> unat (of_nat i :: u64) = i"
  by (simp add: unat_of_nat)

lemma read_write_same [mem_simps]:
  assumes "length bs < 2 ^ 64" and "n = length bs"
  shows "read_bytes (write_bytes m a bs) a n = bs"
proof (rule nth_equalityI)
  fix i assume "i < length (read_bytes (write_bytes m a bs) a n)"
  then have "i < length bs" using assms by simp
  moreover from this assms have "unat (of_nat i :: u64) = i"
    by simp
  ultimately show "read_bytes (write_bytes m a bs) a n ! i = bs ! i"
    using assms by (simp add: read_bytes_def write_bytes_def)
qed (simp add: assms)

text \<open>
  Two address ranges are separate when each starts at or beyond the end of the other,
  counting upwards with wrap-around.
\<close>

definition sep :: "u64 \<Rightarrow> nat \<Rightarrow> u64 \<Rightarrow> nat \<Rightarrow> bool" where
  "sep a n b k \<longleftrightarrow> n \<le> unat (b - a) \<and> k \<le> unat (a - b)"

lemma sep_sym: "sep a n b k \<Longrightarrow> sep b k a n"
  by (simp add: sep_def)

lemma unat_minus_swap:
  fixes a b :: u64
  assumes "a \<noteq> b"
  shows "unat (a - b) + unat (b - a) = 2 ^ 64"
proof -
  have "unat a < 2 ^ 64" "unat b < 2 ^ 64" "unat a \<noteq> unat b"
    using unsigned_less [of a, where ?'a = nat] unsigned_less [of b, where ?'a = nat] assms
    by (simp_all add: word_unat_eq_iff)
  then show ?thesis
    by (auto simp: unat_sub_if_size word_size)
qed

lemma sep_offset:
  assumes "sep a n b k" and "i < k"
  shows "n \<le> unat (b + of_nat i - a)"
proof (cases "a = b")
  case True
  with assms show ?thesis by (simp add: sep_def)
next
  case False
  have "unat (a - b) + unat (b - a) = 2 ^ 64" using False by (rule unat_minus_swap)
  then have i: "i + unat (b - a) < 2 ^ 64" using assms by (simp add: sep_def)
  then have "i < 2 ^ 64" by linarith
  have "b + of_nat i - a = (b - a) + of_nat i" by (simp add: algebra_simps)
  moreover have "unat ((b - a) + of_nat i) = unat (b - a) + i"
    using i \<open>i < 2 ^ 64\<close> by (simp only: unat_word_ariths) simp
  ultimately have "unat (b + of_nat i - a) = unat (b - a) + i" by (simp only:)
  with assms show ?thesis by (simp add: sep_def)
qed

lemma read_write_sep [mem_simps]:
  "sep a (length bs) b n \<Longrightarrow> read_bytes (write_bytes m a bs) b n = read_bytes m b n"
  by (auto simp: read_bytes_def write_bytes_def dest: sep_offset)

lemma load64_store64_same [mem_simps]: "load64 (store64 m a v) a = v"
  by (simp add: load64_def store64_def mem_simps)

lemma load64_store64_sep [mem_simps]: "sep a 8 b 8 \<Longrightarrow> load64 (store64 m a v) b = load64 m b"
  by (simp add: load64_def store64_def mem_simps)

lemma load64_write_sep [mem_simps]:
  "sep a (length bs) b 8 \<Longrightarrow> load64 (write_bytes m a bs) b = load64 m b"
  by (simp add: load64_def mem_simps)

lemma load_store_le_same [mem_simps]: "n \<le> 8 \<Longrightarrow> load_le n (store_le n m a v) a = take_bit (8 * n) v"
  by (simp add: load_le_def store_le_def read_write_same le_word_le_bytes)

lemma load_store_le_sep [mem_simps]: "sep a k b n \<Longrightarrow> load_le n (store_le k m a v) b = load_le n m b"
  by (simp add: load_le_def store_le_def read_write_sep)

lemma load64_le: "load64 = load_le 8" and store64_le: "store64 = store_le 8"
  by (simp_all add: fun_eq_iff load64_def load_le_def store64_def store_le_def)

text \<open>Ranges at constant offsets from one base that do not wrap around are separate.\<close>

lemma sep_up:
  fixes a :: u64
  assumes "i + n \<le> j" and "j + k \<le> i + 2 ^ 64" and "j < 2 ^ 64" and "0 < n"
  shows "sep (a + of_nat i) n (a + of_nat j) k"
proof -
  define d where "d = j - i"
  have d: "0 < d" "d < 2 ^ 64" "j = i + d" using assms by (simp_all add: d_def)
  have *: "(a + of_nat j) - (a + of_nat i) = of_nat d" by (simp add: d(3))
  then have 1: "unat ((a + of_nat j) - (a + of_nat i)) = d" using d(2) by (simp only: unat_of_nat_less)
  have "a + of_nat j \<noteq> a + of_nat i"
    using 1 d(1) by (metis cancel_comm_monoid_add_class.diff_cancel less_numeral_extra(3) unsigned_0)
  from unat_minus_swap [OF this] 1 have "unat ((a + of_nat i) - (a + of_nat j)) = 2 ^ 64 - d" by simp
  with 1 show ?thesis using assms d by (simp add: sep_def)
qed

lemma sep_down:
  fixes a :: u64
  assumes "j + k \<le> i" and "i + n \<le> j + 2 ^ 64" and "i < 2 ^ 64" and "0 < k"
  shows "sep (a + of_nat i) n (a + of_nat j) k"
  using sep_up [OF assms] by (rule sep_sym)

lemma sep_num:
  fixes a :: u64
  assumes "numeral i + n \<le> (numeral j :: nat)" and "numeral j + k \<le> (numeral i + 2 ^ 64 :: nat)"
    and "(numeral j :: nat) < 2 ^ 64" and "0 < n"
  shows "sep (a + numeral i) n (a + numeral j) k" "sep (a + numeral j) k (a + numeral i) n"
  using sep_up [OF assms, of a] by (simp_all add: sep_sym)

lemma sep_num0:
  fixes a :: u64
  assumes "n \<le> (numeral j :: nat)" and "numeral j + k \<le> (2 ^ 64 :: nat)" and "0 < n" and "0 < k"
  shows "sep a n (a + numeral j) k" "sep (a + numeral j) k a n"
proof -
  have lt: "(numeral j :: nat) < 2 ^ 64" using assms(2,4) by linarith
  show "sep a n (a + numeral j) k" using sep_up [of 0 n "numeral j" k a, OF _ _ lt] assms by simp
  then show "sep (a + numeral j) k a n" by (rule sep_sym)
qed

lemmas sep_simps = sep_num sep_num0

lemma load64_cong: "(\<And>i. i < 8 \<Longrightarrow> m (a + of_nat i) = m' (a + of_nat i)) \<Longrightarrow> load64 m a = load64 m' a"
  unfolding load64_def read_bytes_def by (intro arg_cong [where f = le_word] map_cong) auto

text \<open>Addresses that are multiples of eight are either equal or eight apart.\<close>

definition aligned8 :: "u64 \<Rightarrow> bool" where
  "aligned8 a \<longleftrightarrow> unat a mod 8 = 0"

lemma aligned8_sep:
  assumes "aligned8 a" and "aligned8 b" and "a \<noteq> b"
  shows "sep a 8 b 8"
proof -
  have *: "8 \<le> unat (x - y)" if "aligned8 x" "aligned8 y" "x \<noteq> y" for x y :: u64
  proof -
    have "unat (x - y) mod 8 = 0"
      using that(1,2) unsigned_less [of y, where ?'a = nat]
      by (simp add: aligned8_def unat_sub_if_size word_size) presburger
    moreover have "unat (x - y) \<noteq> 0" using that(3) by (simp add: unat_eq_0)
    ultimately show ?thesis by presburger
  qed
  show ?thesis using * assms by (auto simp: sep_def)
qed

lemma load64_store64 [mem_simps]:
  "aligned8 a \<Longrightarrow> aligned8 b \<Longrightarrow>
    load64 (store64 m a v) b = (if a = b then v else load64 m b)"
  by (auto simp: mem_simps aligned8_sep)

text \<open>Writing a list byte by byte, in ascending order, is writing it at once.\<close>

lemma unat_less_Suc_word:
  fixes y :: u64
  assumes "n < 2 ^ 64"
  shows "unat y < Suc n \<longleftrightarrow> y = 0 \<or> unat (y - 1) < n"
proof (cases "y = 0")
  case False
  then have "unat (y - 1) = unat y - 1" and "0 < unat y"
    by (simp_all add: unat_minus_one unat_gt_0)
  with False show ?thesis by auto
qed simp

lemma write_bytes_Nil [simp]: "write_bytes m a [] = m"
  by (simp add: write_bytes_def)

lemma write_bytes_Cons:
  assumes "length bs < 2 ^ 64"
  shows "write_bytes m a (b # bs) = write_bytes (m(a := b)) (a + 1) bs"
proof
  fix x
  have "(b # bs) ! unat (x - a) = bs ! unat (x - (a + 1))" if "x \<noteq> a"
  proof -
    have ne: "x - a \<noteq> 0" using that by simp
    from unat_minus_one [OF ne] this
    have "unat (x - (a + 1)) = unat (x - a) - 1" "0 < unat (x - a)"
      by (simp_all add: unat_gt_0 that diff_diff_eq)
    then show ?thesis by (simp add: nth_Cons')
  qed
  moreover have "\<not> unat (- 1 :: u64) < length bs"
    using assms by (simp add: unsigned_minus_1_eq_mask mask_eq_exp_minus_1)
  ultimately show "write_bytes m a (b # bs) x = write_bytes (m(a := b)) (a + 1) bs x"
    using unat_less_Suc_word [OF assms, of "x - a"] by (auto simp: write_bytes_def diff_diff_eq)
qed

lemma read_bytes_Suc: "read_bytes m a (Suc n) = m a # read_bytes m (a + 1) n"
proof -
  have "[0..<Suc n] = 0 # map Suc [0..<n]"
    by (simp add: map_Suc_upt upt_conv_Cons del: upt_Suc)
  then show ?thesis by (simp add: read_bytes_def add.assoc del: upt_Suc)
qed

lemma addr_inj [simp]:
  "i < 2 ^ 64 \<Longrightarrow> j < 2 ^ 64 \<Longrightarrow> (a :: u64) + of_nat i = a + of_nat j \<longleftrightarrow> i = j"
  unfolding add_left_cancel by (metis unat_of_nat_less)

lemma of_nat_inj64 [simp]:
  "i < 2 ^ 64 \<Longrightarrow> j < 2 ^ 64 \<Longrightarrow> (of_nat i :: u64) = of_nat j \<longleftrightarrow> i = j"
  by (metis unat_of_nat_less)

lemma nth_read_bytes [simp]: "i < n \<Longrightarrow> read_bytes m a n ! i = m (a + of_nat i)"
  by (simp add: read_bytes_def)

lemma unat_clear_mask:
  fixes x :: u64
  assumes "n < 64"
  shows "unat (x AND NOT (mask n)) = unat x div 2 ^ n * 2 ^ n"
proof -
  have "x AND NOT (mask n) = push_bit n (drop_bit n x)" by (rule bit_word_eqI) (auto simp: bit_simps)
  then have "x AND NOT (mask n) = x div 2 ^ n * 2 ^ n" by (simp add: push_bit_eq_mult drop_bit_eq_div)
  moreover have "unat (2 ^ n :: u64) = 2 ^ n"
    using unat_of_nat [of "2 ^ n", where ?'a = 64] power_strict_increasing [OF assms, of "2 :: nat"] by simp
  ultimately have "unat (x AND NOT (mask n)) = (unat x div 2 ^ n * 2 ^ n) mod 2 ^ 64"
    by (simp add: unat_word_ariths unat_div mod_mult_left_eq)
  moreover have "unat x div 2 ^ n * 2 ^ n < 2 ^ 64"
    by (rule le_less_trans [OF div_times_less_eq_dividend]) (use unsigned_less [of x, where ?'a = nat] in simp)
  ultimately show ?thesis by simp
qed

lemma unat_add_of_nat: "unat x + n < 2 ^ 64 \<Longrightarrow> unat ((x :: u64) + of_nat n) = unat x + n"
  by (subst unat_word_ariths(1)) (simp add: unat_of_nat del: of_nat_mult)

text \<open>A part of a separate range is separate.\<close>

lemma sep_sub:
  assumes "sep (a :: u64) n b k" and "i + n' \<le> n" and "i < n"
  shows "sep (a + of_nat i) n' b k"
proof -
  have "k \<le> unat (a + of_nat i - b)" using sep_offset [OF sep_sym [OF assms(1)] assms(3)] .
  moreover have "n' \<le> unat (b - (a + of_nat i))"
  proof -
    have le: "i \<le> unat (b - a)" "n \<le> unat (b - a)" using assms by (auto simp: sep_def)
    have "i < 2 ^ 64" using le unsigned_less [of "b - a", where ?'a = nat] by simp
    then have "of_nat i \<le> b - a" using le(1) by (simp add: word_le_nat_alt)
    then have "unat (b - a - of_nat i) = unat (b - a) - i" using \<open>i < 2 ^ 64\<close> by (simp add: unat_sub)
    moreover have "b - (a + of_nat i) = b - a - of_nat i" by (simp add: diff_diff_eq)
    ultimately have "unat (b - (a + of_nat i)) = unat (b - a) - i" by (simp only:)
    then show ?thesis using le assms(2) by linarith
  qed
  ultimately show ?thesis by (simp add: sep_def)
qed

lemma write_bytes_append:
  assumes "length xs + length ys < 2 ^ 64"
  shows "write_bytes (write_bytes m a xs) (a + of_nat (length xs)) ys = write_bytes m a (xs @ ys)"
  using assms
proof (induction xs arbitrary: m a)
  case (Cons x xs)
  then show ?case by (simp add: write_bytes_Cons add.assoc [symmetric])
qed simp

lemma write_bytes_twice: "length xs = length ys \<Longrightarrow> write_bytes (write_bytes m a xs) a ys = write_bytes m a ys"
  by (auto simp: write_bytes_def)

lemma find_append: "find P (xs @ ys) = (case find P xs of None \<Rightarrow> find P ys | Some x \<Rightarrow> Some x)"
  by (induction xs) simp_all

end
