(* ===== verification/AsciiUtils.thy ===== *)
theory AsciiUtils
  imports NePrelude
begin

text \<open>
  The kernel's freestanding string and memory routines,
  \<^verbatim>\<open>private/minkernel/src/AsciiUtils.cpp\<close> and \<^verbatim>\<open>UtfUtils.cpp\<close>.
  A pointer is a 64-bit address, the null pointer is 0, and every routine that writes returns
  the new memory.  Copies and fills run byte by byte in the source's order, so overlapping
  buffers behave as they do in the code.  A loop that runs to a terminating zero byte is a
  \<^theory_text>\<open>partial_function\<close>, so a string without a terminator is \<open>None\<close>.
\<close>

section \<open>Comparison and length\<close>

text \<open>\<open>Char\<close> is signed: \<open>sint\<close> is the conversion to \<open>Int32\<close>.\<close>

primrec string_cmp_loop :: "mem \<Rightarrow> u64 \<Rightarrow> u64 \<Rightarrow> u64 \<Rightarrow> nat \<Rightarrow> int" where
  "string_cmp_loop m src cmp i 0 = 0"
| "string_cmp_loop m src cmp i (Suc n) =
     (if m (src + i) \<noteq> m (cmp + i) then sint (m (src + i)) - sint (m (cmp + i))
      else string_cmp_loop m src cmp (i + 1) n)"

definition rt_string_cmp :: "mem \<Rightarrow> u64 \<Rightarrow> u64 \<Rightarrow> u64 \<Rightarrow> int" where
  "rt_string_cmp m src cmp sz = string_cmp_loop m src cmp 0 (unat sz)"

primrec string_len_max_loop :: "mem \<Rightarrow> u64 \<Rightarrow> u64 \<Rightarrow> nat \<Rightarrow> u64" where
  "string_len_max_loop m str len 0 = len"
| "string_len_max_loop m str len (Suc n) =
     (if m (str + len) \<noteq> 0 then string_len_max_loop m str (len + 1) n else len)"

definition rt_string_len_max :: "mem \<Rightarrow> u64 \<Rightarrow> u64 \<Rightarrow> u64" where
  "rt_string_len_max m str max_len = string_len_max_loop m str 0 (unat max_len)"

partial_function (option) string_len_loop :: "mem \<Rightarrow> u64 \<Rightarrow> u64 \<Rightarrow> u64 option" where
  "string_len_loop m ptr cnt =
     (if m (ptr + cnt) \<noteq> 0 then string_len_loop m ptr (cnt + 1) else Some cnt)"

definition rt_string_len :: "mem \<Rightarrow> u64 \<Rightarrow> u64 option" where
  "rt_string_len m ptr = string_len_loop m ptr 0"

definition urt_string_len :: "mem \<Rightarrow> u64 \<Rightarrow> u64 option" where
  "urt_string_len m str = (if str = 0 then Some 0 else string_len_loop m str 0)"

primrec urt_cmp_loop :: "mem \<Rightarrow> u64 \<Rightarrow> u64 \<Rightarrow> u64 \<Rightarrow> nat \<Rightarrow> u32 \<Rightarrow> u32" where
  "urt_cmp_loop m src cmp i 0 counter = counter"
| "urt_cmp_loop m src cmp i (Suc n) counter =
     urt_cmp_loop m src cmp (i + 1) n
       (if m (src + i) \<noteq> m (cmp + i) then counter + 1 else counter)"

definition urt_string_cmp :: "mem \<Rightarrow> u64 \<Rightarrow> u64 \<Rightarrow> u64 \<Rightarrow> int" where
  "urt_string_cmp m src cmp sz =
     (if src = 0 then 0 else sint (urt_cmp_loop m src cmp 0 (unat sz) 0))"

section \<open>Fills and copies\<close>

primrec set_loop :: "mem \<Rightarrow> u64 \<Rightarrow> u8 \<Rightarrow> u64 \<Rightarrow> nat \<Rightarrow> mem" where
  "set_loop m p v i 0 = m"
| "set_loop m p v i (Suc n) = set_loop (m(p + i := v)) p v (i + 1) n"

primrec copy_loop :: "mem \<Rightarrow> u64 \<Rightarrow> u64 \<Rightarrow> u64 \<Rightarrow> nat \<Rightarrow> mem" where
  "copy_loop m s d i 0 = m"
| "copy_loop m s d i (Suc n) = copy_loop (m(d + i := m (s + i))) s d (i + 1) n"

definition rt_set_memory_safe :: "mem \<Rightarrow> u64 \<Rightarrow> u32 \<Rightarrow> u64 \<Rightarrow> u64 \<Rightarrow> mem \<times> u64" where
  "rt_set_memory_safe m dst value len dst_size =
     (if dst = 0 \<or> len > dst_size then (m, 0)
      else (set_loop m dst (ucast (value AND 0xFF)) 0 (unat len), dst))"

definition rt_zero_memory :: "mem \<Rightarrow> u64 \<Rightarrow> u64 \<Rightarrow> mem" where
  "rt_zero_memory m pointer len = fst (rt_set_memory_safe m pointer 0 len len)"

definition rt_set_memory :: "mem \<Rightarrow> u64 \<Rightarrow> u32 \<Rightarrow> u64 \<Rightarrow> mem \<times> u64" where
  "rt_set_memory m src value len =
     (if src = 0 then (m, 0)
      else (set_loop m src (ucast (value AND 0xFF)) 0 (unat len), src))"

definition to_int32 :: "u64 \<Rightarrow> int" where
  "to_int32 x = sint (ucast x :: u32)"

definition rt_copy_memory_safe :: "mem \<Rightarrow> u64 \<Rightarrow> u64 \<Rightarrow> u64 \<Rightarrow> u64 \<Rightarrow> mem \<times> int" where
  "rt_copy_memory_safe m src dst len dst_size =
     (if src = 0 \<or> dst = 0 \<or> len > dst_size then
        (if dst \<noteq> 0 \<and> dst_size \<noteq> 0
         then (fst (rt_set_memory_safe m dst 0 dst_size dst_size), -1)
         else (m, -1))
      else (copy_loop m src dst 0 (unat len), to_int32 len))"

definition rt_copy_memory :: "mem \<Rightarrow> u64 \<Rightarrow> u64 \<Rightarrow> u64 \<Rightarrow> mem \<times> int" where
  "rt_copy_memory m src dst len =
     (if src = 0 \<or> dst = 0 then (m, -1)
      else (copy_loop m src dst 0 (unat len), to_int32 len))"

definition urt_set_memory :: "mem \<Rightarrow> u64 \<Rightarrow> u32 \<Rightarrow> u64 \<Rightarrow> mem" where
  "urt_set_memory m src dst len =
     (if src = 0 then m else set_loop m src (ucast dst) 0 (unat len))"

definition urt_copy_memory :: "mem \<Rightarrow> u64 \<Rightarrow> u64 \<Rightarrow> u64 \<Rightarrow> mem \<times> int" where
  "urt_copy_memory m src dst len =
     (if src = 0 then (m, 0) else if dst = 0 then (m, 0)
      else (copy_loop m src dst 0 (unat len), to_int32 len))"

section \<open>Characters\<close>

definition rt_to_uppercase :: "int \<Rightarrow> int" where
  "rt_to_uppercase ch = (if 97 \<le> ch \<and> ch \<le> 122 then ch - 0x20 else ch)"

definition rt_to_lower :: "int \<Rightarrow> int" where
  "rt_to_lower ch = (if 65 \<le> ch \<and> ch \<le> 90 then ch + 0x20 else ch)"

definition rt_is_alnum :: "int \<Rightarrow> bool" where
  "rt_is_alnum ch \<longleftrightarrow>
     97 \<le> ch \<and> ch \<le> 122 \<or> 65 \<le> ch \<and> ch \<le> 90 \<or> 48 \<le> ch \<and> ch \<le> 57"

definition rt_is_space :: "int \<Rightarrow> bool" where
  "rt_is_space ch \<longleftrightarrow> ch = 32"

definition rt_is_newln :: "int \<Rightarrow> bool" where
  "rt_is_newln ch \<longleftrightarrow> ch = 10"

section \<open>Number formatting\<close>

definition kDigits :: "u8 list" where
  "kDigits = [48, 49, 50, 51, 52, 53, 54, 55, 56, 57, 65, 66, 67, 68, 69, 70]"

definition rt_to_char :: "u64 \<Rightarrow> u64 \<Rightarrow> u8" where
  "rt_to_char value base = kDigits ! unat (value mod base)"

text \<open>The \<open>do ... while (value)\<close> loop; it is entered with a base of at least two.\<close>

function to_string_loop :: "mem \<Rightarrow> u64 \<Rightarrow> u64 \<Rightarrow> u64 \<Rightarrow> nat \<Rightarrow> mem \<times> nat" where
  "to_string_loop m str value base i =
     (let m' = m(str + of_nat i := rt_to_char value base); value' = value div base
      in if value' \<noteq> 0 \<and> 2 \<le> base then to_string_loop m' str value' base (Suc i)
         else (m', Suc i))"
  by pat_completeness auto
termination
proof (relation "measure (\<lambda>(m, str, value, base, i). unat value)", goal_cases)
  case (2 m str v base i x xa)
  then have "v \<noteq> 0" "2 \<le> unat base"
    by (auto simp: word_le_nat_alt)
  then have "unat v div unat base < unat v"
    by (simp add: unat_gt_0)
  then show ?case
    using 2 by (simp add: unat_div)
qed simp

declare to_string_loop.simps [simp del]

function reverse_loop :: "mem \<Rightarrow> u64 \<Rightarrow> nat \<Rightarrow> nat \<Rightarrow> mem" where
  "reverse_loop m str i j =
     (if j < i div 2 then
        (let tmp = m (str + of_nat j);
             m1 = m(str + of_nat j := m (str + of_nat (i - j - 1)));
             m2 = m1(str + of_nat (i - j - 1) := tmp)
         in reverse_loop m2 str i (Suc j))
      else m)"
  by pat_completeness auto
termination
  by (relation "measure (\<lambda>(m, str, i, j). i div 2 - j)") auto

declare reverse_loop.simps [simp del]

definition rt_to_string :: "mem \<Rightarrow> u64 \<Rightarrow> u64 \<Rightarrow> int \<Rightarrow> mem \<times> bool" where
  "rt_to_string m str value base =
     (if str = 0 \<or> base < 2 \<or> base > 16 then (m, False)
      else let (m1, i) = to_string_loop m str value (word_of_int base) 0;
               m2 = m1(str + of_nat i := 0)
           in (reverse_loop m2 str i 0, True))"

section \<open>Searching\<close>

primrec in_string_loop :: "mem \<Rightarrow> u64 \<Rightarrow> u64 \<Rightarrow> u64 \<Rightarrow> u64 \<Rightarrow> nat \<Rightarrow> u64" where
  "in_string_loop m haystack needle needle_len i 0 = 0"
| "in_string_loop m haystack needle needle_len i (Suc n) =
     (if rt_string_cmp m (haystack + i) needle needle_len = 0 then haystack + i
      else in_string_loop m haystack needle needle_len (i + 1) n)"

definition rt_string_in_string :: "mem \<Rightarrow> u64 \<Rightarrow> u64 \<Rightarrow> u64 option" where
  "rt_string_in_string m haystack needle =
     (if haystack = 0 \<or> needle = 0 then Some 0
      else Option.bind (rt_string_len m needle) (\<lambda>needle_len.
           Option.bind (rt_string_len m haystack) (\<lambda>hay_len.
             if needle_len > hay_len then Some 0
             else Some (in_string_loop m haystack needle needle_len 0
                          (Suc (unat (hay_len - needle_len)))))))"

partial_function (option) has_char_loop :: "mem \<Rightarrow> u64 \<Rightarrow> u8 \<Rightarrow> u64 option" where
  "has_char_loop m str ch =
     (if m str \<noteq> 0 \<and> m str \<noteq> ch then has_char_loop m (str + 1) ch else Some str)"

definition rt_string_has_char :: "mem \<Rightarrow> u64 \<Rightarrow> u8 \<Rightarrow> u64 option" where
  "rt_string_has_char m str ch =
     (if str = 0 then Some 0
      else Option.bind (has_char_loop m str ch) (\<lambda>p. Some (if m p = ch then p else 0)))"

text \<open>A concrete memory with the strings \<open>ababc\<close> and \<open>abc\<close>, used by the witnesses.\<close>

definition hello_mem :: mem where
  "hello_mem = write_bytes (\<lambda>_. 0) 0x1000 [97, 98, 97, 98, 99, 0, 97, 98, 99]"

section \<open>The loops as bulk writes\<close>

lemma set_loop_eq:
  "n < 2 ^ 64 \<Longrightarrow> set_loop m p v i n = write_bytes m (p + i) (replicate n v)"
  by (induction n arbitrary: m i) (simp_all add: write_bytes_Cons add.assoc)

lemma sep_tail:
  fixes a b :: u64
  assumes "sep a (Suc n) b (Suc n)"
  shows "sep (a + 1) n (b + 1) n"
  using assms by (auto simp: sep_def)

lemma sep_head:
  fixes a b :: u64
  assumes "sep a (Suc n) b (Suc n)" and "0 < n"
  shows "sep b 1 (a + 1) n"
proof -
  have ne: "b - a \<noteq> 0" using assms(1) by (auto simp: sep_def)
  then have u: "unat (b - a - 1) = unat (b - a) - 1" by (rule unat_minus_one)
  have "a + 1 - b \<noteq> 0"
  proof
    assume "a + 1 - b = 0"
    then have "b - a = 1" by (simp add: algebra_simps)
    then show False using assms by (simp add: sep_def)
  qed
  then have "1 \<le> unat (a + 1 - b)" by (simp add: unat_gt_0 Suc_le_eq)
  moreover have "n \<le> unat (b - (a + 1))"
    using u assms(1) unfolding sep_def diff_diff_eq by linarith
  ultimately show ?thesis by (simp add: sep_def)
qed

lemma copy_loop_eq:
  "n < 2 ^ 64 \<Longrightarrow> sep (s + i) n (d + i) n \<Longrightarrow>
    copy_loop m s d i n = write_bytes m (d + i) (read_bytes m (s + i) n)"
proof (induction n arbitrary: m i)
  case 0
  then show ?case by simp
next
  case (Suc n)
  let ?m = "m(d + i := m (s + i))"
  have m: "?m = write_bytes m (d + i) [m (s + i)]"
    by (simp add: write_bytes_Cons)
  have tail: "sep (s + (i + 1)) n (d + (i + 1)) n"
    using sep_tail [OF Suc.prems(2)] by (simp add: add.assoc)
  have "read_bytes ?m (s + i + 1) n = read_bytes m (s + i + 1) n"
    using sep_head [OF Suc.prems(2)] by (cases "n = 0") (simp_all add: m mem_simps)
  moreover have "copy_loop ?m s d (i + 1) n =
      write_bytes ?m (d + (i + 1)) (read_bytes ?m (s + (i + 1)) n)"
    using Suc.prems(1) tail by (intro Suc.IH) simp_all
  ultimately show ?case
    using Suc.prems(1) by (simp add: read_bytes_Suc write_bytes_Cons add.assoc)
qed

section \<open>C strings\<close>

text \<open>\<open>cstr m p s\<close>: the bytes \<open>s\<close>, none of them zero, are at \<open>p\<close> and a zero byte follows.\<close>

definition cstr :: "mem \<Rightarrow> u64 \<Rightarrow> u8 list \<Rightarrow> bool" where
  "cstr m p s \<longleftrightarrow> length s < 2 ^ 64 \<and> 0 \<notin> set s \<and>
     read_bytes m p (length s) = s \<and> m (p + of_nat (length s)) = 0"

lemma cstr_nth: "cstr m p s \<Longrightarrow> i < length s \<Longrightarrow> m (p + of_nat i) = s ! i"
  by (metis cstr_def nth_read_bytes)

lemma cstr_nonzero: "cstr m p s \<Longrightarrow> i < length s \<Longrightarrow> m (p + of_nat i) \<noteq> 0"
  by (metis cstr_def cstr_nth nth_mem)

lemma cstr_end: "cstr m p s \<Longrightarrow> m (p + of_nat (length s)) = 0"
  by (simp add: cstr_def)

lemma string_len_loop_cstr:
  assumes "cstr m p s" and "i \<le> length s"
  shows "string_len_loop m p (of_nat i) = Some (of_nat (length s))"
  using assms(2)
proof (induction rule: inc_induct)
  case base
  then show ?case by (simp add: string_len_loop.simps cstr_end [OF assms(1)])
next
  case (step i)
  then have "m (p + of_nat i) \<noteq> 0" using cstr_nonzero [OF assms(1)] by simp
  with step show ?case by (simp add: string_len_loop.simps [of m p "of_nat i"] add.commute)
qed

lemma rt_string_len_cstr: "cstr m p s \<Longrightarrow> rt_string_len m p = Some (of_nat (length s))"
  using string_len_loop_cstr [of m p s 0] by (simp add: rt_string_len_def)

lemma string_len_max_loop_cstr:
  "cstr m p s \<Longrightarrow> i \<le> length s \<Longrightarrow>
    string_len_max_loop m p (of_nat i) n = of_nat (min (i + n) (length s))"
proof (induction n arbitrary: i)
  case 0
  then show ?case by simp
next
  case (Suc n)
  show ?case
  proof (cases "i = length s")
    case True
    then show ?thesis using cstr_end [OF Suc.prems(1)] by simp
  next
    case False
    then have "m (p + of_nat i) \<noteq> 0" and "Suc i \<le> length s"
      using cstr_nonzero [OF Suc.prems(1), of i] Suc.prems(2) by simp_all
    then show ?thesis using Suc.IH [OF Suc.prems(1), of "Suc i"] by (simp add: add.commute)
  qed
qed

lemma string_cmp_loop_0_iff:
  "string_cmp_loop m a b i n = 0 \<longleftrightarrow> read_bytes m (a + i) n = read_bytes m (b + i) n"
  by (induction n arbitrary: i) (auto simp: read_bytes_Suc add.assoc dest: signed_word_eqI)

lemma rt_string_cmp_0_iff:
  "rt_string_cmp m a b n = 0 \<longleftrightarrow> read_bytes m a (unat n) = read_bytes m b (unat n)"
  using string_cmp_loop_0_iff [of m a b 0 "unat n"] by (simp add: rt_string_cmp_def)

section \<open>Number formatting is positional notation\<close>

definition digit_val :: "u8 \<Rightarrow> nat" where
  "digit_val c = (if c < 58 then unat c - 48 else unat c - 55)"

text \<open>The value a string of digits denotes, most significant digit first.\<close>

definition parse_digits :: "nat \<Rightarrow> u8 list \<Rightarrow> nat" where
  "parse_digits base ds = foldl (\<lambda>acc c. acc * base + digit_val c) 0 ds"

primrec le_eval :: "nat \<Rightarrow> u8 list \<Rightarrow> nat" where
  "le_eval b [] = 0"
| "le_eval b (d # ds) = digit_val d + b * le_eval b ds"

lemma parse_digits_rev: "parse_digits b (rev ds) = le_eval b ds"
  by (induction ds) (simp_all add: parse_digits_def algebra_simps)

lemma digit_val_kDigits: "i < 16 \<Longrightarrow> digit_val (kDigits ! i) = i"
proof -
  have "\<forall>i \<in> set [0..<16]. digit_val (kDigits ! i) = i"
    by (simp add: upt_rec kDigits_def digit_val_def)
  then show "i < 16 \<Longrightarrow> digit_val (kDigits ! i) = i" by simp
qed

lemma kDigits_nonzero: "0 \<notin> set kDigits"
  by (simp add: kDigits_def)

lemma length_kDigits [simp]: "length kDigits = 16"
  by (simp add: kDigits_def)

lemma rt_to_char_digit:
  assumes "2 \<le> unat base" and "unat base \<le> 16"
  shows "digit_val (rt_to_char v base) = unat v mod unat base"
    and "rt_to_char v base \<in> set kDigits"
proof -
  have "unat (v mod base) = unat v mod unat base" and "unat v mod unat base < unat base"
    using assms by (simp_all add: unat_mod)
  then have "unat (v mod base) < 16" using assms by linarith
  then show "digit_val (rt_to_char v base) = unat v mod unat base"
    and "rt_to_char v base \<in> set kDigits"
    by (simp_all add: rt_to_char_def digit_val_kDigits unat_mod)
qed

lemma to_string_loop_spec:
  assumes "2 \<le> unat base" and "unat base \<le> 16"
    and "unat v < 2 ^ k" and "0 < k" and "k \<le> 64"
    and "to_string_loop m str v base i = (m', n)"
  shows "\<exists>ds. read_bytes m' (str + of_nat i) (n - i) = ds \<and> le_eval (unat base) ds = unat v
    \<and> set ds \<subseteq> set kDigits \<and> i < n \<and> n \<le> i + k
    \<and> (\<forall>x. \<not> unat (x - (str + of_nat i)) < n - i \<longrightarrow> m' x = m x)"
  using assms(3-6)
proof (induction k arbitrary: m v i)
  case 0
  then show ?case by simp
next
  case (Suc k)
  let ?c = "rt_to_char v base" and ?m = "m(str + of_nat i := rt_to_char v base)"
  note digit = rt_to_char_digit [OF assms(1,2), of v]
  have two: "2 \<le> base" using assms(1) by (simp add: word_le_nat_alt)
  show ?case
  proof (cases "v div base = 0")
    case True
    then have m': "m' = ?m" "n = Suc i"
      using Suc.prems(4) by (auto simp: to_string_loop.simps [of m] Let_def)
    have "unat v div unat base = 0" using True by (simp add: unat_div [symmetric])
    then have "unat v mod unat base = unat v" using assms(1) by (auto simp: div_eq_0_iff)
    then show ?thesis
      using digit by (auto simp: m' read_bytes_Suc)
  next
    case False
    let ?a = "str + of_nat (Suc i)"
    have rec: "to_string_loop ?m str (v div base) base (Suc i) = (m', n)"
      using Suc.prems(4) False two by (simp add: to_string_loop.simps [of m] Let_def)
    have half: "unat (v div base) < 2 ^ k"
    proof -
      have "unat v div unat base \<le> unat v div 2"
        using assms(1) by (intro div_le_mono2) simp_all
      then show ?thesis using Suc.prems(1) by (simp add: unat_div)
    qed
    have "0 < unat (v div base)" using False unat_gt_0 by blast
    then have "0 < k" using half by (cases k) simp_all
    then obtain ds where ds: "read_bytes m' ?a (n - Suc i) = ds"
      "le_eval (unat base) ds = unat (v div base)" "set ds \<subseteq> set kDigits"
      "Suc i < n" "n \<le> Suc i + k" "\<And>x. \<not> unat (x - ?a) < n - Suc i \<Longrightarrow> m' x = ?m x"
      using Suc.IH [OF half _ _ rec] Suc.prems(3) by auto
    have "str + of_nat i - ?a = - 1" by simp
    then have out: "\<not> unat (str + of_nat i - ?a) < n - Suc i"
      using ds(5) Suc.prems(3) by (simp add: unsigned_minus_1_eq_mask mask_eq_exp_minus_1)
    then have head: "m' (str + of_nat i) = ?c" using ds(6) by simp
    have n: "n - i = Suc (n - Suc i)" using ds(4) by simp
    have "read_bytes m' (str + of_nat i) (n - i) = ?c # ds"
      using ds(1) head by (simp add: n read_bytes_Suc algebra_simps)
    moreover have "le_eval (unat base) (?c # ds) = unat v"
      using ds(2) digit(1) by (simp add: unat_div)
    moreover have "m' x = m x" if "\<not> unat (x - (str + of_nat i)) < n - i" for x
    proof -
      have less: "n - Suc i < 2 ^ 64" using ds(5) Suc.prems(3) by simp
      have eq: "x - ?a = x - (str + of_nat i) - 1" by simp
      have "\<not> unat (x - ?a) < n - Suc i" and "x \<noteq> str + of_nat i"
        using that unat_less_Suc_word [OF less, of "x - (str + of_nat i)"]
        unfolding eq by (auto simp: n)
      then show ?thesis using ds(6) [of x] by simp
    qed
    ultimately show ?thesis using ds(3-5) digit(2) by auto
  qed
qed

lemma reverse_loop_spec:
  "n < 2 ^ 64 \<Longrightarrow> j \<le> n div 2 \<Longrightarrow>
    (\<forall>i < n. reverse_loop m str n j (str + of_nat i) =
       (if j \<le> i \<and> i < n - j then m (str + of_nat (n - 1 - i)) else m (str + of_nat i)))
    \<and> (\<forall>x. \<not> unat (x - str) < n \<longrightarrow> reverse_loop m str n j x = m x)"
proof (induction m str n j rule: reverse_loop.induct)
  case (1 m str n j)
  show ?case
  proof (cases "j < n div 2")
    case False
    with "1.prems" have "j = n div 2" by simp
    then have "n - 1 - i = i" if "j \<le> i" "i < n - j" for i using that by linarith
    with False show ?thesis by (simp add: reverse_loop.simps [of m])
  next
    case True
    define k where "k = n - j - 1"
    have k: "k < n" "j < n" "k < 2 ^ 64" "j < 2 ^ 64" "k \<noteq> j"
      using True "1.prems"(1) by (auto simp: k_def)
    let ?m = "m(str + of_nat j := m (str + of_nat k), str + of_nat k := m (str + of_nat j))"
    have step: "reverse_loop m str n j = reverse_loop ?m str n (Suc j)"
      using True by (simp add: reverse_loop.simps [of m] Let_def k_def)
    have "Suc j \<le> n div 2" using True by simp
    note IH = "1.IH" [OF True refl refl refl "1.prems"(1) this, folded k_def]
    have m: "?m (str + of_nat i) = (if i = k then m (str + of_nat j)
        else if i = j then m (str + of_nat k) else m (str + of_nat i))" if "i < n" for i
    proof -
      have "i < 2 ^ 64" using that "1.prems"(1) by simp
      then have "str + of_nat i = str + of_nat k \<longleftrightarrow> i = k" "str + of_nat i = str + of_nat j \<longleftrightarrow> i = j"
        using k addr_inj by metis+
      then show ?thesis by (simp only: fun_upd_apply)
    qed
    have "?m x = m x" if "\<not> unat (x - str) < n" for x
    proof -
      have "x \<noteq> str + of_nat i" if "i < n" for i
        using that \<open>\<not> unat (x - str) < n\<close> "1.prems"(1) by auto
      then show ?thesis using k by simp
    qed
    moreover have "(if Suc j \<le> i \<and> i < n - Suc j then ?m (str + of_nat (n - 1 - i))
        else ?m (str + of_nat i)) =
       (if j \<le> i \<and> i < n - j then m (str + of_nat (n - 1 - i)) else m (str + of_nat i))"
      if "i < n" for i
    proof -
      have "n - 1 - i < n" "n - 1 - j = k" "n - 1 - k = j"
        "n - 1 - i = k \<longleftrightarrow> i = j" "n - 1 - i = j \<longleftrightarrow> i = k"
        using that True by (auto simp: k_def)
      then show ?thesis
        using that True k m [of i] m [of "n - 1 - i"] by (auto simp: k_def simp del: fun_upd_apply)
    qed
    ultimately show ?thesis using IH unfolding step by (simp del: fun_upd_apply)
  qed
qed

section \<open>Copying and searching\<close>

lemma copy_loop_frame:
  assumes "unat i + n < 2 ^ 64" and "\<not> unat (x - d) < unat i + n"
  shows "copy_loop m s d i n x = m x"
  using assms
proof (induction n arbitrary: m i)
  case 0
  then show ?case by simp
next
  case (Suc n)
  have i: "unat (i + 1) = unat i + 1"
    using Suc.prems(1) by (simp add: unat_word_ariths)
  have "x \<noteq> d + i" using Suc.prems(2) by auto
  then show ?case
    using Suc.IH [of "i + 1"] Suc.prems i by simp
qed

lemma in_string_loop_spec:
  fixes m :: mem and h nd :: u64
  assumes "L < 2 ^ 64"
  defines "hit \<equiv> \<lambda>k. read_bytes m (h + of_nat k) L = read_bytes m nd L"
  shows "(in_string_loop m h nd (of_nat L) (of_nat i) n = 0 \<and> (\<forall>k. i \<le> k \<and> k < i + n \<longrightarrow> \<not> hit k))
    \<or> (\<exists>k. in_string_loop m h nd (of_nat L) (of_nat i) n = h + of_nat k \<and> i \<le> k \<and> k < i + n
          \<and> hit k \<and> (\<forall>j. i \<le> j \<and> j < k \<longrightarrow> \<not> hit j))"
proof (induction n arbitrary: i)
  case 0
  then show ?case by auto
next
  case (Suc n)
  have cmp: "rt_string_cmp m (h + of_nat i) nd (of_nat L) = 0 \<longleftrightarrow> hit i"
    using assms(1) by (simp add: rt_string_cmp_0_iff hit_def)
  show ?case
  proof (cases "hit i")
    case True
    then show ?thesis using cmp by auto
  next
    case False
    have "in_string_loop m h nd (of_nat L) (of_nat i) (Suc n)
        = in_string_loop m h nd (of_nat L) (of_nat (Suc i)) n"
      using False cmp by (simp add: add.commute)
    moreover have "i \<le> k \<longleftrightarrow> k = i \<or> Suc i \<le> k" for k by auto
    ultimately show ?thesis using Suc.IH [of "Suc i"] False by auto
  qed
qed

lemma read_bytes_drop:
  assumes "cstr m p s" and "k + n \<le> length s"
  shows "read_bytes m (p + of_nat k) n = take n (drop k s)"
proof (rule nth_equalityI)
  fix i assume "i < length (read_bytes m (p + of_nat k) n)"
  then have i: "i < n" by simp
  then have "m (p + of_nat (k + i)) = s ! (k + i)" using cstr_nth [OF assms(1), of "k + i"] assms(2) by simp
  then show "read_bytes m (p + of_nat k) n ! i = take n (drop k s) ! i"
    using i assms(2) by (simp add: add.assoc)
qed (use assms(2) in simp)

section \<open>Properties\<close>

text \<open>\<open>rt_to_string\<close> formats a 64-bit value in any base from 2 to 16.  It returns YES, leaves
  at the output pointer a zero-terminated string of one to 64 digits that denotes the value in
  that base, and changes no byte of memory outside that string and its terminator.\<close>

theorem rt_to_string_roundtrip:
  assumes "str \<noteq> 0" and "2 \<le> base" and "base \<le> 16"
  shows "\<exists>m' ds. rt_to_string m str v base = (m', True) \<and> cstr m' str ds
    \<and> 1 \<le> length ds \<and> length ds \<le> 64 \<and> parse_digits (nat base) ds = unat v
    \<and> (\<forall>x. \<not> unat (x - str) < Suc (length ds) \<longrightarrow> m' x = m x)"
proof -
  have base: "unat (word_of_int base :: u64) = nat base"
    using assms(2,3) by (simp add: unsigned_of_int take_bit_int_eq_self)
  obtain m1 n where loop: "to_string_loop m str v (word_of_int base) 0 = (m1, n)"
    by (metis surj_pair)
  have "unat v < 2 ^ 64" using unsigned_less [of v, where ?'a = nat] by simp
  then obtain ds where ds: "read_bytes m1 str n = ds" "le_eval (nat base) ds = unat v"
    "set ds \<subseteq> set kDigits" "0 < n" "n \<le> 64" "\<And>x. \<not> unat (x - str) < n \<Longrightarrow> m1 x = m x"
    using to_string_loop_spec [OF _ _ _ _ _ loop, of 64] assms(2,3) by (auto simp: base)
  define m2 where "m2 = m1(str + of_nat n := 0)"
  define m' where "m' = reverse_loop m2 str n 0"
  have n: "n < 2 ^ 64" "\<And>i. i < n \<Longrightarrow> i < 2 ^ 64" using ds(5) by auto
  have m2: "m2 (str + of_nat i) = ds ! i" if "i < n" for i
    using that n ds(1) by (auto simp: m2_def)
  have rev: "m' (str + of_nat i) = m2 (str + of_nat (n - 1 - i))" if "i < n" for i
    using that reverse_loop_spec [OF n(1), of 0 m2 str] by (simp add: m'_def)
  have out: "m' x = m2 x" if "\<not> unat (x - str) < n" for x
    using that reverse_loop_spec [OF n(1), of 0 m2 str] by (simp add: m'_def)
  have len: "length ds = n" using ds(1) by auto
  have "m' (str + of_nat i) = rev ds ! i" if "i < n" for i
  proof -
    have "n - 1 - i < n" using that by simp
    from rev [OF that] m2 [OF this] show ?thesis using that by (simp only: rev_nth len) simp
  qed
  then have bytes: "read_bytes m' str n = rev ds"
    by (intro nth_equalityI) (simp_all add: len)
  moreover have "m' (str + of_nat n) = 0" using n out by (simp add: m2_def)
  ultimately have "cstr m' str (rev ds)"
    using ds(3) n len kDigits_nonzero by (auto simp: cstr_def)
  moreover have "rt_to_string m str v base = (m', True)"
    using assms loop by (simp add: rt_to_string_def m'_def m2_def)
  moreover have "m' x = m x" if "\<not> unat (x - str) < Suc n" for x
  proof -
    have "x \<noteq> str + of_nat n" using that n by auto
    then show ?thesis using that out ds(6) by (simp add: m2_def)
  qed
  ultimately show ?thesis
    using ds(2,4,5) len by (intro exI [of _ m'] exI [of _ "rev ds"]) (simp add: parse_digits_rev)
qed

theorem rt_to_string_roundtrip_witness:
  "\<exists>m' ds. rt_to_string (\<lambda>_. 7) 0x1000 255 16 = (m', True) \<and> cstr m' 0x1000 ds
    \<and> parse_digits 16 ds = 255"
  using rt_to_string_roundtrip [of "0x1000" 16 "\<lambda>_. 7" 255] by auto

text \<open>\<open>rt_copy_memory_safe\<close> never writes outside the \<open>dst_size\<close> bytes it is given, whatever the
  other arguments are.  A null source or a length beyond \<open>dst_size\<close> zeroes the destination
  and returns -1; otherwise, on buffers that do not overlap, the destination receives the
  source's bytes and the length is returned.\<close>

theorem rt_copy_memory_safe_correct:
  assumes "dst \<noteq> 0" and "rt_copy_memory_safe m src dst len dst_size = (m', r)"
  shows "(\<forall>x. unat dst_size \<le> unat (x - dst) \<longrightarrow> m' x = m x)
    \<and> (src = 0 \<or> dst_size < len \<longrightarrow>
           r = -1 \<and> read_bytes m' dst (unat dst_size) = replicate (unat dst_size) 0)
    \<and> (src \<noteq> 0 \<and> len \<le> dst_size \<and> sep src (unat len) dst (unat len) \<longrightarrow>
           r = to_int32 len \<and> read_bytes m' dst (unat len) = read_bytes m src (unat len))"
proof (intro conjI)
  have less: "unat w < 2 ^ 64" for w :: u64
    using unsigned_less [of w, where ?'a = nat] by simp
  have fill: "set_loop m dst 0 0 (unat w) = write_bytes m dst (replicate (unat w) 0)" for w :: u64
    using less [of w] by (simp add: set_loop_eq)
  have zero: "unat dst_size = 0" if "dst_size = 0" using that by simp
  have rejected: "m' = write_bytes m dst (replicate (unat dst_size) 0) \<and> r = -1"
    if "src = 0 \<or> dst_size < len"
    using that assms fill [of dst_size] zero
    by (auto simp: rt_copy_memory_safe_def rt_set_memory_safe_def split: if_splits)
  have accepted: "m' = copy_loop m src dst 0 (unat len) \<and> r = to_int32 len"
    if "\<not> (src = 0 \<or> dst_size < len)"
    using that assms by (auto simp: rt_copy_memory_safe_def not_less split: if_splits)
  show "\<forall>x. unat dst_size \<le> unat (x - dst) \<longrightarrow> m' x = m x"
  proof (cases "src = 0 \<or> dst_size < len")
    case True
    then show ?thesis using rejected by (auto simp: write_bytes_def)
  next
    case False
    then have "unat len \<le> unat dst_size" by (simp add: word_le_nat_alt not_less)
    then show ?thesis
      using accepted [OF False] copy_loop_frame [of 0 "unat len" _ dst m src] less by auto
  qed
  show "src = 0 \<or> dst_size < len \<longrightarrow>
      r = -1 \<and> read_bytes m' dst (unat dst_size) = replicate (unat dst_size) 0"
    using rejected less by (simp add: mem_simps)
  show "src \<noteq> 0 \<and> len \<le> dst_size \<and> sep src (unat len) dst (unat len) \<longrightarrow>
      r = to_int32 len \<and> read_bytes m' dst (unat len) = read_bytes m src (unat len)"
    using accepted less by (auto simp: copy_loop_eq mem_simps not_less)
qed

text \<open>\<open>rt_string_in_string\<close> returns on every pair of terminated strings: the address of the
  first occurrence of the needle in the haystack, or null when there is none.\<close>

theorem rt_string_in_string_correct:
  assumes "haystack \<noteq> 0" and "needle \<noteq> 0" and "cstr m haystack hs" and "cstr m needle ns"
  shows "\<exists>p. rt_string_in_string m haystack needle = Some p \<and>
    (p = 0 \<and> (\<forall>k. k + length ns \<le> length hs \<longrightarrow> take (length ns) (drop k hs) \<noteq> ns)
     \<or> (\<exists>k. p = haystack + of_nat k \<and> k + length ns \<le> length hs
           \<and> take (length ns) (drop k hs) = ns
           \<and> (\<forall>j < k. take (length ns) (drop j hs) \<noteq> ns)))"
proof -
  let ?L = "length ns" and ?H = "length hs"
  have lens: "rt_string_len m needle = Some (of_nat ?L)" "rt_string_len m haystack = Some (of_nat ?H)"
    using assms by (simp_all add: rt_string_len_cstr)
  have less: "?L < 2 ^ 64" "?H < 2 ^ 64" using assms by (simp_all add: cstr_def)
  have nd: "read_bytes m needle ?L = ns" using assms(4) by (simp add: cstr_def)
  have gt: "(of_nat ?H :: u64) < of_nat ?L \<longleftrightarrow> ?H < ?L" using less by (simp add: word_less_nat_alt)
  show ?thesis
  proof (cases "?H < ?L")
    case True
    then show ?thesis using assms(1,2) lens gt by (auto simp: rt_string_in_string_def)
  next
    case False
    have diff: "unat (of_nat ?H - of_nat ?L :: u64) = ?H - ?L"
      using False less gt by (simp add: unat_sub_if_size)
    define p where "p = in_string_loop m haystack needle (of_nat ?L) (of_nat 0) (Suc (?H - ?L))"
    have res: "rt_string_in_string m haystack needle = Some p"
      using assms(1,2) lens gt False diff by (simp add: rt_string_in_string_def p_def)
    have hit: "read_bytes m (haystack + of_nat k) ?L = read_bytes m needle ?L
        \<longleftrightarrow> take ?L (drop k hs) = ns" if "k + ?L \<le> ?H" for k
      using read_bytes_drop [OF assms(3) that] nd by simp
    have range: "k < 0 + Suc (?H - ?L) \<longleftrightarrow> k + ?L \<le> ?H" for k using False by auto
    show ?thesis
      using in_string_loop_spec [OF less(1), of m haystack needle 0 "Suc (?H - ?L)", folded p_def] hit
      unfolding res range by auto
  qed
qed

lemma hello_mem_cstr: "cstr hello_mem 0x1000 [97, 98, 97, 98, 99]" "cstr hello_mem 0x1006 [97, 98, 99]"
  by (simp_all add: cstr_def hello_mem_def read_bytes_def write_bytes_def upt_rec)

theorem rt_copy_memory_safe_correct_witness:
  "read_bytes (fst (rt_copy_memory_safe hello_mem 0x1000 0x2000 3 16)) 0x2000 3 = [97, 98, 97]"
proof -
  have "sep 0x1000 (unat (3 :: u64)) 0x2000 (unat (3 :: u64))" by (simp add: sep_def)
  moreover have "read_bytes hello_mem 0x1000 3 = [97, 98, 97]"
    by (simp add: hello_mem_def read_bytes_def write_bytes_def upt_rec)
  ultimately show ?thesis
    using rt_copy_memory_safe_correct
      [of "0x2000" hello_mem "0x1000" 3 16 "fst (rt_copy_memory_safe hello_mem 0x1000 0x2000 3 16)"
        "snd (rt_copy_memory_safe hello_mem 0x1000 0x2000 3 16)"] by simp
qed

theorem rt_string_in_string_correct_witness:
  "\<exists>p. rt_string_in_string hello_mem 0x1000 0x1006 = Some p"
  using rt_string_in_string_correct [OF _ _ hello_mem_cstr] by auto

end
