(* ===== verification/PhysicalMemory.thy ===== *)
theory PhysicalMemory
  imports AsciiUtils
begin

text \<open>
  The physical frame allocator,
  \<^verbatim>\<open>private/minkernel/HALKit/Generic/HalPhysicalMemory.cpp\<close>: a bump cursor over one
  region of physical memory and a list of freed frames threaded through the frames themselves.
  The record \<open>phys\<close> holds the file's static variables and the physical memory; the three
  operations follow the code's branches.  The spin locks serialise the operations, so each
  operation is one step of the model.

  \<open>pmm_inv\<close> is the representation invariant: it names the free list and the set of frames
  that are handed out.  The locale \<open>frame_allocator\<close> is the interface the page-table
  code relies on; it is interpreted on \<open>pmmi_alloc_frame\<close> and \<open>pmmi_free_frame\<close>.
\<close>

definition kPageSize :: u64 where
  "kPageSize = 0x1000"

definition kPmmAlign :: u64 where
  "kPmmAlign = kPageSize - 1"

record phys =
  ram :: mem
  kPmmBase :: u64
  kPmmCursor :: u64
  kPmmEnd :: u64
  kPmmFreeHead :: u64
  kPmmFree :: u64
  kPmmUsed :: u64

definition pmmi_init :: "u64 \<Rightarrow> u64 \<Rightarrow> 'a phys_scheme \<Rightarrow> 'a phys_scheme" where
  "pmmi_init base sz s =
     (let start = (base + kPmmAlign) AND NOT kPmmAlign;
          end = (base + sz) AND NOT kPmmAlign
      in if end \<le> start then s\<lparr>kPmmCursor := 0, kPmmEnd := 0\<rparr>
         else s\<lparr>kPmmBase := start, kPmmCursor := start, kPmmEnd := end, kPmmFreeHead := 0,
                kPmmFree := (end - start) div kPageSize, kPmmUsed := 0\<rparr>)"

definition pmmi_alloc_frame :: "'a phys_scheme \<Rightarrow> 'a phys_scheme \<times> u64" where
  "pmmi_alloc_frame s =
     (let (s1, frame) =
        (if kPmmFreeHead s \<noteq> 0 then
           (s\<lparr>kPmmFreeHead := load64 (ram s) (kPmmFreeHead s)\<rparr>, kPmmFreeHead s)
         else if kPmmCursor s \<noteq> 0 \<and> kPmmCursor s < kPmmEnd s then
           (s\<lparr>kPmmCursor := kPmmCursor s + kPageSize\<rparr>, kPmmCursor s)
         else (s, 0))
      in if frame = 0 then (s1, 0)
         else (s1\<lparr>ram := fst (rt_set_memory (ram s1) frame 0 kPageSize),
                  kPmmFree := kPmmFree s1 - 1, kPmmUsed := kPmmUsed s1 + 1\<rparr>, frame))"

definition pmmi_free_frame :: "'a phys_scheme \<Rightarrow> u64 \<Rightarrow> 'a phys_scheme" where
  "pmmi_free_frame s frame =
     (if frame = 0 \<or> frame AND kPmmAlign \<noteq> 0 then s
      else if frame < kPmmBase s \<or> frame \<ge> kPmmCursor s then s
      else s\<lparr>ram := store64 (ram s) frame (kPmmFreeHead s), kPmmFreeHead := frame,
             kPmmFree := kPmmFree s + 1, kPmmUsed := kPmmUsed s - 1\<rparr>)"

text \<open>
  The critical section of \<open>pmmi_free_frame\<close> in two halves.  \<open>pmmi_alloc_frame\<close> and
  \<open>pmmi_free_frame\<close> each declare a lock flag of their own, so a whole allocation on
  another core may run between the two.
\<close>

definition free_link :: "'a phys_scheme \<Rightarrow> u64 \<Rightarrow> 'a phys_scheme" where
  "free_link s frame = s\<lparr>ram := store64 (ram s) frame (kPmmFreeHead s)\<rparr>"

definition free_publish :: "'a phys_scheme \<Rightarrow> u64 \<Rightarrow> 'a phys_scheme" where
  "free_publish s frame = s\<lparr>kPmmFreeHead := frame, kPmmFree := kPmmFree s + 1, kPmmUsed := kPmmUsed s - 1\<rparr>"

definition pmmi_free_frames :: "'a phys_scheme \<Rightarrow> u64" where
  "pmmi_free_frames s = kPmmFree s"

definition pmmi_used_frames :: "'a phys_scheme \<Rightarrow> u64" where
  "pmmi_used_frames s = kPmmUsed s"

section \<open>The representation invariant\<close>

text \<open>\<open>page_aligned\<close> and the bytes of a page.\<close>

definition page_aligned :: "u64 \<Rightarrow> bool" where
  "page_aligned a \<longleftrightarrow> a AND kPmmAlign = 0"

definition in_page :: "u64 \<Rightarrow> u64 \<Rightarrow> bool" where
  "in_page f x \<longleftrightarrow> unat (x - f) < 4096"

text \<open>The free list: from the head, each frame's first word is the next frame, 0 ends it.\<close>

primrec free_chain :: "mem \<Rightarrow> u64 \<Rightarrow> u64 list \<Rightarrow> bool" where
  "free_chain m h [] \<longleftrightarrow> h = 0"
| "free_chain m h (f # fs) \<longleftrightarrow> h = f \<and> f \<noteq> 0 \<and> free_chain m (load64 m f) fs"

definition frames :: "u64 \<Rightarrow> u64 \<Rightarrow> u64 set" where
  "frames lo hi = {f. lo \<le> f \<and> f < hi \<and> page_aligned f}"

definition pmm_inv :: "'a phys_scheme \<Rightarrow> u64 list \<Rightarrow> u64 set \<Rightarrow> bool" where
  "pmm_inv s fs used \<longleftrightarrow>
     free_chain (ram s) (kPmmFreeHead s) fs \<and> distinct fs
     \<and> set fs \<inter> used = {} \<and> set fs \<union> used = frames (kPmmBase s) (kPmmCursor s)
     \<and> 0 < kPmmBase s \<and> kPmmBase s \<le> kPmmCursor s \<and> kPmmCursor s \<le> kPmmEnd s
     \<and> page_aligned (kPmmBase s) \<and> page_aligned (kPmmCursor s) \<and> page_aligned (kPmmEnd s)
     \<and> unat (kPmmUsed s) = card used
     \<and> unat (kPmmFree s) = length fs + unat (kPmmEnd s - kPmmCursor s) div 4096"

text \<open>\<open>U\<close> is the set of frames handed out; \<open>page_write\<close> is a change inside one page.\<close>

definition pmm_ok :: "'a phys_scheme \<Rightarrow> u64 set \<Rightarrow> bool" where
  "pmm_ok s U \<longleftrightarrow> (\<exists>fs. pmm_inv s fs U)"

definition page_write :: "mem \<Rightarrow> mem \<Rightarrow> u64 \<Rightarrow> bool" where
  "page_write m m' f \<longleftrightarrow> (\<forall>x. \<not> in_page f x \<longrightarrow> m' x = m x)"

text \<open>
  A history of the allocator: its clients take frames, write inside frames they own and give
  owned frames back.  The events record what the operations returned.
\<close>

datatype pmm_event = Taken u64 | Refused | Given u64 | Written u64 u64 u8

inductive pmm_run :: "phys \<Rightarrow> u64 set \<Rightarrow> pmm_event list \<Rightarrow> phys \<Rightarrow> u64 set \<Rightarrow> bool" where
  started: "pmm_run s U [] s U"
| taken: "pmm_run s U es t V \<Longrightarrow> pmmi_alloc_frame t = (t', f) \<Longrightarrow> f \<noteq> 0 \<Longrightarrow>
    pmm_run s U (es @ [Taken f]) t' (insert f V)"
| refused: "pmm_run s U es t V \<Longrightarrow> pmmi_alloc_frame t = (t', 0) \<Longrightarrow>
    pmm_run s U (es @ [Refused]) t' V"
| given: "pmm_run s U es t V \<Longrightarrow> f \<in> V \<Longrightarrow>
    pmm_run s U (es @ [Given f]) (pmmi_free_frame t f) (V - {f})"
| written: "pmm_run s U es t V \<Longrightarrow> f \<in> V \<Longrightarrow> in_page f x \<Longrightarrow>
    pmm_run s U (es @ [Written f x b]) (t\<lparr>ram := (ram t)(x := b)\<rparr>) V"

definition small_pmm :: phys where
  "small_pmm = pmmi_init 0x1234 0x3000 \<lparr>ram = (\<lambda>_. 0xAA), kPmmBase = 0, kPmmCursor = 0,
     kPmmEnd = 0, kPmmFreeHead = 0, kPmmFree = 0, kPmmUsed = 0\<rparr>"

section \<open>Alignment\<close>

lemma and_page_mask: "(a :: u64) AND kPmmAlign = take_bit 12 a"
  by (simp add: kPmmAlign_def kPageSize_def take_bit_eq_mask mask_eq_exp_minus_1)

lemma page_aligned_iff [align_simps]: "page_aligned a \<longleftrightarrow> 4096 dvd unat a"
proof -
  have "unat (a mod 4096) = unat a mod 4096"
    by (simp add: unat_mod)
  then have "(a mod 4096 = 0) = (unat a mod 4096 = 0)"
    by (simp flip: unat_eq_0)
  then show ?thesis
    by (simp add: page_aligned_def and_page_mask take_bit_eq_mod mod_eq_0_iff_dvd)
qed

lemma page_aligned_aligned8: "page_aligned a \<Longrightarrow> aligned8 a"
proof -
  assume "page_aligned a"
  then have "4096 dvd unat a" by (simp add: page_aligned_iff)
  moreover have "(8 :: nat) dvd 4096" by simp
  ultimately have "8 dvd unat a" using dvd_trans by blast
  then show ?thesis by (simp add: aligned8_def mod_eq_0_iff_dvd)
qed

lemma unat_less_64: "unat (w :: u64) < 2 ^ 64"
  using unsigned_less [of w, where ?'a = nat] by simp

lemma page_aligned_minus:
  fixes f g :: u64
  assumes "page_aligned f" and "page_aligned g"
  shows "page_aligned (f - g)"
proof -
  have "4096 dvd unat f" "4096 dvd unat g" using assms by (simp_all add: page_aligned_iff)
  moreover have "(4096 :: nat) dvd 2 ^ 64" by simp
  ultimately show ?thesis
    using unat_less_64 [of g]
    by (simp add: page_aligned_iff unat_sub_if_size word_size dvd_diff_nat)
qed

lemma page_diff:
  fixes f g :: u64
  assumes "page_aligned f" and "page_aligned g" and "f \<noteq> g"
  shows "4096 \<le> unat (f - g)"
proof -
  have "4096 dvd unat (f - g)" using page_aligned_minus [OF assms(1,2)] by (simp add: page_aligned_iff)
  moreover have "0 < unat (f - g)" using assms(3) by (simp add: unat_gt_0)
  ultimately show ?thesis by (rule dvd_imp_le)
qed

lemma page_sep:
  assumes "page_aligned f" and "page_aligned g" and "f \<noteq> g" and "n \<le> 4096" and "k \<le> 4096"
  shows "sep f n g k"
  using page_diff [OF assms(1-3)] page_diff [OF assms(2,1) assms(3) [symmetric]] assms(4,5)
  by (simp add: sep_def)

section \<open>Operations preserve the invariant\<close>

lemma finite_frames [simp]: "finite (frames lo hi)"
  by simp

lemma pmm_inv_used_frames: "pmm_inv s fs used \<Longrightarrow> f \<in> used \<Longrightarrow> f \<in> frames (kPmmBase s) (kPmmCursor s)"
  by (auto simp: pmm_inv_def)

lemma zero_notin_frames: "0 < lo \<Longrightarrow> 0 \<notin> frames lo hi"
  by (auto simp: frames_def)

lemma card_frames_bound: "0 \<notin> A \<Longrightarrow> card (A :: u64 set) < 2 ^ 64"
proof -
  assume "0 \<notin> A"
  then have "card A < card (UNIV :: u64 set)" by (intro psubset_card_mono) auto
  then show ?thesis by (simp add: card_word)
qed

lemma distinct_pages_length:
  assumes "distinct fs" and "\<forall>g \<in> set fs. page_aligned g"
  shows "length fs \<le> 2 ^ 52"
proof -
  have "a \<in> (\<lambda>n. of_nat (4096 * n)) ` {..<2 ^ 52}" if "page_aligned a" for a :: u64
  proof -
    from that obtain n where n: "unat a = 4096 * n" by (auto simp: page_aligned_iff elim: dvdE)
    then have "n < 2 ^ 52" using unat_less_64 [of a] by simp
    moreover have "of_nat (unat a) = a" by simp
    then have "a = of_nat (4096 * n)" unfolding n by (rule sym)
    ultimately show ?thesis by blast
  qed
  then have "set fs \<subseteq> (\<lambda>n. of_nat (4096 * n)) ` {..<2 ^ 52}" using assms(2) by blast
  then have "card (set fs) \<le> card {..<2 ^ 52 :: nat}"
    by (rule surj_card_le [rotated]) simp
  then show ?thesis by (simp add: distinct_card assms(1))
qed

lemma write_bytes_cover:
  "length as \<le> length bs \<Longrightarrow> write_bytes (write_bytes m a as) a bs = write_bytes m a bs"
  by (auto simp: write_bytes_def fun_eq_iff)

lemma free_chain_write:
  assumes "free_chain m h fs" and "page_aligned f" and "\<forall>g \<in> set fs. page_aligned g \<and> g \<noteq> f"
    and "length bs \<le> 4096"
  shows "free_chain (write_bytes m f bs) h fs"
  using assms(1,3)
proof (induction fs arbitrary: h)
  case (Cons g fs)
  then have "sep f (length bs) g 8" using assms(2,4) by (intro page_sep) auto
  with Cons show ?case by (simp add: mem_simps)
qed simp

lemma set_page: "frame \<noteq> 0 \<Longrightarrow>
    fst (rt_set_memory m frame 0 kPageSize) = write_bytes m frame (replicate 4096 0)"
  by (simp add: rt_set_memory_def kPageSize_def set_loop_eq)

lemma nat_dvd_gap: "(d :: nat) dvd a \<Longrightarrow> d dvd b \<Longrightarrow> b < a \<Longrightarrow> b + d \<le> a"
  using dvd_imp_le [of d "a - b"] by (simp add: dvd_diff_nat)

lemma frames_bump:
  assumes "page_aligned c" and "page_aligned e" and "lo \<le> c" and "c < e"
  shows "frames lo (c + 4096) = insert c (frames lo c)" and "c + 4096 \<le> e" and "page_aligned (c + 4096)"
    and "unat (e - (c + 4096)) div 4096 = unat (e - c) div 4096 - 1" and "4096 \<le> unat (e - c)"
    and "c \<le> c + 4096"
proof -
  have gap: "4096 \<le> unat (e - c)" using page_diff [OF assms(2,1)] assms(4) by simp
  have sub: "unat (e - c) = unat e - unat c" using assms(4) by (simp add: unat_sub)
  have c: "unat (c + 4096) = unat c + 4096"
    using gap sub unat_less_64 [of e] by (simp add: unat_word_ariths)
  show e: "c + 4096 \<le> e" using gap sub c by (simp add: word_le_nat_alt)
  show "page_aligned (c + 4096)" using assms(1) c unfolding page_aligned_iff by simp
  show "4096 \<le> unat (e - c)" by (rule gap)
  show "c \<le> c + 4096" using c by (simp add: word_le_nat_alt)
  show "unat (e - (c + 4096)) div 4096 = unat (e - c) div 4096 - 1"
    using e c sub gap by (simp add: unat_sub le_div_geq [of 4096 "unat e - unat c"])
  have "f < c + 4096 \<longleftrightarrow> f < c \<or> f = c" if "page_aligned f" for f
  proof -
    have "unat f < unat c + 4096 \<longleftrightarrow> unat f < unat c \<or> unat f = unat c"
      using that assms(1) nat_dvd_gap [of 4096 "unat f" "unat c"]
      unfolding page_aligned_iff by (cases "unat c < unat f") auto
    then show ?thesis using c by (simp add: word_less_nat_alt word_unat_eq_iff)
  qed
  then show "frames lo (c + 4096) = insert c (frames lo c)"
    using assms by (auto simp: frames_def)
qed

lemma unat_plus_one: "unat (x :: u64) + 1 < 2 ^ 64 \<Longrightarrow> unat (x + 1) = unat x + 1"
  by (simp add: unat_word_ariths)

lemma pmmi_alloc_frame_free:
  assumes inv: "pmm_inv s (f # fs) used" and alloc: "pmmi_alloc_frame s = (s', r)"
  shows "r = f" and "pmm_inv s' fs (insert f used)"
    and "ram s' = write_bytes (ram s) f (replicate 4096 0)"
proof -
  have chain: "kPmmFreeHead s = f" "f \<noteq> 0" "free_chain (ram s) (load64 (ram s) f) fs"
    using inv by (simp_all add: pmm_inv_def)
  have s': "s' = s\<lparr>kPmmFreeHead := load64 (ram s) f, ram := write_bytes (ram s) f (replicate 4096 0),
      kPmmFree := kPmmFree s - 1, kPmmUsed := kPmmUsed s + 1\<rparr>" and r: "r = f"
    using alloc chain by (auto simp: pmmi_alloc_frame_def set_page)
  show "r = f" by (rule r)
  show "ram s' = write_bytes (ram s) f (replicate 4096 0)" by (simp add: s')
  have f: "f \<in> frames (kPmmBase s) (kPmmCursor s)" "f \<notin> used" "f \<notin> set fs"
    using inv by (auto simp: pmm_inv_def)
  have al: "page_aligned f" "\<forall>g \<in> set fs. page_aligned g \<and> g \<noteq> f"
    using inv f by (auto simp: pmm_inv_def frames_def)
  have "0 \<notin> insert f used"
    using inv zero_notin_frames [of "kPmmBase s"] chain(2) by (auto simp: pmm_inv_def)
  then have "card (insert f used) < 2 ^ 64" by (rule card_frames_bound)
  moreover have "finite used" by simp
  ultimately have "unat (kPmmUsed s + 1) = card (insert f used)"
    using inv f(2) by (simp add: pmm_inv_def unat_plus_one)
  moreover have "kPmmFree s \<noteq> 0" using inv by (auto simp: pmm_inv_def)
  moreover have "free_chain (ram s') (load64 (ram s) f) fs"
    using free_chain_write [OF chain(3) al] by (simp add: s')
  ultimately show "pmm_inv s' fs (insert f used)"
    using inv f by (auto simp: pmm_inv_def s' unat_minus_one)
qed

lemma pmmi_alloc_frame_bump:
  assumes inv: "pmm_inv s [] used" and more: "kPmmCursor s < kPmmEnd s"
    and alloc: "pmmi_alloc_frame s = (s', r)"
  shows "r = kPmmCursor s" and "pmm_inv s' [] (insert r used)" and "r \<notin> used"
    and "ram s' = write_bytes (ram s) r (replicate 4096 0)"
proof -
  define c where "c = kPmmCursor s"
  have c0: "c \<noteq> 0" and head: "kPmmFreeHead s = 0" and fr: "used = frames (kPmmBase s) c"
    and al: "page_aligned c" "page_aligned (kPmmEnd s)" "kPmmBase s \<le> c" "c < kPmmEnd s"
    using inv more by (auto simp: pmm_inv_def c_def)
  note bump = frames_bump [OF al]
  have s': "s' = s\<lparr>kPmmCursor := c + 4096, ram := write_bytes (ram s) c (replicate 4096 0),
      kPmmFree := kPmmFree s - 1, kPmmUsed := kPmmUsed s + 1\<rparr>" and r: "r = c"
    using alloc c0 head al(4) by (auto simp: pmmi_alloc_frame_def c_def [symmetric]
        set_page [unfolded kPageSize_def] kPageSize_def)
  show "r = kPmmCursor s" by (simp add: r c_def)
  show "ram s' = write_bytes (ram s) r (replicate 4096 0)" by (simp add: s' r)
  show "r \<notin> used" by (simp add: r fr frames_def)
  have "0 \<notin> insert c used"
    using inv zero_notin_frames [of "kPmmBase s"] c0 by (auto simp: pmm_inv_def)
  then have "card (insert c used) < 2 ^ 64" by (rule card_frames_bound)
  then have "unat (kPmmUsed s + 1) = card (insert c used)"
    using inv \<open>r \<notin> used\<close> by (simp add: pmm_inv_def unat_plus_one r)
  moreover have "unat (kPmmFree s - 1) = unat (kPmmFree s) - 1"
  proof -
    have "unat (kPmmFree s) = unat (kPmmEnd s - c) div 4096" using inv by (simp add: pmm_inv_def c_def)
    moreover have "0 < unat (kPmmEnd s - c) div 4096" using bump(5) by (simp add: div_greater_zero_iff)
    ultimately show ?thesis by (intro unat_minus_one) auto
  qed
  moreover have "kPmmBase s \<le> c + 4096"
    using bump(6) al(3) by (rule order_trans [rotated])
  ultimately show "pmm_inv s' [] (insert r used)"
    using inv bump al fr by (simp add: pmm_inv_def s' r c_def [symmetric])
qed

lemma pmmi_alloc_frame_fail:
  assumes "pmm_inv s [] used" and "\<not> kPmmCursor s < kPmmEnd s"
  shows "pmmi_alloc_frame s = (s, 0)"
  using assms by (simp add: pmmi_alloc_frame_def pmm_inv_def)

lemma pmmi_free_frame_used:
  assumes inv: "pmm_inv s fs used" and f: "f \<in> used"
  shows "pmm_inv (pmmi_free_frame s f) (f # fs) (used - {f})"
    and "ram (pmmi_free_frame s f) = store64 (ram s) f (kPmmFreeHead s)"
proof -
  have fr: "f \<in> frames (kPmmBase s) (kPmmCursor s)" "f \<noteq> 0" "f \<notin> set fs"
    using inv f zero_notin_frames [of "kPmmBase s" "kPmmCursor s"] by (auto simp: pmm_inv_def)
  then have s': "pmmi_free_frame s f = s\<lparr>ram := store64 (ram s) f (kPmmFreeHead s),
      kPmmFreeHead := f, kPmmFree := kPmmFree s + 1, kPmmUsed := kPmmUsed s - 1\<rparr>"
    by (auto simp: pmmi_free_frame_def frames_def page_aligned_def)
  show "ram (pmmi_free_frame s f) = store64 (ram s) f (kPmmFreeHead s)" by (simp add: s')
  have al: "page_aligned f" "\<forall>g \<in> set fs. page_aligned g \<and> g \<noteq> f"
    using inv fr by (auto simp: pmm_inv_def frames_def)
  have chain: "free_chain (store64 (ram s) f (kPmmFreeHead s)) (kPmmFreeHead s) fs"
    unfolding store64_def using inv by (intro free_chain_write al) (simp_all add: pmm_inv_def)
  have used: "unat (kPmmUsed s - 1) = card (used - {f})"
  proof -
    have "card used = unat (kPmmUsed s)" using inv by (simp add: pmm_inv_def)
    moreover have "0 < card used" using f by (auto simp: card_gt_0_iff)
    ultimately have "kPmmUsed s \<noteq> 0" by auto
    then show ?thesis using f \<open>card used = _\<close> by (simp add: unat_minus_one)
  qed
  have "length (f # fs) \<le> 2 ^ 52"
    using inv fr al by (intro distinct_pages_length) (auto simp: pmm_inv_def)
  moreover have "unat (kPmmEnd s - kPmmCursor s) div 4096 < 2 ^ 52"
    using unat_less_64 [of "kPmmEnd s - kPmmCursor s"] by (simp add: div_less_iff_less_mult)
  ultimately have "unat (kPmmFree s) + 1 < 2 ^ 64" using inv by (simp add: pmm_inv_def)
  then have free: "unat (kPmmFree s + 1) = unat (kPmmFree s) + 1" by (rule unat_plus_one)
  show "pmm_inv (pmmi_free_frame s f) (f # fs) (used - {f})"
    using inv f fr chain used free by (auto simp: pmm_inv_def s' mem_simps)
qed

section \<open>Initialisation\<close>

lemma page_aligned_mask: "page_aligned (a AND NOT kPmmAlign)"
  by (simp add: page_aligned_def and.assoc)

lemma pmmi_init_inv:
  assumes "0 < (base + kPmmAlign) AND NOT kPmmAlign"
    and "(base + kPmmAlign) AND NOT kPmmAlign < (base + sz) AND NOT kPmmAlign"
  shows "pmm_inv (pmmi_init base sz s) [] {}"
  using assms(1) page_aligned_mask [of "base + kPmmAlign"] page_aligned_mask [of "base + sz"]
    assms(2) less_imp_le [OF assms(2)] less_le_not_le [THEN iffD1, OF assms(2)]
  by (auto simp: pmmi_init_def pmm_inv_def Let_def frames_def unat_div kPageSize_def)

section \<open>The interface of a frame allocator\<close>

text \<open>
  What the page-table code relies on.  \<open>inv s U\<close>: the allocator is consistent and
  \<open>U\<close> is the set of frames it has handed out.  \<open>memory\<close> and \<open>update\<close> read and
  replace the physical memory of a state.
\<close>

locale frame_allocator =
  fixes alloc :: "'s \<Rightarrow> 's \<times> u64"
    and free :: "'s \<Rightarrow> u64 \<Rightarrow> 's"
    and inv :: "'s \<Rightarrow> u64 set \<Rightarrow> bool"
    and memory :: "'s \<Rightarrow> mem"
    and update :: "mem \<Rightarrow> 's \<Rightarrow> 's"
  assumes alloc_fresh: "inv s U \<Longrightarrow> alloc s = (s', f) \<Longrightarrow> f \<noteq> 0 \<Longrightarrow>
        f \<notin> U \<and> inv s' (insert f U) \<and> memory s' = write_bytes (memory s) f (replicate 4096 0)"
    and alloc_fail: "inv s U \<Longrightarrow> alloc s = (s', 0) \<Longrightarrow> s' = s"
    and free_frame: "inv s U \<Longrightarrow> f \<in> U \<Longrightarrow>
        inv (free s f) (U - {f}) \<and> page_write (memory s) (memory (free s f)) f"
    and owned_frame: "inv s U \<Longrightarrow> f \<in> U \<Longrightarrow> f \<noteq> 0 \<and> page_aligned f"
    and write_frame: "inv s U \<Longrightarrow> f \<in> U \<Longrightarrow> page_write (memory s) m f \<Longrightarrow> inv (update m s) U"
    and memory_update: "memory (update m s) = m"
begin

lemma alloc_page_write:
  "inv s U \<Longrightarrow> alloc s = (s', f) \<Longrightarrow> f \<noteq> 0 \<Longrightarrow> page_write (memory s) (memory s') f"
  by (drule (2) alloc_fresh) (simp add: page_write_def in_page_def write_bytes_def)

lemma alloc_zeroed:
  assumes "inv s U" and "alloc s = (s', f)" and "f \<noteq> 0"
  shows "read_bytes (memory s') f 4096 = replicate 4096 0"
  using alloc_fresh [OF assms] by (simp add: read_write_same)

end

text \<open>A page-local write cannot be seen in another page.\<close>

lemma in_page_unique:
  assumes "page_aligned f" and "page_aligned g" and "in_page f x" and "in_page g x"
  shows "f = g"
proof (rule ccontr)
  assume "f \<noteq> g"
  then have d: "4096 \<le> unat (f - g)" "4096 \<le> unat (g - f)"
    using page_diff assms(1,2) by auto
  have "sep f 4096 g 4096" using d by (simp add: sep_def)
  moreover have "x = g + of_nat (unat (x - g))" by simp
  ultimately have "4096 \<le> unat (x - f)"
    using sep_offset [of f 4096 g 4096 "unat (x - g)"] assms(4) by (simp add: in_page_def)
  with assms(3) show False by (simp add: in_page_def)
qed

lemma page_write_read:
  assumes "page_write m m' f" and "page_aligned f" and "page_aligned g" and "f \<noteq> g"
    and "unat (a - g) + n \<le> 4096"
  shows "read_bytes m' a n = read_bytes m a n"
proof (rule nth_equalityI)
  fix i assume "i < length (read_bytes m' a n)"
  then have i: "i < n" by simp
  have "unat (a + of_nat i - g) = unat (a - g) + i"
  proof -
    have "a + of_nat i - g = (a - g) + of_nat i" by (simp add: algebra_simps)
    moreover have "unat ((a - g) + of_nat i) = unat (a - g) + i"
      using i assms(5) by (simp only: unat_word_ariths) simp
    ultimately show ?thesis by (simp only:)
  qed
  then have "in_page g (a + of_nat i)" using i assms(5) by (simp add: in_page_def)
  then have "\<not> in_page f (a + of_nat i)" using in_page_unique assms(2-4) by blast
  with i assms(1) show "read_bytes m' a n ! i = read_bytes m a n ! i" by (simp add: page_write_def)
qed simp

lemma free_chain_page_write:
  assumes "free_chain m h fs" and "page_write m m' f" and "page_aligned f"
    and "\<forall>g \<in> set fs. page_aligned g \<and> g \<noteq> f"
  shows "free_chain m' h fs"
  using assms(1,4)
proof (induction fs arbitrary: h)
  case (Cons g fs)
  then have "read_bytes m' g 8 = read_bytes m g 8"
    using assms(2,3) by (intro page_write_read [of m m' f g]) auto
  with Cons show ?case by (simp add: load64_def)
qed simp

lemma pmmi_alloc_frame_fresh:
  assumes "pmm_ok s U" and alloc: "pmmi_alloc_frame s = (s', f)" and "f \<noteq> 0"
  shows "f \<notin> U \<and> pmm_ok s' (insert f U) \<and> ram s' = write_bytes (ram s) f (replicate 4096 0)"
proof -
  obtain fs where inv: "pmm_inv s fs U" using assms(1) by (auto simp: pmm_ok_def)
  show ?thesis
  proof (cases fs)
    case (Cons g gs)
    with inv have "pmm_inv s (g # gs) U" by simp
    note facts = pmmi_alloc_frame_free [OF this alloc]
    then show ?thesis using inv Cons by (auto simp: pmm_ok_def pmm_inv_def)
  next
    case Nil
    with inv have nil: "pmm_inv s [] U" by simp
    have more: "kPmmCursor s < kPmmEnd s"
      using pmmi_alloc_frame_fail [OF nil] alloc \<open>f \<noteq> 0\<close> by fastforce
    from pmmi_alloc_frame_bump [OF nil more alloc] show ?thesis by (auto simp: pmm_ok_def)
  qed
qed

lemma page_write_store: "unat (a - f) + 8 \<le> 4096 \<Longrightarrow> page_write m (store64 m a v) f"
proof -
  assume a: "unat (a - f) + 8 \<le> 4096"
  have "unat (x - f) < 4096" if "unat (x - a) < 8" for x
  proof -
    have "x - f = (a - f) + (x - a)" by simp
    moreover have "unat ((a - f) + (x - a)) = unat (a - f) + unat (x - a)"
      using that a by (simp only: unat_word_ariths) simp
    ultimately have "unat (x - f) = unat (a - f) + unat (x - a)" by (simp only:)
    with that a show ?thesis by simp
  qed
  then show ?thesis by (auto simp: page_write_def in_page_def store64_def write_bytes_def)
qed

lemma pmmi_free_frame_owned:
  assumes "pmm_ok s U" and "f \<in> U"
  shows "pmm_ok (pmmi_free_frame s f) (U - {f}) \<and> page_write (ram s) (ram (pmmi_free_frame s f)) f"
proof -
  obtain fs where inv: "pmm_inv s fs U" using assms(1) by (auto simp: pmm_ok_def)
  note facts = pmmi_free_frame_used [OF inv assms(2)]
  from facts(1) have "pmm_ok (pmmi_free_frame s f) (U - {f})" by (auto simp: pmm_ok_def)
  then show ?thesis by (simp add: facts(2) page_write_store)
qed

interpretation pmm: frame_allocator pmmi_alloc_frame pmmi_free_frame pmm_ok ram "\<lambda>m. ram_update (\<lambda>_. m)"
proof
  fix s s' :: "'a phys_scheme" and U f
  assume "pmm_ok s U" and "pmmi_alloc_frame s = (s', f)" and "f \<noteq> 0"
  then show "f \<notin> U \<and> pmm_ok s' (insert f U) \<and> ram s' = write_bytes (ram s) f (replicate 4096 0)"
    by (rule pmmi_alloc_frame_fresh)
next
  fix s s' :: "'a phys_scheme" and U
  assume "pmmi_alloc_frame s = (s', 0)"
  then show "s' = s" by (auto simp: pmmi_alloc_frame_def Let_def split: if_splits)
next
  fix s :: "'a phys_scheme" and U f
  assume "pmm_ok s U" and "f \<in> U"
  then show "pmm_ok (pmmi_free_frame s f) (U - {f}) \<and> page_write (ram s) (ram (pmmi_free_frame s f)) f"
    by (rule pmmi_free_frame_owned)
next
  fix s :: "'a phys_scheme" and U f
  assume "pmm_ok s U" and "f \<in> U"
  then show "f \<noteq> 0 \<and> page_aligned f"
    by (auto simp: pmm_ok_def pmm_inv_def frames_def)
next
  fix s :: "'a phys_scheme" and U f m
  assume ok: "pmm_ok s U" and f: "f \<in> U" and w: "page_write (ram s) m f"
  obtain fs where inv: "pmm_inv s fs U" using ok by (auto simp: pmm_ok_def)
  have "page_aligned f" "\<forall>g \<in> set fs. page_aligned g \<and> g \<noteq> f"
    using inv f by (auto simp: pmm_inv_def frames_def)
  then have "free_chain m (kPmmFreeHead s) fs"
    using free_chain_page_write w inv by (auto simp: pmm_inv_def)
  then show "pmm_ok (s\<lparr>ram := m\<rparr>) U" using inv by (auto simp: pmm_ok_def pmm_inv_def)
qed simp

section \<open>Histories of the allocator\<close>

lemma pmm_run_ok: "pmm_run s U es t V \<Longrightarrow> pmm_ok s U \<Longrightarrow> pmm_ok t V"
proof (induction rule: pmm_run.induct)
  case (taken s U es t V t' f)
  then show ?case using pmm.alloc_fresh by blast
next
  case (refused s U es t V t')
  then show ?case using pmm.alloc_fail by blast
next
  case (given s U es t V f)
  then show ?case using pmm.free_frame by blast
next
  case (written s U es t V f x b)
  then have "page_write (ram t) ((ram t)(x := b)) f" by (auto simp: page_write_def)
  with written show ?case using pmm.write_frame by blast
qed simp

lemma pmm_run_total:
  assumes "pmm_run s U es t V" and "pmm_ok s U"
  shows "kPmmBase t = kPmmBase s \<and> kPmmEnd t = kPmmEnd s \<and> kPmmUsed t + kPmmFree t = kPmmUsed s + kPmmFree s"
  using assms
proof (induction rule: pmm_run.induct)
  case (taken s U es t V t' f)
  then show ?case by (auto simp: pmmi_alloc_frame_def Let_def split: if_splits)
next
  case (refused s U es t V t')
  then show ?case by (auto simp: pmmi_alloc_frame_def Let_def split: if_splits)
next
  case (given s U es t V f)
  then show ?case by (auto simp: pmmi_free_frame_def)
qed simp_all

lemma pmmi_alloc_frame_zero_iff:
  assumes "pmm_ok s U"
  shows "snd (pmmi_alloc_frame s) = 0 \<longleftrightarrow> kPmmFree s = 0"
proof -
  obtain fs where inv: "pmm_inv s fs U" using assms by (auto simp: pmm_ok_def)
  obtain s' r where alloc: "pmmi_alloc_frame s = (s', r)" by fastforce
  show ?thesis
  proof (cases fs)
    case (Cons g gs)
    have "r = g" using pmmi_alloc_frame_free(1) [OF inv [unfolded Cons] alloc] .
    then show ?thesis using inv alloc by (auto simp: pmm_inv_def Cons)
  next
    case Nil
    show ?thesis
    proof (cases "kPmmCursor s < kPmmEnd s")
      case True
      then have "4096 \<le> unat (kPmmEnd s - kPmmCursor s)"
        using inv page_diff [of "kPmmEnd s" "kPmmCursor s"] by (auto simp: pmm_inv_def)
      then have "kPmmFree s \<noteq> 0" using inv Nil by (auto simp: pmm_inv_def div_eq_0_iff)
      moreover have "r \<noteq> 0"
        using pmmi_alloc_frame_bump(1) [OF inv [unfolded Nil] True alloc] inv
        by (auto simp: pmm_inv_def)
      ultimately show ?thesis by (simp add: alloc)
    next
      case False
      then have "unat (kPmmFree s) = 0" using inv by (auto simp: pmm_inv_def Nil)
      then have "kPmmFree s = 0" by (simp only: unat_eq_0)
      then show ?thesis using pmmi_alloc_frame_fail [OF inv [unfolded Nil] False] by simp
    qed
  qed
qed

lemma pmm_ok_accounts:
  "pmm_ok s U \<Longrightarrow> unat (kPmmUsed s) = card U \<and> U \<subseteq> frames (kPmmBase s) (kPmmEnd s)"
  by (auto simp: pmm_ok_def pmm_inv_def frames_def)

lemma small_pmm_fields [simp]:
  "kPmmBase small_pmm = 0x2000" "kPmmCursor small_pmm = 0x2000" "kPmmEnd small_pmm = 0x4000"
  "kPmmFreeHead small_pmm = 0" "kPmmFree small_pmm = 2" "kPmmUsed small_pmm = 0"
  by (simp_all add: small_pmm_def pmmi_init_def kPmmAlign_def kPageSize_def)

lemma small_pmm_ok: "pmm_ok small_pmm {}"
  unfolding small_pmm_def pmm_ok_def
  by (rule exI, rule pmmi_init_inv) (simp_all add: kPmmAlign_def kPageSize_def)

lemma small_pmm_alloc: "snd (pmmi_alloc_frame small_pmm) = 0x2000"
  by (simp add: pmmi_alloc_frame_def)

lemma small_pmm_run:
  "pmm_run small_pmm {} [Taken 0x2000] (fst (pmmi_alloc_frame small_pmm)) {0x2000}"
  using pmm_run.taken [OF pmm_run.started, of small_pmm "fst (pmmi_alloc_frame small_pmm)" "0x2000" "{}"]
    small_pmm_alloc by (simp add: prod_eq_iff)

lemma small_pmm_second: "\<exists>t. pmmi_alloc_frame (fst (pmmi_alloc_frame small_pmm)) = (t, 0x3000)"
  by (simp add: pmmi_alloc_frame_def kPageSize_def)

section \<open>Properties\<close>

text \<open>
  C2. Frames are exclusive.  After any history of requests, frees and writes by the clients on
  an allocator initialised with a region \<open>[base, base + sz)\<close> whose first page boundary is not 0,
  a request that succeeds returns a page-aligned frame inside the region that no client owns,
  filled with zeros, and leaves the contents of every owned frame as they were.
\<close>

theorem pmmi_alloc_frame_exclusive:
  assumes init: "0 < (base + kPmmAlign) AND NOT kPmmAlign"
      "(base + kPmmAlign) AND NOT kPmmAlign < (base + sz) AND NOT kPmmAlign"
    and run: "pmm_run (pmmi_init base sz s) {} es t V"
    and alloc: "pmmi_alloc_frame t = (t', f)" and "f \<noteq> 0"
  shows "f \<notin> V \<and> f \<in> frames (kPmmBase (pmmi_init base sz s)) (kPmmEnd (pmmi_init base sz s))
    \<and> read_bytes (ram t') f 4096 = replicate 4096 0
    \<and> (\<forall>g \<in> V. read_bytes (ram t') g 4096 = read_bytes (ram t) g 4096)"
proof -
  have ok0: "pmm_ok (pmmi_init base sz s) {}" using pmmi_init_inv [OF init] by (auto simp: pmm_ok_def)
  then have ok: "pmm_ok t V" by (rule pmm_run_ok [OF run])
  have run': "pmm_run (pmmi_init base sz s) {} (es @ [Taken f]) t' (insert f V)"
    using run alloc \<open>f \<noteq> 0\<close> by (rule pmm_run.taken)
  note ok' = pmm_run_ok [OF run' ok0]
  have "read_bytes (ram t') g 4096 = read_bytes (ram t) g 4096" if "g \<in> V" for g
    using that pmm.alloc_page_write [OF ok alloc \<open>f \<noteq> 0\<close>] pmm.alloc_fresh [OF ok alloc \<open>f \<noteq> 0\<close>]
      pmm.owned_frame [OF ok'] by (intro page_write_read [of "ram t" "ram t'" f g]) auto
  moreover have "f \<in> frames (kPmmBase (pmmi_init base sz s)) (kPmmEnd (pmmi_init base sz s))"
    using pmm_ok_accounts [OF ok'] pmm_run_total [OF run' ok0] by auto
  ultimately show ?thesis
    using pmm.alloc_fresh [OF ok alloc \<open>f \<noteq> 0\<close>] pmm.alloc_zeroed [OF ok alloc \<open>f \<noteq> 0\<close>] by blast
qed

theorem pmmi_alloc_frame_exclusive_witness:
  "\<exists>t. pmmi_alloc_frame (fst (pmmi_alloc_frame small_pmm)) = (t, 0x3000)
     \<and> read_bytes (ram t) 0x3000 4096 = replicate 4096 0"
proof -
  obtain u where r: "pmmi_alloc_frame (fst (pmmi_alloc_frame small_pmm)) = (u, 0x3000)"
    using small_pmm_second by blast
  have "read_bytes (ram u) 0x3000 4096 = replicate 4096 0"
    using pmmi_alloc_frame_exclusive [OF _ _ small_pmm_run [unfolded small_pmm_def] r [unfolded small_pmm_def]]
    by (simp add: kPmmAlign_def kPageSize_def)
  then show ?thesis using r by auto
qed

text \<open>
  C15. The counters are exact.  Along any history, \<open>pmmi_used_frames\<close> is the number of frames the
  clients own, used and free frames together are the pages of the region, and a request is refused
  exactly when \<open>pmmi_free_frames\<close> is 0, so no frame is lost.
\<close>

theorem pmm_counters_exact:
  assumes "pmm_ok s U" and "pmm_run s U es t V"
  shows "unat (pmmi_used_frames t) = card V
    \<and> pmmi_used_frames t + pmmi_free_frames t = pmmi_used_frames s + pmmi_free_frames s
    \<and> (snd (pmmi_alloc_frame t) = 0 \<longleftrightarrow> pmmi_free_frames t = 0)"
  using pmm_run_ok [OF assms(2,1)] pmm_run_total [OF assms(2,1)]
  by (simp add: pmmi_used_frames_def pmmi_free_frames_def pmm_ok_accounts pmmi_alloc_frame_zero_iff)

theorem pmm_counters_exact_witness:
  "unat (pmmi_used_frames (fst (pmmi_alloc_frame small_pmm))) = 1"
  using pmm_counters_exact [OF small_pmm_ok small_pmm_run] by simp

text \<open>
  C22. Giving a frame back and asking again returns the same frame, zeroed, and restores the
  counters and the rest of the free list.
\<close>

theorem pmmi_free_alloc_roundtrip:
  assumes "pmm_ok s U" and "f \<in> U"
  shows "\<exists>t. pmmi_alloc_frame (pmmi_free_frame s f) = (t, f) \<and> pmm_ok t U
    \<and> kPmmFreeHead t = kPmmFreeHead s \<and> kPmmFree t = kPmmFree s \<and> kPmmUsed t = kPmmUsed s
    \<and> kPmmCursor t = kPmmCursor s
    \<and> ram t = write_bytes (ram s) f (replicate 4096 0)"
proof -
  have fr: "f \<noteq> 0 \<and> page_aligned f" "f \<in> frames (kPmmBase s) (kPmmCursor s)"
    using pmm.owned_frame [OF assms] assms by (auto simp: pmm_ok_def pmm_inv_def)
  then have s': "pmmi_free_frame s f = s\<lparr>ram := store64 (ram s) f (kPmmFreeHead s),
      kPmmFreeHead := f, kPmmFree := kPmmFree s + 1, kPmmUsed := kPmmUsed s - 1\<rparr>"
    by (auto simp: pmmi_free_frame_def frames_def page_aligned_def)
  obtain t r where t: "pmmi_alloc_frame (pmmi_free_frame s f) = (t, r)" by fastforce
  have ok: "pmm_ok (pmmi_free_frame s f) (U - {f})" using pmm.free_frame [OF assms] by blast
  have "r = f" "kPmmFreeHead t = kPmmFreeHead s" "kPmmFree t = kPmmFree s" "kPmmUsed t = kPmmUsed s"
    "kPmmCursor t = kPmmCursor s"
    using t fr by (auto simp: pmmi_alloc_frame_def s' mem_simps)
  moreover have "pmm_ok t U" "ram t = write_bytes (store64 (ram s) f (kPmmFreeHead s)) f (replicate 4096 0)"
    using pmm.alloc_fresh [OF ok t] \<open>r = f\<close> fr assms(2) by (auto simp: s' insert_absorb)
  ultimately show ?thesis using t by (simp add: store64_def write_bytes_cover)
qed

theorem pmmi_free_alloc_roundtrip_witness:
  "\<exists>t. pmmi_alloc_frame (pmmi_free_frame (fst (pmmi_alloc_frame small_pmm)) 0x2000) = (t, 0x2000)
     \<and> kPmmUsed t = 1"
proof -
  have "kPmmUsed (fst (pmmi_alloc_frame small_pmm)) = 1" by (simp add: pmmi_alloc_frame_def)
  then show ?thesis
    using pmmi_free_alloc_roundtrip [OF pmm_run_ok [OF small_pmm_run small_pmm_ok], of "0x2000"] by auto
qed

text \<open>
  The two operations do not exclude each other, and the loss is real.  Outside the critical
  section the two halves of \<open>pmmi_free_frame\<close> compose to it; with an allocation between
  them (another core holds only the other lock), the frame that allocation handed out is still on
  the free list, so the second of the next two requests hands it out again.
\<close>

theorem pmm_locks_race:
  assumes "pmm_ok s U" and "f \<in> U" and "kPmmFreeHead s \<noteq> 0"
  shows "pmmi_free_frame s f = free_publish (free_link s f) f
    \<and> (\<exists>t t1 t2. pmmi_alloc_frame (free_link s f) = (t, kPmmFreeHead s)
      \<and> pmmi_alloc_frame (free_publish t f) = (t1, f)
      \<and> pmmi_alloc_frame t1 = (t2, kPmmFreeHead s))"
proof -
  define h where "h = kPmmFreeHead s"
  have fr: "f \<noteq> 0" "page_aligned f" "f \<in> frames (kPmmBase s) (kPmmCursor s)"
    using pmm.owned_frame [OF assms(1,2)] assms(1,2) by (auto simp: pmm_ok_def pmm_inv_def)
  obtain fs where "pmm_inv s fs U" using assms(1) by (auto simp: pmm_ok_def)
  then have h: "page_aligned h" "h \<noteq> f" "h \<noteq> 0"
    using assms by (cases fs; auto simp: pmm_inv_def frames_def h_def)+
  have sep: "sep h (length (replicate 4096 0)) f 8" using page_sep h(1,2) fr(2) by simp
  have "pmmi_free_frame s f = free_publish (free_link s f) f"
    using fr by (auto simp: pmmi_free_frame_def free_publish_def free_link_def frames_def page_aligned_def)
  moreover obtain t where t: "pmmi_alloc_frame (free_link s f) = (t, h)"
    and m: "ram t = write_bytes (store64 (ram s) f h) h (replicate 4096 0)"
    using h by (auto simp: pmmi_alloc_frame_def free_link_def h_def [symmetric] set_page)
  moreover obtain t1 where t1: "pmmi_alloc_frame (free_publish t f) = (t1, f)" and "kPmmFreeHead t1 = h"
    using fr h load64_write_sep [OF sep]
    by (auto simp: pmmi_alloc_frame_def free_publish_def m mem_simps)
  moreover from this h obtain t2 where "pmmi_alloc_frame t1 = (t2, h)"
    by (auto simp: pmmi_alloc_frame_def)
  ultimately show ?thesis by (auto simp: h_def)
qed

theorem pmm_locks_race_witness:
  "\<exists>(s :: phys) t t1 t2. kPmmFreeHead s = 0x2000 \<and> pmmi_alloc_frame (free_link s 0x3000) = (t, 0x2000)
     \<and> pmmi_alloc_frame (free_publish t 0x3000) = (t1, 0x3000) \<and> pmmi_alloc_frame t1 = (t2, 0x2000)"
proof -
  obtain u where u: "pmmi_alloc_frame (fst (pmmi_alloc_frame small_pmm)) = (u, 0x3000)"
    using small_pmm_second by blast
  have run: "pmm_run small_pmm {} ([Taken 0x2000] @ [Taken 0x3000]) u {0x3000, 0x2000}"
    by (rule pmm_run.taken [OF small_pmm_run u]) simp
  define s where "s = pmmi_free_frame u 0x2000"
  have run': "pmm_run small_pmm {} (([Taken 0x2000] @ [Taken 0x3000]) @ [Given 0x2000]) s ({0x3000, 0x2000} - {0x2000})"
    unfolding s_def by (rule pmm_run.given [OF run]) simp
  have "kPmmFreeHead s = 0x2000"
    using u by (auto simp: s_def pmmi_free_frame_def pmmi_alloc_frame_def kPmmAlign_def kPageSize_def)
  then show ?thesis
    using pmm_locks_race [OF pmm_run_ok [OF run' small_pmm_ok], of "0x3000"] by auto
qed

end
