(* ===== verification/KPC.thy ===== *)
theory KPC
  imports NePrelude
begin

text \<open>
  The kernel's procedure codes, \<^verbatim>\<open>private/minkernel/KernelKit/KPC.h\<close>: the error
  numbers that operations return or leave in the error variables.
\<close>

text \<open>
  \<open>ke_stop\<close> halts the system: an operation that may reach it returns an \<open>outcome\<close>.
  \<open>MUST_PASS\<close> stops the system only when the kernel is compiled for debugging, a parameter of
  the operations that use it.
\<close>

datatype 'a outcome = Ret 'a | Stop

definition must_pass :: "bool \<Rightarrow> bool \<Rightarrow> 'a \<Rightarrow> 'a outcome" where
  "must_pass debug expr r = (if debug \<and> \<not> expr then Stop else Ret r)"

definition kErrorSuccess :: int where
  "kErrorSuccess = 0"

definition kErrorExecutable :: int where
  "kErrorExecutable = 33"

definition kErrorExecutableLib :: int where
  "kErrorExecutableLib = 34"

definition kErrorFileNotFound :: int where
  "kErrorFileNotFound = 35"

definition kErrorDirectoryNotFound :: int where
  "kErrorDirectoryNotFound = 36"

definition kErrorDiskReadOnly :: int where
  "kErrorDiskReadOnly = 37"

definition kErrorDiskIsFull :: int where
  "kErrorDiskIsFull = 38"

definition kErrorProcessFault :: int where
  "kErrorProcessFault = 39"

definition kErrorSocketHangUp :: int where
  "kErrorSocketHangUp = 40"

definition kErrorThreadLocalStorage :: int where
  "kErrorThreadLocalStorage = 41"

definition kErrorMath :: int where
  "kErrorMath = 42"

definition kErrorNoNetwork :: int where
  "kErrorNoNetwork = 43"

definition kErrorHeapOutOfMemory :: int where
  "kErrorHeapOutOfMemory = 44"

definition kErrorNoSuchDisk :: int where
  "kErrorNoSuchDisk = 45"

definition kErrorFileExists :: int where
  "kErrorFileExists = 46"

definition kErrorFormatFailed :: int where
  "kErrorFormatFailed = 47"

definition kErrorNetworkTimeout :: int where
  "kErrorNetworkTimeout = 48"

definition kErrorInternal :: int where
  "kErrorInternal = 49"

definition kErrorForkAlreadyExists :: int where
  "kErrorForkAlreadyExists = 50"

definition kErrorOutOfTeamSlot :: int where
  "kErrorOutOfTeamSlot = 51"

definition kErrorHeapNotPresent :: int where
  "kErrorHeapNotPresent = 52"

definition kErrorNoEntrypoint :: int where
  "kErrorNoEntrypoint = 53"

definition kErrorDiskIsCorrupted :: int where
  "kErrorDiskIsCorrupted = 54"

definition kErrorDisk :: int where
  "kErrorDisk = 55"

definition kErrorInvalidData :: int where
  "kErrorInvalidData = 56"

definition kErrorAsync :: int where
  "kErrorAsync = 57"

definition kErrorNonBlocking :: int where
  "kErrorNonBlocking = 58"

definition kErrorIPC :: int where
  "kErrorIPC = 59"

definition kErrorSign :: int where
  "kErrorSign = 60"

definition kErrorInvalidCreds :: int where
  "kErrorInvalidCreds = 61"

definition kErrorCDTrayBroken :: int where
  "kErrorCDTrayBroken = 62"

definition kErrorUnrecoverableDisk :: int where
  "kErrorUnrecoverableDisk = 63"

definition kErrorFileLocked :: int where
  "kErrorFileLocked = 64"

definition kErrorDiskIsTooTiny :: int where
  "kErrorDiskIsTooTiny = 65"

definition kErrorDmaExhausted :: int where
  "kErrorDmaExhausted = 66"

definition kErrorOutOfBitMapMemory :: int where
  "kErrorOutOfBitMapMemory = 67"

definition kErrorTimeout :: int where
  "kErrorTimeout = 68"

definition kErrorAccessDenied :: int where
  "kErrorAccessDenied = 69"

definition kErrorUnavailable :: int where
  "kErrorUnavailable = 70"

definition kErrorIPCTimeOut :: int where
  "kErrorIPCTimeOut = 71"

definition kErrorNetTimeOut :: int where
  "kErrorNetTimeOut = 71"

definition kErrorUnimplemented :: int where
  "kErrorUnimplemented = -1"

lemmas kerror_defs = kErrorSuccess_def
  kErrorExecutable_def
  kErrorExecutableLib_def
  kErrorFileNotFound_def
  kErrorDirectoryNotFound_def
  kErrorDiskReadOnly_def
  kErrorDiskIsFull_def
  kErrorProcessFault_def
  kErrorSocketHangUp_def
  kErrorThreadLocalStorage_def
  kErrorMath_def
  kErrorNoNetwork_def
  kErrorHeapOutOfMemory_def
  kErrorNoSuchDisk_def
  kErrorFileExists_def
  kErrorFormatFailed_def
  kErrorNetworkTimeout_def
  kErrorInternal_def
  kErrorForkAlreadyExists_def
  kErrorOutOfTeamSlot_def
  kErrorHeapNotPresent_def
  kErrorNoEntrypoint_def
  kErrorDiskIsCorrupted_def
  kErrorDisk_def
  kErrorInvalidData_def
  kErrorAsync_def
  kErrorNonBlocking_def
  kErrorIPC_def
  kErrorSign_def
  kErrorInvalidCreds_def
  kErrorCDTrayBroken_def
  kErrorUnrecoverableDisk_def
  kErrorFileLocked_def
  kErrorDiskIsTooTiny_def
  kErrorDmaExhausted_def
  kErrorOutOfBitMapMemory_def
  kErrorTimeout_def
  kErrorAccessDenied_def
  kErrorUnavailable_def
  kErrorIPCTimeOut_def
  kErrorNetTimeOut_def
  kErrorUnimplemented_def

end
