(* ===== verification/Paging.thy ===== *)
theory Paging
  imports PhysicalMemory KPC
begin

text \<open>
  The AMD64 page tables, \<^verbatim>\<open>private/minkernel/HALKit/AMD64/HalPagingMgr.cpp\<close>: the
  identity map built at boot (\<open>mm_init_kernel_tables\<close>), the software walk
  (\<open>mm_get_page_addr\<close>), the walk that allocates missing tables and splits large pages
  (\<open>mm_walk_page\<close>), and mapping and unmapping of 4 KiB pages on top of it.

  Tables live in the physical memory of \<open>phys\<close>; \<open>hw\<close> adds the register CR3.  A pointer to
  a table entry is its address, the null pointer is 0.  Invalidating the TLB changes neither
  memory nor CR3 and has no counterpart here.

  \<open>reach\<close> is the table that a virtual address passes at each depth of the tree.  The
  invariant \<open>pt_inv\<close> says that every table reached is a frame owned by the kernel, that no
  table is reached along two different paths, and that no PML4 entry is marked as a leaf.
\<close>

record hw = phys +
  cr3 :: u64

section \<open>The operations\<close>

definition table_slot :: "u64 \<Rightarrow> u64 \<Rightarrow> u64" where
  "table_slot table i = table + 8 * i"

fun leaf_loop :: "mem \<Rightarrow> u64 \<Rightarrow> (u64 \<Rightarrow> u64) \<Rightarrow> u64 \<Rightarrow> nat \<Rightarrow> mem" where
  "leaf_loop m table leaf i 0 = m"
| "leaf_loop m table leaf i (Suc n) = leaf_loop (store64 m (table_slot table i) (leaf i)) table leaf (i + 1) n"

partial_function (option) init_tables_loop ::
  "hw \<Rightarrow> u64 \<Rightarrow> u64 \<Rightarrow> u64 \<Rightarrow> (hw \<times> u64) option" where
  "init_tables_loop s pml4 base limit =
     (if base < limit then
        let slot = table_slot pml4 (drop_bit 39 base AND (512 - 1));
            (s1, ok) =
              (if load64 (ram s) slot AND 1 = 0 then
                 let (s1, pdpt_pa) = pmmi_alloc_frame s
                 in if pdpt_pa = 0 then (s1, False)
                    else (s1\<lparr>ram := store64 (ram s1) slot (pdpt_pa OR 0x3)\<rparr>, True)
               else (s, True))
        in if \<not> ok then Some (s1, 0)
           else
             let pdpt = load64 (ram s1) slot AND NOT (kPageSize - 1);
                 (s2, pd_pa) = pmmi_alloc_frame s1
             in if pd_pa = 0 then Some (s2, 0)
                else
                  let m = store64 (ram s2) (table_slot pdpt (drop_bit 30 base AND (512 - 1))) (pd_pa OR 0x3);
                      m' = leaf_loop m pd_pa (\<lambda>i. (base + i * 0x200000) OR 0x83) 0 512
                  in init_tables_loop (s2\<lparr>ram := m'\<rparr>) pml4 (base + 0x40000000) limit
      else Some (s, pml4))"

definition mm_init_kernel_tables :: "hw \<Rightarrow> u64 \<Rightarrow> (hw \<times> u64) option" where
  "mm_init_kernel_tables s limit =
     (let (s1, pml4_pa) = pmmi_alloc_frame s
      in if pml4_pa = 0 then Some (s1, 0) else init_tables_loop s1 pml4_pa 0 limit)"

definition kAddrMask :: u64 where
  "kAddrMask = 0x000FFFFFFFFFF000"

definition kPageOffsetMask :: u64 where
  "kPageOffsetMask = 0xFFF"

definition kMask9Bits :: u64 where
  "kMask9Bits = 0x1FF"

definition kPageSizeBit :: u64 where
  "kPageSizeBit = 0x80"

definition mm_get_page_addr :: "'a hw_scheme \<Rightarrow> u64 \<Rightarrow> u64" where
  "mm_get_page_addr s virt =
     (let pml4 = cr3 s AND NOT kPageOffsetMask;
          pml4e = load64 (ram s) (table_slot pml4 (drop_bit 39 virt AND kMask9Bits))
      in if pml4e AND 1 = 0 then 0
         else
           let pdpt = pml4e AND NOT kPageOffsetMask;
               pdpte = load64 (ram s) (table_slot pdpt (drop_bit 30 virt AND kMask9Bits))
           in if pdpte AND 1 = 0 then 0
              else if pdpte AND kPageSizeBit \<noteq> 0 then
                (pdpte AND kAddrMask AND NOT (push_bit 30 1 - 1)) OR (virt AND (push_bit 30 1 - 1))
              else
                let pd = pdpte AND NOT kPageOffsetMask;
                    pde = load64 (ram s) (table_slot pd (drop_bit 21 virt AND kMask9Bits))
                in if pde AND 1 = 0 then 0
                   else if pde AND kPageSizeBit \<noteq> 0 then
                     (pde AND kAddrMask AND NOT (push_bit 21 1 - 1)) OR (virt AND (push_bit 21 1 - 1))
                   else
                     let pt = pde AND NOT kPageOffsetMask;
                         pte = load64 (ram s) (table_slot pt (drop_bit 12 virt AND kMask9Bits))
                     in if pte AND 1 = 0 then 0
                        else (pte AND kAddrMask) OR (virt AND kPageOffsetMask))"

definition mm_memory_fence :: "'a hw_scheme \<Rightarrow> u64 \<Rightarrow> int" where
  "mm_memory_fence s virtual_address =
     (if virtual_address = 0 \<or> mm_get_page_addr s virtual_address = 0 then kErrorInvalidData
      else kErrorSuccess)"

text \<open>The body of the loop of \<open>mm_walk_page\<close> at one depth, and the loop.\<close>

definition kTablePerm :: u64 where
  "kTablePerm = 0x7"

definition split_perm :: "u64 \<Rightarrow> u64" where
  "split_perm entry = (entry AND 0x1F) OR (entry AND 0x100) OR (entry AND push_bit 63 1)"

definition split_leaf :: "u64 \<Rightarrow> nat \<Rightarrow> u64 \<Rightarrow> u64" where
  "split_leaf entry shift i =
     (let step = push_bit shift 1; base = entry AND NOT (step - 1)
      in (base + i * drop_bit 9 step) OR split_perm entry OR (if shift > 21 then kPageSizeBit else 0))"

definition walk_step :: "'a hw_scheme \<Rightarrow> u64 \<Rightarrow> bool \<Rightarrow> nat \<Rightarrow> 'a hw_scheme \<times> bool" where
  "walk_step s slot alloc shift =
     (let entry = load64 (ram s) slot
      in if entry AND 1 = 0 then
           if \<not> alloc then (s, False)
           else
             let (s1, frame) = pmmi_alloc_frame s
             in if frame = 0 then (s1, False)
                else (s1\<lparr>ram := store64 (ram s1) slot (frame OR kTablePerm)\<rparr>, True)
         else if entry AND kPageSizeBit \<noteq> 0 then
           if \<not> alloc then (s, False)
           else
             let (s1, frame) = pmmi_alloc_frame s
             in if frame = 0 then (s1, False)
                else
                  let m = leaf_loop (ram s1) frame (split_leaf entry shift) 0 512
                  in (s1\<lparr>ram := store64 m slot (frame OR kTablePerm)\<rparr>, True)
         else (s\<lparr>ram := store64 (ram s) slot (entry OR kTablePerm)\<rparr>, True))"

function walk_loop :: "'a hw_scheme \<Rightarrow> u64 \<Rightarrow> u64 \<Rightarrow> bool \<Rightarrow> nat \<Rightarrow> 'a hw_scheme \<times> u64" where
  "walk_loop s table virtual_address alloc shift =
     (if shift > 12 then
        let slot = table_slot table (drop_bit shift virtual_address AND kMask9Bits);
            (s1, ok) = walk_step s slot alloc shift
        in if \<not> ok then (s1, 0)
           else walk_loop s1 (load64 (ram s1) slot AND NOT kPageOffsetMask) virtual_address alloc (shift - 9)
      else (s, table_slot table (drop_bit 12 virtual_address AND kMask9Bits)))"
  by pat_completeness auto
termination
  by (relation "measure (\<lambda>(s, table, virtual_address, alloc, shift). shift)") auto

definition mm_walk_page :: "'a hw_scheme \<Rightarrow> u64 \<Rightarrow> u64 \<Rightarrow> bool \<Rightarrow> 'a hw_scheme \<times> u64" where
  "mm_walk_page s root virtual_address alloc =
     (if root = 0 then (s, 0)
      else walk_loop s (root AND NOT kPageOffsetMask) virtual_address alloc 39)"

definition kMMFlagsPresent :: u32 where "kMMFlagsPresent = push_bit 1 1"
definition kMMFlagsWr :: u32 where "kMMFlagsWr = push_bit 2 1"
definition kMMFlagsUser :: u32 where "kMMFlagsUser = push_bit 3 1"
definition kMMFlagsNX :: u32 where "kMMFlagsNX = push_bit 4 1"
definition kMMFlagsPCD :: u32 where "kMMFlagsPCD = push_bit 5 1"
definition kMMFlagsPwt :: u32 where "kMMFlagsPwt = push_bit 6 1"

definition flag_bit :: "u32 \<Rightarrow> u32 \<Rightarrow> nat \<Rightarrow> u64" where
  "flag_bit flags flag pos = (if flags AND flag \<noteq> 0 then push_bit pos 1 else 0)"

text \<open>The bit fields of \<open>Detail::PTE\<close> as \<open>mm_map_page_in\<close> sets them.\<close>

definition make_pte :: "u64 \<Rightarrow> u32 \<Rightarrow> u64" where
  "make_pte physical_address flags =
     flag_bit flags kMMFlagsPresent 0 OR flag_bit flags kMMFlagsWr 1 OR flag_bit flags kMMFlagsUser 2
     OR flag_bit flags kMMFlagsPwt 3 OR flag_bit flags kMMFlagsPCD 4 OR flag_bit flags kMMFlagsNX 63
     OR push_bit 12 (take_bit 40 (drop_bit 12 physical_address))"

definition mm_map_page_in :: "'a hw_scheme \<Rightarrow> u64 \<Rightarrow> u64 \<Rightarrow> u64 \<Rightarrow> u32 \<Rightarrow> 'a hw_scheme \<times> int" where
  "mm_map_page_in s root virtual_address physical_address flags =
     (if physical_address = 0 then (s, kErrorInvalidData)
      else if physical_address AND (kPageSize - 1) \<noteq> 0 then (s, kErrorInvalidData)
      else
        let (s1, slot) = mm_walk_page s root virtual_address True
        in if slot = 0 then (s1, kErrorInvalidData)
           else (s1\<lparr>ram := store64 (ram s1) slot (make_pte physical_address flags)\<rparr>, kErrorSuccess))"

definition mm_map_page :: "'a hw_scheme \<Rightarrow> u64 \<Rightarrow> u64 \<Rightarrow> u32 \<Rightarrow> u32 \<Rightarrow> 'a hw_scheme \<times> int" where
  "mm_map_page s virtual_address physical_address flags level =
     mm_map_page_in s (cr3 s) virtual_address physical_address flags"

definition mm_unmap_page :: "'a hw_scheme \<Rightarrow> u64 \<Rightarrow> 'a hw_scheme \<times> u64" where
  "mm_unmap_page s virtual_address =
     (let (s1, slot) = mm_walk_page s (cr3 s) virtual_address False
      in if slot = 0 \<or> load64 (ram s1) slot AND 1 = 0 then (s1, 0)
         else (s1\<lparr>ram := store64 (ram s1) slot 0\<rparr>, load64 (ram s1) slot AND kAddrMask))"

text \<open>A machine with 16 frames whose first frame is an empty PML4.\<close>

definition small_hw :: hw where
  "small_hw = (let (s, root) = pmmi_alloc_frame (pmmi_init 0x1000 0x10000
     \<lparr>ram = (\<lambda>_. 0xAA), kPmmBase = 0, kPmmCursor = 0, kPmmEnd = 0, kPmmFreeHead = 0, kPmmFree = 0,
      kPmmUsed = 0, cr3 = 0\<rparr>)
     in s\<lparr>cr3 := root\<rparr>)"

section \<open>The tree of tables\<close>

text \<open>
  \<open>idx va d\<close> is the index that the virtual address selects at depth \<open>d\<close> (0 the PML4,
  3 the page table), \<open>same_path va va' d\<close> that two addresses agree on the first \<open>d\<close> of
  them.  Two addresses in the same 4 KiB page agree on all four.
\<close>

definition idx :: "u64 \<Rightarrow> nat \<Rightarrow> u64" where
  "idx va d = drop_bit (39 - 9 * d) va AND kMask9Bits"

definition same_path :: "u64 \<Rightarrow> u64 \<Rightarrow> nat \<Rightarrow> bool" where
  "same_path va va' d \<longleftrightarrow> (\<forall>j<d. idx va j = idx va' j)"

definition is_table :: "u64 \<Rightarrow> bool" where
  "is_table e \<longleftrightarrow> e AND 1 \<noteq> 0 \<and> e AND kPageSizeBit = 0"

primrec reach :: "mem \<Rightarrow> u64 \<Rightarrow> u64 \<Rightarrow> nat \<Rightarrow> u64 option" where
  "reach m root va 0 = Some root"
| "reach m root va (Suc d) =
     (case reach m root va d of
        None \<Rightarrow> None
      | Some t \<Rightarrow> (let e = load64 m (table_slot t (idx va d))
                  in if is_table e then Some (e AND NOT kPageOffsetMask) else None))"

definition entry :: "mem \<Rightarrow> u64 \<Rightarrow> u64 \<Rightarrow> nat \<Rightarrow> u64 option" where
  "entry m root va d = map_option (\<lambda>t. load64 m (table_slot t (idx va d))) (reach m root va d)"

definition tables_ok :: "mem \<Rightarrow> u64 \<Rightarrow> u64 set \<Rightarrow> bool" where
  "tables_ok m root U \<longleftrightarrow>
     (\<forall>va d t. d \<le> 3 \<longrightarrow> reach m root va d = Some t \<longrightarrow> t \<in> U)
     \<and> (\<forall>va va' d d' t. d \<le> 3 \<longrightarrow> d' \<le> 3 \<longrightarrow> reach m root va d = Some t \<longrightarrow> reach m root va' d' = Some t \<longrightarrow>
          d = d' \<and> same_path va va' d)
     \<and> (\<forall>va e. entry m root va 0 = Some e \<longrightarrow> e AND 1 \<noteq> 0 \<longrightarrow> e AND kPageSizeBit = 0)"

text \<open>
  The translation read off the tree from a table at depth \<open>d\<close>: \<open>leaf_addr\<close> is the address
  a leaf at depth \<open>d\<close> gives.
\<close>

definition leaf_addr :: "nat \<Rightarrow> u64 \<Rightarrow> u64 \<Rightarrow> u64" where
  "leaf_addr d e va = (e AND kAddrMask AND NOT (mask (39 - 9 * d))) OR (va AND mask (39 - 9 * d))"

function descend :: "mem \<Rightarrow> u64 \<Rightarrow> u64 \<Rightarrow> nat \<Rightarrow> u64" where
  "descend m t va d =
     (let e = load64 m (table_slot t (idx va d))
      in if e AND 1 = 0 then 0
         else if 3 \<le> d \<or> e AND kPageSizeBit \<noteq> 0 then leaf_addr d e va
         else descend m (e AND NOT kPageOffsetMask) va (Suc d))"
  by pat_completeness auto
termination
  by (relation "measure (\<lambda>(m, t, va, d). 4 - d)") auto

definition pt_inv :: "'a hw_scheme \<Rightarrow> u64 \<Rightarrow> u64 set \<Rightarrow> bool" where
  "pt_inv s root U \<longleftrightarrow> pmm_ok s U \<and> tables_ok (ram s) root U"

section \<open>Slots of a table\<close>

lemma kMask9_less: "unat (x AND kMask9Bits) < 512"
proof -
  have "x AND kMask9Bits = take_bit 9 x"
    by (simp add: kMask9Bits_def take_bit_eq_mask mask_eq_exp_minus_1)
  then have "unat (x AND kMask9Bits) = take_bit 9 (unat x)" by (simp only: unsigned_take_bit_eq)
  then show ?thesis using take_bit_nat_less_exp [of 9 "unat x"] by simp
qed

lemma idx_less: "unat (idx va d) < 512"
  by (simp add: idx_def kMask9_less)

lemma slot_offset: "unat i < 512 \<Longrightarrow> unat (table_slot t i - t) = 8 * unat i"
  by (simp add: table_slot_def unat_word_ariths)

lemma slot_in_page: "unat i < 512 \<Longrightarrow> in_page t (table_slot t i)"
  by (simp add: in_page_def slot_offset)

lemma slot_inj:
  assumes "unat i < 512" and "unat j < 512" and "table_slot t i = table_slot t j"
  shows "i = j"
  using slot_offset [OF assms(1), of t] slot_offset [OF assms(2), of t] assms(3)
  by (simp add: word_unat_eq_iff)

lemma slot_aligned8:
  assumes "page_aligned t"
  shows "aligned8 (table_slot t i)"
proof -
  have "8 dvd unat t" using page_aligned_aligned8 [OF assms] by (auto simp: aligned8_def)
  then have "8 dvd (unat t + 8 * unat i mod 2 ^ 64) mod 2 ^ 64"
    by (intro dvd_mod dvd_add) auto
  then show ?thesis by (simp add: aligned8_def table_slot_def unat_word_ariths)
qed

lemma slot_eq_iff:
  assumes "page_aligned t" and "page_aligned t'" and "unat i < 512" and "unat j < 512"
  shows "table_slot t i = table_slot t' j \<longleftrightarrow> t = t' \<and> i = j"
  using assms slot_inj slot_in_page in_page_unique by metis

lemma load_store_slot:
  assumes "page_aligned t" and "page_aligned t'" and "unat i < 512" and "unat j < 512"
  shows "load64 (store64 m (table_slot t i) v) (table_slot t' j)
    = (if t = t' \<and> i = j then v else load64 m (table_slot t' j))"
  using assms by (simp add: load64_store64 slot_aligned8 slot_eq_iff)

lemma page_write_slot:
  assumes "page_write m m' f" and "page_aligned f" and "page_aligned t" and "f \<noteq> t" and "unat i < 512"
  shows "load64 m' (table_slot t i) = load64 m (table_slot t i)"
  using assms page_write_read [of m m' f t "table_slot t i" 8] by (simp add: load64_def slot_offset)

lemma page_write_slot_store:
  "unat i < 512 \<Longrightarrow> page_write m (store64 m (table_slot t i) v) t"
  by (rule page_write_store) (simp add: slot_offset)

lemma page_write_trans: "page_write m m1 f \<Longrightarrow> page_write m1 m2 f \<Longrightarrow> page_write m m2 f"
  by (simp add: page_write_def)

lemma leaf_loop_page_write:
  assumes "unat i + n \<le> 512"
  shows "page_write m (leaf_loop m t leaf i n) t"
  using assms
proof (induction n arbitrary: m i)
  case 0
  then show ?case by (simp add: page_write_def)
next
  case (Suc n)
  then have "unat (i + 1) = unat i + 1" by (intro unat_plus_one) simp
  then have "page_write (store64 m (table_slot t i) (leaf i)) (leaf_loop m t leaf i (Suc n)) t"
    using Suc.IH [of "i + 1"] Suc.prems by simp
  moreover have "page_write m (store64 m (table_slot t i) (leaf i)) t"
    using Suc.prems by (intro page_write_slot_store) simp
  ultimately show ?case by (blast intro: page_write_trans)
qed

lemma leaf_loop_load:
  assumes "unat i + n \<le> 512" and "page_aligned t" and "unat j < 512"
  shows "load64 (leaf_loop m t leaf i n) (table_slot t j)
    = (if unat i \<le> unat j \<and> unat j < unat i + n then leaf j else load64 m (table_slot t j))"
  using assms
proof (induction n arbitrary: m i)
  case (Suc n)
  then have i: "unat (i + 1) = unat i + 1" by (intro unat_plus_one) simp
  have "unat j = unat i \<longleftrightarrow> i = j" by (auto simp: word_unat_eq_iff)
  then show ?case using Suc.IH [of "i + 1"] Suc.prems i by (auto simp: load_store_slot)
qed auto

section \<open>Paths through the tables\<close>

lemma same_path_sym: "same_path va va' d \<Longrightarrow> same_path va' va d"
  by (simp add: same_path_def)

lemma same_path_mono: "same_path va va' d \<Longrightarrow> d' \<le> d \<Longrightarrow> same_path va va' d'"
  by (simp add: same_path_def)

lemma same_path_Suc: "same_path va va' (Suc d) \<longleftrightarrow> same_path va va' d \<and> idx va d = idx va' d"
  by (auto simp: same_path_def less_Suc_eq)

lemma reach_same_path: "same_path va va' d \<Longrightarrow> reach m root va d = reach m root va' d"
  by (induction d) (auto simp: same_path_Suc split: option.split)

lemma reach_mono: "reach m root va d = None \<Longrightarrow> d \<le> d' \<Longrightarrow> reach m root va d' = None"
  by (induction d') (auto simp: le_Suc_eq)

text \<open>
  Entries that send the walk the same way: the same entry, or (above the last level) two table
  pointers to the same table.
\<close>

definition entry_eqv :: "nat \<Rightarrow> u64 \<Rightarrow> u64 \<Rightarrow> bool" where
  "entry_eqv d e e' \<longleftrightarrow> e = e' \<or> d < 3 \<and> is_table e \<and> is_table e'
     \<and> e AND NOT kPageOffsetMask = e' AND NOT kPageOffsetMask"

lemma reach_cong:
  assumes "d \<le> 4" and "\<And>j t. j < d \<Longrightarrow> reach m root va j = Some t \<Longrightarrow>
      entry_eqv j (load64 m (table_slot t (idx va j))) (load64 m' (table_slot t (idx va j)))"
  shows "reach m' root va d = reach m root va d"
  using assms
proof (induction d)
  case (Suc d)
  then have IH: "reach m' root va d = reach m root va d" by simp
  show ?case
  proof (cases "reach m root va d")
    case (Some t)
    with Suc.prems(2) [of d t] IH show ?thesis by (auto simp: entry_eqv_def Let_def)
  qed (simp add: IH)
qed simp

lemma tables_okD:
  assumes "tables_ok m root U"
  shows "\<And>va d t. d \<le> 3 \<Longrightarrow> reach m root va d = Some t \<Longrightarrow> t \<in> U"
    and "\<And>va va' d d' t. d \<le> 3 \<Longrightarrow> d' \<le> 3 \<Longrightarrow> reach m root va d = Some t \<Longrightarrow>
        reach m root va' d' = Some t \<Longrightarrow> d = d' \<and> same_path va va' d"
    and "\<And>va e. entry m root va 0 = Some e \<Longrightarrow> e AND 1 \<noteq> 0 \<Longrightarrow> e AND kPageSizeBit = 0"
  using assms unfolding tables_ok_def by blast+

text \<open>Writing a page that holds no table on the path of an address.\<close>

lemma page_write_outside:
  assumes "page_write m m' f" and "page_aligned f" and "\<forall>t \<in> U. page_aligned t"
    and "tables_ok m root U" and "f \<notin> U" and "j \<le> 3" and "reach m root va j = Some t"
  shows "load64 m' (table_slot t (idx va j)) = load64 m (table_slot t (idx va j))"
  using assms page_write_slot tables_okD(1) [OF assms(4,6,7)] idx_less by metis

lemma reach_outside:
  assumes "page_write m m' f" and "page_aligned f" and "\<forall>t \<in> U. page_aligned t"
    and "tables_ok m root U" and "f \<notin> U" and "j \<le> 4"
  shows "reach m' root va j = reach m root va j"
  using page_write_outside [OF assms(1-5)] assms(6) by (intro reach_cong) (auto simp: entry_eqv_def)

lemma tables_ok_outside:
  assumes "page_write m m' f" and "page_aligned f" and "\<forall>t \<in> U. page_aligned t"
    and "tables_ok m root U" and "f \<notin> U"
  shows "tables_ok m' root U"
proof -
  have reach: "reach m' root va d = reach m root va d" if "d \<le> 3" for va d
    using reach_outside [OF assms] that by simp
  have entry: "entry m' root va 0 = entry m root va 0" for va
    using page_write_outside [OF assms, of 0 va root] by (simp add: entry_def)
  from assms(4) show ?thesis unfolding tables_ok_def by (simp add: reach entry cong: imp_cong)
qed

declare descend.simps [simp del] walk_loop.simps [simp del]

lemma descend_reach:
  "reach m root va d = Some t \<Longrightarrow> d \<le> 3 \<Longrightarrow> descend m root va 0 = descend m t va d"
proof (induction d arbitrary: t)
  case (Suc d)
  then obtain u where u: "reach m root va d = Some u" by (auto split: option.splits)
  let ?e = "load64 m (table_slot u (idx va d))"
  have "is_table ?e" "t = ?e AND NOT kPageOffsetMask"
    using Suc.prems(1) u by (auto simp: Let_def split: if_splits)
  then have "descend m u va d = descend m t va (Suc d)"
    using Suc.prems(2) by (subst descend.simps) (simp add: is_table_def)
  then show ?case using Suc.IH [OF u] Suc.prems(2) by simp
qed simp

lemma descend_cong:
  assumes eqv: "\<And>j t. j \<le> 3 \<Longrightarrow> reach m root va j = Some t \<Longrightarrow>
      entry_eqv j (load64 m (table_slot t (idx va j))) (load64 m' (table_slot t (idx va j)))"
  shows "descend m' root va 0 = descend m root va 0"
proof -
  have "n \<le> 3 \<Longrightarrow> reach m root va (3 - n) = Some t \<Longrightarrow>
      descend m' t va (3 - n) = descend m t va (3 - n)" for n t
  proof (induction n arbitrary: t)
    case 0
    then have "load64 m' (table_slot t (idx va 3)) = load64 m (table_slot t (idx va 3))"
      using eqv [of 3] by (simp add: entry_eqv_def)
    then show ?case unfolding descend.simps [of _ t va 3] diff_zero by (simp add: Let_def)
  next
    case (Suc n)
    define d where "d = 3 - Suc n"
    define e where "e = load64 m (table_slot t (idx va d))"
    have d: "Suc d = 3 - n" "d < 3" using Suc.prems(1) by (auto simp: d_def)
    have t: "reach m root va d = Some t" using Suc.prems by (simp add: d_def)
    have e': "entry_eqv d e (load64 m' (table_slot t (idx va d)))"
      using eqv [of d] d t by (simp add: e_def)
    have "descend m' (e AND NOT kPageOffsetMask) va (Suc d) = descend m (e AND NOT kPageOffsetMask) va (Suc d)"
      if "is_table e"
      using that t Suc.IH Suc.prems(1) by (simp add: d(1) [symmetric] e_def)
    then have "descend m' t va d = descend m t va d"
      unfolding descend.simps [of m' t va d] descend.simps [of m t va d]
      using e' by (auto simp: e_def [symmetric] is_table_def entry_eqv_def Let_def)
    then show ?case by (simp add: d_def)
  qed
  from this [of 3 root] show ?thesis by simp
qed

text \<open>The code's unrolled walk is the recursive one.\<close>

lemma kPageOffsetMask_mask: "kPageOffsetMask = mask 12"
  by (simp add: kPageOffsetMask_def mask_eq_exp_minus_1)

lemma kAddrMask_mask: "kAddrMask = mask 52 AND NOT (mask 12)"
  by (simp add: kAddrMask_def mask_eq_exp_minus_1)

lemma mm_get_page_addr_descend:
  assumes "tables_ok (ram s) (cr3 s AND NOT kPageOffsetMask) U"
  shows "mm_get_page_addr s va = descend (ram s) (cr3 s AND NOT kPageOffsetMask) va 0"
proof -
  define root where "root = cr3 s AND NOT kPageOffsetMask"
  have step: "push_bit n 1 - 1 = (mask n :: u64)" for n by (simp add: mask_eq_exp_minus_1 push_bit_eq_mult)
  have leaf: "e AND kAddrMask = e AND kAddrMask AND NOT (mask 12)" for e
    by (rule bit_eqI) (auto simp: kAddrMask_mask bit_simps)
  have top: "load64 (ram s) (table_slot root (idx va 0)) AND kPageSizeBit = 0"
    if "load64 (ram s) (table_slot root (idx va 0)) AND 1 \<noteq> 0"
    using tables_okD(3) [OF assms, of va] that by (simp add: entry_def root_def)
  show ?thesis
    unfolding mm_get_page_addr_def step root_def [symmetric] descend.simps [of _ _ _ 0]
      descend.simps [of _ _ _ "Suc 0"] descend.simps [of _ _ _ "Suc (Suc 0)"]
      descend.simps [of _ _ _ "Suc (Suc (Suc 0))"]
    using top leaf
    by (simp add: Let_def leaf_addr_def idx_def step kPageOffsetMask_mask [symmetric] numeral_2_eq_2)
qed

lemma descend_outside:
  assumes "page_write m m' f" and "page_aligned f" and "\<forall>t \<in> U. page_aligned t"
    and "tables_ok m root U" and "f \<notin> U"
  shows "descend m' root va 0 = descend m root va 0"
  using page_write_outside [OF assms] by (intro descend_cong) (auto simp: entry_eqv_def)

section \<open>Writing one entry\<close>

lemma slot_write_load:
  assumes "tables_ok m root U" and "\<forall>t \<in> U. page_aligned t"
    and "d \<le> 3" and "reach m root va d = Some t"
    and "j \<le> 3" and "reach m root va' j = Some t'"
  shows "load64 (store64 m (table_slot t (idx va d)) v) (table_slot t' (idx va' j))
    = (if j = d \<and> same_path va va' (Suc d) then v else load64 m (table_slot t' (idx va' j)))"
proof -
  have al: "page_aligned t" "page_aligned t'"
    using tables_okD(1) [OF assms(1)] assms(2-6) by blast+
  have "t = t' \<and> idx va d = idx va' j \<longleftrightarrow> j = d \<and> same_path va va' (Suc d)"
  proof
    assume eq: "t = t' \<and> idx va d = idx va' j"
    then have "d = j \<and> same_path va va' d"
      using tables_okD(2) [OF assms(1,3,5,4)] assms(6) by blast
    with eq show "j = d \<and> same_path va va' (Suc d)" by (auto simp: same_path_Suc)
  next
    assume "j = d \<and> same_path va va' (Suc d)"
    with reach_same_path [of va va' d m root] assms(4,6) show "t = t' \<and> idx va d = idx va' j"
      by (simp add: same_path_Suc)
  qed
  then show ?thesis using load_store_slot [OF al idx_less idx_less] by simp
qed

lemma slot_write_reach:
  assumes "tables_ok m root U" and "\<forall>t \<in> U. page_aligned t"
    and "d \<le> 3" and "reach m root va d = Some t" and "j \<le> 4"
    and "j \<le> d \<or> \<not> same_path va va' (Suc d)"
  shows "reach (store64 m (table_slot t (idx va d)) v) root va' j = reach m root va' j"
  using assms(5,6) slot_write_load [OF assms(1-4), of _ va' _ v]
  by (intro reach_cong) (auto simp: entry_eqv_def)

text \<open>Replacing an entry by an equivalent one changes nothing the walk can see.\<close>

lemma slot_write_eqv:
  assumes ok: "tables_ok m root U" and al: "\<forall>t \<in> U. page_aligned t"
    and d: "d \<le> 3" and t: "reach m root va d = Some t"
    and eqv: "entry_eqv d (load64 m (table_slot t (idx va d))) v"
  defines "m' \<equiv> store64 m (table_slot t (idx va d)) v"
  shows "tables_ok m' root U" and "descend m' root va' 0 = descend m root va' 0"
    and "j \<le> 4 \<Longrightarrow> reach m' root va' j = reach m root va' j"
proof -
  have load: "entry_eqv j (load64 m (table_slot u (idx va' j))) (load64 m' (table_slot u (idx va' j)))"
    if "j \<le> 3" "reach m root va' j = Some u" for j u va'
  proof (cases "j = d \<and> same_path va va' (Suc d)")
    case True
    then have "u = t" "idx va d = idx va' j"
      using t that reach_same_path [of va va' d m root] by (auto simp: same_path_Suc)
    then show ?thesis using eqv True slot_write_load [OF ok al d t that, of v] by (simp add: m'_def)
  next
    case False
    then show ?thesis using slot_write_load [OF ok al d t that, of v]
      by (auto simp: entry_eqv_def m'_def)
  qed
  show reach: "reach m' root va' j = reach m root va' j" if "j \<le> 4" for j va'
    using load that by (intro reach_cong) auto
  show "descend m' root va' 0 = descend m root va' 0"
    using load by (intro descend_cong) auto
  have "e' AND kPageSizeBit = 0" if "entry m' root va' 0 = Some e'" "e' AND 1 \<noteq> 0" for va' e'
  proof -
    let ?e = "load64 m (table_slot root (idx va' 0))"
    have "entry_eqv 0 ?e e'" using load [of 0 va' root] that by (simp add: entry_def)
    then show ?thesis using that tables_okD(3) [OF ok, of va' ?e] by (auto simp: entry_eqv_def is_table_def entry_def)
  qed
  then show "tables_ok m' root U"
    using ok unfolding tables_ok_def by (simp add: reach cong: imp_cong)
qed

text \<open>
  Hanging a fresh table into a slot that held no table.  Below the last level the fresh table
  must not point to tables itself.
\<close>

lemma slot_write_link:
  assumes ok: "tables_ok m root U" and al: "\<forall>t \<in> U. page_aligned t"
    and d: "d \<le> 2" and t: "reach m root va d = Some t"
    and f: "f \<notin> U" "page_aligned f"
    and v: "is_table v" "v AND NOT kPageOffsetMask = f"
    and kids: "d < 2 \<Longrightarrow> \<forall>i. unat i < 512 \<longrightarrow> \<not> is_table (load64 m (table_slot f i))"
  defines "m' \<equiv> store64 m (table_slot t (idx va d)) v"
  shows "j \<le> 3 \<Longrightarrow> reach m' root va' j = (if same_path va va' (Suc d) \<and> d < j
      then if j = Suc d then Some f else None else reach m root va' j)"
proof -
  assume j: "j \<le> 3"
  have tU: "t \<in> U" using tables_okD(1) [OF ok _ t] d by simp
  then have ft: "f \<noteq> t" "page_aligned t" using f al by auto
  show ?thesis
  proof (cases "same_path va va' (Suc d) \<and> d < j")
    case True
    have d': "reach m' root va' d = Some t"
      using slot_write_reach [OF ok al _ t, of d va' v] d t reach_same_path [of va va' d m root] True
      by (simp add: m'_def same_path_Suc)
    then have 1: "reach m' root va' (Suc d) = Some f"
      using True v by (simp add: m'_def same_path_Suc mem_simps)
    have "reach m' root va' (Suc (Suc d)) = None" if "d < 2"
    proof -
      have "load64 m' (table_slot f i) = load64 m (table_slot f i)" if "unat i < 512" for i
        using load_store_slot [OF ft(2) f(2) idx_less that, of m va d v] ft by (simp add: m'_def)
      with 1 kids that show ?thesis by (simp add: idx_less)
    qed
    then show ?thesis using 1 True j d reach_mono [of m' root va' "Suc (Suc d)" j] by auto
  next
    case False
    then show ?thesis using slot_write_reach [OF ok al _ t, of j va' v] d j by (auto simp: m'_def not_less)
  qed
qed

lemma slot_write_link_ok:
  assumes ok: "tables_ok m root U" and al: "\<forall>t \<in> U. page_aligned t"
    and d: "d \<le> 2" and t: "reach m root va d = Some t"
    and f: "f \<notin> U" "page_aligned f"
    and v: "is_table v" "v AND NOT kPageOffsetMask = f"
    and kids: "d < 2 \<Longrightarrow> \<forall>i. unat i < 512 \<longrightarrow> \<not> is_table (load64 m (table_slot f i))"
  defines "m' \<equiv> store64 m (table_slot t (idx va d)) v"
  shows "tables_ok m' root (insert f U)"
proof -
  have link: "reach m' root va' j = (if same_path va va' (Suc d) \<and> d < j
      then if j = Suc d then Some f else None else reach m root va' j)" if "j \<le> 3" for j va'
    using slot_write_link [OF ok al d t f v _ that, of va'] kids unfolding m'_def by blast
  have new: "x = f \<and> j = Suc d \<and> same_path va va' (Suc d) \<or> x \<noteq> f \<and> reach m root va' j = Some x \<and> x \<in> U"
    if "j \<le> 3" "reach m' root va' j = Some x" for j va' x
    using link [OF that(1), of va'] that f(1) tables_okD(1) [OF ok that(1), of va'] by (auto split: if_splits)
  have 1: "x \<in> insert f U" if "j \<le> 3" "reach m' root va' j = Some x" for j va' x
    using new [OF that] by auto
  have 2: "j = j' \<and> same_path a b j"
    if "j \<le> 3" "j' \<le> 3" "reach m' root a j = Some x" "reach m' root b j' = Some x" for j j' a b x
    using new [OF that(1,3)] new [OF that(2,4)] tables_okD(2) [OF ok that(1,2), of a x b]
    by (auto simp: same_path_def)
  have 3: "e AND kPageSizeBit = 0" if e: "entry m' root a 0 = Some e" "e AND 1 \<noteq> 0" for a e
  proof -
    have "reach m root a 0 = Some root" by simp
    note slot_write_load [OF ok al _ t, of 0 a root v, OF _ _ this, folded m'_def]
    then have "e = v \<or> entry m root a 0 = Some e" using e d by (auto simp: entry_def split: if_splits)
    then show ?thesis using v tables_okD(3) [OF ok, of a e] e(2) by (auto simp: is_table_def)
  qed
  show ?thesis unfolding tables_ok_def using 1 2 3 by blast
qed

lemma slot_write_link_descend:
  assumes ok: "tables_ok m root U" and al: "\<forall>t \<in> U. page_aligned t"
    and d: "d \<le> 2" and t: "reach m root va d = Some t"
    and f: "f \<notin> U" "page_aligned f"
    and v: "is_table v" "v AND NOT kPageOffsetMask = f"
    and kids: "\<And>i. unat i < 512 \<Longrightarrow> load64 m (table_slot f i) AND 1 = 0 \<or> d = 2
        \<or> load64 m (table_slot f i) AND kPageSizeBit \<noteq> 0"
  defines "m' \<equiv> store64 m (table_slot t (idx va d)) v"
  shows "descend m' root va' 0 =
    (if same_path va va' (Suc d) then
       let e = load64 m (table_slot f (idx va' (Suc d)))
       in if e AND 1 = 0 then 0 else leaf_addr (Suc d) e va'
     else descend m root va' 0)"
proof (cases "same_path va va' (Suc d)")
  case True
  have "t \<in> U" using tables_okD(1) [OF ok _ t] d by simp
  then have ft: "f \<noteq> t" "page_aligned t" using f al by auto
  have "load64 m' (table_slot f i) = load64 m (table_slot f i)" if "unat i < 512" for i
    using load_store_slot [OF ft(2) f(2) idx_less that, of m va d v] ft by (simp add: m'_def)
  then have e: "load64 m' (table_slot f (idx va' (Suc d))) = load64 m (table_slot f (idx va' (Suc d)))"
    by (simp add: idx_less)
  have nk: "d < 2 \<Longrightarrow> \<forall>i. unat i < 512 \<longrightarrow> \<not> is_table (load64 m (table_slot f i))"
    using kids by (fastforce simp: is_table_def)
  have "reach m' root va' (Suc d) = Some f"
    using slot_write_link [OF ok al d t f v nk, of "Suc d" va'] True d by (simp add: m'_def del: reach.simps)
  then have "descend m' root va' 0 = descend m' f va' (Suc d)" using d by (intro descend_reach) auto
  also have "\<dots> = (let e = load64 m (table_slot f (idx va' (Suc d)))
       in if e AND 1 = 0 then 0 else leaf_addr (Suc d) e va')"
    unfolding descend.simps [of m' f va' "Suc d"] e using kids [of "idx va' (Suc d)"] d
    by (auto simp: Let_def idx_less)
  finally show ?thesis using True by simp
next
  case False
  then show ?thesis
    using slot_write_load [OF ok al _ t, of _ va' _ v] d
    by (simp add: m'_def) (intro descend_cong, auto simp: entry_eqv_def)
qed

section \<open>Splitting a large page\<close>

lemma frame_table_entry:
  assumes "page_aligned f" and "p AND NOT kPageOffsetMask = 0" and "p AND 1 \<noteq> 0" and "p AND kPageSizeBit = 0"
  shows "is_table (f OR p)" and "(f OR p) AND NOT kPageOffsetMask = f"
proof -
  have f: "f AND mask 12 = 0"
    using assms(1) by (simp add: page_aligned_def and_page_mask take_bit_eq_mask)
  have low: "f AND 1 = 0" "f AND kPageSizeBit = 0"
  proof -
    have "f AND (mask 12 AND x) = 0" for x using f by (simp flip: and.assoc)
    from this [of 1] this [of kPageSizeBit] show "f AND 1 = 0" "f AND kPageSizeBit = 0"
      by (simp_all add: mask_eq_exp_minus_1 kPageSizeBit_def)
  qed
  have "(f OR p) AND x = (f AND x) OR (p AND x)" for x by (rule bit.conj_disj_distrib2)
  then show "is_table (f OR p)" using low assms by (simp add: is_table_def)
  have "f AND NOT (mask 12) = f"
  proof -
    have "f = (f AND mask 12) OR (f AND NOT (mask 12))" by (rule bit_eqI) (auto simp: bit_simps)
    with f show ?thesis by simp
  qed
  then show "(f OR p) AND NOT kPageOffsetMask = f"
    using assms(2) by (simp add: kPageOffsetMask_mask bit.conj_disj_distrib2)
qed

lemma idx_take_bit: "idx va d = take_bit 9 (drop_bit (39 - 9 * d) va)"
  by (simp add: idx_def kMask9Bits_def take_bit_eq_mask mask_eq_exp_minus_1)

lemma split_leaf_bits:
  assumes "9 \<le> s" and "s < 64" and "\<forall>n. bit i n \<longrightarrow> n < 9"
  shows "split_leaf e s i = (e AND NOT (mask s)) OR push_bit (s - 9) i OR split_perm e
    OR (if s > 21 then kPageSizeBit else 0)"
proof -
  have "drop_bit 9 (push_bit s (1 :: u64)) = push_bit (s - 9) 1"
    using assms(1,2) by (intro bit_eqI) (auto simp: bit_simps)
  then have "i * drop_bit 9 (push_bit s 1) = push_bit (s - 9) i"
    by (simp add: push_bit_eq_mult)
  moreover have "push_bit s 1 - 1 = (mask s :: u64)" by (simp add: mask_eq_exp_minus_1 push_bit_eq_mult)
  moreover have "(e AND NOT (mask s)) + push_bit (s - 9) i = (e AND NOT (mask s)) OR push_bit (s - 9) i"
    using assms by (intro disjunctive_add) (fastforce simp: bit_simps)
  ultimately show ?thesis by (simp add: split_leaf_def or.assoc)
qed

lemma bit_push1: "bit (push_bit k (1 :: u64)) n \<longleftrightarrow> n = k \<and> k < 64"
  by (auto simp: bit_simps)

lemma bit_constants:
  "bit (0x1F :: u64) n \<longleftrightarrow> n < 5" "bit (0x80 :: u64) n \<longleftrightarrow> n = 7"
  "bit (0x100 :: u64) n \<longleftrightarrow> n = 8" "bit (0x8000000000000000 :: u64) n \<longleftrightarrow> n = 63"
proof -
  have "bit (mask 5 :: u64) n \<longleftrightarrow> n < 5" by (auto simp: bit_mask_iff)
  moreover have "mask 5 = (0x1F :: u64)" by (simp add: mask_eq_exp_minus_1)
  ultimately show "bit (0x1F :: u64) n \<longleftrightarrow> n < 5" by simp
  show "bit (0x80 :: u64) n \<longleftrightarrow> n = 7" "bit (0x100 :: u64) n \<longleftrightarrow> n = 8"
    "bit (0x8000000000000000 :: u64) n \<longleftrightarrow> n = 63"
    using bit_push1 [of 7 n] bit_push1 [of 8 n] bit_push1 [of 63 n] by simp_all
qed

lemma split_perm_bit: "bit (split_perm e) n \<longleftrightarrow> bit e n \<and> (n < 5 \<or> n = 8 \<or> n = 63)"
  unfolding split_perm_def bit_and_iff bit_or_iff bit_constants bit_push1 by auto

lemma bit_kPageSizeBit: "bit kPageSizeBit n \<longleftrightarrow> n = 7"
  unfolding kPageSizeBit_def by (rule bit_constants)

lemma and_one_bit: "(e :: u64) AND 1 \<noteq> 0 \<longleftrightarrow> bit e 0"
  by (simp add: and_one_eq odd_iff_mod_2_eq_one bit_0)

lemma and_ps_bit: "(e :: u64) AND kPageSizeBit \<noteq> 0 \<longleftrightarrow> bit e 7"
  by (auto simp: bit_eq_iff [of "e AND kPageSizeBit"] bit_and_iff bit_kPageSizeBit)

text \<open>The pieces of a split page translate every address as the large page did.\<close>

lemma split_leaf_addr:
  assumes "d = 1 \<or> d = 2"
  shows "leaf_addr (Suc d) (split_leaf e (39 - 9 * d) (idx va (Suc d))) va = leaf_addr d e va"
proof -
  define s where "s = 39 - 9 * d"
  have s: "9 \<le> s" "s < 64" "39 - 9 * Suc d = s - 9" "21 \<le> s" "s \<le> 30" using assms by (auto simp: s_def)
  have i: "\<forall>n. bit (take_bit 9 (drop_bit (s - 9) va)) n \<longrightarrow> n < 9" by (simp add: bit_simps)
  show ?thesis
    unfolding idx_take_bit leaf_addr_def s_def [symmetric] s(3) split_leaf_bits [OF s(1,2) i]
    using s by (intro bit_eqI)
      (auto simp: bit_simps kAddrMask_mask split_perm_bit bit_kPageSizeBit)
qed

lemma split_leaf_flags:
  assumes "d = 1 \<or> d = 2" and "e AND 1 \<noteq> 0" and "unat i < 512"
  shows "split_leaf e (39 - 9 * d) i AND 1 \<noteq> 0"
    and "split_leaf e (39 - 9 * d) i AND kPageSizeBit \<noteq> 0 \<longleftrightarrow> d = 1"
proof -
  define s where "s = 39 - 9 * d"
  have s: "9 \<le> s" "s < 64" "21 \<le> s" "s > 21 \<longleftrightarrow> d = 1" using assms(1) by (auto simp: s_def)
  have "i = take_bit 9 i" using assms(3) by (simp add: word_unat_eq_iff take_bit_eq_mod unat_mod)
  then have i: "\<forall>n. bit i n \<longrightarrow> n < 9" by (metis bit_take_bit_iff)
  show "split_leaf e (39 - 9 * d) i AND 1 \<noteq> 0"
    unfolding s_def [symmetric] split_leaf_bits [OF s(1,2) i] and_one_bit
    using assms(2) s unfolding and_one_bit by (auto simp: bit_simps split_perm_bit)
  show "split_leaf e (39 - 9 * d) i AND kPageSizeBit \<noteq> 0 \<longleftrightarrow> d = 1"
    unfolding s_def [symmetric] split_leaf_bits [OF s(1,2) i] and_ps_bit
    using s by (auto simp: bit_simps split_perm_bit bit_kPageSizeBit)
qed

section \<open>One step of the walk\<close>

lemma pmmi_alloc_frame_cr3 [simp]: "cr3 (fst (pmmi_alloc_frame s)) = cr3 s"
  by (simp add: pmmi_alloc_frame_def Let_def)

lemma pmmi_alloc_frame_free_count:
  assumes "pmm_ok s U" and "pmmi_alloc_frame s = (s1, f)"
  shows "unat (kPmmFree s) - 1 \<le> unat (kPmmFree s1)"
proof (cases "f = 0")
  case True
  then show ?thesis using pmm.alloc_fail assms by fastforce
next
  case False
  then have "kPmmFree s \<noteq> 0" using pmmi_alloc_frame_zero_iff [OF assms(1)] assms(2) by simp
  moreover have "kPmmFree s1 = kPmmFree s - 1"
    using False assms(2) by (auto simp: pmmi_alloc_frame_def Let_def split: if_splits)
  ultimately show ?thesis by (simp add: unat_minus_one)
qed

lemma zeroed_slot:
  assumes "ram s' = write_bytes m f (replicate 4096 0)" and "unat i < 512"
  shows "load64 (ram s') (table_slot f i) = 0"
proof -
  have "ram s' (table_slot f i + of_nat k) = 0" if "k < 8" for k
  proof -
    have "table_slot f i + of_nat k - f = (table_slot f i - f) + of_nat k" by simp
    moreover have "unat ((table_slot f i - f) + of_nat k) = 8 * unat i + k"
      using slot_offset [OF assms(2), of f] that assms(2) by (simp only: unat_word_ariths) simp
    ultimately have "unat (table_slot f i + of_nat k - f) = 8 * unat i + k" by (simp only:)
    then show ?thesis using that assms(2) by (simp add: assms(1) write_bytes_def)
  qed
  then have "read_bytes (ram s') (table_slot f i) 8 = replicate 8 0"
    by (intro nth_equalityI) auto
  then have "load64 (ram s') (table_slot f i) = le_word (replicate 8 0)" by (simp only: load64_def)
  then show ?thesis by (simp add: eval_nat_numeral)
qed

lemma pt_invD:
  assumes "pt_inv s root U"
  shows "pmm_ok s U" and "tables_ok (ram s) root U" and "\<forall>t \<in> U. page_aligned t"
  using assms pmm.owned_frame by (auto simp: pt_inv_def)

text \<open>
  Linking a frame just allocated and filled into a slot: the common part of the two allocating
  branches of \<open>walk_step\<close> and of the boot loop.
\<close>

lemma alloc_link:
  assumes inv: "pt_inv s root U" and d: "d \<le> 2" and t: "reach (ram s) root va d = Some t"
    and alloc: "pmmi_alloc_frame s = (s1, f)" "f \<noteq> 0"
    and fill: "page_write (ram s1) m f"
    and kids: "\<And>i. unat i < 512 \<Longrightarrow> load64 m (table_slot f i) AND 1 = 0 \<or> d = 2
        \<or> load64 m (table_slot f i) AND kPageSizeBit \<noteq> 0"
    and p: "p AND NOT kPageOffsetMask = 0" "p AND 1 \<noteq> 0" "p AND kPageSizeBit = 0"
  defines "s2 \<equiv> s1\<lparr>ram := store64 m (table_slot t (idx va d)) (f OR p)\<rparr>"
  shows "pt_inv s2 root (insert f U)"
    and "reach (ram s2) root va (Suc d) = Some f"
    and "load64 (ram s2) (table_slot t (idx va d)) = f OR p" and "(f OR p) AND NOT kPageOffsetMask = f"
    and "descend (ram s2) root va' 0 =
    (if same_path va va' (Suc d) then
       let e = load64 m (table_slot f (idx va' (Suc d)))
       in if e AND 1 = 0 then 0 else leaf_addr (Suc d) e va'
     else descend (ram s) root va' 0)"
    and "j \<le> 3 \<Longrightarrow> reach (ram s2) root va' j = (if same_path va va' (Suc d) \<and> d < j
      then if j = Suc d then Some f else None else reach (ram s) root va' j)"
proof -
  note inv = pt_invD [OF inv]
  note fresh = pmm.alloc_fresh [OF inv(1) alloc]
  have f: "f \<notin> U" "page_aligned f" using fresh pmm.owned_frame by blast+
  have w: "page_write (ram s) m f"
    using pmm.alloc_page_write [OF inv(1) alloc] fill by (rule page_write_trans)
  note out = w f(2) inv(3,2) f(1)
  have ok: "tables_ok m root U" by (rule tables_ok_outside [OF out])
  have t': "reach m root va d = Some t" using reach_outside [OF out, of d va] d t by simp
  note v = frame_table_entry [OF f(2) p]
  have nk: "d < 2 \<Longrightarrow> \<forall>i. unat i < 512 \<longrightarrow> \<not> is_table (load64 m (table_slot f i))"
    using kids by (fastforce simp: is_table_def)
  have tU: "t \<in> U" using tables_okD(1) [OF inv(2) _ t] d by simp
  have "pmm_ok (s1\<lparr>ram := m\<rparr>) (insert f U)"
    using fresh fill by (intro pmm.write_frame [of s1 _ f]) auto
  then have "pmm_ok s2 (insert f U)"
    using pmm.write_frame [of "s1\<lparr>ram := m\<rparr>" "insert f U" t "ram s2"] tU
      page_write_slot_store [OF idx_less] by (simp add: s2_def)
  moreover have "tables_ok (ram s2) root (insert f U)"
    using slot_write_link_ok [OF ok inv(3) d t' f v nk] by (simp add: s2_def)
  ultimately show "pt_inv s2 root (insert f U)" by (simp add: pt_inv_def)
  show reach: "reach (ram s2) root va' j = (if same_path va va' (Suc d) \<and> d < j
      then if j = Suc d then Some f else None else reach (ram s) root va' j)" if "j \<le> 3" for j va'
    using slot_write_link [OF ok inv(3) d t' f v nk that, of va'] reach_outside [OF out, of j va'] that
    by (simp add: s2_def)
  show "reach (ram s2) root va (Suc d) = Some f"
    using reach [of "Suc d" va] d by (simp add: same_path_def)
  show "load64 (ram s2) (table_slot t (idx va d)) = f OR p" by (simp add: s2_def mem_simps)
  show "(f OR p) AND NOT kPageOffsetMask = f" by (rule v(2))
  show "descend (ram s2) root va' 0 =
    (if same_path va va' (Suc d) then
       let e = load64 m (table_slot f (idx va' (Suc d)))
       in if e AND 1 = 0 then 0 else leaf_addr (Suc d) e va'
     else descend (ram s) root va' 0)"
    using slot_write_link_descend [OF ok inv(3) d t' f v kids, of va'] descend_outside [OF out, of va']
    by (simp add: s2_def)
qed

lemma kTablePerm_facts:
  "kTablePerm AND NOT kPageOffsetMask = 0" "kTablePerm AND 1 \<noteq> 0" "kTablePerm AND kPageSizeBit = 0"
  by (simp_all add: kTablePerm_def kPageOffsetMask_def kPageSizeBit_def)

text \<open>Nothing below a slot that holds no table pointer: the translation is decided there.\<close>

lemma descend_at:
  assumes "reach m root va d = Some t" and "d \<le> 2" and "same_path va va' (Suc d)"
    and "\<not> is_table (load64 m (table_slot t (idx va d)))"
  shows "descend m root va' 0 = (let e = load64 m (table_slot t (idx va d))
      in if e AND 1 = 0 then 0 else leaf_addr d e va')"
proof -
  have "reach m root va' d = Some t"
    using assms(1,3) reach_same_path [of va va' d m root] by (simp add: same_path_Suc)
  then have "descend m root va' 0 = descend m t va' d" using assms(2) by (intro descend_reach) auto
  moreover have "idx va' d = idx va d" using assms(3) by (simp add: same_path_Suc)
  ultimately show ?thesis
    unfolding descend.simps [of m t va' d] using assms(4) by (auto simp: is_table_def Let_def)
qed

definition walk_post :: "'a hw_scheme \<Rightarrow> 'a hw_scheme \<Rightarrow> u64 \<Rightarrow> u64 set \<Rightarrow> bool" where
  "walk_post s s' root U \<longleftrightarrow> (\<exists>U'. U \<subseteq> U' \<and> pt_inv s' root U') \<and> cr3 s' = cr3 s
     \<and> (\<forall>va. descend (ram s') root va 0 = descend (ram s) root va 0)"

lemma walk_post_refl: "pt_inv s root U \<Longrightarrow> walk_post s s root U"
  by (auto simp: walk_post_def)

lemma link_missing:
  assumes inv: "pt_inv s root U" and d: "d \<le> 2" and t: "reach (ram s) root va d = Some t"
    and e: "load64 (ram s) (table_slot t (idx va d)) AND 1 = 0"
    and alloc: "pmmi_alloc_frame s = (s1, f)" "f \<noteq> 0"
    and p: "p AND NOT kPageOffsetMask = 0" "p AND 1 \<noteq> 0" "p AND kPageSizeBit = 0"
  defines "s2 \<equiv> s1\<lparr>ram := store64 (ram s1) (table_slot t (idx va d)) (f OR p)\<rparr>"
  shows "walk_post s s2 root U \<and> reach (ram s2) root va (Suc d) = Some f
    \<and> load64 (ram s2) (table_slot t (idx va d)) AND NOT kPageOffsetMask = f"
proof -
  note z = pmm.alloc_fresh [OF pt_invD(1) [OF inv] alloc]
  have 0: "load64 (ram s1) (table_slot f i) = 0" if "unat i < 512" for i
    using zeroed_slot [of s1 "ram s" f i] z that by blast
  have "page_write (ram s1) (ram s1) f" by (simp add: page_write_def)
  note link = alloc_link [OF inv d t alloc this _ p, folded s2_def]
  have "descend (ram s2) root va' 0 = descend (ram s) root va' 0" for va'
    using link(5) [of va'] 0 idx_less [of va' "Suc d"] descend_at [OF t d, of va'] e
    by (simp add: Let_def is_table_def)
  moreover have "cr3 s2 = cr3 s" using pmmi_alloc_frame_cr3 [of s] alloc by (simp add: s2_def)
  ultimately show ?thesis using link(1-4) 0 unfolding walk_post_def by auto
qed

lemma walk_step_split:
  assumes inv: "pt_inv s root U" and d: "d \<le> 2" and t: "reach (ram s) root va d = Some t"
    and e: "e = load64 (ram s) (table_slot t (idx va d))" "e AND 1 \<noteq> 0" "e AND kPageSizeBit \<noteq> 0"
    and alloc: "pmmi_alloc_frame s = (s1, f)" "f \<noteq> 0"
  defines "m \<equiv> leaf_loop (ram s1) f (split_leaf e (39 - 9 * d)) 0 512"
  defines "s2 \<equiv> s1\<lparr>ram := store64 m (table_slot t (idx va d)) (f OR kTablePerm)\<rparr>"
  shows "walk_post s s2 root U \<and> reach (ram s2) root va (Suc d) = Some f
    \<and> load64 (ram s2) (table_slot t (idx va d)) AND NOT kPageOffsetMask = f"
proof -
  have d12: "d = 1 \<or> d = 2"
  proof (rule ccontr)
    assume "\<not> ?thesis"
    with d have "d = 0" by auto
    with t e tables_okD(3) [OF pt_invD(2) [OF inv], of va e] show False by (simp add: entry_def)
  qed
  note fresh = pmm.alloc_fresh [OF pt_invD(1) [OF inv] alloc]
  have f: "page_aligned f" using fresh pmm.owned_frame by blast
  have w: "page_write (ram s1) m f" unfolding m_def by (rule leaf_loop_page_write) simp
  have leaf: "load64 m (table_slot f i) = split_leaf e (39 - 9 * d) i" if "unat i < 512" for i
    unfolding m_def by (subst leaf_loop_load) (use f that in auto)
  have kids: "load64 m (table_slot f i) AND 1 = 0 \<or> d = 2 \<or> load64 m (table_slot f i) AND kPageSizeBit \<noteq> 0"
    if "unat i < 512" for i
    using split_leaf_flags(2) [OF d12 e(2) that] d12 leaf [OF that] by auto
  note link = alloc_link [OF inv d t alloc w kids kTablePerm_facts, folded s2_def]
  have "descend (ram s2) root va' 0 = descend (ram s) root va' 0" for va'
    using link(5) [of va'] leaf [OF idx_less] split_leaf_flags(1) [OF d12 e(2) idx_less, of va' "Suc d"]
      split_leaf_addr [OF d12] descend_at [OF t d, of va'] e(2,3) unfolding e(1) [symmetric]
    by (simp add: Let_def is_table_def)
  moreover have "cr3 s2 = cr3 s" using pmmi_alloc_frame_cr3 [of s] alloc by (simp add: s2_def)
  ultimately show ?thesis using link(1-4) unfolding walk_post_def by auto
qed

lemma or_kTablePerm:
  assumes "is_table e"
  shows "is_table (e OR kTablePerm)" and "(e OR kTablePerm) AND NOT kPageOffsetMask = e AND NOT kPageOffsetMask"
  using assms kTablePerm_facts by (simp_all add: is_table_def bit.conj_disj_distrib2 or_eq_0_iff)

lemma walk_step_table:
  assumes inv: "pt_inv s root U" and d: "d \<le> 2" and t: "reach (ram s) root va d = Some t"
    and e: "e = load64 (ram s) (table_slot t (idx va d))" "is_table e"
  defines "s2 \<equiv> s\<lparr>ram := store64 (ram s) (table_slot t (idx va d)) (e OR kTablePerm)\<rparr>"
  shows "walk_post s s2 root U
    \<and> reach (ram s2) root va (Suc d) = Some (load64 (ram s2) (table_slot t (idx va d)) AND NOT kPageOffsetMask)
    \<and> reach (ram s) root va (Suc d) = Some (load64 (ram s2) (table_slot t (idx va d)) AND NOT kPageOffsetMask)"
proof -
  note inv' = pt_invD [OF inv]
  have eqv: "entry_eqv d (load64 (ram s) (table_slot t (idx va d))) (e OR kTablePerm)"
    using e d or_kTablePerm [OF e(2)] by (simp add: entry_eqv_def)
  have d3: "d \<le> 3" using d by simp
  note same = slot_write_eqv [OF inv'(2,3) d3 t eqv]
  have tU: "t \<in> U" using tables_okD(1) [OF inv'(2) d3 t] .
  have "pmm_ok s2 U" unfolding s2_def
    using pmm.write_frame [OF inv'(1) tU] page_write_slot_store [OF idx_less] by blast
  then have "pt_inv s2 root U" using same(1) by (simp add: pt_inv_def s2_def)
  moreover have "reach (ram s) root va (Suc d) = Some (load64 (ram s2) (table_slot t (idx va d)) AND NOT kPageOffsetMask)"
    using t e or_kTablePerm [OF e(2)] by (simp add: s2_def mem_simps)
  moreover have "reach (ram s2) root va (Suc d) = reach (ram s) root va (Suc d)"
    using same(3) [of "Suc d" va] d by (simp add: s2_def del: reach.simps)
  moreover have "descend (ram s2) root va' 0 = descend (ram s) root va' 0" for va'
    using same(2) by (simp add: s2_def)
  ultimately show ?thesis by (auto simp: walk_post_def s2_def simp del: reach.simps)
qed

lemma walk_step_ok:
  assumes inv: "pt_inv s root U" and d: "d \<le> 2" and t: "reach (ram s) root va d = Some t"
    and step: "walk_step s (table_slot t (idx va d)) alloc (39 - 9 * d) = (s', ok)"
  shows "walk_post s s' root U"
    and "ok \<Longrightarrow> reach (ram s') root va (Suc d) = Some (load64 (ram s') (table_slot t (idx va d)) AND NOT kPageOffsetMask)"
    and "\<not> alloc \<Longrightarrow> ok \<longleftrightarrow> reach (ram s) root va (Suc d) \<noteq> None"
    and "alloc \<Longrightarrow> kPmmFree s \<noteq> 0 \<Longrightarrow> ok"
    and "\<not> alloc \<Longrightarrow> j \<le> 4 \<Longrightarrow> reach (ram s') root va j = reach (ram s) root va j"
    and "unat (kPmmFree s) - 1 \<le> unat (kPmmFree s')"
proof -
  define slot where "slot = table_slot t (idx va d)"
  define e where "e = load64 (ram s) slot"
  obtain s1 f where alloc': "pmmi_alloc_frame s = (s1, f)" by fastforce
  have fail: "f = 0 \<Longrightarrow> s1 = s" using pmm.alloc_fail [OF pt_invD(1) [OF inv]] alloc' by blast
  have free: "f = 0 \<longleftrightarrow> kPmmFree s = 0" using pmmi_alloc_frame_zero_iff [OF pt_invD(1) [OF inv]] alloc' by simp
  consider (missing) "e AND 1 = 0" | (large) "e AND 1 \<noteq> 0" "e AND kPageSizeBit \<noteq> 0" | (tab) "is_table e"
    by (auto simp: is_table_def)
  then have "walk_post s s' root U
    \<and> (ok \<longrightarrow> reach (ram s') root va (Suc d) = Some (load64 (ram s') slot AND NOT kPageOffsetMask))
    \<and> (\<not> alloc \<longrightarrow> ok = (reach (ram s) root va (Suc d) \<noteq> None)) \<and> (alloc \<longrightarrow> kPmmFree s \<noteq> 0 \<longrightarrow> ok)"
  proof cases
    case missing
    have "\<not> is_table e" using missing by (simp add: is_table_def)
    then have none: "reach (ram s) root va (Suc d) = None" using t by (simp add: e_def slot_def)
    show ?thesis
      using step missing link_missing [OF inv d t _ alloc' _ kTablePerm_facts] fail walk_post_refl [OF inv] none free
      unfolding walk_step_def slot_def [symmetric] e_def [symmetric] alloc'
      by (auto simp: Let_def simp del: reach.simps split: if_splits)
  next
    case large
    have "\<not> is_table e" using large by (simp add: is_table_def)
    then have none: "reach (ram s) root va (Suc d) = None" using t by (simp add: e_def slot_def)
    show ?thesis
      using step large walk_step_split [OF inv d t _ _ _ alloc', of e] fail walk_post_refl [OF inv] none free
      unfolding walk_step_def slot_def [symmetric] e_def [symmetric] alloc'
      by (auto simp: Let_def simp del: reach.simps split: if_splits)
  next
    case tab
    then show ?thesis
      using step walk_step_table [OF inv d t, of e] unfolding walk_step_def slot_def [symmetric] e_def [symmetric]
      by (auto simp: Let_def is_table_def simp del: reach.simps split: if_splits)
  qed
  then show "walk_post s s' root U"
    "ok \<Longrightarrow> reach (ram s') root va (Suc d) = Some (load64 (ram s') (table_slot t (idx va d)) AND NOT kPageOffsetMask)"
    "\<not> alloc \<Longrightarrow> ok \<longleftrightarrow> reach (ram s) root va (Suc d) \<noteq> None"
    "alloc \<Longrightarrow> kPmmFree s \<noteq> 0 \<Longrightarrow> ok"
    by (auto simp: slot_def simp del: reach.simps)
  show "reach (ram s') root va j = reach (ram s) root va j" if "\<not> alloc" "j \<le> 4"
  proof (cases "is_table e")
    case True
    then have "entry_eqv d (load64 (ram s) (table_slot t (idx va d))) (e OR kTablePerm)"
      using d or_kTablePerm by (simp add: entry_eqv_def e_def slot_def)
    from slot_write_eqv(3) [OF pt_invD(2,3) [OF inv] _ t this that(2)] True step that d
    show ?thesis by (auto simp: walk_step_def Let_def is_table_def slot_def e_def)
  next
    case False
    then show ?thesis using step that
      by (auto simp: walk_step_def Let_def is_table_def slot_def e_def split: if_splits)
  qed
  have "unat (kPmmFree s) - 1 \<le> unat (kPmmFree s1)"
    using pmmi_alloc_frame_free_count [OF pt_invD(1) [OF inv] alloc'] .
  then show "unat (kPmmFree s) - 1 \<le> unat (kPmmFree s')"
    using step alloc' by (auto simp: walk_step_def Let_def split: if_splits)
qed

section \<open>The whole walk\<close>

lemma slot_nonzero:
  assumes "pt_inv s root U" and "t \<in> U" and "unat i < 512"
  shows "table_slot t i \<noteq> 0"
proof
  assume "table_slot t i = 0"
  then have "in_page t 0" using slot_in_page [OF assms(3), of t] by simp
  moreover have "in_page 0 0" "page_aligned 0" by (simp_all add: in_page_def page_aligned_def)
  ultimately have "t = 0" using in_page_unique [of t 0 0] pt_invD(3) [OF assms(1)] assms(2) by blast
  then show False using pmm.owned_frame [OF pt_invD(1) [OF assms(1)] assms(2)] by simp
qed

lemma walk_post_trans: "walk_post s s1 root U \<Longrightarrow>
    (\<And>V. pt_inv s1 root V \<Longrightarrow> walk_post s1 s2 root V) \<Longrightarrow> walk_post s s2 root U"
  unfolding walk_post_def by (metis order_trans)

lemma walk_loop_ok:
  assumes "pt_inv s root U" and "d \<le> 3" and "reach (ram s) root va d = Some t"
    and "walk_loop s t va alloc (39 - 9 * d) = (s', slot)"
  shows "walk_post s s' root U
    \<and> (slot \<noteq> 0 \<longrightarrow> (\<exists>t'. reach (ram s') root va 3 = Some t' \<and> slot = table_slot t' (idx va 3)))
    \<and> (\<not> alloc \<longrightarrow> reach (ram s') root va 3 = reach (ram s) root va 3 \<and> (slot \<noteq> 0 \<longleftrightarrow> reach (ram s) root va 3 \<noteq> None))
    \<and> (alloc \<longrightarrow> 3 - d \<le> unat (kPmmFree s) \<longrightarrow> slot \<noteq> 0)"
  using assms
proof (induction "3 - d" arbitrary: d s t U)
  case 0
  then have d: "d = 3" by simp
  then have "t \<in> U" using tables_okD(1) [OF pt_invD(2), of s root U 3] 0 by auto
  moreover have "s' = s" "slot = table_slot t (idx va 3)"
    using 0(5) by (simp_all add: d walk_loop.simps [of s t va alloc 12] idx_def)
  ultimately show ?case
    using 0 slot_nonzero [OF 0(2) _ idx_less] walk_post_refl d by auto
next
  case (Suc n)
  then have d: "d \<le> 2" by simp
  have sh: "12 < 39 - 9 * d" "39 - 9 * d - 9 = 39 - 9 * Suc d" using d by simp_all
  define sl where "sl = table_slot t (idx va d)"
  obtain s1 ok where step: "walk_step s sl alloc (39 - 9 * d) = (s1, ok)" by fastforce
  note ws = walk_step_ok [OF Suc.prems(1) d Suc.prems(3) step [unfolded sl_def]]
  have rest: "walk_loop s t va alloc (39 - 9 * d) = (if \<not> ok then (s1, 0)
      else walk_loop s1 (load64 (ram s1) sl AND NOT kPageOffsetMask) va alloc (39 - 9 * Suc d))"
    using step sh unfolding walk_loop.simps [of s t va alloc "39 - 9 * d"]
    by (simp add: idx_def sl_def Let_def)
  show ?case
  proof (cases ok)
    case False
    then have s': "s' = s1" "slot = 0" using rest Suc.prems(4) by simp_all
    have "\<not> alloc \<Longrightarrow> reach (ram s) root va 3 = None"
      using ws(3) False reach_mono [of "ram s" root va "Suc d" 3] d by simp
    moreover have "alloc \<Longrightarrow> \<not> 3 - d \<le> unat (kPmmFree s)"
      using ws(4) False d by (cases "kPmmFree s = 0") auto
    ultimately show ?thesis using s' ws(1) ws(5) [of 3] by auto
  next
    case True
    obtain V where V: "pt_inv s1 root V" using ws(1) by (auto simp: walk_post_def)
    have next': "walk_loop s1 (load64 (ram s1) sl AND NOT kPageOffsetMask) va alloc (39 - 9 * Suc d) = (s', slot)"
      using rest True Suc.prems(4) by simp
    have r: "reach (ram s1) root va (Suc d) = Some (load64 (ram s1) sl AND NOT kPageOffsetMask)"
      using ws(2) True by (simp add: sl_def)
    have n: "n = 3 - Suc d" "Suc d \<le> 3" using Suc(2) d by simp_all
    note IH = Suc(1) [OF n(1) _ n(2) r next']
    have "walk_post s s' root U" using ws(1) IH by (blast intro: walk_post_trans)
    then show ?thesis using IH [OF V] ws(5) [of 3] ws(6) n(1) Suc(2) by auto
  qed
qed

section \<open>Writing a leaf\<close>

lemma leaf_write_ok:
  fixes v :: u64
  assumes inv: "pt_inv s root U" and t: "reach (ram s) root va 3 = Some t"
  defines "s' \<equiv> s\<lparr>ram := store64 (ram s) (table_slot t (idx va 3)) v\<rparr>"
  shows "pt_inv s' root U"
    and "descend (ram s') root va' 0 = (if same_path va va' 4
      then if v AND 1 = 0 then 0 else leaf_addr 3 v va' else descend (ram s) root va' 0)"
proof -
  note inv' = pt_invD [OF inv]
  have reach: "reach (ram s') root va' j = reach (ram s) root va' j" if "j \<le> 3" for va' j
    using slot_write_reach [OF inv'(2,3) _ t, of j va' v] that by (simp add: s'_def)
  note load = slot_write_load [OF inv'(2,3) _ t, of _ _ _ v]
  have entry: "entry (ram s') root va' 0 = entry (ram s) root va' 0" for va'
    using load [of 0 va' root] by (simp add: entry_def s'_def)
  have "tables_ok (ram s') root U"
    using inv'(2) unfolding tables_ok_def by (simp add: reach entry cong: imp_cong)
  moreover have "t \<in> U" using tables_okD(1) [OF inv'(2) _ t] by simp
  then have "pmm_ok s' U" unfolding s'_def
    using pmm.write_frame [OF inv'(1)] page_write_slot_store [OF idx_less] by blast
  ultimately show "pt_inv s' root U" by (simp add: pt_inv_def)
  show "descend (ram s') root va' 0 = (if same_path va va' 4
      then if v AND 1 = 0 then 0 else leaf_addr 3 v va' else descend (ram s) root va' 0)"
  proof (cases "same_path va va' 4")
    case True
    then have p: "same_path va va' 3" "idx va 3 = idx va' 3"
      using same_path_Suc [of va va' 3] by simp_all
    then have "reach (ram s') root va' 3 = Some t" using reach [of 3 va'] reach_same_path t by simp
    then have "descend (ram s') root va' 0 = descend (ram s') t va' 3" by (intro descend_reach) auto
    moreover have "load64 (ram s') (table_slot t (idx va' 3)) = v" by (simp add: s'_def p(2) mem_simps)
    ultimately show ?thesis unfolding descend.simps [of _ t va' 3] using True by (simp add: Let_def)
  next
    case False
    then have "\<not> same_path va va' (Suc 3)" by simp
    then show ?thesis using load [of _ va'] False
      by (simp add: s'_def) (intro descend_cong, auto simp: entry_eqv_def)
  qed
qed

lemma flag_bit_bit: "bit (flag_bit flags flag p) n \<longleftrightarrow> flags AND flag \<noteq> 0 \<and> n = p \<and> p < 64"
  by (auto simp: flag_bit_def bit_exp_iff)

lemma make_pte_present: "make_pte pa flags AND 1 \<noteq> 0 \<longleftrightarrow> flags AND kMMFlagsPresent \<noteq> 0"
  unfolding and_one_bit make_pte_def by (simp add: bit_or_iff flag_bit_bit bit_push_bit_iff)

lemma make_pte_addr:
  "leaf_addr 3 (make_pte pa flags) va = (pa AND kAddrMask) OR (va AND kPageOffsetMask)"
  unfolding leaf_addr_def make_pte_def kAddrMask_mask kPageOffsetMask_mask
  by (intro bit_eqI) (auto simp: bit_simps flag_bit_bit)

lemma mm_walk_page_ok:
  assumes inv: "pt_inv s root U" and root: "r AND NOT kPageOffsetMask = root"
    and walk: "mm_walk_page s r va alloc = (s', slot)"
  shows "walk_post s s' root U"
    and "slot \<noteq> 0 \<Longrightarrow> \<exists>t. reach (ram s') root va 3 = Some t \<and> slot = table_slot t (idx va 3)"
    and "\<not> alloc \<Longrightarrow> reach (ram s') root va 3 = reach (ram s) root va 3 \<and> (slot \<noteq> 0 \<longleftrightarrow> reach (ram s) root va 3 \<noteq> None)"
    and "alloc \<Longrightarrow> 3 \<le> unat (kPmmFree s) \<Longrightarrow> slot \<noteq> 0"
proof -
  have "root \<in> U" using tables_okD(1) [OF pt_invD(2) [OF inv], of 0] by simp
  then have "r \<noteq> 0" using pmm.owned_frame [OF pt_invD(1) [OF inv], of root] root by auto
  then have "walk_loop s root va alloc (39 - 9 * 0) = (s', slot)"
    using walk root by (simp add: mm_walk_page_def)
  from walk_loop_ok [OF inv _ _ this]
  show "walk_post s s' root U"
    "slot \<noteq> 0 \<Longrightarrow> \<exists>t. reach (ram s') root va 3 = Some t \<and> slot = table_slot t (idx va 3)"
    "\<not> alloc \<Longrightarrow> reach (ram s') root va 3 = reach (ram s) root va 3 \<and> (slot \<noteq> 0 \<longleftrightarrow> reach (ram s) root va 3 \<noteq> None)"
    "alloc \<Longrightarrow> 3 \<le> unat (kPmmFree s) \<Longrightarrow> slot \<noteq> 0"
    by auto
qed

section \<open>A fresh root\<close>

lemma fresh_root:
  assumes ok: "pmm_ok s U" and alloc: "pmmi_alloc_frame s = (s1, f)" "f \<noteq> 0"
  shows "pt_inv s1 f (insert f U)" and "descend (ram s1) f va 0 = 0"
proof -
  note fresh = pmm.alloc_fresh [OF ok alloc]
  have z: "load64 (ram s1) (table_slot f (idx va 0)) = 0" for va
    using zeroed_slot [of s1 "ram s" f] fresh idx_less by blast
  then show "descend (ram s1) f va 0 = 0" by (simp add: descend.simps)
  have "reach (ram s1) f va 1 = None" for va using z by (simp add: is_table_def)
  then have none: "0 < d \<Longrightarrow> reach (ram s1) f va d = None" for va d
    using reach_mono [of "ram s1" f va 1 d] by simp
  have only: "reach (ram s1) f va d = Some t \<longleftrightarrow> d = 0 \<and> t = f" for va d t
    using none [of d va] by (cases "d = 0") auto
  have "tables_ok (ram s1) f (insert f U)"
    unfolding tables_ok_def only using z by (auto simp: entry_def same_path_def)
  then show "pt_inv s1 f (insert f U)" using fresh by (simp add: pt_inv_def)
qed

lemma fresh_root_cr3: "f \<in> U \<Longrightarrow> pt_inv s f U \<Longrightarrow> pt_inv (s\<lparr>cr3 := f\<rparr>) (f AND NOT kPageOffsetMask) U"
proof -
  assume f: "f \<in> U" and inv: "pt_inv s f U"
  then have "page_aligned f" using pt_invD(3) by blast
  then have "f AND NOT kPageOffsetMask = f"
    using frame_table_entry(2) [of f kTablePerm, OF _ kTablePerm_facts] kTablePerm_facts(1)
    by (simp add: bit.conj_disj_distrib2)
  moreover have "pmm_ok (s\<lparr>cr3 := f\<rparr>) U" using pt_invD(1) [OF inv] by (simp add: pmm_ok_def pmm_inv_def)
  ultimately show ?thesis using inv by (simp add: pt_inv_def)
qed

lemma small_hw_facts:
  "pt_inv small_hw (cr3 small_hw AND NOT kPageOffsetMask) {0x1000}"
  "cr3 small_hw = 0x1000" "kPmmFree small_hw = 15"
proof -
  define s0 :: hw where "s0 = pmmi_init 0x1000 0x10000 \<lparr>ram = (\<lambda>_. 0xAA), kPmmBase = 0, kPmmCursor = 0, kPmmEnd = 0,
     kPmmFreeHead = 0, kPmmFree = 0, kPmmUsed = 0, cr3 = 0\<rparr>"
  have fields: "kPmmCursor s0 = 0x1000" "kPmmEnd s0 = 0x11000" "kPmmFreeHead s0 = 0" "kPmmFree s0 = 16"
    by (simp_all add: s0_def pmmi_init_def kPmmAlign_def kPageSize_def)
  then have r: "snd (pmmi_alloc_frame s0) = 0x1000" by (simp add: pmmi_alloc_frame_def)
  have hw: "small_hw = (fst (pmmi_alloc_frame s0))\<lparr>cr3 := 0x1000\<rparr>"
    unfolding small_hw_def s0_def [symmetric] using r by (simp add: case_prod_beta)
  have "pmm_inv s0 [] {}" unfolding s0_def
    by (rule pmmi_init_inv) (simp_all add: kPmmAlign_def kPageSize_def)
  then have ok: "pmm_ok s0 {}" by (auto simp: pmm_ok_def)
  have alloc: "pmmi_alloc_frame s0 = (fst (pmmi_alloc_frame s0), 0x1000)" using r by (simp add: prod_eq_iff)
  show c: "cr3 small_hw = 0x1000" by (simp add: hw)
  show "kPmmFree small_hw = 15" using fields by (simp add: hw pmmi_alloc_frame_def)
  show "pt_inv small_hw (cr3 small_hw AND NOT kPageOffsetMask) {0x1000}"
    unfolding c unfolding hw by (rule fresh_root_cr3, simp, rule fresh_root(1) [OF ok alloc]) simp
qed

lemma mm_map_page_in_post:
  assumes inv: "pt_inv s (cr3 s AND NOT kPageOffsetMask) U"
    and map: "mm_map_page_in s (cr3 s) va pa flags = (s', r)"
  shows "(\<exists>U'. U \<subseteq> U' \<and> pt_inv s' (cr3 s' AND NOT kPageOffsetMask) U')
    \<and> (\<forall>va'. mm_get_page_addr s' va' =
        (if r = kErrorSuccess \<and> same_path va va' 4
         then if flags AND kMMFlagsPresent = 0 then 0
              else (pa AND kAddrMask) OR (va' AND kPageOffsetMask)
         else mm_get_page_addr s va'))
    \<and> (r = kErrorSuccess \<longrightarrow> reach (ram s') (cr3 s' AND NOT kPageOffsetMask) va 3 \<noteq> None)"
proof (cases "pa = 0 \<or> pa AND (kPageSize - 1) \<noteq> 0")
  case True
  then have "s' = s" "r \<noteq> kErrorSuccess"
    using map by (auto simp: mm_map_page_in_def kerror_defs split: if_splits)
  then show ?thesis using inv by auto
next
  case False
  define root where "root = cr3 s AND NOT kPageOffsetMask"
  obtain s1 slot where walk: "mm_walk_page s (cr3 s) va True = (s1, slot)" by fastforce
  note w = mm_walk_page_ok [OF inv refl walk, folded root_def]
  obtain V where V: "U \<subseteq> V" "pt_inv s1 root V" and cr3: "cr3 s1 = cr3 s"
    and same: "\<And>va'. descend (ram s1) root va' 0 = descend (ram s) root va' 0"
    using w(1) by (auto simp: walk_post_def)
  note get = mm_get_page_addr_descend [OF pt_invD(2)]
  show ?thesis
  proof (cases "slot = 0")
    case True
    then have "s' = s1" "r \<noteq> kErrorSuccess" using map False walk by (auto simp: mm_map_page_in_def kerror_defs)
    then show ?thesis using V cr3 same get [OF inv] get [of s1 V] by (auto simp: root_def)
  next
    case nz: False
    then obtain t where t: "reach (ram s1) root va 3 = Some t" "slot = table_slot t (idx va 3)" using w(2) by blast
    have s': "s' = s1\<lparr>ram := store64 (ram s1) (table_slot t (idx va 3)) (make_pte pa flags)\<rparr>" "r = kErrorSuccess"
      using map False walk nz t by (auto simp: mm_map_page_in_def)
    note leaf = leaf_write_ok [OF V(2) t(1), of "make_pte pa flags", folded s']
    have "pt_inv s' (cr3 s' AND NOT kPageOffsetMask) V" using leaf(1) cr3 by (simp add: s' root_def)
    moreover from get [OF this] leaf(2) have "mm_get_page_addr s' va' = (if same_path va va' 4
        then if flags AND kMMFlagsPresent = 0 then 0 else (pa AND kAddrMask) OR (va' AND kPageOffsetMask)
        else mm_get_page_addr s va')" for va'
      using make_pte_present [of pa flags] make_pte_addr [of pa flags] same get [OF inv] cr3
      by (simp add: root_def s' )
    moreover have "reach (ram s') (cr3 s' AND NOT kPageOffsetMask) va 3 = Some t"
      using slot_write_reach [OF pt_invD(2,3) [OF V(2)] _ t(1), of 3 va] t(1) cr3
      by (simp add: s' root_def)
    ultimately show ?thesis using V(1) s'(2) by auto
  qed
qed


lemma same_page_path:
  assumes "drop_bit 12 va = drop_bit 12 va'"
  shows "same_path va va' 4"
proof -
  have split: "drop_bit (39 - 9 * j) x = drop_bit (27 - 9 * j) (drop_bit 12 x)" if "j < 4" for j and x :: u64
    using that by (simp add: drop_bit_drop_bit)
  have "idx va j = idx va' j" if "j < 4" for j
    unfolding idx_def split [OF that] assms ..
  then show ?thesis by (simp add: same_path_def)
qed

lemma small_hw_map:
  "\<exists>s'. mm_map_page_in small_hw (cr3 small_hw) 0x400000 0x200000 (kMMFlagsPresent OR kMMFlagsWr) = (s', kErrorSuccess)"
proof -
  obtain s1 slot where walk: "mm_walk_page small_hw (cr3 small_hw) 0x400000 True = (s1, slot)" by fastforce
  have "slot \<noteq> 0" using mm_walk_page_ok(4) [OF small_hw_facts(1) refl walk] by (simp add: small_hw_facts)
  then show ?thesis using walk by (simp add: mm_map_page_in_def kPageSize_def)
qed

section \<open>Properties\<close>

text \<open>
  C1. Mapping is exact.  On tables that satisfy the invariant, \<open>mm_map_page_in\<close> keeps the
  invariant and, whatever tables it allocated and large pages it split on the way, leaves the
  translation of every address outside the page as it was.  On success the addresses of the
  page translate to the frame (its bits 12 to 51) plus the page offset if the present flag is
  given and to nothing otherwise; on failure they translate as before.
\<close>

theorem mm_map_page_in_exact:
  assumes inv: "pt_inv s (cr3 s AND NOT kPageOffsetMask) U"
    and map: "mm_map_page_in s (cr3 s) va pa flags = (s', r)"
  shows "(\<exists>U'. U \<subseteq> U' \<and> pt_inv s' (cr3 s' AND NOT kPageOffsetMask) U')
    \<and> (\<forall>va'. mm_get_page_addr s' va' =
        (if r = kErrorSuccess \<and> same_path va va' 4
         then if flags AND kMMFlagsPresent = 0 then 0
              else (pa AND kAddrMask) OR (va' AND kPageOffsetMask)
         else mm_get_page_addr s va'))"
  using mm_map_page_in_post [OF inv map] by blast

theorem mm_map_page_in_exact_witness:
  "\<exists>s'. mm_map_page_in small_hw (cr3 small_hw) 0x400000 0x200000 (kMMFlagsPresent OR kMMFlagsWr) = (s', kErrorSuccess)
     \<and> mm_get_page_addr s' 0x400123 = 0x200123"
proof -
  obtain s' where map: "mm_map_page_in small_hw (cr3 small_hw) 0x400000 0x200000 (kMMFlagsPresent OR kMMFlagsWr) = (s', kErrorSuccess)"
    using small_hw_map by blast
  have "mm_get_page_addr s' 0x400123 = 0x200123"
    using mm_map_page_in_exact [OF small_hw_facts(1) map] same_page_path [of "0x400000" "0x400123"]
    by (simp add: kMMFlagsPresent_def kMMFlagsWr_def kAddrMask_def kPageOffsetMask_def)
  then show ?thesis using map by auto
qed

lemma mm_map_page_in_success:
  assumes inv: "pt_inv s (cr3 s AND NOT kPageOffsetMask) U"
    and "pa \<noteq> 0" and "pa AND (kPageSize - 1) = 0" and "3 \<le> unat (kPmmFree s)"
  shows "snd (mm_map_page_in s (cr3 s) va pa flags) = kErrorSuccess"
proof -
  obtain s1 slot where walk: "mm_walk_page s (cr3 s) va True = (s1, slot)" by fastforce
  have "slot \<noteq> 0" using mm_walk_page_ok(4) [OF inv refl walk] assms(4) by simp
  then show ?thesis using walk assms by (simp add: mm_map_page_in_def)
qed

text \<open>
  C26. Mapping succeeds.  With at least three free frames (one per level below the PML4) and a
  non-null, page-aligned physical address, \<open>mm_map_page\<close> returns success.
\<close>

theorem mm_map_page_succeeds:
  assumes inv: "pt_inv s (cr3 s AND NOT kPageOffsetMask) U"
    and "pa \<noteq> 0" and "pa AND (kPageSize - 1) = 0" and "3 \<le> unat (pmmi_free_frames s)"
  shows "snd (mm_map_page s va pa flags level) = kErrorSuccess"
  using mm_map_page_in_success [OF assms(1-3)] assms(4) by (simp add: mm_map_page_def pmmi_free_frames_def)

theorem mm_map_page_succeeds_witness:
  "snd (mm_map_page small_hw 0x400000 0x200000 kMMFlagsPresent 0) = kErrorSuccess"
  using mm_map_page_succeeds [OF small_hw_facts(1), of "0x200000"]
  by (simp add: kPageSize_def pmmi_free_frames_def small_hw_facts)

text \<open>
  C11. Unmapping.  \<open>mm_unmap_page\<close> keeps the invariant and changes the translation of no
  address outside the page.  If a page table covers the address, the page then translates to
  nothing and the result is the frame it was mapped to (0 if it was not mapped); otherwise (the
  address is unmapped or lies in a large page) the result is 0 and the translation stays.
\<close>

theorem mm_unmap_page_exact:
  assumes inv: "pt_inv s (cr3 s AND NOT kPageOffsetMask) U"
    and unmap: "mm_unmap_page s va = (s', frame)"
  shows "(\<exists>U'. U \<subseteq> U' \<and> pt_inv s' (cr3 s' AND NOT kPageOffsetMask) U')
    \<and> (\<forall>va'. mm_get_page_addr s' va' =
        (if reach (ram s) (cr3 s AND NOT kPageOffsetMask) va 3 \<noteq> None \<and> same_path va va' 4 then 0
         else mm_get_page_addr s va'))
    \<and> frame = (if reach (ram s) (cr3 s AND NOT kPageOffsetMask) va 3 = None then 0
         else mm_get_page_addr s va AND kAddrMask)"
proof -
  define root where "root = cr3 s AND NOT kPageOffsetMask"
  obtain s1 slot where walk: "mm_walk_page s (cr3 s) va False = (s1, slot)" by fastforce
  note w = mm_walk_page_ok [OF inv refl walk, folded root_def]
  obtain V where V: "U \<subseteq> V" "pt_inv s1 root V" and cr3: "cr3 s1 = cr3 s"
    and same: "\<And>va'. descend (ram s1) root va' 0 = descend (ram s) root va' 0"
    using w(1) by (auto simp: walk_post_def)
  note get = mm_get_page_addr_descend [OF pt_invD(2)]
  have get1: "mm_get_page_addr s1 va' = mm_get_page_addr s va'" for va'
    using same get [OF inv] get [of s1 V] V(2) cr3 by (simp add: root_def)
  have inv1: "pt_inv s1 (cr3 s1 AND NOT kPageOffsetMask) V" using V(2) cr3 by (simp add: root_def)
  show ?thesis
  proof (cases "reach (ram s) root va 3")
    case None
    then have "s' = s1" "frame = 0" using unmap walk w(3) by (auto simp: mm_unmap_page_def)
    then show ?thesis using inv1 V(1) get1 None by (auto simp: root_def)
  next
    case (Some t)
    then have t: "reach (ram s1) root va 3 = Some t" "slot = table_slot t (idx va 3)" "slot \<noteq> 0" using w(2,3) by auto
    define e where "e = load64 (ram s1) slot"
    have old: "mm_get_page_addr s va' = (if e AND 1 = 0 then 0 else leaf_addr 3 e va')" if "same_path va va' 4" for va'
    proof -
      have p: "same_path va va' 3" "idx va 3 = idx va' 3" using that same_path_Suc [of va va' 3] by simp_all
      then have "reach (ram s1) root va' 3 = Some t" using t(1) reach_same_path by simp
      then have "descend (ram s1) root va' 0 = descend (ram s1) t va' 3" by (intro descend_reach) auto
      then show ?thesis using get [OF inv1] get1 cr3 p(2) t(2) unfolding descend.simps [of _ t va' 3]
        by (simp add: e_def Let_def root_def)
    qed
    have frame: "frame = mm_get_page_addr s va AND kAddrMask"
    proof -
      have "leaf_addr 3 e va AND kAddrMask = e AND kAddrMask"
        unfolding leaf_addr_def kAddrMask_mask by (rule bit_eqI) (auto simp: bit_simps)
      then show ?thesis using unmap walk t(3) old [of va]
        by (auto simp: mm_unmap_page_def e_def [symmetric] same_path_def split: if_splits)
    qed
    show ?thesis
    proof (cases "e AND 1 = 0")
      case True
      then have "s' = s1" using unmap walk t by (auto simp: mm_unmap_page_def e_def)
      moreover have "mm_get_page_addr s va' = 0" if "same_path va va' 4" for va' using old [OF that] True by simp
      ultimately show ?thesis using inv1 V(1) get1 frame Some by (auto simp: root_def)
    next
      case False
      then have s': "s' = s1\<lparr>ram := store64 (ram s1) (table_slot t (idx va 3)) 0\<rparr>"
        using unmap walk t by (auto simp: mm_unmap_page_def e_def)
      note leaf = leaf_write_ok [OF V(2) t(1), of 0, folded s']
      have inv2: "pt_inv s' (cr3 s' AND NOT kPageOffsetMask) V" using leaf(1) cr3 by (simp add: s' root_def)
      have "mm_get_page_addr s' va' = (if same_path va va' 4 then 0 else mm_get_page_addr s va')" for va'
        using get [OF inv2] leaf(2) [of va'] same get [OF inv] cr3 by (simp add: root_def s')
      then show ?thesis using inv2 V(1) frame Some by (auto simp: root_def)
    qed
  qed
qed

theorem mm_unmap_page_exact_witness:
  "\<exists>s' s''. mm_map_page_in small_hw (cr3 small_hw) 0x400000 0x200000 (kMMFlagsPresent OR kMMFlagsWr) = (s', kErrorSuccess)
     \<and> mm_unmap_page s' 0x400000 = (s'', 0x200000) \<and> mm_get_page_addr s'' 0x400123 = 0"
proof -
  obtain s' where map: "mm_map_page_in small_hw (cr3 small_hw) 0x400000 0x200000 (kMMFlagsPresent OR kMMFlagsWr) = (s', kErrorSuccess)"
    using small_hw_map by blast
  note post = mm_map_page_in_post [OF small_hw_facts(1) map]
  then obtain V where V: "pt_inv s' (cr3 s' AND NOT kPageOffsetMask) V" by blast
  have "mm_get_page_addr s' 0x400000 = 0x200000"
    using post by (simp add: same_path_def kMMFlagsPresent_def kMMFlagsWr_def kAddrMask_def kPageOffsetMask_def)
  moreover obtain s'' f where "mm_unmap_page s' 0x400000 = (s'', f)" by fastforce
  ultimately show ?thesis
    using mm_unmap_page_exact [OF V, of "0x400000" s'' f] post map same_page_path [of "0x400000" "0x400123"]
    by (auto simp: kAddrMask_def)
qed

end
