(* ===== verification/PagingBoot.thy ===== *)
theory PagingBoot
  imports Paging
begin

text \<open>
  The identity map that \<open>mm_init_kernel_tables\<close> builds at boot: the loop over gigabytes ends,
  keeps the page-table invariant, and leaves every address below the limit mapped to itself.
\<close>

section \<open>Memory of the loop body\<close>

lemma store64_commute:
  assumes "sep a 8 b 8"
  shows "store64 (store64 m a v) b w = store64 (store64 m b w) a v"
proof
  fix x
  have "\<not> (unat (x - a) < 8 \<and> unat (x - b) < 8)"
  proof
    assume "unat (x - a) < 8 \<and> unat (x - b) < 8"
    then show False using sep_offset [OF assms, of "unat (x - b)"] by simp
  qed
  then show "store64 (store64 m a v) b w x = store64 (store64 m b w) a v x"
    by (auto simp: store64_def write_bytes_def)
qed

lemma leaf_loop_store:
  assumes "unat i + n \<le> 512" and "page_aligned t" and "page_aligned u" and "t \<noteq> u" and "unat k < 512"
  shows "leaf_loop (store64 m (table_slot u k) v) t leaf i n = store64 (leaf_loop m t leaf i n) (table_slot u k) v"
  using assms(1)
proof (induction n arbitrary: m i)
  case (Suc n)
  then have i: "unat (i + 1) = unat i + 1" "unat i < 512" using unat_plus_one [of i] by simp_all
  have "sep (table_slot u k) 8 (table_slot t i) 8"
    using assms i(2) by (intro aligned8_sep slot_aligned8) (auto simp: slot_eq_iff)
  note c = store64_commute [OF this, of m v "leaf i"]
  show ?case using Suc.IH [of "i + 1"] Suc.prems i(1) by (simp add: c)
qed simp

section \<open>Gigabytes of the address space\<close>

lemma low48_bit: "va < 2 ^ 48 \<Longrightarrow> bit (va :: u64) n \<Longrightarrow> n < 48"
proof -
  assume "va < 2 ^ 48" and b: "bit va n"
  then have "take_bit 48 va = va" by (simp add: word_unat_eq_iff word_less_nat_alt take_bit_eq_mod unat_mod)
  with b show ?thesis by (metis bit_take_bit_iff)
qed

definition gib :: "nat \<Rightarrow> u64" where
  "gib n = of_nat (n * 2 ^ 30)"

lemma unat_gib: "n \<le> 2 ^ 18 \<Longrightarrow> unat (gib n) = n * 2 ^ 30"
  by (simp add: gib_def del: of_nat_mult)

lemma same_gib:
  assumes "va < 2 ^ 48" and "va' < 2 ^ 48"
  shows "same_path va va' 2 \<longleftrightarrow> drop_bit 30 va = drop_bit 30 va'"
proof -
  have "same_path va va' 2 \<longleftrightarrow> idx va 0 = idx va' 0 \<and> idx va 1 = idx va' 1"
    by (auto simp: same_path_def less_2_cases_iff)
  also have "\<dots> \<longleftrightarrow> drop_bit 30 va = drop_bit 30 va'"
  proof
    assume eq: "idx va 0 = idx va' 0 \<and> idx va 1 = idx va' 1"
    have "bit va n = bit va' n" if "30 \<le> n" for n
    proof (cases "n < 39")
      case True
      then have "bit (idx va 1) (n - 30) = bit va n" "bit (idx va' 1) (n - 30) = bit va' n"
        using that by (auto simp: idx_take_bit bit_simps)
      with eq show ?thesis by simp
    next
      case False
      show ?thesis
      proof (cases "n < 48")
        case True
        then have "bit (idx va 0) (n - 39) = bit va n" "bit (idx va' 0) (n - 39) = bit va' n"
          using False by (auto simp: idx_take_bit bit_simps)
        with eq show ?thesis by simp
      next
        case False
        then show ?thesis using low48_bit assms by blast
      qed
    qed
    then show "drop_bit 30 va = drop_bit 30 va'" by (intro bit_eqI) (simp add: bit_simps)
  next
    assume "drop_bit 30 va = drop_bit 30 va'"
    moreover have i: "idx x 0 = take_bit 9 (drop_bit 9 (drop_bit 30 x))" "idx x 1 = take_bit 9 (drop_bit 30 x)" for x
      by (simp_all add: idx_take_bit drop_bit_drop_bit)
    ultimately show "idx va 0 = idx va' 0 \<and> idx va 1 = idx va' 1" unfolding i by (simp only: simp_thms)
  qed
  finally show ?thesis .
qed

lemma gib_range:
  assumes "n < 2 ^ 18" and "va < 2 ^ 48"
  shows "same_path (gib n) va 2 \<longleftrightarrow> gib n \<le> va \<and> va < gib (Suc n)"
proof -
  have "gib n < 2 ^ 48" using assms(1) unat_gib [of n] by (simp add: word_less_nat_alt)
  then have "same_path (gib n) va 2 \<longleftrightarrow> unat (drop_bit 30 (gib n)) = unat (drop_bit 30 va)"
    using same_gib assms(2) by (simp add: word_unat_eq_iff)
  also have "\<dots> \<longleftrightarrow> n = unat va div 2 ^ 30"
    using assms(1) by (simp add: drop_bit_eq_div unat_div unat_gib)
  also have "\<dots> \<longleftrightarrow> n * 2 ^ 30 \<le> unat va \<and> unat va < Suc n * 2 ^ 30"
    by (auto simp: div_nat_eqI)
  finally show ?thesis
    using assms(1) unat_gib [of n] unat_gib [of "Suc n"] by (simp add: word_le_nat_alt word_less_nat_alt)
qed

section \<open>The leaves\<close>

lemma gib_disjoint: "n < 2 ^ 18 \<Longrightarrow> gib n AND mask 30 = 0"
  by (simp add: word_unat_eq_iff unat_mod unat_gib flip: take_bit_eq_mask take_bit_eq_mod)
    (simp add: take_bit_eq_mod unat_mod unat_gib)

lemma identity_leaf:
  assumes n: "n < 2 ^ 18" and va: "va < 2 ^ 48" and path: "same_path (gib n) va 2"
  defines "e \<equiv> (gib n + idx va 2 * 0x200000) OR 0x83"
  shows "e AND 1 \<noteq> 0" and "e AND kPageSizeBit \<noteq> 0" and "leaf_addr 2 e va = va"
proof -
  have g: "gib n < 2 ^ 48" using n unat_gib [of n] by (simp add: word_less_nat_alt)
  have eq: "drop_bit 30 (gib n) = drop_bit 30 va" using same_gib [OF g va] path by simp
  have hi: "bit (gib n) k \<longleftrightarrow> 30 \<le> k \<and> bit va k" for k
  proof (cases "30 \<le> k")
    case True
    then have "bit (drop_bit 30 (gib n)) (k - 30) = bit (drop_bit 30 va) (k - 30)" by (simp only: eq)
    then show ?thesis using True by (simp add: bit_drop_bit_eq)
  next
    case False
    have "bit (gib n AND mask 30) k = False" by (simp add: gib_disjoint [OF n])
    then show ?thesis using False by (auto simp: bit_simps dest: bit_imp_le_length)
  qed
  have i: "idx va 2 * 0x200000 = push_bit 21 (take_bit 9 (drop_bit 21 va))"
    by (simp add: idx_take_bit push_bit_eq_mult)
  have sum: "gib n + idx va 2 * 0x200000 = gib n OR push_bit 21 (take_bit 9 (drop_bit 21 va))"
    unfolding i by (intro disjunctive_add) (auto simp: hi bit_simps)
  define p :: u64 where "p = 0x83"
  have c: "bit p k \<longleftrightarrow> k = 0 \<or> k = 1 \<or> k = 7" for k
  proof -
    have "p = mask 2 OR 0x80" by (simp add: p_def mask_eq_exp_minus_1)
    then have "bit p k \<longleftrightarrow> bit (mask 2 :: u64) k \<or> k = 7" by (simp only: bit_or_iff bit_constants)
    then show ?thesis by (auto simp: bit_mask_iff)
  qed
  have low: "bit va k \<Longrightarrow> k < 48" for k using low48_bit va by blast
  show "e AND 1 \<noteq> 0" "e AND kPageSizeBit \<noteq> 0"
    unfolding and_one_bit and_ps_bit e_def p_def [symmetric] bit_or_iff c by simp_all
  show "leaf_addr 2 e va = va"
    unfolding leaf_addr_def e_def sum kAddrMask_mask p_def [symmetric]
    by (intro bit_eqI) (auto simp: bit_simps hi c dest: low)
qed

section \<open>One gigabyte\<close>

definition identity_below :: "'a hw_scheme \<Rightarrow> u64 \<Rightarrow> u64 \<Rightarrow> bool" where
  "identity_below s root b \<longleftrightarrow> (\<forall>va < 2 ^ 48. descend (ram s) root va 0 = (if va < b then va else 0))"

lemma boot_perm: "0x3 AND NOT kPageOffsetMask = 0" "0x3 AND (1 :: u64) \<noteq> 0" "0x3 AND kPageSizeBit = 0"
  by (simp_all add: kPageOffsetMask_def kPageSizeBit_def)

lemma boot_pdpt:
  fixes base :: u64
  assumes inv: "pt_inv s root U"
  defines "slot \<equiv> table_slot root (idx base 0)"
  assumes step: "(if load64 (ram s) slot AND 1 = 0 then
                 let (s1, pdpt_pa) = pmmi_alloc_frame s
                 in if pdpt_pa = 0 then (s1, False)
                    else (s1\<lparr>ram := store64 (ram s1) slot (pdpt_pa OR 0x3)\<rparr>, True)
               else (s, True)) = (s1, ok)"
  shows "ok \<Longrightarrow> walk_post s s1 root U \<and> reach (ram s1) root base 1 = Some (load64 (ram s1) slot AND NOT kPageOffsetMask)"
    and "2 \<le> unat (kPmmFree s) \<Longrightarrow> ok" and "unat (kPmmFree s) - 1 \<le> unat (kPmmFree s1)"
proof -
  obtain t f where alloc: "pmmi_alloc_frame s = (t, f)" by fastforce
  have root: "reach (ram s) root base 0 = Some root" by simp
  have free: "f = 0 \<longleftrightarrow> kPmmFree s = 0" using pmmi_alloc_frame_zero_iff [OF pt_invD(1) [OF inv]] alloc by simp
  have count: "unat (kPmmFree s) - 1 \<le> unat (kPmmFree t)"
    using pmmi_alloc_frame_free_count [OF pt_invD(1) [OF inv] alloc] .
  show "unat (kPmmFree s) - 1 \<le> unat (kPmmFree s1)" "2 \<le> unat (kPmmFree s) \<Longrightarrow> ok"
    using step alloc count free by (auto split: if_splits)
  assume ok
  show "walk_post s s1 root U \<and> reach (ram s1) root base 1 = Some (load64 (ram s1) slot AND NOT kPageOffsetMask)"
  proof (cases "load64 (ram s) slot AND 1 = 0")
    case True
    then have f: "f \<noteq> 0" "s1 = t\<lparr>ram := store64 (ram t) slot (f OR 0x3)\<rparr>"
      using step alloc \<open>ok\<close> by (auto split: if_splits)
    have "0 \<le> (2 :: nat)" by simp
    from link_missing [OF inv this root True [unfolded slot_def] alloc f(1) boot_perm] f(2)
    show ?thesis by (auto simp: slot_def simp del: reach.simps)
  next
    case False
    then have "s1 = s" using step by simp
    moreover have "is_table (load64 (ram s) slot)"
      using tables_okD(3) [OF pt_invD(2) [OF inv], of base] False by (simp add: entry_def is_table_def slot_def)
    ultimately show ?thesis using walk_post_refl [OF inv] by (simp add: slot_def)
  qed
qed

lemma boot_pd:
  assumes inv: "pt_inv s root U" and id: "identity_below s root (gib n)" and n: "n < 2 ^ 18"
    and t: "reach (ram s) root (gib n) 1 = Some pdpt"
    and alloc: "pmmi_alloc_frame s = (s1, pd)" "pd \<noteq> 0"
  defines "m \<equiv> store64 (ram s1) (table_slot pdpt (idx (gib n) 1)) (pd OR 0x3)"
  defines "m' \<equiv> leaf_loop m pd (\<lambda>i. (gib n + i * 0x200000) OR 0x83) 0 512"
  shows "pt_inv (s1\<lparr>ram := m'\<rparr>) root (insert pd U)" and "identity_below (s1\<lparr>ram := m'\<rparr>) root (gib (Suc n))"
proof -
  define leaf where "leaf = (\<lambda>i. (gib n + i * 0x200000) OR 0x83)"
  define m0 where "m0 = leaf_loop (ram s1) pd leaf 0 512"
  note fresh = pmm.alloc_fresh [OF pt_invD(1) [OF inv] alloc]
  have pd: "page_aligned pd" "pd \<notin> U" using fresh pmm.owned_frame by blast+
  have "pdpt \<in> U" using tables_okD(1) [OF pt_invD(2) [OF inv] _ t] by simp
  then have pdpt: "page_aligned pdpt" "pd \<noteq> pdpt" using pt_invD(3) [OF inv] pd by auto
  have m': "m' = store64 m0 (table_slot pdpt (idx (gib n) 1)) (pd OR 0x3)"
    unfolding m'_def m_def m0_def leaf_def by (rule leaf_loop_store) (use pd pdpt idx_less in auto)
  have w: "page_write (ram s1) m0 pd" unfolding m0_def by (rule leaf_loop_page_write) simp
  have load: "load64 m0 (table_slot pd i) = leaf i" if "unat i < 512" for i
    unfolding m0_def by (subst leaf_loop_load) (use pd that in auto)
  have kids: "load64 m0 (table_slot pd i) AND 1 = 0 \<or> (1 :: nat) = 2 \<or> load64 m0 (table_slot pd i) AND kPageSizeBit \<noteq> 0"
    if "unat i < 512" for i
    using load [OF that] unfolding and_ps_bit by (simp add: leaf_def bit_or_iff)
  have "1 \<le> (2 :: nat)" by simp
  note link = alloc_link [OF inv this t alloc w kids boot_perm, folded m']
  show "pt_inv (s1\<lparr>ram := m'\<rparr>) root (insert pd U)" by (rule link(1))
  have "descend m' root va 0 = (if va < gib (Suc n) then va else 0)" if va: "va < 2 ^ 48" for va
  proof (cases "same_path (gib n) va 2")
    case True
    note L = identity_leaf [OF n va True]
    show ?thesis using link(5) [of va, unfolded Suc_1] True L load [OF idx_less] gib_range [OF n va]
      by (simp add: leaf_def Let_def)
  next
    case False
    have "va < gib n \<longleftrightarrow> va < gib (Suc n)"
      using False gib_range [OF n va] n unat_gib [of n] unat_gib [of "Suc n"]
      by (auto simp: word_less_nat_alt word_le_nat_alt)
    then show ?thesis using link(5) [of va, unfolded Suc_1] False id va by (simp add: identity_below_def)
  qed
  then show "identity_below (s1\<lparr>ram := m'\<rparr>) root (gib (Suc n))" by (simp add: identity_below_def)
qed

section \<open>The loop\<close>

lemma gib_Suc: "gib n + 0x40000000 = gib (Suc n)"
  by (simp add: gib_def)

lemma kPageSize_mask: "NOT (kPageSize - 1) = NOT kPageOffsetMask"
  by (simp add: kPageSize_def kPageOffsetMask_def)

lemma boot_index: "drop_bit 39 base AND (512 - 1) = idx base 0" "drop_bit 30 base AND (512 - 1) = idx base 1"
  by (simp_all add: idx_def kMask9Bits_def)

definition boot_result :: "(hw \<times> u64) option \<Rightarrow> u64 \<Rightarrow> u64 \<Rightarrow> u64 set \<Rightarrow> bool" where
  "boot_result res root limit U \<longleftrightarrow> (case res of None \<Rightarrow> False | Some (s', r) \<Rightarrow> r = 0 \<or> r = root
     \<and> (\<exists>V. U \<subseteq> V \<and> pt_inv s' root V)
     \<and> (\<exists>n \<le> 2 ^ 18. limit \<le> gib n \<and> unat (gib n) < unat limit + 2 ^ 30 \<and> identity_below s' root (gib n)))"

lemma boot_result_mono: "boot_result res root limit V \<Longrightarrow> U \<subseteq> V \<Longrightarrow> boot_result res root limit U"
  unfolding boot_result_def by (auto split: option.splits prod.splits; blast)

lemma init_tables_loop_ok:
  assumes "pt_inv s root U" and "identity_below s root (gib n)" and "n \<le> 2 ^ 18"
    and "unat limit \<le> (n + k) * 2 ^ 30" and "n = 0 \<or> unat (gib n) < unat limit + 2 ^ 30" and "n + k \<le> 2 ^ 18"
  shows "boot_result (init_tables_loop s root (gib n) limit) root limit U
    \<and> (2 * k \<le> unat (kPmmFree s) \<longrightarrow> snd (the (init_tables_loop s root (gib n) limit)) \<noteq> 0)"
  using assms
proof (induction k arbitrary: s U n)
  case 0
  then have "\<not> gib n < limit" using unat_gib [of n] by (simp add: word_less_nat_alt)
  moreover have "root \<noteq> 0"
    using pmm.owned_frame [OF pt_invD(1) [OF 0(1)]] tables_okD(1) [OF pt_invD(2) [OF 0(1)], of 0] by auto
  ultimately show ?case
    using 0 by (subst (1 2) init_tables_loop.simps) (auto simp: boot_result_def not_less gib_def)
next
  case (Suc k)
  then have n: "n < 2 ^ 18" "Suc n + k \<le> 2 ^ 18" "unat limit \<le> (Suc n + k) * 2 ^ 30" by simp_all
  have root: "root \<noteq> 0"
    using pmm.owned_frame [OF pt_invD(1) [OF Suc.prems(1)]] tables_okD(1) [OF pt_invD(2) [OF Suc.prems(1)], of 0] by auto
  show ?case
  proof (cases "gib n < limit")
    case False
    then have "unat (gib n) < unat limit + 2 ^ 30"
      using Suc.prems(5) by (auto simp: gib_def)
    then show ?thesis using Suc.prems False root exI [of _ n]
      by (subst (1 2) init_tables_loop.simps) (auto simp: boot_result_def not_less)
  next
    case True
    define slot where "slot = table_slot root (idx (gib n) 0)"
    obtain s1 ok where step: "(if load64 (ram s) slot AND 1 = 0 then
                 let (s1, pdpt_pa) = pmmi_alloc_frame s
                 in if pdpt_pa = 0 then (s1, False)
                    else (s1\<lparr>ram := store64 (ram s1) slot (pdpt_pa OR 0x3)\<rparr>, True)
               else (s, True)) = (s1, ok)" by (rule prod.exhaust)
    note p = boot_pdpt [OF Suc.prems(1) step [unfolded slot_def], folded slot_def]
    obtain s2 pd where alloc: "pmmi_alloc_frame s1 = (s2, pd)" by fastforce
    define pdpt where "pdpt = load64 (ram s1) slot AND NOT kPageOffsetMask"
    define s3 where "s3 = s2\<lparr>ram := leaf_loop (store64 (ram s2) (table_slot pdpt (idx (gib n) 1)) (pd OR 0x3)) pd
        (\<lambda>i. (gib n + i * 0x200000) OR 0x83) 0 512\<rparr>"
    have body: "init_tables_loop s root (gib n) limit = (if \<not> ok then Some (s1, 0) else if pd = 0 then Some (s2, 0)
        else init_tables_loop s3 root (gib (Suc n)) limit)"
      using True step alloc
      by (subst init_tables_loop.simps)
        (simp only: boot_index slot_def [symmetric] Let_def case_prod_conv if_True kPageSize_mask gib_Suc
          pdpt_def [symmetric] s3_def [symmetric] simp_thms)
    show ?thesis
    proof (cases "ok \<and> pd \<noteq> 0")
      case False
      have "\<not> 2 * Suc k \<le> unat (kPmmFree s)"
      proof
        assume enough: "2 * Suc k \<le> unat (kPmmFree s)"
        then have "ok" using p(2) by simp
        then obtain V where "pmm_ok s1 V" using p(1) pt_invD(1) by (auto simp: walk_post_def)
        moreover have "kPmmFree s1 \<noteq> 0" using p(3) enough by auto
        ultimately have "pd \<noteq> 0" using pmmi_alloc_frame_zero_iff [of s1 V] alloc by simp
        with False \<open>ok\<close> show False by simp
      qed
      then show ?thesis using body False by (auto simp: boot_result_def)
    next
      case go: True
      then obtain V where V: "U \<subseteq> V" "pt_inv s1 root V" using p(1) by (auto simp: walk_post_def)
      have t: "reach (ram s1) root (gib n) 1 = Some pdpt" using p(1) go by (simp add: pdpt_def)
      have id: "identity_below s1 root (gib n)"
        using p(1) go Suc.prems(2) by (simp add: identity_below_def walk_post_def)
      note pd = boot_pd [OF V(2) id n(1) t alloc, folded s3_def]
      have lim: "unat (gib (Suc n)) < unat limit + 2 ^ 30"
        using True n(1) unat_gib [of n] unat_gib [of "Suc n"] by (simp add: word_less_nat_alt)
      have "2 * k \<le> unat (kPmmFree s3)" if "2 * Suc k \<le> unat (kPmmFree s)"
        using that p(3) pmmi_alloc_frame_free_count [OF pt_invD(1) [OF V(2)] alloc] by (simp add: s3_def)
      moreover note IH = Suc.IH [OF pd(1,2) _ n(3) _ n(2)]
      moreover have "boot_result (init_tables_loop s3 root (gib (Suc n)) limit) root limit U"
        using IH go n(1) lim V(1) by (intro boot_result_mono [of _ _ _ "insert pd V" U]) auto
      ultimately show ?thesis using go n(1) lim body by auto
    qed
  qed
qed

section \<open>Properties\<close>

text \<open>
  C3. The identity map.  For a limit of at most \<open>2 ^ 48\<close> the loop of \<open>mm_init_kernel_tables\<close>
  ends; if it returns a PML4, the tables satisfy the invariant on frames of the allocator and,
  once CR3 points to it, every address below the limit (rounded up to a gigabyte) translates to
  itself and every other canonical address below \<open>2 ^ 48\<close> to nothing.  With one frame for the
  PML4 and two for each gigabyte it does return one.
\<close>

theorem mm_init_kernel_tables_identity:
  assumes ok: "pmm_ok s U" and limit: "limit \<le> 2 ^ 48"
  shows "\<exists>s' r. mm_init_kernel_tables s limit = Some (s', r)
    \<and> (r \<noteq> 0 \<longrightarrow> (\<exists>V. insert r U \<subseteq> V \<and> pt_inv (s'\<lparr>cr3 := r\<rparr>) (r AND NOT kPageOffsetMask) V)
        \<and> (\<exists>b \<ge> limit. unat b < unat limit + 2 ^ 30
            \<and> (\<forall>va < 2 ^ 48. mm_get_page_addr (s'\<lparr>cr3 := r\<rparr>) va = (if va < b then va else 0))))
    \<and> (2 * ((unat limit + 2 ^ 30 - 1) div 2 ^ 30) < unat (pmmi_free_frames s) \<longrightarrow> r \<noteq> 0)"
proof -
  obtain s1 f where alloc: "pmmi_alloc_frame s = (s1, f)" by fastforce
  have f0: "f = 0 \<longleftrightarrow> kPmmFree s = 0" using pmmi_alloc_frame_zero_iff [OF ok] alloc by simp
  show ?thesis
  proof (cases "f = 0")
    case True
    then show ?thesis using f0 alloc by (auto simp: mm_init_kernel_tables_def pmmi_free_frames_def)
  next
    case False
    note root = fresh_root [OF ok alloc False]
    have id: "identity_below s1 f (gib 0)" using root(2) by (simp add: identity_below_def gib_def)
    define k where "k = (unat limit + 2 ^ 30 - 1) div 2 ^ 30"
    have k: "unat limit \<le> (0 + k) * 2 ^ 30" "0 + k \<le> 2 ^ 18"
      using limit by (simp_all add: k_def word_le_nat_alt)
    note loop = init_tables_loop_ok [OF root(1) id _ k(1) _ k(2)]
    obtain s' r where res: "init_tables_loop s1 f (gib 0) limit = Some (s', r)"
      and r: "r = 0 \<or> r = f \<and> (\<exists>V. insert f U \<subseteq> V \<and> pt_inv s' f V)
        \<and> (\<exists>n \<le> 2 ^ 18. limit \<le> gib n \<and> unat (gib n) < unat limit + 2 ^ 30 \<and> identity_below s' f (gib n))"
      using loop by (auto simp: boot_result_def split: option.splits)
    have init: "mm_init_kernel_tables s limit = Some (s', r)"
      using alloc False res by (simp add: mm_init_kernel_tables_def gib_def)
    have enough: "r \<noteq> 0" if "2 * k < unat (pmmi_free_frames s)"
      using that loop res pmmi_alloc_frame_free_count [OF ok alloc] by (auto simp: pmmi_free_frames_def)
    show ?thesis
    proof (cases "r = 0")
      case True
      then show ?thesis using init enough by (auto simp: k_def)
    next
      case nz: False
      then obtain V n where V: "insert f U \<subseteq> V" "pt_inv s' f V" and rf: "r = f"
        and n: "limit \<le> gib n" "unat (gib n) < unat limit + 2 ^ 30" "identity_below s' f (gib n)"
        using r by auto
      have inv: "pt_inv (s'\<lparr>cr3 := f\<rparr>) (f AND NOT kPageOffsetMask) V"
        using V by (intro fresh_root_cr3) auto
      have "f AND NOT kPageOffsetMask = f"
        using frame_table_entry(2) [of f kTablePerm, OF _ kTablePerm_facts] kTablePerm_facts(1) pt_invD(3) [OF V(2)] V(1)
        by (simp add: bit.conj_disj_distrib2)
      then have "mm_get_page_addr (s'\<lparr>cr3 := f\<rparr>) va = (if va < gib n then va else 0)" if "va < 2 ^ 48" for va
        using mm_get_page_addr_descend [of "s'\<lparr>cr3 := f\<rparr>" V va] pt_invD(2) [OF inv] n(3) that
        by (simp add: identity_below_def)
      then show ?thesis using init enough inv V n rf by (intro exI [of _ s'] exI [of _ r]) (auto simp: k_def)
    qed
  qed
qed

theorem mm_init_kernel_tables_identity_witness:
  "\<exists>s' r. mm_init_kernel_tables small_hw 0x40000000 = Some (s', r) \<and> r \<noteq> 0
    \<and> mm_get_page_addr (s'\<lparr>cr3 := r\<rparr>) 0x3FFFFFFF = 0x3FFFFFFF"
proof -
  obtain s' r where r: "mm_init_kernel_tables small_hw 0x40000000 = Some (s', r)" "r \<noteq> 0"
    and "\<exists>b \<ge> 0x40000000. \<forall>va < 2 ^ 48. mm_get_page_addr (s'\<lparr>cr3 := r\<rparr>) va = (if va < b then va else 0)"
    using mm_init_kernel_tables_identity [OF pt_invD(1) [OF small_hw_facts(1)], of "0x40000000"]
    by (auto simp: pmmi_free_frames_def small_hw_facts)
  then obtain b where b: "0x40000000 \<le> b"
    and "\<forall>va < 2 ^ 48. mm_get_page_addr (s'\<lparr>cr3 := r\<rparr>) va = (if va < b then va else 0)" by blast
  then have "mm_get_page_addr (s'\<lparr>cr3 := r\<rparr>) 0x3FFFFFFF = (if 0x3FFFFFFF < b then 0x3FFFFFFF else 0)" by simp
  moreover have "0x3FFFFFFF < b" using b by (simp add: word_le_nat_alt word_less_nat_alt)
  ultimately show ?thesis using r by auto
qed

end
