(* ===== verification/BitMapMgr.thy ===== *)
theory BitMapMgr
  imports KPC
begin

text \<open>
  The bitmap allocator, \<^verbatim>\<open>private/minkernel/src/BitMapMgr.cpp\<close>, and the page manager over
  it, \<^verbatim>\<open>PageMgr.cpp\<close> and \<^verbatim>\<open>Pmm.cpp\<close>.  A block is three words of header (magic,
  size, used) followed by its bytes; blocks follow one another, each found from the size of the
  one before.  The record holds the memory, the cursor and the region's start.

  \<open>FindBitMap\<close> loops until it finds an unused header and has no bound, so it is a partial
  function; a search that never ends is \<open>None\<close>.  \<open>first_unused\<close> is the reference: the
  first block of the chain whose used word is clear.
\<close>

definition kBitMapMagic :: u64 where "kBitMapMagic = 0x10210"
definition kBitMapMaxSz :: u64 where "kBitMapMaxSz = 4 * 1024 * 1024 * 1024"
definition kAlign :: u64 where "kAlign = 16"

record bitmap =
  bm_mem :: mem
  kBitMapCursor :: u64
  kKernelBitMpStart :: u64
  biggest :: u64

text \<open>The three words of a header.\<close>

definition bm_magic :: "mem \<Rightarrow> u64 \<Rightarrow> u64" where "bm_magic m p = load64 m p"
definition bm_size :: "mem \<Rightarrow> u64 \<Rightarrow> u64" where "bm_size m p = load64 m (p + 8)"
definition bm_used :: "mem \<Rightarrow> u64 \<Rightarrow> u64" where "bm_used m p = load64 m (p + 16)"

definition IsBitMap :: "mem \<Rightarrow> u64 \<Rightarrow> bool" where
  "IsBitMap m page_ptr = (if page_ptr = 0 then False else bm_magic m page_ptr = kBitMapMagic)"

definition FreeBitMap :: "'a bitmap_scheme \<Rightarrow> u64 \<Rightarrow> 'a bitmap_scheme \<times> bool" where
  "FreeBitMap s page_ptr =
     (if \<not> IsBitMap (bm_mem s) page_ptr then (s, False)
      else let ptr_bit_set = page_ptr - 24
           in if ptr_bit_set = 0 then (s, False)
              else if bm_magic (bm_mem s) ptr_bit_set \<noteq> kBitMapMagic then (s, False)
              else let sz = bm_size (bm_mem s) ptr_bit_set;
                       cursor = (if kBitMapCursor s \<ge> sz then kBitMapCursor s - sz else kBitMapCursor s)
                   in (s\<lparr>kBitMapCursor := cursor, bm_mem := store64 (bm_mem s) (ptr_bit_set + 16) 0\<rparr>, True))"

definition take_block :: "'a bitmap_scheme \<Rightarrow> u64 \<Rightarrow> u64 \<Rightarrow> mem \<Rightarrow> 'a bitmap_scheme" where
  "take_block s base tot m =
     s\<lparr>bm_mem := store64 (store64 m (base + 8) tot) (base + 16) 1,
       biggest := (if biggest s < tot then tot else biggest s),
       kBitMapCursor := kBitMapCursor s + tot + kAlign\<rparr>"

partial_function (option) find_loop ::
  "'a bitmap_scheme \<Rightarrow> u64 \<Rightarrow> u64 \<Rightarrow> u64 \<Rightarrow> ('a bitmap_scheme \<times> u64) option" where
  "find_loop s base sz pad =
     (if bm_magic (bm_mem s) base = kBitMapMagic \<and> bm_used (bm_mem s) base = 0 then
        Some (take_block s base (sz + pad) (bm_mem s), base + 24)
      else if bm_magic (bm_mem s) base \<noteq> kBitMapMagic \<and> bm_used (bm_mem s) base = 0 then
        Some (take_block s base (sz + pad) (store64 (bm_mem s) base kBitMapMagic), base + 24)
      else find_loop s (base + (if bm_magic (bm_mem s) base \<noteq> kBitMapMagic then sz + pad
                                else bm_size (bm_mem s) base) + kAlign) sz pad)"

definition FindBitMap :: "'a bitmap_scheme \<Rightarrow> u64 \<Rightarrow> u64 \<Rightarrow> bool \<Rightarrow> bool \<Rightarrow> u64 \<Rightarrow> ('a bitmap_scheme \<times> u64) option" where
  "FindBitMap s base_ptr sz wr user pad =
     (if sz = 0 then Some (s, 0)
      else if sz > kBitMapMaxSz then Some (s, 0)
      else find_loop s (base_ptr + kBitMapCursor s) sz pad)"

definition mm_is_bitmap :: "mem \<Rightarrow> u64 \<Rightarrow> bool" where
  "mm_is_bitmap m ptr = IsBitMap m ptr"

definition mm_alloc_bitmap ::
  "'a bitmap_scheme \<Rightarrow> bool \<Rightarrow> bool \<Rightarrow> u64 \<Rightarrow> bool \<Rightarrow> u64 \<Rightarrow> ('a bitmap_scheme \<times> u64) option" where
  "mm_alloc_bitmap s wr user sz is_page pad =
     (if is_page then Some (s, 0) else FindBitMap s (kKernelBitMpStart s) sz wr user pad)"

definition mm_free_bitmap :: "bool \<Rightarrow> 'a bitmap_scheme \<Rightarrow> u64 \<Rightarrow> ('a bitmap_scheme \<times> bool) outcome" where
  "mm_free_bitmap debug s ptr =
     (if ptr = 0 then Ret (s, False)
      else let (s1, ret) = FreeBitMap s ptr in must_pass debug ret (s1, ret))"

section \<open>The page manager\<close>

record pte_wrapper =
  fRw :: bool
  fUser :: bool
  fExecDisable :: bool
  fVirtAddr :: u64
  fCache :: bool
  fShareable :: bool
  fWt :: bool
  fPresent :: bool
  fAccessed :: bool

definition PTEWrapper :: "bool \<Rightarrow> bool \<Rightarrow> bool \<Rightarrow> u64 \<Rightarrow> pte_wrapper" where
  "PTEWrapper Rw User ExecDisable VirtAddr =
     \<lparr>fRw = Rw, fUser = User, fExecDisable = ExecDisable, fVirtAddr = VirtAddr, fCache = False,
      fShareable = False, fWt = False, fPresent = True, fAccessed = False\<rparr>"

definition Reclaim :: "pte_wrapper \<Rightarrow> pte_wrapper \<times> bool" where
  "Reclaim w = (if \<not> fPresent w then (w\<lparr>fPresent := True\<rparr>, True) else (w, False))"

definition PageMgr_Request ::
  "'a bitmap_scheme \<Rightarrow> bool \<Rightarrow> bool \<Rightarrow> bool \<Rightarrow> u64 \<Rightarrow> u64 \<Rightarrow> ('a bitmap_scheme \<times> pte_wrapper) option" where
  "PageMgr_Request s Rw User ExecDisable Sz Pad =
     (case mm_alloc_bitmap s Rw User Sz False Pad of
        None \<Rightarrow> None
      | Some (s1, ptr) \<Rightarrow> Some (s1, PTEWrapper Rw User ExecDisable ptr))"

definition PageMgr_Free :: "bool \<Rightarrow> 'a bitmap_scheme \<Rightarrow> pte_wrapper \<Rightarrow> ('a bitmap_scheme \<times> bool) outcome" where
  "PageMgr_Free debug s wrapper = mm_free_bitmap debug s (fVirtAddr wrapper)"

text \<open>
  \<open>Ref<T>::operator bool\<close> is \<open>T::kVettable\<close> when \<open>T\<close> declares it and false otherwise;
  \<open>PTEWrapper\<close> does not.  \<open>Pmm\<close> receives its references by value and returns the boolean.
\<close>

definition ref_bool :: "bool option \<Rightarrow> bool" where
  "ref_bool vettable = (case vettable of Some v \<Rightarrow> v | None \<Rightarrow> False)"

definition pte_vettable :: "bool option" where
  "pte_vettable = None"

definition RequestPage :: "'a bitmap_scheme \<Rightarrow> bool \<Rightarrow> bool \<Rightarrow> ('a bitmap_scheme \<times> pte_wrapper) option" where
  "RequestPage s user readWrite = PageMgr_Request s user readWrite False 0x1000 0"

definition FreePage :: "pte_wrapper \<Rightarrow> pte_wrapper \<times> bool" where
  "FreePage r = (if \<not> ref_bool pte_vettable then (r, False) else (r\<lparr>fPresent := False\<rparr>, True))"

definition TogglePresent :: "pte_wrapper \<Rightarrow> bool \<Rightarrow> pte_wrapper \<times> bool" where
  "TogglePresent r Enable = (if \<not> ref_bool pte_vettable then (r, False) else (r\<lparr>fPresent := Enable\<rparr>, True))"

definition ToggleUser :: "pte_wrapper \<Rightarrow> bool \<Rightarrow> pte_wrapper \<times> bool" where
  "ToggleUser r Enable = (if \<not> ref_bool pte_vettable then (r, False) else (r\<lparr>fRw := Enable\<rparr>, True))"

definition ToggleRw :: "pte_wrapper \<Rightarrow> bool \<Rightarrow> pte_wrapper \<times> bool" where
  "ToggleRw r Enable = (if \<not> ref_bool pte_vettable then (r, False) else (r\<lparr>fRw := Enable\<rparr>, True))"

definition ToggleShare :: "pte_wrapper \<Rightarrow> bool \<Rightarrow> pte_wrapper \<times> bool" where
  "ToggleShare r Enable = (if \<not> ref_bool pte_vettable then (r, False) else (r\<lparr>fShareable := Enable\<rparr>, True))"

text \<open>A region whose bytes are all zero.\<close>

definition zero_bitmap :: bitmap where
  "zero_bitmap = \<lparr>bm_mem = (\<lambda>_. 0), kBitMapCursor = 0, kKernelBitMpStart = 0x100000, biggest = 0\<rparr>"

section \<open>The search\<close>

text \<open>The address of the \<open>k\<close>-th block of the chain that starts at \<open>base\<close>.\<close>

primrec block_at :: "mem \<Rightarrow> u64 \<Rightarrow> u64 \<Rightarrow> nat \<Rightarrow> u64" where
  "block_at m tot base 0 = base"
| "block_at m tot base (Suc k) =
     block_at m tot (base + (if bm_magic m base \<noteq> kBitMapMagic then tot else bm_size m base) + kAlign) k"

definition first_unused :: "mem \<Rightarrow> u64 \<Rightarrow> u64 \<Rightarrow> nat \<Rightarrow> bool" where
  "first_unused m tot base k \<longleftrightarrow>
     (\<forall>j < k. bm_used m (block_at m tot base j) \<noteq> 0) \<and> bm_used m (block_at m tot base k) = 0"

lemma find_loop_at:
  "first_unused (bm_mem s) (sz + pad) base k \<Longrightarrow>
   let b = block_at (bm_mem s) (sz + pad) base k
   in find_loop s base sz pad = Some (take_block s b (sz + pad)
        (if bm_magic (bm_mem s) b = kBitMapMagic then bm_mem s else store64 (bm_mem s) b kBitMapMagic), b + 24)"
proof (induction k arbitrary: base)
  case 0
  then show ?case by (subst find_loop.simps) (auto simp: first_unused_def)
next
  case (Suc k)
  define next' where "next' = base + (if bm_magic (bm_mem s) base \<noteq> kBitMapMagic then sz + pad
      else bm_size (bm_mem s) base) + kAlign"
  have "bm_used (bm_mem s) base \<noteq> 0" using Suc.prems by (auto simp: first_unused_def)
  then have step: "find_loop s base sz pad = find_loop s next' sz pad"
    by (subst find_loop.simps) (simp add: next'_def)
  have "first_unused (bm_mem s) (sz + pad) next' k"
    using Suc.prems unfolding first_unused_def next'_def
    by (metis Suc_less_eq block_at.simps(2))
  from Suc.IH [OF this] step show ?case by (simp add: next'_def)
qed

lemma first_unused_Suc:
  "first_unused m tot base (Suc k) \<longleftrightarrow> bm_used m base \<noteq> 0
    \<and> first_unused m tot (base + (if bm_magic m base \<noteq> kBitMapMagic then tot else bm_size m base) + kAlign) k"
  unfolding first_unused_def by (auto simp: All_less_Suc2)

lemma find_loop_Some:
  assumes "find_loop s base sz pad = Some r"
  shows "\<exists>k. first_unused (bm_mem s) (sz + pad) base k"
proof (rule find_loop.raw_induct [where P = "\<lambda>s base sz pad r. \<exists>k. first_unused (bm_mem s) (sz + pad) base k", OF _ assms])
  fix loop s base sz pad r
  assume IH: "\<And>s base sz pad r. loop s base sz pad = Some r \<Longrightarrow> \<exists>k. first_unused (bm_mem s) (sz + pad) base k"
    and body: "(if bm_magic (bm_mem s) base = kBitMapMagic \<and> bm_used (bm_mem s) base = 0 then
        Some (take_block s base (sz + pad) (bm_mem s), base + 24)
      else if bm_magic (bm_mem s) base \<noteq> kBitMapMagic \<and> bm_used (bm_mem s) base = 0 then
        Some (take_block s base (sz + pad) (store64 (bm_mem s) base kBitMapMagic), base + 24)
      else loop s (base + (if bm_magic (bm_mem s) base \<noteq> kBitMapMagic then sz + pad
                                else bm_size (bm_mem s) base) + kAlign) sz pad) = Some r"
  show "\<exists>k. first_unused (bm_mem s) (sz + pad) base k"
  proof (cases "bm_used (bm_mem s) base = 0")
    case True
    then have "first_unused (bm_mem s) (sz + pad) base 0" by (simp add: first_unused_def)
    then show ?thesis ..
  next
    case False
    with IH [of s _ sz pad r] body obtain k where "first_unused (bm_mem s) (sz + pad) (base +
        (if bm_magic (bm_mem s) base \<noteq> kBitMapMagic then sz + pad else bm_size (bm_mem s) base) + kAlign) k"
      by auto
    with False have "first_unused (bm_mem s) (sz + pad) base (Suc k)" by (simp add: first_unused_Suc)
    then show ?thesis ..
  qed
qed

text \<open>What taking a block leaves in memory.\<close>

lemma take_block_header:
  defines "h \<equiv> \<lambda>s b tot. bm_mem (take_block s b tot (if bm_magic (bm_mem s) b = kBitMapMagic then bm_mem s
      else store64 (bm_mem s) b kBitMapMagic))"
  shows "bm_magic (h s b tot) b = kBitMapMagic" and "bm_size (h s b tot) b = tot" and "bm_used (h s b tot) b = 1"
    and "\<not> unat (x - b) < 24 \<Longrightarrow> h s b tot x = bm_mem s x"
proof -
  show "bm_magic (h s b tot) b = kBitMapMagic" "bm_size (h s b tot) b = tot" "bm_used (h s b tot) b = 1"
    by (simp_all add: h_def take_block_def bm_magic_def bm_size_def bm_used_def
        load64_store64_same load64_store64_sep sep_simps)
  assume x: "\<not> unat (x - b) < 24"
  have off: "\<not> unat (x - (b + of_nat k)) < 8" if "k + 8 \<le> 24" for k
  proof
    define y where "y = x - (b + of_nat k)"
    assume "unat (x - (b + of_nat k)) < 8"
    then have y: "unat y < 8" by (simp add: y_def)
    have "x - b = y + of_nat k" by (simp add: y_def)
    moreover have "unat (y + of_nat k) = unat y + k" using that y by (simp add: unat_word_ariths)
    ultimately show False using x that y by simp
  qed
  from off [of 0] off [of 8] off [of 16] show "h s b tot x = bm_mem s x"
    by (simp add: h_def take_block_def store64_def write_bytes_def)
qed

lemma FindBitMap_at:
  assumes "sz \<noteq> 0" and "sz \<le> kBitMapMaxSz" and "first_unused (bm_mem s) (sz + pad) (base + kBitMapCursor s) k"
  defines "b \<equiv> block_at (bm_mem s) (sz + pad) (base + kBitMapCursor s) k"
  shows "FindBitMap s base sz wr user pad = Some (take_block s b (sz + pad)
        (if bm_magic (bm_mem s) b = kBitMapMagic then bm_mem s else store64 (bm_mem s) b kBitMapMagic), b + 24)"
  using find_loop_at [OF assms(3)] assms(1,2) by (simp add: FindBitMap_def Let_def b_def not_less [symmetric])

lemma FreeBitMap_rejects: "bm_magic (bm_mem s) p \<noteq> kBitMapMagic \<Longrightarrow> FreeBitMap s p = (s, False)"
  by (simp add: FreeBitMap_def IsBitMap_def)

lemma take_block_magic_after:
  "bm_magic (bm_mem (take_block s b tot (if bm_magic (bm_mem s) b = kBitMapMagic then bm_mem s
      else store64 (bm_mem s) b kBitMapMagic))) (b + 24) = bm_magic (bm_mem s) (b + 24)"
  by (simp add: take_block_def bm_magic_def load64_store64_sep sep_simps)

text \<open>
  \<open>Pmm\<close> never changes a page: \<open>Ref<PTEWrapper>\<close> converts to false because
  \<open>PTEWrapper\<close> declares no \<open>kVettable\<close>.
\<close>

lemma pmm_page_updates_ignored:
  "FreePage r = (r, False) \<and> TogglePresent r b = (r, False) \<and> ToggleUser r b = (r, False)
    \<and> ToggleRw r b = (r, False) \<and> ToggleShare r b = (r, False)"
  by (simp add: FreePage_def TogglePresent_def ToggleUser_def ToggleRw_def ToggleShare_def ref_bool_def pte_vettable_def)

section \<open>Properties\<close>

text \<open>
  C38. First fit.  For a size from 1 to 4 GiB, \<open>FindBitMap\<close> returns exactly when the chain of
  blocks from the cursor has an unused one, and then it takes the first: its header holds the
  magic, the padded size and the used mark, the result points behind the header, the cursor
  moves by the padded size and the alignment, and no byte outside the header changes.  A size of
  0 or above 4 GiB is refused with a null pointer.
\<close>

theorem FindBitMap_first_fit:
  "(if sz = 0 \<or> sz > kBitMapMaxSz then FindBitMap s base sz wr user pad = Some (s, 0)
    else case FindBitMap s base sz wr user pad of
      None \<Rightarrow> \<not> (\<exists>k. first_unused (bm_mem s) (sz + pad) (base + kBitMapCursor s) k)
    | Some (s', p) \<Rightarrow> (\<exists>k b. first_unused (bm_mem s) (sz + pad) (base + kBitMapCursor s) k
        \<and> b = block_at (bm_mem s) (sz + pad) (base + kBitMapCursor s) k \<and> p = b + 24
        \<and> bm_magic (bm_mem s') b = kBitMapMagic \<and> bm_size (bm_mem s') b = sz + pad \<and> bm_used (bm_mem s') b = 1
        \<and> (\<forall>x. unat (x - b) < 24 \<or> bm_mem s' x = bm_mem s x)
        \<and> kBitMapCursor s' = kBitMapCursor s + (sz + pad) + kAlign))"
proof (cases "sz = 0 \<or> sz > kBitMapMaxSz")
  case True
  then show ?thesis by (auto simp: FindBitMap_def)
next
  case False
  show ?thesis
  proof (cases "\<exists>k. first_unused (bm_mem s) (sz + pad) (base + kBitMapCursor s) k")
    case True
    then obtain k where k: "first_unused (bm_mem s) (sz + pad) (base + kBitMapCursor s) k" ..
    define b where "b = block_at (bm_mem s) (sz + pad) (base + kBitMapCursor s) k"
    define s' where "s' = take_block s b (sz + pad)
        (if bm_magic (bm_mem s) b = kBitMapMagic then bm_mem s else store64 (bm_mem s) b kBitMapMagic)"
    have "FindBitMap s base sz wr user pad = Some (s', b + 24)"
      using FindBitMap_at [OF _ _ k] False by (simp add: b_def s'_def not_less)
    moreover have "kBitMapCursor s' = kBitMapCursor s + (sz + pad) + kAlign"
      by (simp add: s'_def take_block_def)
    moreover note take_block_header [where s = s and b = b and tot = "sz + pad", folded s'_def]
    ultimately show ?thesis using False k b_def by auto
  next
    case none: False
    then have "FindBitMap s base sz wr user pad = None"
      using find_loop_Some [of s "base + kBitMapCursor s" sz pad] False
      by (cases "find_loop s (base + kBitMapCursor s) sz pad") (auto simp: FindBitMap_def)
    then show ?thesis using False none by simp
  qed
qed

text \<open>
  A block cannot be given back.  \<open>FreeBitMap\<close> looks for the magic at the pointer itself
  before it steps back to the header, so the pointer that \<open>mm_alloc_bitmap\<close> returned is
  refused unless the block's own bytes happen to start with the magic: the call changes nothing
  and returns No, and stops a debugging kernel.
\<close>

theorem mm_free_bitmap_rejects_block:
  assumes "mm_alloc_bitmap s wr user sz False pad = Some (s', p)"
    and "0 < sz" and "sz \<le> kBitMapMaxSz" and "p \<noteq> 0" and "bm_magic (bm_mem s) p \<noteq> kBitMapMagic"
  shows "mm_free_bitmap debug s' p = (if debug then Stop else Ret (s', False))"
proof -
  have find: "FindBitMap s (kKernelBitMpStart s) sz wr user pad = Some (s', p)"
    using assms(1) by (simp add: mm_alloc_bitmap_def)
  then obtain k where k: "first_unused (bm_mem s) (sz + pad) (kKernelBitMpStart s + kBitMapCursor s) k"
    using find_loop_Some assms(2,3) by (fastforce simp: FindBitMap_def split: if_splits)
  have "sz \<noteq> 0" using assms(2) by auto
  note at = FindBitMap_at [OF this assms(3) k, of wr user]
  define b where "b = block_at (bm_mem s) (sz + pad) (kKernelBitMpStart s + kBitMapCursor s) k"
  have "bm_magic (bm_mem s') p = bm_magic (bm_mem s) p"
    using at find take_block_magic_after [of s b "sz + pad"] unfolding b_def [symmetric] by simp
  then have "FreeBitMap s' p = (s', False)" using assms(5) by (intro FreeBitMap_rejects) simp
  then show ?thesis using assms(4) by (simp add: mm_free_bitmap_def must_pass_def)
qed

theorem mm_free_bitmap_rejects_block_witness:
  "\<exists>s p. mm_alloc_bitmap zero_bitmap True False 0x40 False 0 = Some (s, p) \<and> mm_free_bitmap False s p = Ret (s, False)"
proof -
  have "first_unused (bm_mem zero_bitmap) (0x40 + 0) (kKernelBitMpStart zero_bitmap + kBitMapCursor zero_bitmap) 0"
    by (simp add: first_unused_def zero_bitmap_def bm_used_def load64_def read_bytes_def upt_rec)
  from FindBitMap_at [OF _ _ this] obtain s where s: "mm_alloc_bitmap zero_bitmap True False 0x40 False 0 = Some (s, 0x100018)"
    by (simp add: mm_alloc_bitmap_def kBitMapMaxSz_def zero_bitmap_def)
  have "bm_magic (bm_mem zero_bitmap) 0x100018 \<noteq> kBitMapMagic"
    by (simp add: zero_bitmap_def bm_magic_def kBitMapMagic_def load64_def read_bytes_def upt_rec)
  from mm_free_bitmap_rejects_block [OF s _ _ _ this, of False] s show ?thesis
    by (auto simp: kBitMapMaxSz_def)
qed

text \<open>
  Consecutive blocks overlap.  When two requests are served one behind the other from
  unused memory, the header of the second block lies over the last eight bytes of the first:
  after the second request they hold the magic number, because a block takes 24 bytes of header
  and the search only steps over 16.
\<close>

theorem bitmap_blocks_overlap:
  assumes "0 < sz" and "sz \<le> kBitMapMaxSz" and "0 < sz'" and "sz' \<le> kBitMapMaxSz"
    and "FindBitMap s base sz wr user pad = Some (s1, p1)"
    and "FindBitMap s1 base sz' wr' user' pad' = Some (s2, p2)"
    and "bm_used (bm_mem s) (base + kBitMapCursor s) = 0"
    and "bm_used (bm_mem s1) (base + kBitMapCursor s1) = 0"
  shows "p2 - 24 = p1 + (sz + pad) - 8 \<and> load64 (bm_mem s2) (p1 + (sz + pad) - 8) = kBitMapMagic"
proof -
  have u: "first_unused (bm_mem s) (sz + pad) (base + kBitMapCursor s) 0"
    "first_unused (bm_mem s1) (sz' + pad') (base + kBitMapCursor s1) 0"
    using assms(7,8) by (simp_all add: first_unused_def)
  have nz: "sz \<noteq> 0" "sz' \<noteq> 0" using assms(1,3) by auto
  have 1: "p1 = base + kBitMapCursor s + 24" "kBitMapCursor s1 = kBitMapCursor s + (sz + pad) + kAlign"
    using FindBitMap_at [OF nz(1) assms(2) u(1)] assms(5) by (auto simp: take_block_def)
  define b where "b = base + kBitMapCursor s1"
  have 2: "p2 = b + 24" "bm_magic (bm_mem s2) b = kBitMapMagic"
    using FindBitMap_at [OF nz(2) assms(4) u(2)] assms(6) take_block_header(1) [of s1 b "sz' + pad'"]
    by (auto simp: b_def)
  have "b = p1 + (sz + pad) - 8" by (simp add: b_def 1 kAlign_def)
  with 2 show ?thesis by (simp add: bm_magic_def)
qed

theorem bitmap_blocks_overlap_witness:
  "\<exists>s1 s2 p1 p2. FindBitMap zero_bitmap 0x100000 0x40 True False 0 = Some (s1, p1)
     \<and> FindBitMap s1 0x100000 0x40 True False 0 = Some (s2, p2)
     \<and> load64 (bm_mem s2) (p1 + 0x40 - 8) = kBitMapMagic"
proof -
  define s1 where "s1 = take_block zero_bitmap 0x100000 0x40 (store64 (bm_mem zero_bitmap) 0x100000 kBitMapMagic)"
  have u: "bm_used (bm_mem zero_bitmap) (0x100000 + kBitMapCursor zero_bitmap) = 0"
    by (simp add: zero_bitmap_def bm_used_def load64_def read_bytes_def upt_rec)
  have z: "bm_magic (bm_mem zero_bitmap) 0x100000 \<noteq> kBitMapMagic"
    by (simp add: zero_bitmap_def bm_magic_def kBitMapMagic_def load64_def read_bytes_def upt_rec)
  have f1: "FindBitMap zero_bitmap 0x100000 0x40 True False 0 = Some (s1, 0x100018)"
    using FindBitMap_at [of "0x40" zero_bitmap 0 "0x100000" 0 True False] u z
    by (simp add: first_unused_def kBitMapMaxSz_def zero_bitmap_def s1_def)
  have u1: "bm_used (bm_mem s1) (0x100000 + kBitMapCursor s1) = 0"
    by (simp add: s1_def zero_bitmap_def take_block_def kAlign_def bm_used_def load64_def read_bytes_def upt_rec
        store64_def write_bytes_def)
  have "sz \<noteq> 0 \<Longrightarrow> sz \<le> kBitMapMaxSz \<Longrightarrow> \<exists>s2 p2. FindBitMap s1 0x100000 sz True False 0 = Some (s2, p2)" for sz
    using FindBitMap_at [of sz s1 0 "0x100000" 0 True False] u1 by (simp add: first_unused_def)
  from this [of "0x40"] obtain s2 p2 where f2: "FindBitMap s1 0x100000 0x40 True False 0 = Some (s2, p2)"
    by (auto simp: kBitMapMaxSz_def)
  have "load64 (bm_mem s2) (0x100018 + (0x40 + 0) - 8) = kBitMapMagic"
    using bitmap_blocks_overlap [OF _ _ _ _ f1 f2 u u1] by (simp add: kBitMapMaxSz_def)
  then show ?thesis using f1 f2 by auto
qed

end
