(* ===== verification/Crc32.thy ===== *)
theory Crc32
  imports NePrelude
begin

text \<open>
  The checksum of \<^verbatim>\<open>private/minkernel/src/Crc32.cpp\<close>: the table of 256 seeds and the byte
  loop over it.  The reference is the bit-serial CRC-32 with the reflected polynomial
  \<open>0xEDB88320\<close>.  The register is an injective function of its last 32 bits of input, so the
  checksum tells apart any two buffers that differ in one 32-bit field only.
\<close>

definition kChecksumPolys :: "u32 list" where
  "kChecksumPolys = [
    0x00000000, 0x77073096, 0xee0e612c, 0x990951ba, 0x076dc419, 0x706af48f, 0xe963a535, 0x9e6495a3,
    0x0edb8832, 0x79dcb8a4, 0xe0d5e91e, 0x97d2d988, 0x09b64c2b, 0x7eb17cbd, 0xe7b82d07, 0x90bf1d91,
    0x1db71064, 0x6ab020f2, 0xf3b97148, 0x84be41de, 0x1adad47d, 0x6ddde4eb, 0xf4d4b551, 0x83d385c7,
    0x136c9856, 0x646ba8c0, 0xfd62f97a, 0x8a65c9ec, 0x14015c4f, 0x63066cd9, 0xfa0f3d63, 0x8d080df5,
    0x3b6e20c8, 0x4c69105e, 0xd56041e4, 0xa2677172, 0x3c03e4d1, 0x4b04d447, 0xd20d85fd, 0xa50ab56b,
    0x35b5a8fa, 0x42b2986c, 0xdbbbc9d6, 0xacbcf940, 0x32d86ce3, 0x45df5c75, 0xdcd60dcf, 0xabd13d59,
    0x26d930ac, 0x51de003a, 0xc8d75180, 0xbfd06116, 0x21b4f4b5, 0x56b3c423, 0xcfba9599, 0xb8bda50f,
    0x2802b89e, 0x5f058808, 0xc60cd9b2, 0xb10be924, 0x2f6f7c87, 0x58684c11, 0xc1611dab, 0xb6662d3d,
    0x76dc4190, 0x01db7106, 0x98d220bc, 0xefd5102a, 0x71b18589, 0x06b6b51f, 0x9fbfe4a5, 0xe8b8d433,
    0x7807c9a2, 0x0f00f934, 0x9609a88e, 0xe10e9818, 0x7f6a0dbb, 0x086d3d2d, 0x91646c97, 0xe6635c01,
    0x6b6b51f4, 0x1c6c6162, 0x856530d8, 0xf262004e, 0x6c0695ed, 0x1b01a57b, 0x8208f4c1, 0xf50fc457,
    0x65b0d9c6, 0x12b7e950, 0x8bbeb8ea, 0xfcb9887c, 0x62dd1ddf, 0x15da2d49, 0x8cd37cf3, 0xfbd44c65,
    0x4db26158, 0x3ab551ce, 0xa3bc0074, 0xd4bb30e2, 0x4adfa541, 0x3dd895d7, 0xa4d1c46d, 0xd3d6f4fb,
    0x4369e96a, 0x346ed9fc, 0xad678846, 0xda60b8d0, 0x44042d73, 0x33031de5, 0xaa0a4c5f, 0xdd0d7cc9,
    0x5005713c, 0x270241aa, 0xbe0b1010, 0xc90c2086, 0x5768b525, 0x206f85b3, 0xb966d409, 0xce61e49f,
    0x5edef90e, 0x29d9c998, 0xb0d09822, 0xc7d7a8b4, 0x59b33d17, 0x2eb40d81, 0xb7bd5c3b, 0xc0ba6cad,
    0xedb88320, 0x9abfb3b6, 0x03b6e20c, 0x74b1d29a, 0xead54739, 0x9dd277af, 0x04db2615, 0x73dc1683,
    0xe3630b12, 0x94643b84, 0x0d6d6a3e, 0x7a6a5aa8, 0xe40ecf0b, 0x9309ff9d, 0x0a00ae27, 0x7d079eb1,
    0xf00f9344, 0x8708a3d2, 0x1e01f268, 0x6906c2fe, 0xf762575d, 0x806567cb, 0x196c3671, 0x6e6b06e7,
    0xfed41b76, 0x89d32be0, 0x10da7a5a, 0x67dd4acc, 0xf9b9df6f, 0x8ebeeff9, 0x17b7be43, 0x60b08ed5,
    0xd6d6a3e8, 0xa1d1937e, 0x38d8c2c4, 0x4fdff252, 0xd1bb67f1, 0xa6bc5767, 0x3fb506dd, 0x48b2364b,
    0xd80d2bda, 0xaf0a1b4c, 0x36034af6, 0x41047a60, 0xdf60efc3, 0xa867df55, 0x316e8eef, 0x4669be79,
    0xcb61b38c, 0xbc66831a, 0x256fd2a0, 0x5268e236, 0xcc0c7795, 0xbb0b4703, 0x220216b9, 0x5505262f,
    0xc5ba3bbe, 0xb2bd0b28, 0x2bb45a92, 0x5cb36a04, 0xc2d7ffa7, 0xb5d0cf31, 0x2cd99e8b, 0x5bdeae1d,
    0x9b64c2b0, 0xec63f226, 0x756aa39c, 0x026d930a, 0x9c0906a9, 0xeb0e363f, 0x72076785, 0x05005713,
    0x95bf4a82, 0xe2b87a14, 0x7bb12bae, 0x0cb61b38, 0x92d28e9b, 0xe5d5be0d, 0x7cdcefb7, 0x0bdbdf21,
    0x86d3d2d4, 0xf1d4e242, 0x68ddb3f8, 0x1fda836e, 0x81be16cd, 0xf6b9265b, 0x6fb077e1, 0x18b74777,
    0x88085ae6, 0xff0f6a70, 0x66063bca, 0x11010b5c, 0x8f659eff, 0xf862ae69, 0x616bffd3, 0x166ccf45,
    0xa00ae278, 0xd70dd2ee, 0x4e048354, 0x3903b3c2, 0xa7672661, 0xd06016f7, 0x4969474d, 0x3e6e77db,
    0xaed16a4a, 0xd9d65adc, 0x40df0b66, 0x37d83bf0, 0xa9bcae53, 0xdebb9ec5, 0x47b2cf7f, 0x30b5ffe9,
    0xbdbdf21c, 0xcabac28a, 0x53b39330, 0x24b4a3a6, 0xbad03605, 0xcdd70693, 0x54de5729, 0x23d967bf,
    0xb3667a2e, 0xc4614ab8, 0x5d681b02, 0x2a6f2b94, 0xb40bbe37, 0xc30c8ea1, 0x5a05df1b, 0x2d02ef8d]"

definition crc_step :: "u32 \<Rightarrow> u8 \<Rightarrow> u32" where
  "crc_step crc c = drop_bit 8 crc XOR kChecksumPolys ! unat ((crc XOR scast c) AND 0xFF)"

text \<open>\<open>Char\<close> is signed, so the byte is sign-extended before the exclusive or.\<close>

primrec crc_loop :: "mem \<Rightarrow> u64 \<Rightarrow> nat \<Rightarrow> u32 \<Rightarrow> u32" where
  "crc_loop m p 0 crc = crc"
| "crc_loop m p (Suc n) crc = crc_loop m (p + 1) n (crc_step crc (m p))"

definition ke_calculate_crc32 :: "mem \<Rightarrow> u64 \<Rightarrow> int \<Rightarrow> u32" where
  "ke_calculate_crc32 m inp len =
     (if inp = 0 then NOT 0 else NOT (crc_loop m inp (nat len) 0xffffffff))"

section \<open>The bit-serial reference\<close>

definition bit_step :: "u32 \<Rightarrow> u32" where
  "bit_step x = drop_bit 1 x XOR (if x AND 1 = 1 then 0xEDB88320 else 0)"

definition byte_step :: "u32 \<Rightarrow> u8 \<Rightarrow> u32" where
  "byte_step crc b = (bit_step ^^ 8) (crc XOR ucast b)"

definition crc32 :: "u8 list \<Rightarrow> u32" where
  "crc32 bs = NOT (fold (\<lambda>b crc. byte_step crc b) bs 0xffffffff)"

text \<open>The bit step on integers, for evaluation.\<close>

definition int_step :: "int \<Rightarrow> int" where
  "int_step x = (x div 2) XOR (if x mod 2 = 1 then 0xEDB88320 else 0)"

primrec int_steps :: "nat \<Rightarrow> int \<Rightarrow> int" where
  "int_steps 0 x = x"
| "int_steps (Suc n) x = int_steps n (int_step x)"

lemma int_steps_8: "int_steps 8 x = int_step (int_step (int_step (int_step (int_step (int_step (int_step (int_step x)))))))"
  by (simp add: eval_nat_numeral)

lemma int_seeds: "map (int_steps 8) [0..255] = map uint kChecksumPolys"
  by (simp add: int_steps_8 int_step_def upto.simps kChecksumPolys_def)

section \<open>The table is the reference\<close>

lemma and_1_eq_bit: "(x :: u32) AND 1 = 1 \<longleftrightarrow> bit x 0"
  by (simp add: and_one_eq bit_0 odd_iff_mod_2_eq_one)

lemma bit_step_int: "uint (bit_step x) = int_step (uint x)"
proof -
  have "uint x mod 2 = 1 \<longleftrightarrow> x AND 1 = 1"
    unfolding and_1_eq_bit by (metis bit_0 bit_uint_iff odd_iff_mod_2_eq_one bit_imp_le_length)
  then show ?thesis
    by (simp add: bit_step_def int_step_def unsigned_xor_eq drop_bit_eq_div uint_div)
qed

lemma bit_steps_int: "uint ((bit_step ^^ n) x) = int_steps n (uint x)"
  by (induction n arbitrary: x) (simp_all add: bit_step_int funpow_Suc_right del: funpow.simps)

lemma seed:
  assumes "i < 256"
  shows "kChecksumPolys ! i = (bit_step ^^ 8) (of_nat i)"
proof -
  have len: "length kChecksumPolys = 256" by (simp add: kChecksumPolys_def)
  have "uint (kChecksumPolys ! i) = map uint kChecksumPolys ! i" using assms len by simp
  also have "\<dots> = int_steps 8 (int i)"
    using assms by (simp add: int_seeds [symmetric] nth_upto)
  also have "\<dots> = uint ((bit_step ^^ 8) (of_nat i))"
  proof -
    have "uint (of_nat i :: u32) = int i" using assms by (simp add: uint_word_of_int_eq unsigned_of_nat take_bit_eq_mod)
    then show ?thesis by (simp only: bit_steps_int)
  qed
  finally show ?thesis by (rule word_uint_eqI)
qed

lemma bit_step_xor: "bit_step (x XOR y) = bit_step x XOR bit_step y"
  unfolding bit_step_def and_1_eq_bit
  by (auto simp: bit_xor_iff drop_bit_xor xor.assoc xor.left_commute)

lemma bit_steps_xor: "(bit_step ^^ n) (x XOR y) = (bit_step ^^ n) x XOR (bit_step ^^ n) y"
  by (induction n) (simp_all add: bit_step_xor)

lemma bit_steps_high: "\<forall>k < n. \<not> bit x k \<Longrightarrow> (bit_step ^^ n) x = drop_bit n x"
proof (induction n arbitrary: x)
  case (Suc n)
  then have "bit_step x = drop_bit 1 x" unfolding bit_step_def and_1_eq_bit by auto
  moreover have "\<forall>k < n. \<not> bit (drop_bit 1 x) k" using Suc.prems by (simp add: bit_drop_bit_eq)
  ultimately show ?case using Suc.IH [of "drop_bit 1 x"]
    by (simp add: funpow_Suc_right drop_bit_drop_bit del: funpow.simps)
qed simp

lemma crc_step_byte: "crc_step crc b = byte_step crc b"
proof -
  define y where "y = crc XOR ucast b"
  have low: "(crc XOR scast b) AND 0xFF = take_bit 8 y"
  proof -
    have "(crc XOR scast b) AND 0xFF = take_bit 8 (crc XOR scast b)"
      by (simp add: take_bit_eq_mask mask_eq_exp_minus_1)
    also have "\<dots> = take_bit 8 y" unfolding y_def
      by (rule bit_eqI) (auto simp: bit_simps)
    finally show ?thesis .
  qed
  have small: "unat (take_bit 8 y) < 256"
    using take_bit_nat_less_exp [of 8 "unat y"] by (simp add: unsigned_take_bit_eq)
  have "y = (y AND NOT (mask 8)) XOR take_bit 8 y"
    by (rule bit_eqI) (auto simp: bit_simps)
  then have "(bit_step ^^ 8) y = (bit_step ^^ 8) (y AND NOT (mask 8)) XOR (bit_step ^^ 8) (take_bit 8 y)"
    using bit_steps_xor by metis
  also have "(bit_step ^^ 8) (y AND NOT (mask 8)) = drop_bit 8 (y AND NOT (mask 8))"
    by (rule bit_steps_high) (auto simp: bit_simps)
  also have "drop_bit 8 (y AND NOT (mask 8)) = drop_bit 8 crc" unfolding y_def
    by (rule bit_eqI) (auto simp: bit_simps dest: bit_imp_le_length)
  also have "(bit_step ^^ 8) (take_bit 8 y) = kChecksumPolys ! unat (take_bit 8 y)"
    using seed [OF small] by simp
  finally show ?thesis unfolding byte_step_def y_def [symmetric] crc_step_def low by simp
qed

lemma crc_loop_fold: "crc_loop m p n crc = fold (\<lambda>b c. byte_step c b) (read_bytes m p n) crc"
  by (induction n arbitrary: p crc) (simp_all add: read_bytes_Suc crc_step_byte)

section \<open>Changes that the checksum detects\<close>

lemma xor_0_eq: "(a :: u32) XOR b = 0 \<longleftrightarrow> a = b"
  by (auto simp: bit_eq_iff bit_xor_iff)

lemma xor_cancel: "a XOR c = b XOR c \<longleftrightarrow> a = (b :: u32)"
  by (auto simp: bit_eq_iff bit_xor_iff)

lemma bit_step_0: "bit_step z = 0 \<Longrightarrow> z = 0"
proof -
  assume a: "bit_step z = 0"
  have no31: "\<not> bit (drop_bit 1 z) 31" by (simp add: bit_drop_bit_eq) (use bit_imp_le_length in fastforce)
  have even: "\<not> bit z 0"
  proof
    assume "bit z 0"
    then have "drop_bit 1 z XOR 0xEDB88320 = 0" using a by (simp add: bit_step_def and_1_eq_bit)
    then have "drop_bit 1 z = 0xEDB88320" by (simp only: xor_0_eq)
    then show False using no31 by simp
  qed
  then have "drop_bit 1 z = 0" using a by (simp add: bit_step_def and_1_eq_bit)
  then have "bit (drop_bit 1 z) k = False" for k by simp
  then have "\<not> bit z (Suc k)" for k by (simp add: bit_drop_bit_eq)
  with even show "z = 0" by (intro bit_eqI) (metis bit_0_eq bot_apply bot_bool_def not0_implies_Suc)
qed

lemma bit_steps_inj: "(bit_step ^^ n) x = (bit_step ^^ n) y \<longleftrightarrow> x = y"
proof (induction n)
  case (Suc n)
  have "bit_step a = bit_step b \<longleftrightarrow> a = b" for a b
  proof
    assume "bit_step a = bit_step b"
    then have "bit_step (a XOR b) = 0" by (simp add: bit_step_xor)
    then have "a XOR b = 0" by (rule bit_step_0)
    then show "a = b" by (simp only: xor_0_eq)
  qed simp
  then show ?case using Suc.IH by simp
qed simp

lemma bit_steps_push:
  assumes "n \<le> 24"
  shows "(bit_step ^^ n) z XOR ucast (b :: u8) = (bit_step ^^ n) (z XOR push_bit n (ucast b))"
proof -
  have "(bit_step ^^ n) (push_bit n (ucast b)) = drop_bit n (push_bit n (ucast b :: u32))"
    by (rule bit_steps_high) (auto simp: bit_simps)
  also have "\<dots> = ucast b" using assms by (intro bit_eqI) (auto simp: bit_simps dest: bit_imp_le_length)
  finally show ?thesis by (simp add: bit_steps_xor)
qed

lemma byte_steps_inj: "fold (\<lambda>b c. byte_step c b) bs x = fold (\<lambda>b c. byte_step c b) bs y \<longleftrightarrow> x = y"
proof (induction bs arbitrary: x y)
  case (Cons b bs)
  have "byte_step x b = byte_step y b \<longleftrightarrow> x = y" unfolding byte_step_def bit_steps_inj by (simp only: xor_cancel)
  then show ?case using Cons by simp
qed simp

text \<open>Four bytes are a shift of the register by 32 bits.\<close>

lemma word_steps:
  "fold (\<lambda>b c. byte_step c b) [b0, b1, b2, b3] s
    = (bit_step ^^ 32) (s XOR ucast b0 XOR push_bit 8 (ucast b1) XOR push_bit 16 (ucast b2) XOR push_bit 24 (ucast b3))"
  by (simp add: byte_step_def bit_steps_push funpow_add [symmetric, unfolded o_def, THEN fun_cong] xor.assoc)

lemma word_bytes:
  "ucast (ucast w :: u8) XOR push_bit 8 (ucast (ucast (drop_bit 8 w) :: u8)) XOR push_bit 16 (ucast (ucast (drop_bit 16 w) :: u8))
    XOR push_bit 24 (ucast (ucast (drop_bit 24 w) :: u8)) = (w :: u32)" (is "?l = w")
proof (rule bit_word_eqI)
  fix k :: nat
  assume "k < LENGTH(32)"
  then consider "k < 8" | "8 \<le> k \<and> k < 16" | "16 \<le> k \<and> k < 24" | "24 \<le> k \<and> k < 32" by fastforce
  then show "bit ?l k = bit w k"
    by cases (auto simp: bit_simps)
qed

lemma le_bytes_u32:
  "le_bytes 4 (ucast (w :: u32)) = [ucast w, ucast (drop_bit 8 w), ucast (drop_bit 16 w), ucast (drop_bit 24 w)]"
  by (simp add: numeral_eq_Suc le_bytes_Suc) (simp add: bit_eq_iff bit_simps)

lemma crc32_field:
  "crc32 (pre @ le_bytes 4 (ucast (c :: u32)) @ post) = crc32 (pre @ le_bytes 4 (ucast c') @ post) \<longleftrightarrow> c = c'"
proof -
  have "fold (\<lambda>b c. byte_step c b) (le_bytes 4 (ucast w)) s = (bit_step ^^ 32) (s XOR w)" for s and w :: u32
    unfolding le_bytes_u32 word_steps by (simp only: word_bytes [of w])
  moreover have "s XOR c = s XOR c' \<longleftrightarrow> c = c'" for s :: u32 by (simp only: xor.commute [of s] xor_cancel)
  ultimately show ?thesis
    by (simp add: crc32_def byte_steps_inj bit_steps_inj del: fold.simps)
qed

section \<open>Properties\<close>

text \<open>
  C28. The table-driven checksum is CRC-32.  For a non-null buffer of \<open>len\<close> bytes,
  \<open>ke_calculate_crc32\<close> returns the bit-serial CRC-32 of the bytes; a null buffer gives all
  ones and a negative or zero length the checksum of no bytes, which is 0.
\<close>

theorem ke_calculate_crc32_correct:
  "ke_calculate_crc32 m inp len =
    (if inp = 0 then - 1 else if len \<le> 0 then 0 else crc32 (read_bytes m inp (nat len)))"
  by (simp add: ke_calculate_crc32_def crc_loop_fold crc32_def)

end
