(* ===== verification/HeapMgr.thy ===== *)
theory HeapMgr
  imports BitMapMgr Crc32 AsciiUtils
begin

text \<open>
  The kernel heap, \<^verbatim>\<open>private/minkernel/src/HeapMgr.cpp\<close>, with the operators of
  \<^verbatim>\<open>New+Delete.cpp\<close> and the self-test of \<^verbatim>\<open>KPC.cpp\<close>.  A heap pointer is preceded by
  an \<open>MM_INFORMATION_BLOCK\<close>, a packed structure of 34 bytes: 24 bits of magic and four flag
  bits in the first four bytes, then CRC, flags, size, offset, padding count and four bytes of
  padding.  The fields are read and written in the byte memory of the bitmap allocator at their
  offsets.  The spin flags serialise the operations.
\<close>

definition kHeapMgrMagic :: u64 where "kHeapMgrMagic = 0xD4D75"

text \<open>\<open>sizeof(MM_INFORMATION_BLOCK)\<close> and \<open>kHeapMgrHdrSz\<close>.\<close>

definition mib_sz :: u64 where "mib_sz = 34"
definition kHeapMgrHdrSz :: u64 where "kHeapMgrHdrSz = mib_sz * 2"

section \<open>The information block\<close>

definition set_field :: "u64 \<Rightarrow> nat \<Rightarrow> nat \<Rightarrow> u64 \<Rightarrow> u64" where
  "set_field w lo n v = (w AND NOT (push_bit lo (mask n))) OR push_bit lo (take_bit n v)"

definition get_field :: "u64 \<Rightarrow> nat \<Rightarrow> nat \<Rightarrow> u64" where
  "get_field w lo n = take_bit n (drop_bit lo w)"

definition mib_fMagic :: "mem \<Rightarrow> u64 \<Rightarrow> u64" where "mib_fMagic m h = get_field (load_le 4 m h) 0 24"
definition mib_fPresent :: "mem \<Rightarrow> u64 \<Rightarrow> bool" where "mib_fPresent m h = (get_field (load_le 4 m h) 24 1 \<noteq> 0)"
definition mib_fWriteRead :: "mem \<Rightarrow> u64 \<Rightarrow> bool" where "mib_fWriteRead m h = (get_field (load_le 4 m h) 25 1 \<noteq> 0)"
definition mib_fUser :: "mem \<Rightarrow> u64 \<Rightarrow> bool" where "mib_fUser m h = (get_field (load_le 4 m h) 26 1 \<noteq> 0)"
definition mib_fPage :: "mem \<Rightarrow> u64 \<Rightarrow> bool" where "mib_fPage m h = (get_field (load_le 4 m h) 27 1 \<noteq> 0)"
definition mib_fCRC32 :: "mem \<Rightarrow> u64 \<Rightarrow> u64" where "mib_fCRC32 m h = load_le 4 m (h + 4)"
definition mib_fFlags :: "mem \<Rightarrow> u64 \<Rightarrow> u64" where "mib_fFlags m h = load_le 2 m (h + 8)"
definition mib_fSize :: "mem \<Rightarrow> u64 \<Rightarrow> u64" where "mib_fSize m h = load_le 8 m (h + 10)"
definition mib_fOffset :: "mem \<Rightarrow> u64 \<Rightarrow> u64" where "mib_fOffset m h = load_le 8 m (h + 18)"
definition mib_fPad :: "mem \<Rightarrow> u64 \<Rightarrow> u64" where "mib_fPad m h = load_le 4 m (h + 26)"

definition set_bits :: "nat \<Rightarrow> nat \<Rightarrow> u64 \<Rightarrow> u64 \<Rightarrow> mem \<Rightarrow> mem" where
  "set_bits lo n v h m = store_le 4 m h (set_field (load_le 4 m h) lo n v)"

definition set_fMagic :: "u64 \<Rightarrow> u64 \<Rightarrow> mem \<Rightarrow> mem" where "set_fMagic v = set_bits 0 24 v"
definition set_fPresent :: "bool \<Rightarrow> u64 \<Rightarrow> mem \<Rightarrow> mem" where "set_fPresent b = set_bits 24 1 (of_bool b)"
definition set_fWriteRead :: "bool \<Rightarrow> u64 \<Rightarrow> mem \<Rightarrow> mem" where "set_fWriteRead b = set_bits 25 1 (of_bool b)"
definition set_fUser :: "bool \<Rightarrow> u64 \<Rightarrow> mem \<Rightarrow> mem" where "set_fUser b = set_bits 26 1 (of_bool b)"
definition set_fPage :: "bool \<Rightarrow> u64 \<Rightarrow> mem \<Rightarrow> mem" where "set_fPage b = set_bits 27 1 (of_bool b)"
definition set_fCRC32 :: "u64 \<Rightarrow> u64 \<Rightarrow> mem \<Rightarrow> mem" where "set_fCRC32 v h m = store_le 4 m (h + 4) v"
definition set_fFlags :: "u64 \<Rightarrow> u64 \<Rightarrow> mem \<Rightarrow> mem" where "set_fFlags v h m = store_le 2 m (h + 8) v"
definition set_fSize :: "u64 \<Rightarrow> u64 \<Rightarrow> mem \<Rightarrow> mem" where "set_fSize v h m = store_le 8 m (h + 10) v"
definition set_fOffset :: "u64 \<Rightarrow> u64 \<Rightarrow> mem \<Rightarrow> mem" where "set_fOffset v h m = store_le 8 m (h + 18) v"
definition set_fPad :: "u64 \<Rightarrow> u64 \<Rightarrow> mem \<Rightarrow> mem" where "set_fPad v h m = store_le 4 m (h + 26) v"

section \<open>The operations\<close>

definition mm_check_ptr_address :: "mem \<Rightarrow> u64 \<Rightarrow> bool" where
  "mm_check_ptr_address m heap_ptr =
     (if heap_ptr = 0 then False
      else if heap_ptr \<le> kHeapMgrHdrSz then False
      else if \<not> mm_is_bitmap m (heap_ptr - kHeapMgrHdrSz) then False
      else let heap_info_ptr = heap_ptr - mib_sz
           in mib_fMagic m heap_info_ptr = kHeapMgrMagic \<and> mib_fPresent m heap_info_ptr)"

definition fill_header :: "u64 \<Rightarrow> u64 \<Rightarrow> bool \<Rightarrow> bool \<Rightarrow> u64 \<Rightarrow> mem \<Rightarrow> mem" where
  "fill_header h sz_fix wr user pad_amount m =
     (let m = set_fSize sz_fix h m;
          m = set_fMagic kHeapMgrMagic h m;
          m = set_fCRC32 0 h m;
          m = set_fOffset (h + mib_sz) h m;
          m = set_fPage False h m;
          m = set_fWriteRead wr h m;
          m = set_fUser user h m;
          m = set_fPresent True h m;
          m = set_fPad pad_amount h m
      in fst (rt_set_memory m (h + 30) 0 4))"

definition mm_alloc_ptr :: "bitmap \<Rightarrow> u64 \<Rightarrow> bool \<Rightarrow> bool \<Rightarrow> u64 \<Rightarrow> (bitmap \<times> u64) option" where
  "mm_alloc_ptr s sz wr user pad_amount =
     (if sz = 0 then Some (s, 0)
      else let sz_fix = sz + kHeapMgrHdrSz
           in case PageMgr_Request s wr user False sz_fix pad_amount of
                None \<Rightarrow> None
              | Some (s1, wrapper) \<Rightarrow>
                  let h = fVirtAddr wrapper + mib_sz;
                      m = fill_header h sz_fix wr user pad_amount (bm_mem s1)
                  in Some (s1\<lparr>bm_mem := m\<rparr>, mib_fOffset m h))"

definition mm_ctl_page :: "bitmap \<Rightarrow> u64 \<Rightarrow> bool \<Rightarrow> bitmap \<times> int" where
  "mm_ctl_page s heap_ptr enable =
     (if \<not> mm_check_ptr_address (bm_mem s) heap_ptr then (s, kErrorHeapNotPresent)
      else let h = heap_ptr - mib_sz
           in if h = 0 then (s, kErrorHeapNotPresent)
              else (s\<lparr>bm_mem := set_fPage enable h (bm_mem s)\<rparr>, kErrorSuccess))"

definition mm_set_ptr_flags :: "bitmap \<Rightarrow> u64 \<Rightarrow> u64 \<Rightarrow> bitmap \<times> int" where
  "mm_set_ptr_flags s heap_ptr flags =
     (if \<not> mm_check_ptr_address (bm_mem s) heap_ptr then (s, kErrorHeapNotPresent)
      else let h = heap_ptr - mib_sz
           in if h = 0 then (s, kErrorHeapNotPresent)
              else (s\<lparr>bm_mem := set_fFlags flags h (bm_mem s)\<rparr>, kErrorSuccess))"

definition mm_get_ptr_flags :: "bitmap \<Rightarrow> u64 \<Rightarrow> u64" where
  "mm_get_ptr_flags s heap_ptr =
     (let h = heap_ptr - mib_sz
      in if h = 0 then word_of_int kErrorHeapNotPresent else mib_fFlags (bm_mem s) h)"

definition clear_header :: "u64 \<Rightarrow> mem \<Rightarrow> mem" where
  "clear_header h m =
     (let m = set_fSize 0 h m;
          m = set_fPresent False h m;
          m = set_fOffset 0 h m;
          m = set_fCRC32 0 h m;
          m = set_fWriteRead False h m;
          m = set_fUser False h m
      in set_fPad 0 h m)"

definition mm_free_ptr :: "bool \<Rightarrow> bitmap \<Rightarrow> u64 \<Rightarrow> (bitmap \<times> int) outcome" where
  "mm_free_ptr debug s heap_ptr =
     (if heap_ptr = 0 then Ret (s, kErrorHeapNotPresent)
      else if heap_ptr \<le> kHeapMgrHdrSz then Ret (s, kErrorHeapNotPresent)
      else
        let base_ptr = heap_ptr - kHeapMgrHdrSz
        in if \<not> mm_is_bitmap (bm_mem s) base_ptr then Ret (s, kErrorHeapNotPresent)
           else
             let h = heap_ptr - mib_sz
             in if mib_fMagic (bm_mem s) h \<noteq> kHeapMgrMagic then Ret (s, kErrorHeapNotPresent)
                else if \<not> mib_fPresent (bm_mem s) h then Stop
                else
                  let s1 = s\<lparr>bm_mem := clear_header h (bm_mem s)\<rparr>
                  in case PageMgr_Free debug s1 (PTEWrapper False False False base_ptr) of
                       Stop \<Rightarrow> Stop
                     | Ret (s2, ok) \<Rightarrow> Ret (s2, kErrorSuccess))"

definition mm_is_valid_ptr :: "bitmap \<Rightarrow> u64 \<Rightarrow> bool" where
  "mm_is_valid_ptr s heap_ptr = mm_check_ptr_address (bm_mem s) heap_ptr"

definition mm_protect_ptr :: "bitmap \<Rightarrow> u64 \<Rightarrow> bitmap \<times> bool" where
  "mm_protect_ptr s heap_ptr =
     (if heap_ptr \<noteq> 0 then
        let h = heap_ptr - mib_sz
        in if h \<noteq> 0 \<and> mib_fPresent (bm_mem s) h \<and> kHeapMgrMagic = mib_fMagic (bm_mem s) h then
             (s\<lparr>bm_mem := set_fCRC32 (ucast (ke_calculate_crc32 (bm_mem s) h 34)) h (bm_mem s)\<rparr>, True)
           else (s, False)
      else (s, False))"

section \<open>Operators new and delete, and the bug check\<close>

definition operator_new :: "bitmap \<Rightarrow> u64 \<Rightarrow> (bitmap \<times> u64) option" where
  "operator_new s sz = mm_alloc_ptr s (if sz = 0 then sz + 1 else sz) True False 0"

definition operator_delete :: "bool \<Rightarrow> bitmap \<Rightarrow> u64 \<Rightarrow> bitmap outcome" where
  "operator_delete debug s ptr =
     (if ptr = 0 then Ret s
      else case mm_free_ptr debug s ptr of Stop \<Rightarrow> Stop | Ret (s1, r) \<Rightarrow> Ret s1)"

definition err_bug_check_raise :: "bool \<Rightarrow> bool \<Rightarrow> bitmap \<Rightarrow> (bitmap \<times> bool) outcome option" where
  "err_bug_check_raise debug kRaiseOnBugCheck s =
     (case operator_new s 512 of
        None \<Rightarrow> None
      | Some (s1, ptr) \<Rightarrow>
          if ptr \<noteq> 0 \<and> mm_is_valid_ptr s1 ptr then
            Some (case operator_delete debug s1 ptr of Stop \<Rightarrow> Stop | Ret s2 \<Rightarrow> Ret (s2, True))
          else
            Some (case operator_delete debug s1 ptr of
                    Stop \<Rightarrow> Stop
                  | Ret s2 \<Rightarrow> if kRaiseOnBugCheck then Stop else Ret (s2, False)))"

section \<open>Reading a field after writing one\<close>

lemma get_set_same: "lo + n \<le> 32 \<Longrightarrow> get_field (take_bit 32 (set_field w lo n v)) lo n = take_bit n v"
  unfolding get_field_def set_field_def by (rule bit_eqI) (auto simp: bit_simps)

lemma get_set_other:
  "lo + n \<le> lo' \<or> lo' + n' \<le> lo \<Longrightarrow> lo' + n' \<le> 32 \<Longrightarrow>
   get_field (take_bit 32 (set_field w lo n v)) lo' n' = get_field w lo' n'"
  unfolding get_field_def set_field_def by (rule bit_eqI) (auto simp: bit_simps)

lemma load_set_bits: "load_le 4 (set_bits lo n v h m) h = take_bit 32 (set_field (load_le 4 m h) lo n v)"
  by (simp add: set_bits_def load_store_le_same)

lemma load_set_bits_sep: "sep h 4 a k \<Longrightarrow> load_le k (set_bits lo n v h m) a = load_le k m a"
  by (simp add: set_bits_def load_store_le_sep)

lemmas mib_getters = mib_fMagic_def mib_fPresent_def mib_fWriteRead_def mib_fUser_def mib_fPage_def
  mib_fCRC32_def mib_fFlags_def mib_fSize_def mib_fOffset_def mib_fPad_def

lemmas mib_setters = set_fMagic_def set_fPresent_def set_fWriteRead_def set_fUser_def set_fPage_def
  set_fCRC32_def set_fFlags_def set_fSize_def set_fOffset_def set_fPad_def

lemmas mib_access = load_set_bits load_set_bits_sep load_store_le_same load_store_le_sep sep_simps
  get_set_same get_set_other

lemma rt_set_padding: "h + 30 \<noteq> 0 \<Longrightarrow> fst (rt_set_memory m (h + 30) 0 4) = write_bytes m (h + 30) (replicate 4 0)"
  by (simp add: rt_set_memory_def set_loop_eq)

lemma load_write_sep: "sep a (length bs) b n \<Longrightarrow> load_le n (write_bytes m a bs) b = load_le n m b"
  by (simp add: load_le_def read_write_sep)

lemma rt_set_padding_load:
  "sep (h + 30) 4 a n \<Longrightarrow> load_le n (fst (rt_set_memory m (h + 30) 0 4)) a = load_le n m a"
  by (cases "h + 30 = 0") (simp add: rt_set_memory_def, simp add: rt_set_padding load_write_sep)

lemma fill_header_fields:
  shows "mib_fMagic (fill_header h sz wr user pad m) h = kHeapMgrMagic" "mib_fPresent (fill_header h sz wr user pad m) h" "mib_fWriteRead (fill_header h sz wr user pad m) h = wr" "mib_fUser (fill_header h sz wr user pad m) h = user"
    "mib_fPage (fill_header h sz wr user pad m) h = False" "mib_fCRC32 (fill_header h sz wr user pad m) h = 0" "mib_fSize (fill_header h sz wr user pad m) h = sz" "mib_fOffset (fill_header h sz wr user pad m) h = h + mib_sz"
    "mib_fPad (fill_header h sz wr user pad m) h = take_bit 32 pad"
  unfolding fill_header_def Let_def mib_getters
  by (simp_all add: rt_set_padding_load mib_setters mib_access kHeapMgrMagic_def take_bit_word_eq_self)

lemma clear_header_fields:
  shows "mib_fMagic (clear_header h m) h = mib_fMagic m h" "\<not> mib_fPresent (clear_header h m) h"
  unfolding clear_header_def Let_def mib_getters
  by (simp_all add: mib_setters mib_access)

text \<open>Writing an information block leaves every range outside its 34 bytes alone.\<close>

lemma set_bits_outside: "sep h 4 a k \<Longrightarrow> load_le k (set_bits lo n v h m) a = load_le k m a"
  by (rule load_set_bits_sep)

lemma mib_sep:
  assumes "sep h 34 a k"
  shows "sep h 4 a k" "sep (h + 4) 4 a k" "sep (h + 8) 2 a k" "sep (h + 10) 8 a k" "sep (h + 18) 8 a k"
    "sep (h + 26) 4 a k" "sep (h + 30) 4 a k"
  using sep_sub [OF assms, of 0 4] sep_sub [OF assms, of 4 4] sep_sub [OF assms, of 8 2]
    sep_sub [OF assms, of 10 8] sep_sub [OF assms, of 18 8] sep_sub [OF assms, of 26 4] sep_sub [OF assms, of 30 4]
  by simp_all

lemma fill_header_outside:
  "sep h 34 a k \<Longrightarrow> load_le k (fill_header h sz wr user pad m) a = load_le k m a"
  by (simp add: fill_header_def Let_def mib_setters rt_set_padding_load load_store_le_sep load_set_bits_sep mib_sep)

lemma clear_header_outside:
  "sep h 34 a k \<Longrightarrow> load_le k (clear_header h m) a = load_le k m a"
  by (simp add: clear_header_def Let_def mib_setters load_store_le_sep load_set_bits_sep mib_sep)

lemma mm_alloc_ptr_Some:
  assumes alloc: "mm_alloc_ptr s sz wr user pad = Some (s', p)" and sz: "sz \<noteq> 0"
    and fits: "sz + kHeapMgrHdrSz \<noteq> 0" "sz + kHeapMgrHdrSz \<le> kBitMapMaxSz"
  obtains k b s1 where "first_unused (bm_mem s) (sz + kHeapMgrHdrSz + pad) (kKernelBitMpStart s + kBitMapCursor s) k"
    and "b = block_at (bm_mem s) (sz + kHeapMgrHdrSz + pad) (kKernelBitMpStart s + kBitMapCursor s) k"
    and "s1 = take_block s b (sz + kHeapMgrHdrSz + pad)
        (if bm_magic (bm_mem s) b = kBitMapMagic then bm_mem s else store64 (bm_mem s) b kBitMapMagic)"
    and "s' = s1\<lparr>bm_mem := fill_header (b + 58) (sz + kHeapMgrHdrSz) wr user pad (bm_mem s1)\<rparr>" and "p = b + 92"
proof -
  define tot where "tot = sz + kHeapMgrHdrSz"
  obtain s1 w where req: "PageMgr_Request s wr user False tot pad = Some (s1, w)"
    using alloc sz by (auto simp: mm_alloc_ptr_def tot_def Let_def split: option.splits)
  then have find: "FindBitMap s (kKernelBitMpStart s) tot wr user pad = Some (s1, fVirtAddr w)"
    by (auto simp: PageMgr_Request_def mm_alloc_bitmap_def PTEWrapper_def split: option.splits)
  then obtain k where k: "first_unused (bm_mem s) (tot + pad) (kKernelBitMpStart s + kBitMapCursor s) k"
    using find_loop_Some fits by (fastforce simp: FindBitMap_def tot_def split: if_splits)
  define b where "b = block_at (bm_mem s) (tot + pad) (kKernelBitMpStart s + kBitMapCursor s) k"
  have s1: "s1 = take_block s b (tot + pad) (if bm_magic (bm_mem s) b = kBitMapMagic then bm_mem s
      else store64 (bm_mem s) b kBitMapMagic)" and w: "fVirtAddr w = b + 24"
    using FindBitMap_at [OF fits [folded tot_def] k, of wr user, folded b_def] find by simp_all
  have h: "fVirtAddr w + mib_sz = b + 58" and hp: "b + 58 + mib_sz = b + 92" by (simp_all add: w mib_sz_def)
  have s': "s' = s1\<lparr>bm_mem := fill_header (b + 58) tot wr user pad (bm_mem s1)\<rparr>" "p = b + 92"
    using alloc sz req fill_header_fields(8) [of "b + 58"] hp unfolding mm_alloc_ptr_def tot_def [symmetric]
    by (simp_all add: h Let_def)
  show thesis by (rule that [of k b s1, folded tot_def]) (use k b_def s1 s' in auto)
qed

lemma b58_sep: "sep (b + 58) 34 b 8" "sep (b + 58) 34 (b + 8) 8" "sep (b + 58) 34 (b + 16) 8" "sep (b + 58) 34 (b + 24) 8"
  by (simp_all add: sep_simps)

lemma mm_alloc_ptr_exists:
  assumes "sz \<noteq> 0" and "sz + kHeapMgrHdrSz \<noteq> 0" and "sz + kHeapMgrHdrSz \<le> kBitMapMaxSz"
    and "bm_used (bm_mem s) (kKernelBitMpStart s + kBitMapCursor s) = 0"
  shows "\<exists>s'. mm_alloc_ptr s sz wr user pad = Some (s', kKernelBitMpStart s + kBitMapCursor s + 92)"
proof -
  define b where "b = kKernelBitMpStart s + kBitMapCursor s"
  have u: "first_unused (bm_mem s) (sz + kHeapMgrHdrSz + pad) (kKernelBitMpStart s + kBitMapCursor s) 0"
    using assms(4) by (simp add: first_unused_def)
  obtain s1 where "FindBitMap s (kKernelBitMpStart s) (sz + kHeapMgrHdrSz) wr user pad = Some (s1, b + 24)"
    using FindBitMap_at [OF assms(2,3) u] by (simp add: b_def)
  moreover have "b + 24 + mib_sz + mib_sz = b + 92" by (simp add: mib_sz_def)
  ultimately show ?thesis
    using assms(1) by (simp add: mm_alloc_ptr_def PageMgr_Request_def mm_alloc_bitmap_def PTEWrapper_def Let_def
        fill_header_fields b_def)
qed

lemma zero_used: "bm_used (bm_mem zero_bitmap) p = 0" "bm_magic (bm_mem zero_bitmap) p \<noteq> kBitMapMagic"
  by (simp_all add: zero_bitmap_def bm_used_def bm_magic_def kBitMapMagic_def load64_def read_bytes_def upt_rec)

lemma zero_alloc: "\<exists>s'. mm_alloc_ptr zero_bitmap 0x40 True False 0 = Some (s', 0x10005C)"
  using mm_alloc_ptr_exists [of "0x40" zero_bitmap True False 0] zero_used
  by (simp add: zero_bitmap_def kHeapMgrHdrSz_def mib_sz_def kBitMapMaxSz_def)

text \<open>A pointer the heap recognises: the magic has to be planted 68 bytes before it.\<close>

lemma valid_heap_ptr:
  "mm_is_valid_ptr (zero_bitmap\<lparr>bm_mem := store64 (fill_header 0x10003A 0x84 True False 0 (bm_mem zero_bitmap))
     0x100018 kBitMapMagic\<rparr>) 0x10005C"
proof -
  have "sep 0x100018 8 (0x100018 + 0x22) 4" by (rule sep_num0) simp_all
  then have s: "sep 0x100018 8 0x10003A 4" by simp
  show ?thesis
    using fill_header_fields(1,2) [of "0x10003A" "0x84" True False 0 "bm_mem zero_bitmap"]
    by (simp add: mm_is_valid_ptr_def mm_check_ptr_address_def kHeapMgrHdrSz_def mib_sz_def mm_is_bitmap_def
        IsBitMap_def bm_magic_def store64_le load64_le load_store_le_same load_store_le_sep s mib_getters
        take_bit_word_eq_self)
qed

text \<open>
  A heap that has only been allocated from: every byte from the cursor on is zero.  Allocating
  from it takes the block at the cursor and keeps it so.
\<close>

definition fresh_heap :: "bitmap \<Rightarrow> u64 \<Rightarrow> bool" where
  "fresh_heap h b \<longleftrightarrow> kKernelBitMpStart h + kBitMapCursor h = b \<and> (\<forall>x. b \<le> x \<longrightarrow> bm_mem h x = 0)"

lemma load_le_byte: "ucast (load_le (Suc 0) m a) = m a"
proof -
  have "uint (m a) < 256" using unsigned_less [of "m a", where ?'a = int] by simp
  then show ?thesis by (intro word_uint_eqI) (simp add: load_le_def read_bytes_def unsigned_ucast_eq take_bit_int_eq_self_iff take_bit_word_eq_self)
qed

lemma fill_header_byte: "sep h 34 x 1 \<Longrightarrow> fill_header h sz wr user pad m x = m x"
  using fill_header_outside [of h x "Suc 0" sz wr user pad m] by (metis One_nat_def load_le_byte)

lemma fresh_heap_used: "fresh_heap h b \<Longrightarrow> b \<le> 0x10000000000 \<Longrightarrow> bm_used (bm_mem h) b = 0"
proof -
  assume h: "fresh_heap h b" and b: "b \<le> 0x10000000000"
  have "read_bytes (bm_mem h) (b + 16) 8 = replicate 8 0"
    unfolding read_bytes_def list_eq_iff_nth_eq
  proof (intro conjI allI impI)
    show "length (map (\<lambda>i. bm_mem h (b + 16 + of_nat i)) [0..<8]) = length (replicate 8 0)" by simp
    fix i assume i: "i < length (map (\<lambda>i. bm_mem h (b + 16 + of_nat i)) [0..<8])"
    have "b \<le> b + (16 + of_nat i)" using b i
      by (simp add: word_le_nat_alt unat_word_ariths)
    then have "bm_mem h (b + 16 + of_nat i) = 0" using h by (simp add: fresh_heap_def add.assoc)
    then show "map (\<lambda>i. bm_mem h (b + 16 + of_nat i)) [0..<8] ! i = replicate 8 0 ! i" using i by simp
  qed
  then show ?thesis by (simp add: bm_used_def load64_def upt_rec numeral_eq_Suc)
qed

lemma fresh_alloc:
  assumes h: "fresh_heap h b" and sz: "8 \<le> sz" "sz \<le> 0x100000" and b: "b \<le> 0x10000000000"
  shows "\<exists>h'. mm_alloc_ptr h sz wr user 0 = Some (h', b + 92) \<and> fresh_heap h' (b + sz + 84)"
proof -
  have s: "sz \<noteq> 0" "sz + kHeapMgrHdrSz \<noteq> 0" "sz + kHeapMgrHdrSz \<le> kBitMapMaxSz"
    using sz by (auto simp: kHeapMgrHdrSz_def mib_sz_def kBitMapMaxSz_def word_le_nat_alt unat_word_ariths word_unat_eq_iff)
  have at: "kKernelBitMpStart h + kBitMapCursor h = b" using h by (simp add: fresh_heap_def)
  obtain h' where h': "mm_alloc_ptr h sz wr user 0 = Some (h', b + 92)"
    using mm_alloc_ptr_exists [OF s, of h wr user 0] fresh_heap_used [OF h b] by (auto simp: at)
  obtain k b' s1 where "b' = block_at (bm_mem h) (sz + kHeapMgrHdrSz + 0) (kKernelBitMpStart h + kBitMapCursor h) k"
    and s1: "s1 = take_block h b' (sz + kHeapMgrHdrSz + 0)
        (if bm_magic (bm_mem h) b' = kBitMapMagic then bm_mem h else store64 (bm_mem h) b' kBitMapMagic)"
    and fin: "h' = s1\<lparr>bm_mem := fill_header (b' + 58) (sz + kHeapMgrHdrSz) wr user 0 (bm_mem s1)\<rparr>" and p: "b + 92 = b' + 92"
    using mm_alloc_ptr_Some [OF h' s] by metis
  have b': "b' = b" using p by simp
  have start: "kKernelBitMpStart h' + kBitMapCursor h' = b + sz + 84"
    using at by (simp add: fin s1 b' take_block_def kHeapMgrHdrSz_def mib_sz_def kAlign_def algebra_simps)
  have "bm_mem h' x = 0" if x: "b + sz + 84 \<le> x" for x
  proof -
    have bx: "unat b + 92 \<le> unat x" using x b sz by (simp add: word_le_nat_alt unat_word_ariths)
    then have d: "unat (x - b) = unat x - unat b" by (simp add: unat_sub word_le_nat_alt)
    have lt: "unat x < 2 ^ 64" using unsigned_less [of x, where ?'a = nat] by simp
    have e: "unat (x - (b + 58)) = unat x - unat b - 58"
      using bx b by (subst unat_sub) (simp_all add: word_le_nat_alt unat_word_ariths)
    have f: "unat ((b + 58) - x) \<ge> 34"
    proof -
      have "unat (b + 58) = unat b + 58" using b by (simp add: word_le_nat_alt unat_word_ariths)
      then show ?thesis using bx lt by (subst unat_sub_if') simp
    qed
    have "sep (b + 58) 34 x 1" using bx e f by (simp add: sep_def)
    then have "bm_mem h' x = bm_mem s1 x" by (simp add: fin b' fill_header_byte)
    also have "\<dots> = bm_mem h x"
      using take_block_header(4) [of x b h "sz + kHeapMgrHdrSz"] bx d by (auto simp: s1 b')
    also have "\<dots> = 0" using h x bx by (simp add: fresh_heap_def word_le_nat_alt)
    finally show ?thesis .
  qed
  with start h' show ?thesis by (auto simp: fresh_heap_def)
qed

lemma fresh_zero_bitmap: "fresh_heap zero_bitmap 0x100000"
  by (simp add: fresh_heap_def zero_bitmap_def)

section \<open>Properties\<close>

text \<open>
  An allocation is well formed.  When \<open>mm_alloc_ptr\<close> returns for a size that fits, the
  pointer lies 92 bytes behind a bitmap block that is marked used and covers both headers, the
  request and its padding, and the information block in front of the pointer holds the magic,
  the present mark, the access bits, the size and the pointer itself, with a clear checksum.
\<close>

theorem mm_alloc_ptr_header:
  assumes "mm_alloc_ptr s sz wr user pad = Some (s', p)" and "sz \<noteq> 0"
    and "sz + kHeapMgrHdrSz \<noteq> 0" and "sz + kHeapMgrHdrSz \<le> kBitMapMaxSz"
  shows "bm_magic (bm_mem s') (p - 92) = kBitMapMagic \<and> bm_used (bm_mem s') (p - 92) = 1
    \<and> bm_size (bm_mem s') (p - 92) = sz + kHeapMgrHdrSz + pad
    \<and> mib_fMagic (bm_mem s') (p - mib_sz) = kHeapMgrMagic \<and> mib_fPresent (bm_mem s') (p - mib_sz)
    \<and> mib_fWriteRead (bm_mem s') (p - mib_sz) = wr \<and> mib_fUser (bm_mem s') (p - mib_sz) = user
    \<and> mib_fSize (bm_mem s') (p - mib_sz) = sz + kHeapMgrHdrSz
    \<and> mib_fOffset (bm_mem s') (p - mib_sz) = p \<and> mib_fCRC32 (bm_mem s') (p - mib_sz) = 0"
proof -
  obtain k b s1 where s1: "s1 = take_block s b (sz + kHeapMgrHdrSz + pad)
        (if bm_magic (bm_mem s) b = kBitMapMagic then bm_mem s else store64 (bm_mem s) b kBitMapMagic)"
    and s': "s' = s1\<lparr>bm_mem := fill_header (b + 58) (sz + kHeapMgrHdrSz) wr user pad (bm_mem s1)\<rparr>" and p: "p = b + 92"
    using mm_alloc_ptr_Some [OF assms] by metis
  note hdr = take_block_header(1-3) [where s = s and b = b and tot = "sz + kHeapMgrHdrSz + pad", folded s1]
  have "load64 (bm_mem s') b = load64 (bm_mem s1) b" "load64 (bm_mem s') (b + 8) = load64 (bm_mem s1) (b + 8)"
    "load64 (bm_mem s') (b + 16) = load64 (bm_mem s1) (b + 16)"
    by (simp_all add: s' load64_le fill_header_outside b58_sep)
  moreover have at: "p - mib_sz = b + 58" "p - 92 = b" and hp: "b + 58 + mib_sz = p" by (simp_all add: p mib_sz_def)
  ultimately show ?thesis
    using hdr fill_header_fields [of "b + 58" "sz + kHeapMgrHdrSz" wr user pad "bm_mem s1"] unfolding at hp
    by (simp add: s' bm_magic_def bm_size_def bm_used_def)
qed

theorem mm_alloc_ptr_header_witness:
  "\<exists>s p. mm_alloc_ptr zero_bitmap 0x40 True False 0 = Some (s, p) \<and> mib_fOffset (bm_mem s) (p - mib_sz) = p"
proof -
  obtain s where s: "mm_alloc_ptr zero_bitmap 0x40 True False 0 = Some (s, 0x10005C)" using zero_alloc by blast
  then show ?thesis using mm_alloc_ptr_header [OF s] by (auto simp: kHeapMgrHdrSz_def mib_sz_def kBitMapMaxSz_def)
qed

text \<open>
  A fresh pointer is not recognised.  \<open>mm_is_valid_ptr\<close> and \<open>mm_free_ptr\<close> look for the
  bitmap magic 68 bytes before the pointer, but the block starts 92 bytes before it: unless the
  memory held the magic there by chance, a pointer just returned by \<open>mm_alloc_ptr\<close> is invalid,
  freeing it returns \<open>kErrorHeapNotPresent\<close> and releases nothing.
\<close>

theorem mm_alloc_ptr_not_freeable:
  assumes "mm_alloc_ptr s sz wr user pad = Some (s', p)" and "sz \<noteq> 0"
    and "sz + kHeapMgrHdrSz \<noteq> 0" and "sz + kHeapMgrHdrSz \<le> kBitMapMaxSz"
    and "bm_magic (bm_mem s) (p - kHeapMgrHdrSz) \<noteq> kBitMapMagic"
  shows "\<not> mm_is_valid_ptr s' p \<and> mm_free_ptr debug s' p = Ret (s', kErrorHeapNotPresent)
    \<and> operator_delete debug s' p = Ret s'"
proof -
  obtain k b s1 where s1: "s1 = take_block s b (sz + kHeapMgrHdrSz + pad)
        (if bm_magic (bm_mem s) b = kBitMapMagic then bm_mem s else store64 (bm_mem s) b kBitMapMagic)"
    and s': "s' = s1\<lparr>bm_mem := fill_header (b + 58) (sz + kHeapMgrHdrSz) wr user pad (bm_mem s1)\<rparr>" and p: "p = b + 92"
    using mm_alloc_ptr_Some [OF assms(1-4)] by metis
  have b: "p - kHeapMgrHdrSz = b + 24" by (simp add: p kHeapMgrHdrSz_def mib_sz_def)
  have "bm_magic (bm_mem s') (b + 24) = bm_magic (bm_mem s1) (b + 24)"
    by (simp add: s' bm_magic_def load64_le fill_header_outside b58_sep)
  also have "\<dots> = bm_magic (bm_mem s) (b + 24)" unfolding s1 by (rule take_block_magic_after)
  finally have "\<not> mm_is_bitmap (bm_mem s') (p - kHeapMgrHdrSz)"
    using assms(5) by (simp add: b mm_is_bitmap_def IsBitMap_def)
  then show ?thesis
    by (simp add: mm_is_valid_ptr_def mm_check_ptr_address_def mm_free_ptr_def operator_delete_def Let_def)
qed

theorem mm_alloc_ptr_not_freeable_witness:
  "\<exists>s p. mm_alloc_ptr zero_bitmap 0x40 True False 0 = Some (s, p)
     \<and> mm_free_ptr False s p = Ret (s, kErrorHeapNotPresent)"
proof -
  obtain s where s: "mm_alloc_ptr zero_bitmap 0x40 True False 0 = Some (s, 0x10005C)" using zero_alloc by blast
  then show ?thesis using mm_alloc_ptr_not_freeable [OF s, of False] zero_used
    by (auto simp: kHeapMgrHdrSz_def mib_sz_def kBitMapMaxSz_def)
qed

text \<open>
  C36. Double frees stop the system.  For a pointer the heap recognises, \<open>mm_free_ptr\<close> without
  debugging checks returns success, the pointer is no longer valid, and freeing it again halts
  the system.
\<close>

theorem mm_free_ptr_double_free:
  assumes "mm_is_valid_ptr s p"
  shows "\<exists>s'. mm_free_ptr False s p = Ret (s', kErrorSuccess) \<and> \<not> mm_is_valid_ptr s' p
    \<and> mm_free_ptr False s' p = Stop"
proof -
  define b where "b = p - kHeapMgrHdrSz"
  have "p \<noteq> 0" "\<not> p \<le> kHeapMgrHdrSz"
    using assms by (auto simp: mm_is_valid_ptr_def mm_check_ptr_address_def split: if_splits)
  then have p: "p \<noteq> 0" "\<not> p \<le> kHeapMgrHdrSz" "p - mib_sz = b + 34" "p - kHeapMgrHdrSz = b"
    by (simp_all add: b_def kHeapMgrHdrSz_def mib_sz_def)
  have v: "b \<noteq> 0" "bm_magic (bm_mem s) b = kBitMapMagic"
      "mib_fMagic (bm_mem s) (b + 34) = kHeapMgrMagic" "mib_fPresent (bm_mem s) (b + 34)"
    using assms p by (auto simp: mm_is_valid_ptr_def mm_check_ptr_address_def mm_is_bitmap_def IsBitMap_def Let_def
        split: if_splits)
  define s1 where "s1 = s\<lparr>bm_mem := clear_header (b + 34) (bm_mem s)\<rparr>"
  define s2 where "s2 = fst (FreeBitMap s1 b)"
  have sep: "sep (b + 34) 34 b 8" by (simp add: sep_simps)
  have m1: "bm_magic (bm_mem s1) b = kBitMapMagic" "mib_fMagic (bm_mem s1) (b + 34) = kHeapMgrMagic"
      "\<not> mib_fPresent (bm_mem s1) (b + 34)"
    using v clear_header_fields [of "b + 34" "bm_mem s"]
    by (simp_all add: s1_def bm_magic_def load64_le clear_header_outside sep)
  have load: "load_le n (bm_mem s2) (b + k) = load_le n (bm_mem s1) (b + k)"
    if "n \<le> 8" "k = 0 \<or> k = 34" "0 < n" for n k
  proof -
    have "sep (b - 8) 8 (b - 8 + of_nat 8) n" "sep (b - 8) 8 (b - 8 + of_nat 42) n"
      using sep_up [of 0 8 8 n "b - 8"] sep_up [of 0 8 42 n "b - 8"] that by simp_all
    then have "sep (b - 8) 8 (b + k) n" using that(2) by (auto simp: add.commute [of b])
    moreover have "b - 24 + 16 = b - 8" by simp
    ultimately show ?thesis
      by (auto simp: s2_def FreeBitMap_def Let_def store64_le load_store_le_sep split: if_splits)
  qed
  have m2: "bm_magic (bm_mem s2) b = kBitMapMagic" "mib_fMagic (bm_mem s2) (b + 34) = kHeapMgrMagic"
      "\<not> mib_fPresent (bm_mem s2) (b + 34)"
    using m1 load [of 8 0] load [of 4 34] by (simp_all add: bm_magic_def load64_le mib_getters)
  have "mm_free_ptr False s p = Ret (s2, kErrorSuccess)"
    using p v by (simp add: mm_free_ptr_def mm_is_bitmap_def IsBitMap_def PageMgr_Free_def mm_free_bitmap_def
        must_pass_def PTEWrapper_def s2_def s1_def case_prod_beta)
  moreover have "\<not> mm_is_valid_ptr s2 p"
    using m2 p by (simp add: mm_is_valid_ptr_def mm_check_ptr_address_def)
  moreover have "mm_free_ptr False s2 p = Stop"
    using m2 p v by (simp add: mm_free_ptr_def mm_is_bitmap_def IsBitMap_def)
  ultimately show ?thesis by blast
qed

theorem mm_free_ptr_double_free_witness:
  "\<exists>s s'. mm_free_ptr False s 0x10005C = Ret (s', kErrorSuccess) \<and> mm_free_ptr False s' 0x10005C = Stop"
  using mm_free_ptr_double_free [OF valid_heap_ptr] by blast

text \<open>
  Flags.  For a recognised pointer \<open>mm_set_ptr_flags\<close> succeeds, the pointer stays
  recognised, and \<open>mm_get_ptr_flags\<close> returns the low 16 bits of what was set.
\<close>

theorem mm_ptr_flags_roundtrip:
  assumes "mm_is_valid_ptr s p"
  shows "\<exists>s'. mm_set_ptr_flags s p flags = (s', kErrorSuccess) \<and> mm_is_valid_ptr s' p
    \<and> mm_get_ptr_flags s' p = take_bit 16 flags"
proof -
  define b where "b = p - kHeapMgrHdrSz"
  have gt: "\<not> p \<le> kHeapMgrHdrSz"
    using assms by (auto simp: mm_is_valid_ptr_def mm_check_ptr_address_def split: if_splits)
  have p: "p - mib_sz = b + 34" "p - kHeapMgrHdrSz = b" by (simp_all add: b_def kHeapMgrHdrSz_def mib_sz_def)
  have "p \<noteq> 34" using gt by (auto simp: kHeapMgrHdrSz_def mib_sz_def)
  then have nz: "b + 34 \<noteq> 0" by (simp add: b_def kHeapMgrHdrSz_def mib_sz_def)
  have off: "b + 34 + 8 = b + 42" by simp
  have "load_le 8 (set_fFlags flags (b + 34) (bm_mem s)) b = load_le 8 (bm_mem s) b"
    "load_le 4 (set_fFlags flags (b + 34) (bm_mem s)) (b + 34) = load_le 4 (bm_mem s) (b + 34)"
    "load_le 2 (set_fFlags flags (b + 34) (bm_mem s)) (b + 34 + 8) = take_bit 16 flags"
    unfolding set_fFlags_def off by (simp_all add: load_store_le_sep load_store_le_same sep_simps)
  then show ?thesis using assms nz
    by (auto simp: mm_set_ptr_flags_def mm_is_valid_ptr_def mm_check_ptr_address_def mm_get_ptr_flags_def p Let_def
        mm_is_bitmap_def IsBitMap_def bm_magic_def load64_le mib_getters split: if_splits)
qed

theorem mm_ptr_flags_roundtrip_witness:
  "\<exists>s s'. mm_set_ptr_flags s 0x10005C 0x12345 = (s', kErrorSuccess) \<and> mm_get_ptr_flags s' 0x10005C = 0x2345"
  using mm_ptr_flags_roundtrip [OF valid_heap_ptr, of "0x12345"] by auto

text \<open>
  Requests that do not fit.  A size whose block would exceed 4 GiB is refused by the bitmap
  allocator with a null pointer, but \<open>mm_alloc_ptr\<close> does not check it: the information block is
  written at address 34 and address 68 is returned instead of null.
\<close>

theorem mm_alloc_ptr_oversize:
  assumes "sz \<noteq> 0" and "kBitMapMaxSz < sz + kHeapMgrHdrSz"
  shows "\<exists>s'. mm_alloc_ptr s sz wr user pad = Some (s', 68) \<and> mib_fMagic (bm_mem s') 34 = kHeapMgrMagic"
proof -
  have "PageMgr_Request s wr user False (sz + kHeapMgrHdrSz) pad = Some (s, PTEWrapper wr user False 0)"
    using assms by (auto simp: PageMgr_Request_def mm_alloc_bitmap_def FindBitMap_def)
  then show ?thesis
    using assms(1) fill_header_fields(1,8) [of 34]
    by (simp add: mm_alloc_ptr_def Let_def PTEWrapper_def mib_sz_def)
qed

theorem mm_alloc_ptr_oversize_witness:
  "\<exists>s'. mm_alloc_ptr zero_bitmap 0x200000000 True False 0 = Some (s', 68)"
  using mm_alloc_ptr_oversize [of "0x200000000" zero_bitmap True False 0]
  by (auto simp: kBitMapMaxSz_def kHeapMgrHdrSz_def mib_sz_def)

end
