(* ===== verification/HardwareThreads.thy ===== *)
theory HardwareThreads
  imports KPC
begin

text \<open>
  The cores of the machine: \<^verbatim>\<open>HardwareThreadScheduler.cpp/.h\<close>, the task primitives of
  \<^verbatim>\<open>HALKit/AMD64/HalSchedulerCorePrimitives.cpp\<close> and \<open>mp_register_task\<close> of
  \<^verbatim>\<open>HalApplicationProcessor.cpp\<close>.  Stack frames live behind pointers; \<open>frames\<close> maps a
  frame's address to its registers.  Jumping to a task and sending the inter-processor interrupt
  are the hardware's part and leave this state alone.
\<close>

datatype ThreadKind = kAPInvalid | kAPSystemReserved | kAPStandard | kAPRealTime | kAPBoot

record stack_frame =
  IP :: u64
  SP :: u64
  R8 :: u64
  R9 :: u64
  R10 :: u64
  R11 :: u64
  R12 :: u64
  R13 :: u64
  R14 :: u64
  R15 :: u64

record hw_thread =
  fStack :: u64
  fKind :: ThreadKind
  fID :: nat
  fWakeup :: bool
  fBusy :: bool
  fPTime :: u64

text \<open>
  The static variables of the application-processor code, the list of cores and the frames.
  An access outside an array is undefined in the source: such a step has no next state.
\<close>

record cores =
  frames_at :: "u64 \<Rightarrow> stack_frame"
  kSMPAware :: bool
  kSMPCount :: nat
  kHWThread :: "nat \<Rightarrow> u64"
  fThreadList :: "hw_thread list"
  fCurrentThreadIdx :: nat

definition kMaxAPInsideSched :: nat where "kMaxAPInsideSched = 8"

section \<open>Task primitives\<close>

definition hal_check_task :: "'a cores_scheme \<Rightarrow> u64 \<Rightarrow> bool" where
  "hal_check_task s stack_ptr =
     (if stack_ptr = 0 then False
      else SP (frames_at s stack_ptr) > 0 \<and> IP (frames_at s stack_ptr) > 0)"

definition mp_hang_thread :: "'a cores_scheme \<Rightarrow> u64 \<Rightarrow> 'a cores_scheme" where
  "mp_hang_thread s stack =
     (if \<not> hal_check_task s stack then s
      else let f = frames_at s stack
           in s\<lparr>frames_at := (frames_at s)(stack := f\<lparr>R15 := IP f, IP := 0\<rparr>)\<rparr>)"

text \<open>\<open>mp_wakeup_thread\<close> up to the call of \<open>StartScheduling\<close>; the flag says that it is reached.\<close>

definition mp_wakeup_thread :: "'a cores_scheme \<Rightarrow> u64 \<Rightarrow> 'a cores_scheme \<times> bool" where
  "mp_wakeup_thread s stack =
     (if \<not> hal_check_task s stack then (s, False)
      else let f = frames_at s stack
           in (s\<lparr>frames_at := (frames_at s)(stack := f\<lparr>IP := R15 f\<rparr>)\<rparr>, True))"

definition mp_get_current_task :: "'a cores_scheme \<Rightarrow> nat \<Rightarrow> u64" where
  "mp_get_current_task s thrdid = (if thrdid > kSMPCount s then 0 else kHWThread s thrdid)"

definition mp_register_task :: "'a cores_scheme \<Rightarrow> u64 \<Rightarrow> nat \<Rightarrow> 'a cores_scheme \<times> bool" where
  "mp_register_task s stack_frame thrdid =
     (if stack_frame = 0 then (s, False)
      else if \<not> kSMPAware s then (s, True)
      else if thrdid > kSMPCount s then (s, False)
      else (s\<lparr>kHWThread := (kHWThread s)(thrdid := stack_frame)\<rparr>, True))"

section \<open>Cores\<close>

definition HardwareThread_bool :: "hw_thread \<Rightarrow> bool" where
  "HardwareThread_bool t = (fStack t \<noteq> 0 \<and> \<not> fBusy t)"

definition HardwareThread_Switch :: "'a cores_scheme \<Rightarrow> hw_thread \<Rightarrow> u64 \<Rightarrow> 'a cores_scheme \<times> hw_thread \<times> bool" where
  "HardwareThread_Switch s t frame =
     (if frame = 0 then (s, t, False)
      else if \<not> hal_check_task s frame then (s, t, False)
      else let (s1, ret) = mp_register_task s frame (fID t) in (s1, t\<lparr>fStack := frame\<rparr>, ret))"

text \<open>\<open>operator[]\<close>: the index of the core, the null reference, or an index past the array.\<close>

datatype core_ref = Core nat | FakeThread | PastArray

definition core_at :: "'a cores_scheme \<Rightarrow> nat \<Rightarrow> 'a cores_scheme \<times> core_ref" where
  "core_at s idx =
     (if idx > kMaxAPInsideSched then (s, FakeThread)
      else (s\<lparr>fCurrentThreadIdx := idx\<rparr>, if idx < length (fThreadList s) then Core idx else PastArray))"

text \<open>\<open>Array::Empty\<close> of the core list is \<open>Count() > 0\<close>.\<close>

definition Capacity :: "'a cores_scheme \<Rightarrow> nat" where
  "Capacity s = length (fThreadList s)"

definition Array_Empty :: "'a list \<Rightarrow> bool" where
  "Array_Empty xs = (length xs > 0)"

definition HardwareThreadScheduler_bool :: "'a cores_scheme \<Rightarrow> bool" where
  "HardwareThreadScheduler_bool s = (\<not> Array_Empty (fThreadList s))"

definition HardwareThreadScheduler_not :: "'a cores_scheme \<Rightarrow> bool" where
  "HardwareThreadScheduler_not s = Array_Empty (fThreadList s)"

section \<open>Switching a frame to a core\<close>

text \<open>
  The loop of \<open>UserProcessHelper::Switch\<close> from core \<open>index\<close> on; \<open>ptime\<close> is the process time
  of the team's slot \<open>new_pid\<close>.  The assignment through \<open>TheCurrentPID()\<close> only changes a
  temporary.
\<close>

function switch_loop :: "'a cores_scheme \<Rightarrow> u64 \<Rightarrow> u64 \<Rightarrow> nat \<Rightarrow> 'a cores_scheme \<times> bool" where
  "switch_loop s frame_ptr ptime index =
     (if index < Capacity s then
        let s = s\<lparr>fCurrentThreadIdx := index\<rparr>;
            t = fThreadList s ! index
        in if fKind t = kAPInvalid \<or> fKind t = kAPBoot then switch_loop s frame_ptr ptime (index + 1)
           else if fBusy t then switch_loop s frame_ptr ptime (index + 1)
           else
             let (s1, t1, ret) = HardwareThread_Switch s (t\<lparr>fBusy := True\<rparr>) frame_ptr
             in if \<not> ret then switch_loop (s1\<lparr>fThreadList := (fThreadList s1)[index := t1]\<rparr>) frame_ptr ptime (index + 1)
                else (s1\<lparr>fThreadList := (fThreadList s1)[index := t1\<lparr>fPTime := ptime\<rparr>]\<rparr>, True)
      else (s, False))"
  by pat_completeness auto

lemma HardwareThread_Switch_list:
  "HardwareThread_Switch s t frame = (s1, t1, ret) \<Longrightarrow> fThreadList s1 = fThreadList s \<and> frames_at s1 = frames_at s"
  by (auto simp: HardwareThread_Switch_def mp_register_task_def split: if_splits)

termination switch_loop
  by (relation "measure (\<lambda>(s, frame_ptr, ptime, index). Capacity s - index)")
    (auto simp: Capacity_def dest!: HardwareThread_Switch_list [OF sym])

declare switch_loop.simps [simp del]

definition Switch :: "'a cores_scheme \<Rightarrow> u64 \<Rightarrow> u64 \<Rightarrow> 'a cores_scheme \<times> bool" where
  "Switch s frame_ptr ptime = switch_loop s frame_ptr ptime 0"

definition idle_core :: "hw_thread \<Rightarrow> bool" where
  "idle_core t \<longleftrightarrow> fKind t \<noteq> kAPInvalid \<and> fKind t \<noteq> kAPBoot \<and> \<not> fBusy t"

definition two_cores :: cores where
  "two_cores = \<lparr>frames_at = (\<lambda>_. \<lparr>IP = 0x1000, SP = 0x2000, R8 = 0, R9 = 0, R10 = 0, R11 = 0, R12 = 0, R13 = 0, R14 = 0, R15 = 0\<rparr>),
     kSMPAware = False, kSMPCount = 0, kHWThread = (\<lambda>_. 0),
     fThreadList = [\<lparr>fStack = 0, fKind = kAPBoot, fID = 0, fWakeup = True, fBusy = False, fPTime = 0\<rparr>,
       \<lparr>fStack = 0, fKind = kAPStandard, fID = 1, fWakeup = True, fBusy = False, fPTime = 0\<rparr>],
     fCurrentThreadIdx = 0\<rparr>"

section \<open>The search for a core\<close>

lemma Switch_bad_frame:
  assumes "\<not> hal_check_task s frame"
  shows "HardwareThread_Switch s t frame = (s, t, False)"
  using assms by (auto simp: HardwareThread_Switch_def)

lemma hal_check_task_update [simp]:
  "hal_check_task (s\<lparr>fThreadList := ts\<rparr>) p = hal_check_task s p"
  "hal_check_task (s\<lparr>fCurrentThreadIdx := i\<rparr>) p = hal_check_task s p"
  by (simp_all add: hal_check_task_def)

lemma switch_loop_good:
  assumes "hal_check_task s frame" and "\<not> kSMPAware s" and "i \<le> k" and "k < Capacity s"
    and "idle_core (fThreadList s ! k)" and "\<forall>j. i \<le> j \<longrightarrow> j < k \<longrightarrow> \<not> idle_core (fThreadList s ! j)"
  shows "switch_loop s frame ptime i =
    (s\<lparr>fCurrentThreadIdx := k, fThreadList := (fThreadList s)[k := (fThreadList s ! k)\<lparr>fBusy := True, fStack := frame, fPTime := ptime\<rparr>]\<rparr>, True)"
  using assms
proof (induction "k - i" arbitrary: i s)
  case 0
  then have "i = k" by simp
  then show ?case using 0
    by (subst switch_loop.simps)
      (auto simp: Let_def idle_core_def HardwareThread_Switch_def mp_register_task_def hal_check_task_def split: if_splits)
next
  case (Suc n)
  then have i: "i < k" "i < Capacity s" by auto
  have busy: "\<not> idle_core (fThreadList s ! i)" using Suc.prems(6) i by simp
  have "switch_loop s frame ptime i = switch_loop (s\<lparr>fCurrentThreadIdx := i\<rparr>) frame ptime (i + 1)"
    using i(2) busy by (subst switch_loop.simps) (auto simp: Let_def idle_core_def)
  also have "\<dots> = (s\<lparr>fCurrentThreadIdx := k, fThreadList := (fThreadList s)[k := (fThreadList s ! k)\<lparr>fBusy := True, fStack := frame, fPTime := ptime\<rparr>]\<rparr>, True)"
    using Suc.hyps(1) [of "i + 1" "s\<lparr>fCurrentThreadIdx := i\<rparr>"] Suc.hyps(2) Suc.prems i
    by (simp add: Capacity_def)
  finally show ?case .
qed

lemma switch_loop_none:
  assumes "\<forall>j. i \<le> j \<longrightarrow> j < Capacity s \<longrightarrow> \<not> idle_core (fThreadList s ! j)"
  shows "snd (switch_loop s frame ptime i) = False \<and> fThreadList (fst (switch_loop s frame ptime i)) = fThreadList s"
  using assms
proof (induction "Capacity s - i" arbitrary: i s)
  case 0
  then show ?case by (subst (1 2) switch_loop.simps) simp
next
  case (Suc n)
  then have i: "i < Capacity s" by simp
  then have "\<not> idle_core (fThreadList s ! i)" using Suc.prems by simp
  then have "switch_loop s frame ptime i = switch_loop (s\<lparr>fCurrentThreadIdx := i\<rparr>) frame ptime (i + 1)"
    using i by (subst switch_loop.simps) (auto simp: Let_def idle_core_def)
  then show ?case
    using Suc.hyps(1) [of "s\<lparr>fCurrentThreadIdx := i\<rparr>" "i + 1"] Suc.hyps(2) Suc.prems by (simp add: Capacity_def)
qed

lemma switch_loop_bad:
  assumes "\<not> hal_check_task s frame" and "\<forall>j < i. j < Capacity s \<longrightarrow> \<not> idle_core (fThreadList s ! j)"
  shows "snd (switch_loop s frame ptime i) = False
    \<and> Capacity (fst (switch_loop s frame ptime i)) = Capacity s
    \<and> (\<forall>j < Capacity s. \<not> idle_core (fThreadList (fst (switch_loop s frame ptime i)) ! j))"
  using assms
proof (induction "Capacity s - i" arbitrary: i s)
  case 0
  then show ?case by (subst (1 2 3) switch_loop.simps) simp
next
  case (Suc n)
  then have i: "i < Capacity s" by simp
  define s1 where "s1 = (if idle_core (fThreadList s ! i)
      then s\<lparr>fCurrentThreadIdx := i, fThreadList := (fThreadList s)[i := (fThreadList s ! i)\<lparr>fBusy := True\<rparr>]\<rparr>
      else s\<lparr>fCurrentThreadIdx := i\<rparr>)"
  have step: "switch_loop s frame ptime i = switch_loop s1 frame ptime (i + 1)"
    using i Suc.prems(1) by (subst switch_loop.simps) (auto simp: Let_def idle_core_def s1_def Switch_bad_frame)
  have cap: "Capacity s1 = Capacity s" by (simp add: s1_def Capacity_def)
  have "\<not> hal_check_task s1 frame" using Suc.prems(1) by (simp add: s1_def)
  moreover have "\<forall>j < i + 1. j < Capacity s1 \<longrightarrow> \<not> idle_core (fThreadList s1 ! j)"
    using Suc.prems(2) i by (auto simp: s1_def Capacity_def less_Suc_eq idle_core_def nth_list_update)
  ultimately show ?case using Suc.hyps(1) [of s1 "i + 1"] Suc.hyps(2) cap step by simp
qed

section \<open>Properties\<close>

text \<open>
  A process goes to the first idle core.  Without SMP, a valid frame (non-null, with an
  instruction and a stack pointer) is switched to the first core that is neither invalid, nor the
  boot core, nor busy: only that core changes, becomes busy and takes the frame and the process
  time; if there is no such core the call fails and leaves the cores as they were.
\<close>

theorem Switch_first_idle:
  assumes "hal_check_task s frame" and "\<not> kSMPAware s"
  shows "(\<exists>k < Capacity s. idle_core (fThreadList s ! k) \<and> (\<forall>j < k. \<not> idle_core (fThreadList s ! j))
      \<and> snd (Switch s frame ptime)
      \<and> fThreadList (fst (Switch s frame ptime)) = (fThreadList s)[k := (fThreadList s ! k)\<lparr>fBusy := True, fStack := frame, fPTime := ptime\<rparr>])
    \<or> ((\<forall>j < Capacity s. \<not> idle_core (fThreadList s ! j)) \<and> \<not> snd (Switch s frame ptime)
      \<and> fThreadList (fst (Switch s frame ptime)) = fThreadList s)"
proof (cases "\<exists>k < Capacity s. idle_core (fThreadList s ! k)")
  case True
  then obtain k where k: "k < Capacity s" "idle_core (fThreadList s ! k)" "\<forall>j < k. \<not> idle_core (fThreadList s ! j)"
    using exists_least_iff [of "\<lambda>k. k < Capacity s \<and> idle_core (fThreadList s ! k)"] by (meson less_trans)
  then show ?thesis using switch_loop_good [OF assms, of 0 k ptime] by (auto simp: Switch_def)
next
  case False
  then show ?thesis using switch_loop_none [of 0 s frame ptime] by (simp add: Switch_def)
qed

theorem Switch_first_idle_witness:
  "fThreadList (fst (Switch two_cores 0x5000 7)) ! 1 =
     \<lparr>fStack = 0x5000, fKind = kAPStandard, fID = 1, fWakeup = True, fBusy = True, fPTime = 7\<rparr>"
proof -
  have "hal_check_task two_cores 0x5000" "\<not> kSMPAware two_cores"
    by (simp_all add: two_cores_def hal_check_task_def)
  from Switch_first_idle [OF this, of 7] show ?thesis
    by (auto simp: two_cores_def Capacity_def idle_core_def less_Suc_eq numeral_2_eq_2)
qed

text \<open>
  A bad frame takes every core.  When the frame fails \<open>hal_check_task\<close>, each idle core is
  marked busy before the switch and not released when it fails, so the call returns No with no
  idle core left, and from then on switching any frame fails.
\<close>

theorem Switch_bad_frame_exhausts_cores:
  assumes "\<not> hal_check_task s frame"
  shows "\<not> snd (Switch s frame ptime)
    \<and> (\<forall>j < Capacity s. \<not> idle_core (fThreadList (fst (Switch s frame ptime)) ! j))
    \<and> \<not> snd (Switch (fst (Switch s frame ptime)) frame' ptime')"
  using switch_loop_bad [OF assms, of 0 ptime] switch_loop_none [of 0 "fst (Switch s frame ptime)" frame' ptime']
  by (simp add: Switch_def)

theorem Switch_bad_frame_exhausts_cores_witness:
  "\<not> snd (Switch (fst (Switch two_cores 0 7)) 0x5000 7)"
  using Switch_bad_frame_exhausts_cores [of two_cores 0] by (simp add: hal_check_task_def)

text \<open>
  A hung thread cannot be woken.  \<open>mp_hang_thread\<close> saves the instruction pointer in R15 and
  clears it, and \<open>mp_wakeup_thread\<close> refuses a frame whose instruction pointer is 0: waking a
  frame that was just hung does nothing.
\<close>

theorem hung_thread_stays_hung:
  assumes "hal_check_task s stack"
  shows "mp_wakeup_thread (mp_hang_thread s stack) stack = (mp_hang_thread s stack, False)
    \<and> IP (frames_at (mp_hang_thread s stack) stack) = 0
    \<and> R15 (frames_at (mp_hang_thread s stack) stack) = IP (frames_at s stack)"
  using assms by (auto simp: mp_hang_thread_def mp_wakeup_thread_def hal_check_task_def Let_def split: if_splits)

theorem hung_thread_stays_hung_witness:
  "IP (frames_at (fst (mp_wakeup_thread (mp_hang_thread two_cores 0x5000) 0x5000)) 0x5000) = 0"
  using hung_thread_stays_hung [of two_cores "0x5000"] by (simp add: two_cores_def hal_check_task_def)

end
