(* ===== verification/UserProcesses.thy ===== *)
theory UserProcesses
  imports HeapMgr HardwareThreads Paging
begin

text \<open>
  User processes, \<^verbatim>\<open>UserProcessScheduler.cpp/.h/.inl\<close> and the types of
  \<^verbatim>\<open>CoreProcessScheduler.h\<close>: the process record, its heap tree with \<open>New\<close> and
  \<open>Delete\<close>, crash, wake-up and exit.  \<open>kern\<close> is the state of the kernel these operations work
  on: the physical memory and CR3 of the paging code, the heap, the cores, and the nodes of the
  heap trees, kept in a map from the address the heap gave them to their fields.  Tree pointers
  are addresses, 0 is null.

  The heap can search forever, so operations that allocate return an option, and the access of an
  array outside its bounds and \<open>ke_stop\<close> are results of their own.
\<close>

datatype 'a res = Ok 'a | OutOfBounds | Halt

datatype TreeKind = kInvalidTreeKind | kRedTreeKind | kBlackTreeKind

record tree_node =
  Entry :: u64
  EntrySize :: u64
  EntryPad :: u64
  Color :: TreeKind
  nParent :: u64
  nChild :: u64
  nPrev :: u64
  nNext :: u64

datatype ProcessStatusKind = kInvalid | kStarting | kRunning | kKilled | kFrozen | kFinished

text \<open>\<open>AffinityKind\<close> is used as its number.\<close>

definition kAffinityInvalid :: int where "kAffinityInvalid = 0"
definition kUltraHigh :: int where "kUltraHigh = 100"
definition kVeryHigh :: int where "kVeryHigh = 150"
definition kHigh :: int where "kHigh = 200"
definition kStandard :: int where "kStandard = 1000"
definition kLowUsage :: int where "kLowUsage = 1500"
definition kVeryLowUsage :: int where "kVeryLowUsage = 2000"

definition kCPSProcessLimitPerTeam :: int where "kCPSProcessLimitPerTeam = 32"
definition kCPSMaxMemoryLimit :: u64 where "kCPSMaxMemoryLimit = 128 * 1024 * 1024 * 1024"
definition kCPSMaxStackSz :: u64 where "kCPSMaxStackSz = 8 * 1024"
definition kCPSNameLen :: nat where "kCPSNameLen = 128"

datatype ExecutableKind = kInvalidExecutableKind | kExecutableKind | kExecutableDylibKind

record process_image =
  fCode :: u64
  fBlob :: u64
  fBlobSz :: u64

text \<open>\<open>Parent\<close> is uninitialised until \<open>Spawn\<close> points it to the team; \<open>HasParent\<close> says so.\<close>

record user_process =
  Name :: "u8 list"
  StackFrame :: u64
  Affinity :: int
  Status :: ProcessStatusKind
  StackReserve :: "u8 list"
  StackSize :: u64
  DylibDelegate :: u64
  UsedMemory :: u64
  SignalArg :: u64
  SignalStatus :: ProcessStatusKind
  SignalID :: u64
  Image :: process_image
  FileTree :: u64
  HeapTree :: u64
  HasParent :: bool
  VMRegister :: u64
  PTime :: u64
  RTime :: u64
  UTime :: u64
  STime :: u64
  ProcessId :: int
  Kind :: ExecutableKind
  LastExitCode :: int
  LocalCode :: int

record kern = hw +
  kheap :: bitmap
  kcores :: cores
  knodes :: "u64 \<Rightarrow> tree_node"
  kKernelVM :: u64

definition LeakImage :: "process_image \<Rightarrow> int + u64" where
  "LeakImage i = (if fCode i \<noteq> 0 then Inr (fCode i) else Inl kErrorInvalidData)"

definition LeakBlob :: "process_image \<Rightarrow> int + u64" where
  "LeakBlob i = (if fBlob i \<noteq> 0 then Inr (fBlob i) else Inl kErrorInvalidData)"

section \<open>Status\<close>

definition Crash :: "user_process \<Rightarrow> user_process" where
  "Crash p = (if Status p \<noteq> kRunning then p else p\<lparr>Status := kKilled\<rparr>)"

definition UserProcess_bool :: "user_process \<Rightarrow> bool" where
  "UserProcess_bool p = (Status p = kRunning)"

definition Wake :: "user_process \<Rightarrow> bool \<Rightarrow> user_process" where
  "Wake p should_wakeup = p\<lparr>Status := (if should_wakeup then kRunning else kFrozen)\<rparr>"

text \<open>\<open>InitDylib\<close>: \<open>delegate\<close> is what \<open>rtl_init_dylib_pef\<close> returns for the process.\<close>

definition InitDylib :: "user_process \<Rightarrow> u64 \<Rightarrow> user_process \<times> bool" where
  "InitDylib p delegate =
     (case Kind p of
        kExecutableDylibKind \<Rightarrow>
          let p = p\<lparr>DylibDelegate := delegate\<rparr>
          in if DylibDelegate p = 0 then (Crash p, False) else (p, True)
      | kExecutableKind \<Rightarrow> (p, False)
      | _ \<Rightarrow> (Crash p, False))"

section \<open>The heap tree\<close>

definition sched_try_go_upper_ptr_tree :: "(u64 \<Rightarrow> tree_node) \<Rightarrow> u64 \<Rightarrow> u64" where
  "sched_try_go_upper_ptr_tree nd tree =
     (if tree = 0 then 0
      else let tree = (if nParent (nd tree) \<noteq> 0 then nParent (nd tree) else tree);
               tree_tmp = nNext (nd tree)
           in if tree_tmp = 0 then tree else tree_tmp)"

text \<open>The loop of \<open>New\<close> that looks for the place: it yields \<open>ent\<close>, \<open>prev_entry\<close> and \<open>is_parent\<close>.\<close>

partial_function (option) place_loop ::
  "(u64 \<Rightarrow> tree_node) \<Rightarrow> u64 \<Rightarrow> u64 \<Rightarrow> u64 \<Rightarrow> bool \<Rightarrow> (u64 \<times> u64 \<times> bool) option" where
  "place_loop nd sz ent prev is_parent =
     (if ent = 0 then Some (ent, prev, is_parent)
      else if EntrySize (nd ent) < 1 then Some (ent, prev, is_parent)
      else if nChild (nd ent) \<noteq> 0 \<and> EntrySize (nd (nChild (nd ent))) > 0
              \<and> EntrySize (nd (nChild (nd ent))) = sz then
        place_loop nd sz (nChild (nd ent)) ent True
      else if nNext (nd ent) \<noteq> 0 \<and> EntrySize (nd (nNext (nd ent))) > 0
              \<and> EntrySize (nd (nNext (nd ent))) = sz then
        place_loop nd sz (nNext (nd ent)) ent False
      else if sched_try_go_upper_ptr_tree nd ent \<noteq> 0
              \<and> Color (nd (sched_try_go_upper_ptr_tree nd ent)) = kBlackTreeKind then
        Some (sched_try_go_upper_ptr_tree nd ent, ent, is_parent)
      else place_loop nd sz (sched_try_go_upper_ptr_tree nd ent) ent is_parent)"

definition insert_node :: "(u64 \<Rightarrow> tree_node) \<Rightarrow> u64 \<Rightarrow> u64 \<Rightarrow> u64 \<Rightarrow> u64 \<Rightarrow> u64 \<times> u64 \<times> bool \<Rightarrow> (u64 \<Rightarrow> tree_node)" where
  "insert_node nd new_entry ptr sz pad_amount place =
     (case place of (ent, prev_entry, is_parent) \<Rightarrow>
        let nd = nd(new_entry := \<lparr>Entry = ptr, EntrySize = sz, EntryPad = pad_amount, Color = kBlackTreeKind,
                       nParent = ent, nChild = 0, nPrev = 0, nNext = 0\<rparr>);
            nd = nd(prev_entry := (nd prev_entry)\<lparr>Color := kRedTreeKind\<rparr>)
        in if is_parent then
             let nd = nd(prev_entry := (nd prev_entry)\<lparr>nChild := new_entry\<rparr>)
             in nd(new_entry := (nd new_entry)\<lparr>nParent := prev_entry\<rparr>)
           else
             let nd = nd(prev_entry := (nd prev_entry)\<lparr>nNext := new_entry\<rparr>)
             in nd(new_entry := (nd new_entry)\<lparr>nPrev := prev_entry\<rparr>))"

text \<open>The size of a tree node, for \<open>new ProcessHeapTree<VoidPtr>()\<close>.\<close>

definition tree_node_sz :: u64 where "tree_node_sz = 64"

text \<open>The two writes of CR3 around the allocation leave \<open>kKernelVM\<close> in the register.\<close>

definition New :: "'a kern_scheme \<Rightarrow> user_process \<Rightarrow> u64 \<Rightarrow> u64 \<Rightarrow> ('a kern_scheme \<times> user_process \<times> (int + u64)) option" where
  "New s p sz pad_amount =
     (if UsedMemory p > kCPSMaxMemoryLimit then Some (s, p, Inl (- kErrorHeapOutOfMemory))
      else
        case mm_alloc_ptr (kheap s) sz True True pad_amount of
          None \<Rightarrow> None
        | Some (h1, ptr) \<Rightarrow>
            case (if HeapTree p = 0 then Some (0, 0, False)
                  else place_loop (knodes s) sz (HeapTree p) (HeapTree p) False) of
              None \<Rightarrow> None
            | Some place \<Rightarrow>
                case operator_new h1 tree_node_sz of
                  None \<Rightarrow> None
                | Some (h2, node) \<Rightarrow>
                    if node = 0 then Some (s\<lparr>cr3 := kKernelVM s, kheap := h2\<rparr>, Crash p, Inl (- kErrorHeapOutOfMemory))
                    else if HeapTree p = 0 then
                      Some (s\<lparr>cr3 := kKernelVM s, kheap := h2, knodes := (knodes s)(node :=
                              \<lparr>Entry = ptr, EntrySize = sz, EntryPad = pad_amount, Color = kBlackTreeKind,
                               nParent = 0, nChild = 0, nPrev = 0, nNext = 0\<rparr>)\<rparr>,
                            p\<lparr>HeapTree := node, UsedMemory := UsedMemory p + sz\<rparr>, Inr ptr)
                    else
                      Some (s\<lparr>cr3 := kKernelVM s, kheap := h2, knodes := insert_node (knodes s) node ptr sz pad_amount place\<rparr>,
                            p\<lparr>UsedMemory := UsedMemory p + sz\<rparr>, Inr ptr))"

text \<open>The search of \<open>Delete\<close> along the \<open>Next\<close> pointers.\<close>

partial_function (option) find_entry :: "(u64 \<Rightarrow> tree_node) \<Rightarrow> u64 \<Rightarrow> u64 \<Rightarrow> u64 option" where
  "find_entry nd ptr ent =
     (if ent = 0 then Some 0
      else if Entry (nd ent) = ptr then Some ent
      else find_entry nd ptr (nNext (nd ent)))"

definition Delete :: "bool \<Rightarrow> 'a kern_scheme \<Rightarrow> user_process \<Rightarrow> u64 \<Rightarrow> ('a kern_scheme \<times> user_process \<times> bool) res option" where
  "Delete debug s p ptr =
     (if ptr = 0 then Some (Ok (s, p, False))
      else if HeapTree p = 0 then Some (Ok (s, p, False))
      else
        case find_entry (knodes s) ptr (HeapTree p) of
          None \<Rightarrow> None
        | Some ent \<Rightarrow>
            if ent = 0 then Some (Ok (s, Crash p, False))
            else
              let p = p\<lparr>UsedMemory := UsedMemory p - EntrySize (knodes s ent)\<rparr>
              in case mm_free_ptr debug (kheap s) (Entry (knodes s ent)) of
                   Stop \<Rightarrow> Some Halt
                 | Ret (h, ret) \<Rightarrow> Some (Ok (s\<lparr>kheap := h\<rparr>, p, ret = kErrorSuccess)))"

section \<open>Exit\<close>

text \<open>Sequencing of steps that may search forever, halt the system or leave the arrays.\<close>

definition obind :: "'a res option \<Rightarrow> ('a \<Rightarrow> 'b res option) \<Rightarrow> 'b res option" where
  "obind m f = (case m of None \<Rightarrow> None | Some Halt \<Rightarrow> Some Halt | Some OutOfBounds \<Rightarrow> Some OutOfBounds
     | Some (Ok a) \<Rightarrow> f a)"

definition free_step :: "bool \<Rightarrow> bitmap \<Rightarrow> u64 \<Rightarrow> (bitmap \<times> int) res" where
  "free_step debug h ptr = (case mm_free_ptr debug h ptr of Stop \<Rightarrow> Halt | Ret r \<Rightarrow> Ok r)"

text \<open>
  \<open>sched_free_ptr_tree\<close>: the entry of a node is freed (a failure stops a debugging kernel), then
  the children of the next node, then the node itself.
\<close>

partial_function (option) sched_free_ptr_tree ::
  "bool \<Rightarrow> bitmap \<Rightarrow> (u64 \<Rightarrow> tree_node) \<Rightarrow> u64 \<Rightarrow> (bitmap \<times> (u64 \<Rightarrow> tree_node)) res option" where
  "sched_free_ptr_tree debug h nd tree =
     (if tree = 0 then Some (Ok (h, nd))
      else
        case (if Entry (nd tree) \<noteq> 0 then free_step debug h (Entry (nd tree)) else Ok (h, kErrorSuccess)) of
          Halt \<Rightarrow> Some Halt
        | OutOfBounds \<Rightarrow> Some OutOfBounds
        | Ok (h1, r) \<Rightarrow>
            if debug \<and> r \<noteq> kErrorSuccess then Some Halt
            else
              Option.bind
                (if nNext (nd tree) \<noteq> 0 \<and> nChild (nd (nNext (nd tree))) \<noteq> 0
                 then sched_free_ptr_tree debug h1 nd (nChild (nd (nNext (nd tree))))
                 else Some (Ok (h1, nd)))
                (\<lambda>x. case x of
                   Halt \<Rightarrow> Some Halt
                 | OutOfBounds \<Rightarrow> Some OutOfBounds
                 | Ok (h2, nd2) \<Rightarrow>
                     (case free_step debug h2 tree of
                        Halt \<Rightarrow> Some Halt
                      | OutOfBounds \<Rightarrow> Some OutOfBounds
                      | Ok (h3, r3) \<Rightarrow>
                          sched_free_ptr_tree debug h3 (nd2(tree := (nd2 tree)\<lparr>nChild := 0\<rparr>)) (nNext (nd tree)))))"

definition free_if_valid :: "bool \<Rightarrow> bitmap \<Rightarrow> u64 \<Rightarrow> bitmap res option" where
  "free_if_valid debug h ptr =
     (if ptr \<noteq> 0 \<and> mm_is_valid_ptr h ptr then
        case free_step debug h ptr of Halt \<Rightarrow> Some Halt | OutOfBounds \<Rightarrow> Some OutOfBounds | Ok (h1, r) \<Rightarrow> Some (Ok h1)
      else Some (Ok h))"

text \<open>
  \<open>Exit\<close> on a process; the counter of the parent team is decremented by the caller of this
  definition.  \<open>fini\<close> is the success that \<open>rtl_fini_dylib_pef\<close> reports.
\<close>

definition Exit_process :: "bool \<Rightarrow> bool \<Rightarrow> 'a kern_scheme \<Rightarrow> user_process \<Rightarrow> int \<Rightarrow> ('a kern_scheme \<times> user_process) res option" where
  "Exit_process debug fini s p exit_code =
     (let p = p\<lparr>Status := (if exit_code > 0 then kKilled else kFrozen), LastExitCode := exit_code\<rparr>
      in obind (sched_free_ptr_tree debug (kheap s) (knodes s) (HeapTree p)) (\<lambda>(h1, nd1).
         obind (sched_free_ptr_tree debug h1 nd1 (FileTree p)) (\<lambda>(h2, nd2).
         obind (if VMRegister p \<noteq> 0 then
                  (case mm_free_bitmap debug h2 (VMRegister p) of Stop \<Rightarrow> Some Halt | Ret (h, r) \<Rightarrow> Some (Ok h))
                else Some (Ok h2)) (\<lambda>h3.
         obind (free_if_valid debug h3 (fCode (Image p))) (\<lambda>h4.
         obind (free_if_valid debug h4 (fBlob (Image p))) (\<lambda>h5.
         obind (free_if_valid debug h5 (StackFrame p)) (\<lambda>h6.
           let p = p\<lparr>HeapTree := 0, FileTree := 0, StackFrame := 0,
                     Image := (Image p)\<lparr>fBlob := 0, fCode := 0\<rparr>\<rparr>
           in if Kind p = kExecutableDylibKind \<and> \<not> fini then Some Halt
              else
                let p = (if Kind p = kExecutableDylibKind then p\<lparr>DylibDelegate := 0\<rparr> else p)
                in Some (Ok (s\<lparr>cr3 := kKernelVM s, kheap := h6, knodes := nd2\<rparr>, p\<lparr>ProcessId := 0, Status := kFinished\<rparr>)))))))))"

text \<open>\<open>UserProcess{}\<close>: the member initialisers; the stack, which has none, is shown as zero.\<close>

definition blank_process :: user_process where
  "blank_process = \<lparr>Name = [85, 115, 101, 114, 80, 114, 111, 99, 101, 115, 115] @ replicate 117 0,
     StackFrame = 0, Affinity = kStandard, Status = kKilled,
     StackReserve = replicate (unat kCPSMaxStackSz) 0, StackSize = kCPSMaxStackSz, DylibDelegate = 0, UsedMemory = 0,
     SignalArg = 0, SignalStatus = kKilled, SignalID = 0,
     Image = \<lparr>fCode = 0, fBlob = 0, fBlobSz = 0\<rparr>, FileTree = 0, HeapTree = 0, HasParent = False,
     VMRegister = 0, PTime = 0, RTime = 0, UTime = 0, STime = 0, ProcessId = -1, Kind = kExecutableKind,
     LastExitCode = 0, LocalCode = 0\<rparr>"

section \<open>What Exit leaves\<close>

lemma obind_Ok: "obind m f = Some (Ok r) \<longleftrightarrow> (\<exists>a. m = Some (Ok a) \<and> f a = Some (Ok r))"
  by (auto simp: obind_def split: option.splits res.splits)

lemma Exit_process_Ok:
  assumes "Exit_process debug fini s p code = Some (Ok (s', p'))"
  shows "Status p' = kFinished \<and> ProcessId p' = 0 \<and> LastExitCode p' = code \<and> HeapTree p' = 0 \<and> FileTree p' = 0
    \<and> StackFrame p' = 0 \<and> fCode (Image p') = 0 \<and> fBlob (Image p') = 0 \<and> Name p' = Name p
    \<and> ram s' = ram s \<and> cr3 s' = kKernelVM s \<and> kcores s' = kcores s"
  using assms by (auto simp: Exit_process_def obind_Ok Let_def split: if_splits)

section \<open>What New does to the tree\<close>

definition root_node :: "u64 \<Rightarrow> u64 \<Rightarrow> u64 \<Rightarrow> tree_node" where
  "root_node ptr sz pad = \<lparr>Entry = ptr, EntrySize = sz, EntryPad = pad, Color = kBlackTreeKind,
     nParent = 0, nChild = 0, nPrev = 0, nNext = 0\<rparr>"

lemma New_first:
  assumes "New s p sz pad = Some (s', p', Inr ptr)" and "HeapTree p = 0"
  shows "HeapTree p' \<noteq> 0 \<and> knodes s' = (knodes s)(HeapTree p' := root_node ptr sz pad)
    \<and> UsedMemory p' = UsedMemory p + sz"
  using assms by (auto simp: New_def root_node_def split: if_splits option.splits prod.splits)

lemma New_next:
  assumes "New s p sz pad = Some (s', p', Inr ptr)" and "HeapTree p \<noteq> 0"
    and "place_loop (knodes s) sz (HeapTree p) (HeapTree p) False = Some place"
  shows "\<exists>node. node \<noteq> 0 \<and> knodes s' = insert_node (knodes s) node ptr sz pad place
    \<and> HeapTree p' = HeapTree p \<and> UsedMemory p' = UsedMemory p + sz"
  using assms by (auto simp: New_def split: if_splits option.splits prod.splits)

lemma New_fresh:
  assumes h: "fresh_heap (kheap s) b" "8 \<le> sz" "sz \<le> 0x100000" "b \<le> 0xFF00000000"
    and "UsedMemory p \<le> kCPSMaxMemoryLimit"
    and "HeapTree p \<noteq> 0 \<Longrightarrow> place_loop (knodes s) sz (HeapTree p) (HeapTree p) False = Some place"
  shows "\<exists>s' p'. New s p sz 0 = Some (s', p', Inr (b + 92)) \<and> fresh_heap (kheap s') (b + sz + 232)
    \<and> UsedMemory p' = UsedMemory p + sz
    \<and> HeapTree p' = (if HeapTree p = 0 then b + sz + 176 else HeapTree p)
    \<and> knodes s' = (if HeapTree p = 0 then (knodes s)(b + sz + 176 := root_node (b + 92) sz 0)
        else insert_node (knodes s) (b + sz + 176) (b + 92) sz 0 place)"
proof -
  have b: "b \<le> 0x10000000000" "b + sz + 84 \<le> 0x10000000000"
    using h by (simp_all add: word_le_nat_alt unat_word_ariths)
  obtain h1 where h1: "mm_alloc_ptr (kheap s) sz True True 0 = Some (h1, b + 92)" "fresh_heap h1 (b + sz + 84)"
    using fresh_alloc [OF h(1-3) b(1)] by blast
  obtain h2 where h2: "mm_alloc_ptr h1 tree_node_sz True False 0 = Some (h2, b + sz + 84 + 92)"
    "fresh_heap h2 (b + sz + 84 + tree_node_sz + 84)"
    using fresh_alloc [OF h1(2), of tree_node_sz True False] b(2) by (auto simp: tree_node_sz_def)
  have n: "operator_new h1 tree_node_sz = Some (h2, b + sz + 176)"
    using h2(1) by (simp add: operator_new_def tree_node_sz_def add.assoc)
  have nz: "b + sz + 176 \<noteq> 0"
  proof
    assume "b + sz + 176 = 0"
    then have "unat (b + sz + 176) = 0" by simp
    then show False using h by (simp add: word_le_nat_alt unat_word_ariths)
  qed
  have f: "fresh_heap h2 (b + sz + 232)" using h2(2) by (simp add: tree_node_sz_def add.assoc)
  show ?thesis
  proof (cases "HeapTree p = 0")
    case True
    then show ?thesis using assms(5) h1(1) n nz f by (simp add: New_def root_node_def not_less [symmetric])
  next
    case False
    then show ?thesis using assms(5) h1(1) n nz f assms(6) by (simp add: New_def not_less [symmetric])
  qed
qed

text \<open>The places the second, third and fourth allocation of a process are put.\<close>

lemma place_one:
  assumes "r \<noteq> 0" and "nd r = root_node x a pad" and "a \<noteq> 0"
  shows "place_loop nd sz r r False = Some (r, r, False)"
  using assms by (subst place_loop.simps) (simp add: sched_try_go_upper_ptr_tree_def root_node_def)

definition two_chain :: "(u64 \<Rightarrow> tree_node) \<Rightarrow> u64 \<Rightarrow> u64 \<Rightarrow> bool" where
  "two_chain nd r n \<longleftrightarrow> r \<noteq> 0 \<and> n \<noteq> 0 \<and> r \<noteq> n \<and> EntrySize (nd r) \<noteq> 0 \<and> nChild (nd r) = 0 \<and> nParent (nd r) = 0
     \<and> nNext (nd r) = n \<and> Color (nd r) = kRedTreeKind
     \<and> nChild (nd n) = 0 \<and> nParent (nd n) = r \<and> nNext (nd n) = 0 \<and> Color (nd n) = kBlackTreeKind"

lemma place_two_same:
  assumes "two_chain nd r n" and "EntrySize (nd n) = sz" and "sz \<noteq> 0"
  shows "place_loop nd sz r r False = Some (n, n, False)"
proof -
  have "sz > 0" using assms(3) by (simp add: word_gt_0)
  then have "place_loop nd sz r r False = place_loop nd sz n r False"
    using assms by (subst place_loop.simps) (simp add: two_chain_def)
  also have "\<dots> = Some (n, n, False)"
    using assms by (subst place_loop.simps) (simp add: two_chain_def sched_try_go_upper_ptr_tree_def)
  finally show ?thesis .
qed

lemma place_two_other:
  assumes "two_chain nd r n" and "EntrySize (nd n) \<noteq> sz"
  shows "place_loop nd sz r r False = Some (n, r, False)"
  using assms by (subst place_loop.simps) (simp add: two_chain_def sched_try_go_upper_ptr_tree_def)

lemma New_two_chain:
  assumes "HeapTree p = 0" and "New s p a pa = Some (s1, p1, Inr x1)" and "New s1 p1 b pb = Some (s2, p2, Inr x2)"
    and "a \<noteq> 0" and "nNext (knodes s2 (HeapTree p1)) \<noteq> HeapTree p1"
  shows "two_chain (knodes s2) (HeapTree p1) (nNext (knodes s2 (HeapTree p1))) \<and> HeapTree p2 = HeapTree p1
    \<and> EntrySize (knodes s2 (nNext (knodes s2 (HeapTree p1)))) = b
    \<and> Entry (knodes s2 (nNext (knodes s2 (HeapTree p1)))) = x2 \<and> Entry (knodes s2 (HeapTree p1)) = x1"
proof -
  define r where "r = HeapTree p1"
  have r: "r \<noteq> 0" and n1: "knodes s1 = (knodes s)(r := root_node x1 a pa)" using New_first [OF assms(2,1)] by (auto simp: r_def)
  have "place_loop (knodes s1) b r r False = Some (r, r, False)" by (rule place_one [OF r _ assms(4)]) (simp add: n1)
  then obtain n where n: "n \<noteq> 0" "knodes s2 = insert_node (knodes s1) n x2 b pb (r, r, False)" "HeapTree p2 = r"
    using New_next [OF assms(3)] r by (auto simp: r_def)
  have nx: "nNext (knodes s2 r) = n" using n by (simp add: insert_node_def Let_def)
  have "r \<noteq> n" using assms(5) nx by (auto simp: r_def)
  then show ?thesis using r n n1 nx assms(4) unfolding r_def [symmetric]
    by (simp add: two_chain_def insert_node_def root_node_def Let_def)
qed

text \<open>A search that steps from a red node back to itself never ends.\<close>

lemma place_loop_hangs:
  assumes "n \<noteq> 0" and "EntrySize (nd n) \<noteq> 0" and "nChild (nd n) = 0"
    and "nNext (nd n) \<noteq> 0" and "EntrySize (nd (nNext (nd n))) \<noteq> sz"
    and "sched_try_go_upper_ptr_tree nd n = n" and "Color (nd n) = kRedTreeKind"
  shows "place_loop nd sz n prev is_parent = None"
proof -
  have "place_loop nd sz n prev is_parent \<noteq> Some x" for x
  proof
    assume eq: "place_loop nd sz n prev is_parent = Some x"
    define A where "A = nd"
    define B where "B = sz"
    have "A = nd \<longrightarrow> B = sz \<longrightarrow> n \<noteq> n"
      by (rule place_loop.raw_induct [where P = "\<lambda>A B e prev is_parent x. A = nd \<longrightarrow> B = sz \<longrightarrow> e \<noteq> n", OF _ eq [folded A_def B_def]])
        (use assms in \<open>auto simp: linorder_not_less [symmetric] split: if_splits\<close>)
    then show False by (simp add: A_def B_def)
  qed
  then show ?thesis by (cases "place_loop nd sz n prev is_parent") auto
qed

lemma place_three_hangs:
  assumes "two_chain nd r n" and "EntrySize (nd n) = b" and "b \<noteq> 0" and "m \<notin> {0, r, n}" and "sz \<noteq> b"
  shows "place_loop (insert_node nd m x b pad (n, n, False)) sz r r False = None"
proof -
  define nd' where "nd' = insert_node nd m x b pad (n, n, False)"
  have nd': "nd' r = nd r" "nd' n = (nd n)\<lparr>Color := kRedTreeKind, nNext := m\<rparr>" "EntrySize (nd' m) = b"
    using assms by (auto simp: nd'_def insert_node_def Let_def two_chain_def)
  have "place_loop nd' sz r r False = place_loop nd' sz n r False"
    using assms nd' by (subst place_loop.simps) (auto simp: two_chain_def sched_try_go_upper_ptr_tree_def)
  also have "\<dots> = None"
    by (rule place_loop_hangs) (use assms nd' in \<open>auto simp: two_chain_def sched_try_go_upper_ptr_tree_def\<close>)
  finally show ?thesis by (simp add: nd'_def)
qed

section \<open>Properties\<close>

text \<open>
  First allocation and release.  The first \<open>New\<close> of a process makes the tree's root hold
  the pointer; \<open>Delete\<close> of that pointer finds it and, unless the heap stops the system, gives
  the memory back to the account of the process, reports what the heap reports and does not
  crash the process.
\<close>

theorem New_Delete_first:
  assumes "HeapTree p = 0" and "New s p sz pad = Some (s1, p1, Inr ptr)" and "ptr \<noteq> 0"
  shows "case mm_free_ptr debug (kheap s1) ptr of
      Stop \<Rightarrow> Delete debug s1 p1 ptr = Some Halt
    | Ret (h, r) \<Rightarrow> \<exists>p2. Delete debug s1 p1 ptr = Some (Ok (s1\<lparr>kheap := h\<rparr>, p2, r = kErrorSuccess))
        \<and> UsedMemory p2 = UsedMemory p \<and> Status p2 = Status p1 \<and> HeapTree p2 = HeapTree p1"
proof -
  note f = New_first [OF assms(2,1)]
  have "find_entry (knodes s1) ptr (HeapTree p1) = Some (HeapTree p1)"
    using f by (subst find_entry.simps) (simp add: root_node_def)
  then show ?thesis using f assms(3)
    by (auto simp: Delete_def Let_def root_node_def split: outcome.splits)
qed

text \<open>
  The third allocation of another size loses the second.  When the third \<open>New\<close> of a
  process asks for a size that differs from the second one's, the new node takes the second
  node's place behind the root: the second pointer is no longer found, and releasing it crashes
  the process.
\<close>

theorem New_third_unlinks_second:
  assumes "HeapTree p = 0" and "New s p a pa = Some (s1, p1, Inr x1)" and "New s1 p1 b pb = Some (s2, p2, Inr x2)"
    and "New s2 p2 c pc = Some (s3, p3, Inr x3)"
    and "a \<noteq> 0" and "c \<noteq> b" and "x2 \<notin> {0, x1, x3}"
    and "distinct [HeapTree p1, nNext (knodes s2 (HeapTree p1)), nNext (knodes s3 (HeapTree p1))]"
  shows "Delete debug s3 p3 x2 = Some (Ok (s3, Crash p3, False))"
proof -
  define r where "r = HeapTree p1"
  define n where "n = nNext (knodes s2 r)"
  have c2: "two_chain (knodes s2) r n" "HeapTree p2 = r" "EntrySize (knodes s2 n) = b" "Entry (knodes s2 r) = x1"
    using New_two_chain [OF assms(1-3,5)] assms(8) by (auto simp: r_def n_def)
  have r: "r \<noteq> 0" using c2 by (simp add: two_chain_def)
  obtain m where m: "m \<noteq> 0" "knodes s3 = insert_node (knodes s2) m x3 c pc (n, r, False)" "HeapTree p3 = r"
    using New_next [OF assms(4)] place_two_other [OF c2(1), of c] c2 r assms(6) by auto
  have nx: "nNext (knodes s3 r) = m" using m by (simp add: insert_node_def Let_def)
  have ne: "m \<noteq> r" using assms(8) nx by (auto simp: r_def)
  have e: "Entry (knodes s3 r) = x1" "Entry (knodes s3 m) = x3" "nNext (knodes s3 m) = 0"
    using c2 m ne by (simp_all add: insert_node_def Let_def)
  have "find_entry (knodes s3) x2 0 = Some 0" by (subst find_entry.simps) simp
  then have "find_entry (knodes s3) x2 m = Some 0" using m(1) assms(7) e by (subst find_entry.simps) auto
  then have "find_entry (knodes s3) x2 r = Some 0" using r assms(7) e nx by (subst find_entry.simps) auto
  then show ?thesis using r m(3) assms(7) by (simp add: Delete_def)
qed

text \<open>
  The fourth allocation can hang the kernel.  After allocations of sizes \<open>a\<close>, \<open>b\<close> and
  \<open>b\<close> a fourth \<open>New\<close> of any other size never returns: the search for its place steps from the
  second node back to itself.
\<close>

theorem New_fourth_hangs:
  assumes "HeapTree p = 0" and "New s p a pa = Some (s1, p1, Inr x1)" and "New s1 p1 b pb = Some (s2, p2, Inr x2)"
    and "New s2 p2 b pc = Some (s3, p3, Inr x3)"
    and "a \<noteq> 0" and "b \<noteq> 0" and "d \<noteq> b" and "UsedMemory p3 \<le> kCPSMaxMemoryLimit"
    and "distinct [HeapTree p1, nNext (knodes s2 (HeapTree p1)),
           nNext (knodes s3 (nNext (knodes s2 (HeapTree p1))))]"
  shows "New s3 p3 d pd = None"
proof -
  define r where "r = HeapTree p1"
  define n where "n = nNext (knodes s2 r)"
  have c2: "two_chain (knodes s2) r n" "HeapTree p2 = r" "EntrySize (knodes s2 n) = b"
    using New_two_chain [OF assms(1-3,5)] assms(9) by (auto simp: r_def n_def)
  have r: "r \<noteq> 0" using c2 by (simp add: two_chain_def)
  obtain m where m: "m \<noteq> 0" "knodes s3 = insert_node (knodes s2) m x3 b pc (n, n, False)" "HeapTree p3 = r"
    using New_next [OF assms(4)] place_two_same [OF c2(1,3) assms(6)] c2 r by auto
  have nx: "nNext (knodes s3 n) = m" using m by (simp add: insert_node_def Let_def)
  have "m \<notin> {0, r, n}" using assms(9) nx m(1) by (auto simp: r_def n_def)
  from place_three_hangs [OF c2(1,3) assms(6) this assms(7)] m r assms(8)
  show ?thesis by (auto simp: New_def split: option.splits)
qed

section \<open>The properties at concrete inputs\<close>

definition small_kern :: kern where
  "small_kern = \<lparr>ram = (\<lambda>_. 0), kPmmBase = 0, kPmmCursor = 0, kPmmEnd = 0, kPmmFreeHead = 0, kPmmFree = 0, kPmmUsed = 0,
     cr3 = 0, kheap = zero_bitmap,
     kcores = \<lparr>frames_at = (\<lambda>_. \<lparr>IP = 0, SP = 0, R8 = 0, R9 = 0, R10 = 0, R11 = 0, R12 = 0, R13 = 0, R14 = 0, R15 = 0\<rparr>),
       kSMPAware = False, kSMPCount = 0, kHWThread = (\<lambda>_. 0), fThreadList = [], fCurrentThreadIdx = 0\<rparr>,
     knodes = (\<lambda>_. root_node 0 0 0), kKernelVM = 0x1000\<rparr>"

lemma kCPSMaxMemoryLimit_large: "n \<le> 0x1000 \<Longrightarrow> n \<le> kCPSMaxMemoryLimit"
  by (simp add: kCPSMaxMemoryLimit_def word_le_nat_alt)

lemma small_run:
  assumes "b = 64 \<or> b = 128"
  obtains s1 p1 s2 p2 s3 p3 where "New small_kern blank_process 64 0 = Some (s1, p1, Inr 0x10005C)"
    and "New s1 p1 64 0 = Some (s2, p2, Inr 0x100184)" and "New s2 p2 b 0 = Some (s3, p3, Inr 0x1002AC)"
    and "HeapTree p1 = 0x1000F0" and "nNext (knodes s2 0x1000F0) = 0x100218"
    and "nNext (knodes s3 (if b = 64 then 0x100218 else 0x1000F0)) = 0x100300 + b"
    and "UsedMemory p3 \<le> kCPSMaxMemoryLimit"
proof -
  obtain s1 p1 where n1: "New small_kern blank_process 64 0 = Some (s1, p1, Inr 0x10005C)"
    and f1: "fresh_heap (kheap s1) 0x100128" "UsedMemory p1 = 64" "HeapTree p1 = 0x1000F0"
      "knodes s1 = (knodes small_kern)(0x1000F0 := root_node 0x10005C 64 0)"
    using New_fresh [where s = small_kern and b = "0x100000" and sz = 64 and p = blank_process] fresh_zero_bitmap
    by (auto simp: small_kern_def blank_process_def kCPSMaxMemoryLimit_def)
  have "place_loop (knodes s1) 64 (HeapTree p1) (HeapTree p1) False = Some (0x1000F0, 0x1000F0, False)"
    unfolding f1(3) by (rule place_one [where a = 64]) (simp_all add: f1)
  then obtain s2 p2 where n2: "New s1 p1 64 0 = Some (s2, p2, Inr 0x100184)"
    and f2: "fresh_heap (kheap s2) 0x100250" "UsedMemory p2 = 128" "HeapTree p2 = 0x1000F0"
      "knodes s2 = insert_node (knodes s1) 0x100218 0x100184 64 0 (0x1000F0, 0x1000F0, False)"
    using New_fresh [OF f1(1), where sz = 64 and p = p1] f1(2,3) by (auto simp: kCPSMaxMemoryLimit_def)
  have nx: "nNext (knodes s2 0x1000F0) = 0x100218" by (simp add: f2 insert_node_def Let_def)
  have ch: "two_chain (knodes s2) 0x1000F0 0x100218" "EntrySize (knodes s2 0x100218) = 64"
    by (simp_all add: f2 f1 insert_node_def Let_def two_chain_def root_node_def)
  have pl: "place_loop (knodes s2) b (HeapTree p2) (HeapTree p2) False
      = Some (0x100218, if b = 64 then 0x100218 else 0x1000F0, False)"
    using place_two_same [OF ch(1,2)] place_two_other [OF ch(1), of b] ch(2) assms by (auto simp: f2)
  have "8 \<le> b" "b \<le> 0x100000" using assms by auto
  then obtain s3 p3 where n3: "New s2 p2 b 0 = Some (s3, p3, Inr 0x1002AC)"
    and f3: "UsedMemory p3 = 128 + b"
      "knodes s3 = insert_node (knodes s2) (0x100250 + b + 176) 0x1002AC b 0
         (0x100218, if b = 64 then 0x100218 else 0x1000F0, False)"
    using New_fresh [OF f2(1), where sz = b and p = p2] pl f2(2,3) by (auto simp: kCPSMaxMemoryLimit_def)
  have "nNext (knodes s3 (if b = 64 then 0x100218 else 0x1000F0)) = 0x100300 + b"
    using assms by (auto simp: f3 insert_node_def Let_def)
  moreover have "UsedMemory p3 \<le> kCPSMaxMemoryLimit" using assms f3(1) by (auto simp: kCPSMaxMemoryLimit_def)
  ultimately show thesis using that n1 n2 n3 f1(3) nx by blast
qed

theorem New_Delete_first_witness:
  "\<exists>s1 p1. New small_kern blank_process 64 0 = Some (s1, p1, Inr 0x10005C)
     \<and> (case mm_free_ptr False (kheap s1) 0x10005C of
          Stop \<Rightarrow> Delete False s1 p1 0x10005C = Some Halt
        | Ret (h, r) \<Rightarrow> \<exists>p2. Delete False s1 p1 0x10005C = Some (Ok (s1\<lparr>kheap := h\<rparr>, p2, r = kErrorSuccess))
            \<and> UsedMemory p2 = 0 \<and> Status p2 = Status p1 \<and> HeapTree p2 = HeapTree p1)"
proof -
  obtain s1 p1 where n: "New small_kern blank_process 64 0 = Some (s1, p1, Inr 0x10005C)"
    by (rule small_run [of 64]) simp_all
  have b: "HeapTree blank_process = 0" "UsedMemory blank_process = 0" by (simp_all add: blank_process_def)
  show ?thesis using n New_Delete_first [OF b(1) n, of False, unfolded b(2)] by auto
qed

theorem New_third_unlinks_second_witness:
  "\<exists>s1 p1 s2 p2 s3 p3. New small_kern blank_process 64 0 = Some (s1, p1, Inr 0x10005C)
     \<and> New s1 p1 64 0 = Some (s2, p2, Inr 0x100184) \<and> New s2 p2 128 0 = Some (s3, p3, Inr 0x1002AC)
     \<and> Delete False s3 p3 0x100184 = Some (Ok (s3, Crash p3, False))"
proof -
  obtain s1 p1 s2 p2 s3 p3 where n: "New small_kern blank_process 64 0 = Some (s1, p1, Inr 0x10005C)"
    "New s1 p1 64 0 = Some (s2, p2, Inr 0x100184)" "New s2 p2 128 0 = Some (s3, p3, Inr 0x1002AC)"
    "HeapTree p1 = 0x1000F0" "nNext (knodes s2 0x1000F0) = 0x100218" "nNext (knodes s3 0x1000F0) = 0x100380"
    by (rule small_run [of 128]) simp_all
  have "HeapTree blank_process = 0" by (simp add: blank_process_def)
  from New_third_unlinks_second [OF this n(1-3), of False] n show ?thesis by auto
qed

theorem New_fourth_hangs_witness:
  "\<exists>s1 p1 s2 p2 s3 p3. New small_kern blank_process 64 0 = Some (s1, p1, Inr 0x10005C)
     \<and> New s1 p1 64 0 = Some (s2, p2, Inr 0x100184) \<and> New s2 p2 64 0 = Some (s3, p3, Inr 0x1002AC)
     \<and> New s3 p3 128 0 = None"
proof -
  obtain s1 p1 s2 p2 s3 p3 where n: "New small_kern blank_process 64 0 = Some (s1, p1, Inr 0x10005C)"
    "New s1 p1 64 0 = Some (s2, p2, Inr 0x100184)" "New s2 p2 64 0 = Some (s3, p3, Inr 0x1002AC)"
    "HeapTree p1 = 0x1000F0" "nNext (knodes s2 0x1000F0) = 0x100218" "nNext (knodes s3 0x100218) = 0x100340"
    "UsedMemory p3 \<le> kCPSMaxMemoryLimit"
    by (rule small_run [of 64]) simp_all
  have "HeapTree blank_process = 0" by (simp add: blank_process_def)
  from New_fourth_hangs [OF this n(1-3), of 128 0] n show ?thesis by auto
qed

end
