(* ===== verification/UserScheduler.thy ===== *)
theory UserScheduler
  imports UserProcesses AsciiUtils
begin

text \<open>
  The user scheduler, \<^verbatim>\<open>UserProcessScheduler.cpp\<close> and \<^verbatim>\<open>UserProcessTeam.cpp\<close>: the team of
  32 process slots, \<open>Spawn\<close>, \<open>Remove\<close>, \<open>Run\<close>, \<open>SwitchTeam\<close>, and the allocation on
  behalf of the current process of \<^verbatim>\<open>ThreadLocalStorage.inl\<close>.

  \<open>usched\<close> extends the kernel state by the team and by the static index of \<open>Run\<close>.  The slots
  of the team are a list of 32 processes; an access at any other index is \<open>OutOfBounds\<close>.  The
  address of the stack inside slot \<open>pid\<close> is the parameter \<open>stack_at\<close>.  Process times are
  unsigned 64-bit numbers.
\<close>

record team =
  mProcessList :: "user_process list"
  mCurrentProcess :: user_process
  mTeamId :: int
  mProcessCur :: int

record usched = kern +
  mTeam :: team
  process_index :: u64

definition UserProcessTeam :: "user_process \<Rightarrow> team" where
  "UserProcessTeam current =
     \<lparr>mProcessList = replicate (nat kCPSProcessLimitPerTeam)
        (blank_process\<lparr>PTime := 0, RTime := 0, UTime := 0, STime := 0, Status := kKilled\<rparr>),
      mCurrentProcess = current, mTeamId = 0, mProcessCur = 0\<rparr>"

definition slot_ok :: "'a usched_scheme \<Rightarrow> int \<Rightarrow> bool" where
  "slot_ok s i \<longleftrightarrow> 0 \<le> i \<and> i < int (length (mProcessList (mTeam s)))"

definition slot :: "'a usched_scheme \<Rightarrow> int \<Rightarrow> user_process" where
  "slot s i = mProcessList (mTeam s) ! nat i"

definition set_slot :: "'a usched_scheme \<Rightarrow> int \<Rightarrow> user_process \<Rightarrow> 'a usched_scheme" where
  "set_slot s i p = s\<lparr>mTeam := (mTeam s)\<lparr>mProcessList := (mProcessList (mTeam s))[nat i := p]\<rparr>\<rparr>"

definition set_cur :: "'a usched_scheme \<Rightarrow> int \<Rightarrow> 'a usched_scheme" where
  "set_cur s n = s\<lparr>mTeam := (mTeam s)\<lparr>mProcessCur := n\<rparr>\<rparr>"

section \<open>Spawn\<close>

definition kUserSignalSeed :: u64 where "kUserSignalSeed = 0x0895034F"
definition SIGTRAP :: u64 where "SIGTRAP = 4"

definition sig_generate_unique :: "u64 \<Rightarrow> u64" where
  "sig_generate_unique sig = sig XOR kUserSignalSeed"

definition stack_frame_sz :: u64 where "stack_frame_sz = 80"

definition zero_frame :: stack_frame where
  "zero_frame = \<lparr>IP = 0, SP = 0, R8 = 0, R9 = 0, R10 = 0, R11 = 0, R12 = 0, R13 = 0, R14 = 0, R15 = 0\<rparr>"

text \<open>The two user mappings \<open>Spawn\<close> asks for, of the code and of the stack pointer.\<close>

definition spawn_map :: "'a usched_scheme \<Rightarrow> u64 \<Rightarrow> u64 \<Rightarrow> 'a usched_scheme" where
  "spawn_map s ip sp =
     (let s1 = fst (mm_map_page s ip (mm_get_page_addr s ip) (kMMFlagsUser OR kMMFlagsPresent) 2)
      in fst (mm_map_page s1 sp (mm_get_page_addr s1 sp) (kMMFlagsUser OR kMMFlagsPresent) 2))"

text \<open>The end of \<open>Spawn\<close>: the scheduling state of the new process and its file tree.\<close>

definition run_ready :: "int \<Rightarrow> user_process \<Rightarrow> user_process" where
  "run_ready pid process = process\<lparr>StackSize := kCPSMaxStackSz, StackReserve := replicate (unat kCPSMaxStackSz) 0,
     HasParent := True, ProcessId := pid, Status := kRunning, PTime := 0, Affinity := kStandard,
     RTime := 0, UTime := 0, STime := 0\<rparr>"

definition spawn_finish :: "'a usched_scheme \<Rightarrow> int \<Rightarrow> user_process \<Rightarrow> ('a usched_scheme \<times> int) res option" where
  "spawn_finish s pid process =
     (let process = run_ready pid process
      in if FileTree process = 0 then
           case operator_new (kheap s) tree_node_sz of
             None \<Rightarrow> None
           | Some (h, tree) \<Rightarrow>
               if tree = 0 then
                 Some (Ok (set_slot (s\<lparr>kheap := h\<rparr>) pid (Crash process), - kErrorHeapOutOfMemory))
               else Some (Ok (set_slot (s\<lparr>kheap := h, knodes := (knodes s)(tree := root_node 0 0 0)\<rparr>) pid
                            (process\<lparr>FileTree := tree\<rparr>), pid))
         else Some (Ok (set_slot s pid process, pid)))"

definition Spawn ::
  "(int \<Rightarrow> u64) \<Rightarrow> 'a usched_scheme \<Rightarrow> u64 \<Rightarrow> u64 \<Rightarrow> u64 \<Rightarrow> u64 \<Rightarrow> ('a usched_scheme \<times> int) res option" where
  "Spawn stack_at s name code blob image_sz =
     (if name = 0 \<or> code = 0 then Some (Ok (s, - kErrorProcessFault))
      else if ram s name = 0 then Some (Ok (s, - kErrorProcessFault))
      else
        let pid = mProcessCur (mTeam s)
        in if pid > kCPSProcessLimitPerTeam then Some (Ok (s, - kErrorProcessFault))
           else
             let s = set_cur s (mProcessCur (mTeam s) + 1)
             in if \<not> slot_ok s pid then Some OutOfBounds
                else
                  let process = (slot s pid)\<lparr>Image := \<lparr>fCode = code, fBlob = blob, fBlobSz = image_sz\<rparr>\<rparr>
                  in case rt_string_len (ram s) name of
                       None \<Rightarrow> None
                     | Some len \<Rightarrow>
                         if len > of_nat kCPSNameLen then
                           Some (Ok (set_slot s pid process, - kErrorProcessFault))
                         else
                           let process = process\<lparr>Name := read_bytes (ram s) name (unat len) @ drop (unat len) (Name process),
                                 VMRegister := kKernelVM s\<rparr>
                           in case operator_new (kheap s) stack_frame_sz of
                                None \<Rightarrow> None
                              | Some (h, frame) \<Rightarrow>
                                  let process = process\<lparr>StackFrame := frame\<rparr>;
                                      s = s\<lparr>kheap := h\<rparr>
                                  in if frame = 0 then
                                       Some (Ok (set_slot s pid (Crash process), - kErrorProcessFault))
                                     else
                                       let ip = code;
                                           sp = stack_at pid + StackSize process;
                                           s = s\<lparr>kcores := (kcores s)\<lparr>frames_at := (frames_at (kcores s))(frame :=
                                                 zero_frame\<lparr>IP := ip, SP := sp\<rparr>)\<rparr>\<rparr>
                                       in spawn_finish (spawn_map s ip sp) pid process)"

section \<open>Exit and Remove\<close>

definition Exit :: "bool \<Rightarrow> bool \<Rightarrow> 'a usched_scheme \<Rightarrow> int \<Rightarrow> int \<Rightarrow> 'a usched_scheme res option" where
  "Exit debug fini s pid exit_code =
     (if \<not> slot_ok s pid then Some OutOfBounds
      else obind (Exit_process debug fini s (slot s pid) exit_code) (\<lambda>(s, p).
        if \<not> HasParent p then Some OutOfBounds
        else let s = set_slot s pid p in Some (Ok (set_cur s (mProcessCur (mTeam s) - 1)))))"

definition Remove :: "bool \<Rightarrow> bool \<Rightarrow> 'a usched_scheme \<Rightarrow> int \<Rightarrow> 'a usched_scheme res option" where
  "Remove debug fini s process_id =
     (if process_id < 0 \<or> process_id > kCPSProcessLimitPerTeam then Some (Ok s)
      else if \<not> slot_ok s process_id then Some OutOfBounds
      else if Status (slot s process_id) = kInvalid then Some (Ok s)
      else Exit debug fini s process_id kErrorSuccess)"

section \<open>Run\<close>

definition CanBeScheduled :: "user_process \<Rightarrow> bool" where
  "CanBeScheduled process =
     (if Affinity process = kUltraHigh then True
      else if Status process \<noteq> kRunning then False
      else if Affinity process = kAffinityInvalid then False
      else if StackSize process > kCPSMaxStackSz then False
      else if Name process ! 0 = 0 then False
      else if SignalID process = sig_generate_unique SIGTRAP then False
      else PTime process < 1)"

text \<open>What \<open>Run\<close> does to the process before, after and instead of switching to it.\<close>

definition run_charge :: "user_process \<Rightarrow> user_process" where
  "run_charge p =
     (let p = (if UTime p < PTime p then p\<lparr>UTime := UTime p + 1\<rparr> else p)
      in if STime p > 0 then
           let boost = STime p div 10;
               boost = (if boost > word_of_int kHigh then word_of_int kHigh else boost)
           in p\<lparr>PTime := PTime p + boost, STime := 0\<rparr>
         else p)"

definition run_cooldown :: "user_process \<Rightarrow> user_process" where
  "run_cooldown p =
     (if PTime p < RTime p \<and> Affinity p \<noteq> kUltraHigh then
        let p = (if RTime p < word_of_int kVeryHigh then p\<lparr>RTime := RTime p + word_of_int kLowUsage\<rparr>
                 else if RTime p < word_of_int kHigh then p\<lparr>RTime := RTime p + word_of_int kStandard\<rparr>
                 else if RTime p < word_of_int kStandard then p\<lparr>RTime := RTime p + word_of_int kHigh\<rparr>
                 else p)
        in p\<lparr>PTime := PTime p - RTime p, RTime := 0\<rparr>
      else if Affinity p \<noteq> kUltraHigh then p\<lparr>PTime := PTime p + word_of_int kUltraHigh\<rparr>
      else p)"

definition run_wait :: "user_process \<Rightarrow> user_process" where
  "run_wait p =
     (let p = (if Status p = kFrozen then p\<lparr>STime := STime p + 1\<rparr> else p)
      in p\<lparr>RTime := RTime p + 1, PTime := PTime p - 1\<rparr>)"

definition Run :: "'a usched_scheme \<Rightarrow> ('a usched_scheme \<times> u64) res" where
  "Run s =
     (let limit = of_nat (length (mProcessList (mTeam s)))
      in if mProcessCur (mTeam s) < 1 then Ok (s, 0)
         else
           let s = s\<lparr>process_index := (if process_index s > limit then 0 else process_index s + 1)\<rparr>;
               i = uint (process_index s)
           in if \<not> slot_ok s i then OutOfBounds
              else if CanBeScheduled (slot s i) then
                let s = set_slot s i (run_charge (slot s i));
                    process = slot s i;
                    s = s\<lparr>mTeam := (mTeam s)\<lparr>mCurrentProcess := process\<rparr>\<rparr>;
                    new_pid = ProcessId process;
                    (c, ok) = Switch (kcores s) (StackFrame process) (PTime (slot s new_pid));
                    s = s\<lparr>kcores := c\<rparr>
                in if ok \<and> \<not> slot_ok s new_pid then OutOfBounds
                   else Ok (if ok then set_slot s i (run_cooldown process) else s, process_index s)
              else Ok (set_slot s i (run_wait (slot s i)), process_index s))"

definition StartScheduling :: "'a usched_scheme \<Rightarrow> ('a usched_scheme \<times> u64) res" where
  "StartScheduling s = Run s"

definition SwitchTeam :: "'a usched_scheme \<Rightarrow> team \<Rightarrow> 'a usched_scheme \<times> bool" where
  "SwitchTeam s t = (if length (mProcessList t) < 1 then (s, False) else (s\<lparr>mTeam := t\<rparr>, True))"

definition TheCurrentPID :: "'a usched_scheme \<Rightarrow> int + int" where
  "TheCurrentPID s =
     (if \<not> UserProcess_bool (mCurrentProcess (mTeam s)) then Inl (- kErrorProcessFault)
      else Inr (ProcessId (mCurrentProcess (mTeam s))))"

text \<open>The boolean operators: a search that stops at the first process, and a count.\<close>

fun any_loop :: "user_process list \<Rightarrow> bool" where
  "any_loop [] = False"
| "any_loop (p # ps) = (if CanBeScheduled p then True else any_loop ps)"

fun count_loop :: "user_process list \<Rightarrow> u64 \<Rightarrow> u64" where
  "count_loop [] cnt = cnt"
| "count_loop (p # ps) cnt = count_loop ps (if CanBeScheduled p then cnt + 1 else cnt)"

definition Scheduler_bool :: "'a usched_scheme \<Rightarrow> bool" where
  "Scheduler_bool s = any_loop (mProcessList (mTeam s))"

definition Scheduler_not :: "'a usched_scheme \<Rightarrow> bool" where
  "Scheduler_not s = (count_loop (mProcessList (mTeam s)) 0 = 0)"

section \<open>Allocation for the current process\<close>

text \<open>Both functions work on a copy of the current process, which is dropped when they return.\<close>

definition tls_new_ptr :: "'a usched_scheme \<Rightarrow> u64 \<Rightarrow> ('a usched_scheme \<times> u64) option" where
  "tls_new_ptr s sz =
     (case New s (mCurrentProcess (mTeam s)) sz 0 of
        None \<Rightarrow> None
      | Some (s1, ref_process, Inl e) \<Rightarrow> Some (s1, 0)
      | Some (s1, ref_process, Inr ptr) \<Rightarrow> Some (s1, ptr))"

definition tls_delete_ptr :: "bool \<Rightarrow> 'a usched_scheme \<Rightarrow> u64 \<Rightarrow> ('a usched_scheme \<times> bool) res option" where
  "tls_delete_ptr debug s obj =
     (if obj = 0 then Some (Ok (s, False))
      else obind (Delete debug s (mCurrentProcess (mTeam s)) obj) (\<lambda>(s1, ref_process, ok). Some (Ok (s1, ok))))"

section \<open>Slots\<close>

lemma slot_simps [simp]:
  "mProcessCur (mTeam (set_slot s i p)) = mProcessCur (mTeam s)"
  "mProcessCur (mTeam (set_cur s n)) = n"
  "length (mProcessList (mTeam (set_slot s i p))) = length (mProcessList (mTeam s))"
  "mProcessList (mTeam (set_cur s n)) = mProcessList (mTeam s)"
  "ram (set_slot s i p) = ram s" "ram (set_cur s n) = ram s"
  "kheap (set_slot s i p) = kheap s" "kheap (set_cur s n) = kheap s"
  "kcores (set_slot s i p) = kcores s" "kcores (set_cur s n) = kcores s"
  "kKernelVM (set_slot s i p) = kKernelVM s" "kKernelVM (set_cur s n) = kKernelVM s"
  "process_index (set_slot s i p) = process_index s" "process_index (set_cur s n) = process_index s"
  by (simp_all add: set_slot_def set_cur_def)

lemma slot_ok_simps [simp]:
  "slot_ok (set_slot s i p) j = slot_ok s j" "slot_ok (set_cur s n) j = slot_ok s j" "slot (set_cur s n) j = slot s j"
  by (simp_all add: slot_ok_def slot_def)

lemma slot_set_slot: "slot_ok s i \<Longrightarrow> slot_ok s j \<Longrightarrow> slot (set_slot s i p) j = (if i = j then p else slot s j)"
  by (auto simp: slot_def set_slot_def slot_ok_def nth_list_update nat_eq_iff2)

text \<open>Mapping pages changes neither the heap, the cores nor the team.\<close>

lemma pmmi_alloc_frame_more: "pmmi_alloc_frame s = (s', frame) \<Longrightarrow> phys.more s' = phys.more s"
  by (auto simp: pmmi_alloc_frame_def Let_def split: if_splits)

lemma walk_step_more: "walk_step s sl alloc shift = (s', ok) \<Longrightarrow> phys.more s' = phys.more s"
  by (auto simp: walk_step_def Let_def split: if_splits prod.splits dest: pmmi_alloc_frame_more)

lemma walk_loop_more: "walk_loop s table va alloc shift = (s', r) \<Longrightarrow> phys.more s' = phys.more s"
proof (induction s table va alloc shift rule: walk_loop.induct)
  case (1 s table va alloc shift)
  obtain s1 ok where st: "walk_step s (table_slot table (drop_bit shift va AND kMask9Bits)) alloc shift = (s1, ok)" by fastforce
  note unf = walk_loop.simps [of s table va alloc shift]
  show ?case
    using 1(1) [OF _ refl st [symmetric]] 1(2) walk_step_more [OF st] st
    by (subst (asm) unf) (auto simp: Let_def split: if_splits)
qed

lemma mm_map_page_more: "phys.more (fst (mm_map_page s va pa flags level)) = phys.more s"
proof -
  obtain s1 sl where w: "mm_walk_page s (cr3 s) va True = (s1, sl)" by fastforce
  have "phys.more s1 = phys.more s"
    using w walk_loop_more by (auto simp: mm_walk_page_def split: if_splits)
  then show ?thesis by (simp add: mm_map_page_def mm_map_page_in_def w)
qed

lemma spawn_map_keeps:
  "kheap (spawn_map s ip sp) = kheap s" "kcores (spawn_map s ip sp) = kcores s" "knodes (spawn_map s ip sp) = knodes s"
  "kKernelVM (spawn_map s ip sp) = kKernelVM s" "mTeam (spawn_map s ip sp) = mTeam s"
  "process_index (spawn_map s ip sp) = process_index s" "cr3 (spawn_map s ip sp) = cr3 s"
proof -
  have "phys.more (spawn_map s ip sp) = phys.more s"
    by (simp add: spawn_map_def Let_def mm_map_page_more)
  then show "kheap (spawn_map s ip sp) = kheap s" "kcores (spawn_map s ip sp) = kcores s" "knodes (spawn_map s ip sp) = knodes s"
  "kKernelVM (spawn_map s ip sp) = kKernelVM s" "mTeam (spawn_map s ip sp) = mTeam s"
  "process_index (spawn_map s ip sp) = process_index s" "cr3 (spawn_map s ip sp) = cr3 s"
    by (cases s, cases "spawn_map s ip sp", simp)+
qed

text \<open>A name that is not empty has a first byte.\<close>

lemma string_len_Some: "string_len_loop m p cnt = Some len \<Longrightarrow> m (p + len) = 0"
  by (rule string_len_loop.raw_induct [where P = "\<lambda>m p cnt len. m (p + len) = 0"]) (auto split: if_splits)

lemma string_len_first:
  assumes "rt_string_len m p = Some len" and "m p \<noteq> 0"
  shows "len \<noteq> 0"
proof
  assume "len = 0"
  then have "m (p + 0) = 0" using string_len_Some [of m p 0 len] assms by (simp add: rt_string_len_def)
  then show False using assms by simp
qed

lemma FileTree_same: "p\<lparr>FileTree := FileTree p\<rparr> = p"
  by (cases p) simp

lemma spawn_finish_Ok:
  assumes "spawn_finish s pid p = Some (Ok (s', r))" and "0 \<le> r" and "slot_ok s pid"
  shows "r = pid \<and> (\<exists>ft. slot s' pid = (run_ready pid p)\<lparr>FileTree := ft\<rparr>)
    \<and> (\<forall>j. slot_ok s j \<longrightarrow> j \<noteq> pid \<longrightarrow> slot s' j = slot s j)
    \<and> mProcessCur (mTeam s') = mProcessCur (mTeam s) \<and> kcores s' = kcores s
    \<and> length (mProcessList (mTeam s')) = length (mProcessList (mTeam s))"
proof -
  obtain h nd ft where s': "s' = set_slot (s\<lparr>kheap := h, knodes := nd\<rparr>) pid ((run_ready pid p)\<lparr>FileTree := ft\<rparr>)" and "r = pid"
  proof (cases "FileTree (run_ready pid p) = 0")
    case True
    then obtain h tree where new: "operator_new (kheap s) tree_node_sz = Some (h, tree)"
      using assms(1) by (auto simp: spawn_finish_def Let_def split: option.splits)
    have "tree \<noteq> 0" using True assms(1,2) by (auto simp: spawn_finish_def Let_def new kerror_defs)
    then have "s' = set_slot (s\<lparr>kheap := h, knodes := (knodes s)(tree := root_node 0 0 0)\<rparr>) pid
        ((run_ready pid p)\<lparr>FileTree := tree\<rparr>)" "r = pid"
      using True assms(1) by (auto simp: spawn_finish_def Let_def new)
    then show ?thesis by (rule that)
  next
    case False
    then have "s' = set_slot s pid (run_ready pid p)" "r = pid" using assms by (auto simp: spawn_finish_def)
    then show ?thesis
      using that [where h = "kheap s" and nd = "knodes s" and ft = "FileTree (run_ready pid p)"] by (simp add: FileTree_same)
  qed
  have ok: "slot_ok (s\<lparr>kheap := h, knodes := nd\<rparr>) j = slot_ok s j" "slot (s\<lparr>kheap := h, knodes := nd\<rparr>) j = slot s j" for j
    by (simp_all add: slot_ok_def slot_def)
  show ?thesis using \<open>r = pid\<close> assms(3) by (auto simp: s' slot_set_slot ok)
qed

definition spawned :: "'a usched_scheme \<Rightarrow> u64 \<Rightarrow> process_image \<Rightarrow> u64 \<Rightarrow> u64 \<Rightarrow> user_process" where
  "spawned s name im len frame =
     (let pid = mProcessCur (mTeam s); p = slot s pid
      in run_ready pid (p\<lparr>Image := im, Name := read_bytes (ram s) name (unat len) @ drop (unat len) (Name p),
           VMRegister := kKernelVM s, StackFrame := frame\<rparr>))"

lemma Spawn_Ok:
  assumes "Spawn stack_at s name code blob sz = Some (Ok (s', r))" and "0 \<le> r"
  shows "\<exists>len frame ft. rt_string_len (ram s) name = Some len \<and> len \<le> of_nat kCPSNameLen \<and> ram s name \<noteq> 0 \<and> frame \<noteq> 0
    \<and> r = mProcessCur (mTeam s) \<and> slot_ok s r \<and> slot s' r = (spawned s name \<lparr>fCode = code, fBlob = blob, fBlobSz = sz\<rparr> len frame)\<lparr>FileTree := ft\<rparr>
    \<and> (\<forall>j. slot_ok s j \<longrightarrow> j \<noteq> r \<longrightarrow> slot s' j = slot s j) \<and> mProcessCur (mTeam s') = mProcessCur (mTeam s) + 1
    \<and> kcores s' = (kcores s)\<lparr>frames_at := (frames_at (kcores s))(frame := zero_frame\<lparr>IP := code, SP := stack_at r + StackSize (slot s r)\<rparr>)\<rparr>
    \<and> length (mProcessList (mTeam s')) = length (mProcessList (mTeam s))"
proof -
  define pid where "pid = mProcessCur (mTeam s)"
  obtain len h frame where c: "name \<noteq> 0" "code \<noteq> 0" "ram s name \<noteq> 0" "rt_string_len (ram s) name = Some len"
    "len \<le> of_nat kCPSNameLen" "operator_new (kheap s) stack_frame_sz = Some (h, frame)" "frame \<noteq> 0" "slot_ok s pid"
    using assms by (auto simp: Spawn_def Let_def kerror_defs not_less pid_def split: if_splits option.splits)
  define s1 where "s1 = (set_cur s (pid + 1))\<lparr>kheap := h, kcores := (kcores s)\<lparr>frames_at := (frames_at (kcores s))(frame :=
      zero_frame\<lparr>IP := code, SP := stack_at pid + StackSize (slot s pid)\<rparr>)\<rparr>\<rparr>"
  define p1 where "p1 = (slot s pid)\<lparr>Image := \<lparr>fCode = code, fBlob = blob, fBlobSz = sz\<rparr>,
      Name := read_bytes (ram s) name (unat len) @ drop (unat len) (Name (slot s pid)), VMRegister := kKernelVM s, StackFrame := frame\<rparr>"
  define s2 where "s2 = spawn_map s1 code (stack_at pid + StackSize (slot s pid))"
  have fin: "spawn_finish s2 pid p1 = Some (Ok (s', r))"
    using assms c by (auto simp: Spawn_def Let_def pid_def [symmetric] s1_def p1_def s2_def kerror_defs not_less [symmetric] split: if_splits)
  have t2: "mTeam s2 = mTeam (set_cur s (pid + 1))" "kcores s2 = kcores s1"
    by (simp_all add: s2_def spawn_map_keeps s1_def)
  have sl: "slot_ok s2 j = slot_ok s j" "slot s2 j = slot s j" for j
    using t2 slot_ok_simps(2,3) [of s "pid + 1" j] by (simp_all add: slot_ok_def slot_def)
  show ?thesis
    using spawn_finish_Ok [OF fin assms(2)] c sl t2
    by (auto simp: p1_def s1_def pid_def spawned_def Let_def)
qed

text \<open>A translated address keeps the offset within the page.\<close>

lemma off_mask: "kPageOffsetMask = mask 12" by (simp add: kPageOffsetMask_def mask_numeral)

lemma addr_offset:
  assumes "12 \<le> k"
  shows "((x AND kAddrMask AND NOT (push_bit k 1 - 1)) OR (va AND (push_bit k 1 - 1))) AND kPageOffsetMask = (va :: u64) AND kPageOffsetMask"
proof -
  have a: "kAddrMask AND mask 12 = 0" by (simp add: kAddrMask_def mask_numeral)
  have b: "push_bit k 1 - 1 = (mask k :: u64)" by (simp add: mask_eq_exp_minus_1 push_bit_eq_mult)
  show ?thesis unfolding off_mask b using assms a by (auto simp: bit_eq_iff bit_simps)
qed
lemma mm_get_page_addr_offset:
  "mm_get_page_addr s va = 0 \<or> mm_get_page_addr s va AND kPageOffsetMask = va AND kPageOffsetMask"
proof -
  have a: "kAddrMask AND kPageOffsetMask = 0" by (simp add: kAddrMask_def kPageOffsetMask_def)
  have "((x AND kAddrMask) OR (va AND kPageOffsetMask)) AND kPageOffsetMask = va AND kPageOffsetMask" for x
    using a by (simp add: bit.conj_disj_distrib2 and.assoc)
  then show ?thesis
    using addr_offset [of 30] addr_offset [of 21] by (simp add: mm_get_page_addr_def Let_def)
qed

lemma mm_map_page_refuses:
  assumes "va AND kPageOffsetMask \<noteq> 0 \<or> mm_get_page_addr s va = 0"
  shows "fst (mm_map_page s va (mm_get_page_addr s va) flags level) = s"
proof -
  have "kPageSize - 1 = kPageOffsetMask" by (simp add: kPageSize_def kPageOffsetMask_def)
  then show ?thesis using mm_get_page_addr_offset [of s va] assms by (auto simp: mm_map_page_def mm_map_page_in_def)
qed

section \<open>Properties\<close>


text \<open>
  A full team is overrun.  When 32 processes have been spawned, \<open>Spawn\<close> with a non-empty
  name accepts one more (the guard is \<open>pid > 32\<close>) and writes past the process array; only from
  the counter 33 on it is refused.
\<close>

theorem Spawn_full_team:
  assumes "name \<noteq> 0" and "code \<noteq> 0" and "ram s name \<noteq> 0" and "length (mProcessList (mTeam s)) = 32"
    and "32 \<le> mProcessCur (mTeam s)"
  shows "Spawn stack_at s name code blob sz =
    (if mProcessCur (mTeam s) = 32 then Some OutOfBounds else Some (Ok (s, - kErrorProcessFault)))"
  using assms by (simp add: Spawn_def Let_def slot_ok_def kCPSProcessLimitPerTeam_def)

lemma Exit_Ok:
  assumes "Exit debug fini s pid code = Some (Ok s')"
  shows "mProcessCur (mTeam s') = mProcessCur (mTeam s) - 1 \<and> slot_ok s pid \<and> Status (slot s' pid) = kFinished
    \<and> (\<forall>j. slot_ok s j \<longrightarrow> j \<noteq> pid \<longrightarrow> slot s' j = slot s j)
    \<and> length (mProcessList (mTeam s')) = length (mProcessList (mTeam s))"
proof -
  obtain s1 p where e: "Exit_process debug fini s (slot s pid) code = Some (Ok (s1, p))" and ok: "slot_ok s pid"
    and s': "s' = set_cur (set_slot s1 pid p) (mProcessCur (mTeam s1) - 1)"
    using assms by (auto simp: Exit_def obind_Ok Let_def split: if_splits)
  have m: "mTeam s1 = mTeam s" and st: "Status p = kFinished"
    using e by (auto simp: Exit_process_def obind_Ok Let_def split: if_splits)
  have o1: "slot_ok s1 j = slot_ok s j" "slot s1 j = slot s j" for j by (simp_all add: slot_ok_def slot_def m)
  show ?thesis using ok st m by (auto simp: s' slot_set_slot o1)
qed

text \<open>
  A freed slot is not reused, a running one is.  After \<open>Remove\<close> of an earlier process the
  counter is decremented, so the next \<open>Spawn\<close> takes the slot of the last process although it is
  still running, and replaces its code.
\<close>

theorem Spawn_after_Remove_overwrites:
  assumes "Remove debug fini s i = Some (Ok s1)" and "Status (slot s i) \<noteq> kInvalid" and "slot_ok s i"
    and "i < mProcessCur (mTeam s) - 1" and "slot_ok s (mProcessCur (mTeam s) - 1)"
    and "Status (slot s (mProcessCur (mTeam s) - 1)) = kRunning"
    and "Spawn stack_at s1 name code blob sz = Some (Ok (s2, r))" and "0 \<le> r"
    and "length (mProcessList (mTeam s)) = 32"
  shows "r = mProcessCur (mTeam s) - 1 \<and> slot s1 r = slot s r \<and> Status (slot s1 r) = kRunning
    \<and> fCode (Image (slot s2 r)) = code \<and> Status (slot s1 i) = kFinished \<and> slot s2 i = slot s1 i"
proof -
  have e: "Exit debug fini s i kErrorSuccess = Some (Ok s1)"
    using assms(1-3,9) by (auto simp: Remove_def slot_ok_def kCPSProcessLimitPerTeam_def split: if_splits)
  note x = Exit_Ok [OF e]
  have o1: "slot_ok s1 j = slot_ok s j" for j using x by (simp add: slot_ok_def)
  show ?thesis using Spawn_Ok [OF assms(7,8)] x assms(3-6)
    by (auto simp: o1 spawned_def run_ready_def Let_def)
qed

text \<open>
  Code and stack that are not page aligned are not mapped.  \<open>Spawn\<close> passes the translated
  address of the code and of the stack pointer, page offset included, to \<open>mm_map_page\<close>, which
  refuses unaligned addresses; the result is ignored.  So if neither address is page aligned the
  two calls change nothing at all.
\<close>

theorem spawn_map_unaligned:
  assumes "ip AND kPageOffsetMask \<noteq> 0" and "sp AND kPageOffsetMask \<noteq> 0"
  shows "spawn_map s ip sp = s"
  using assms by (simp add: spawn_map_def Let_def mm_map_page_refuses)


text \<open>
  The index leaves the team.  From index 31 or 32 \<open>Run\<close> goes on to slot 32 or 33, past the
  32 processes, because the index is reset only when it is above the capacity; and as long as the
  index is at most 32 the first slot is never the one visited.
\<close>

theorem Run_leaves_team:
  assumes "1 \<le> mProcessCur (mTeam s)" and "length (mProcessList (mTeam s)) = 32"
  shows "(process_index s \<in> {31, 32} \<longrightarrow> Run s = OutOfBounds)
    \<and> (\<forall>s'. process_index s \<le> 32 \<longrightarrow> Run s \<noteq> Ok (s', 0))"
proof
  have "Run s = OutOfBounds" if "process_index s = 31 \<or> process_index s = 32"
    using that assms by (auto simp: Run_def Let_def slot_ok_def)
  then show "process_index s \<in> {31, 32} \<longrightarrow> Run s = OutOfBounds" by blast
  have "process_index s + 1 \<noteq> 0" if "process_index s \<le> 32"
  proof
    assume "process_index s + 1 = 0"
    then have "process_index s = - 1" by (simp add: eq_neg_iff_add_eq_0)
    moreover have "(- 1 :: u64) = 0xFFFFFFFFFFFFFFFF" by simp
    ultimately have "process_index s = 0xFFFFFFFFFFFFFFFF" by (simp only:)
    then show False using that by simp
  qed
  then show "\<forall>s'. process_index s \<le> 32 \<longrightarrow> Run s \<noteq> Ok (s', 0)"
    using assms by (auto simp: Run_def Let_def not_less [symmetric] split: if_splits prod.splits)
qed

lemma run_wait_fields:
  "PTime (run_wait p) = PTime p - 1" "Affinity (run_wait p) = Affinity p"
  by (simp_all add: run_wait_def Let_def)

lemma run_wait_times: "PTime ((run_wait ^^ k) p) = PTime p - of_nat k \<and> Affinity ((run_wait ^^ k) p) = Affinity p"
  by (induction k) (simp_all add: run_wait_fields)

text \<open>
  A process that sleeps starves.  A visit of \<open>Run\<close> to a process that cannot be scheduled
  decrements its time; at 0 it wraps.  So a frozen process with time 0 that is visited once and
  then woken is not scheduled by any of the next \<open>2^64 - 2\<close> visits.
\<close>

theorem frozen_process_starves:
  assumes "1 \<le> mProcessCur (mTeam s)" and "length (mProcessList (mTeam s)) = 32" and "process_index s < 31"
    and "Status (slot s (uint (process_index s) + 1)) = kFrozen" and "PTime (slot s (uint (process_index s) + 1)) = 0"
    and "Affinity (slot s (uint (process_index s) + 1)) \<noteq> kUltraHigh" and "k \<le> 2 ^ 64 - 2"
  shows "\<exists>s'. Run s = Ok (s', process_index s + 1)
    \<and> \<not> CanBeScheduled ((run_wait ^^ k) (Wake (slot s' (uint (process_index s) + 1)) True))"
proof -
  define i where "i = uint (process_index s) + 1"
  have u: "uint (process_index s + 1) = i" "0 \<le> i" "i < 32"
    using assms(3) uint_ge_0 [of "process_index s"] by (simp_all add: i_def uint_word_ariths word_less_def)
  have ge: "\<not> process_index s > of_nat 32" using assms(3) by (simp add: word_less_def)
  define s1 where "s1 = s\<lparr>process_index := process_index s + 1\<rparr>"
  have s1: "slot_ok s1 i" "slot s1 i = slot s i" using u assms(2) by (simp_all add: s1_def slot_ok_def slot_def)
  have "\<not> CanBeScheduled (slot s i)" using assms(4,6) by (simp add: CanBeScheduled_def i_def)
  then have run: "Run s = Ok (set_slot s1 i (run_wait (slot s i)), process_index s + 1)"
    using assms(1) ge u s1 by (simp add: Run_def Let_def assms(2) s1_def [symmetric]) (simp add: s1_def)
  define p where "p = Wake (run_wait (slot s i)) True"
  have p: "PTime p = - 1" "Affinity p \<noteq> kUltraHigh" using assms(5,6) by (simp_all add: p_def Wake_def run_wait_fields i_def)
  have "of_nat k \<noteq> (- 1 :: u64)"
  proof
    assume "of_nat k = (- 1 :: u64)"
    moreover have "(- 1 :: u64) = 0xFFFFFFFFFFFFFFFF" by simp
    ultimately have "unat (of_nat k :: u64) = unat (0xFFFFFFFFFFFFFFFF :: u64)" by (simp only:)
    moreover have "unat (of_nat k :: u64) = k" by (rule unat_of_nat_less) (use assms(7) in simp)
    ultimately show False using assms(7) by simp
  qed
  then have "\<not> PTime ((run_wait ^^ k) p) < 1"
    using p run_wait_times [of k p] by (simp add: eq_iff_diff_eq_0 [symmetric])
  then have "\<not> CanBeScheduled ((run_wait ^^ k) p)" using p run_wait_times [of k p] by (simp add: CanBeScheduled_def)
  then show ?thesis using run s1 slot_set_slot [OF s1(1,1)] by (auto simp: p_def i_def)
qed

lemma any_loop_eq: "any_loop ps \<longleftrightarrow> (\<exists>p \<in> set ps. CanBeScheduled p)"
  by (induction ps) auto

lemma count_loop_eq: "count_loop ps cnt = cnt + of_nat (length (filter CanBeScheduled ps))"
  by (induction ps arbitrary: cnt) simp_all

text \<open>
  The two boolean operators agree.  \<open>operator!\<close> counts the schedulable processes of the
  team and is true exactly when \<open>operator bool\<close>, which stops at the first one, is false.
\<close>

theorem Scheduler_not_is_negation:
  assumes "length (mProcessList (mTeam s)) = 32"
  shows "Scheduler_not s = (\<not> Scheduler_bool s)"
proof -
  define n where "n = length (filter CanBeScheduled (mProcessList (mTeam s)))"
  have n: "n \<le> 32" using length_filter_le [of CanBeScheduled "mProcessList (mTeam s)"] assms by (simp add: n_def)
  have "unat (of_nat n :: u64) = n" by (rule unat_of_nat_less) (use n in simp)
  then have "(of_nat n :: u64) = 0 \<longleftrightarrow> n = 0" by auto
  then show ?thesis
    by (simp add: Scheduler_not_def Scheduler_bool_def any_loop_eq count_loop_eq n_def filter_empty_conv)
qed

section \<open>The properties at concrete inputs\<close>

definition small_sched :: usched where
  "small_sched = \<lparr>ram = (\<lambda>_. 0)(0x5000 := 65), kPmmBase = 0, kPmmCursor = 0, kPmmEnd = 0, kPmmFreeHead = 0,
     kPmmFree = 0, kPmmUsed = 0, cr3 = 0, kheap = zero_bitmap, kcores = two_cores,
     knodes = (\<lambda>_. root_node 0 0 0), kKernelVM = 0x1000,
     mTeam = UserProcessTeam blank_process, process_index = 0\<rparr>"

text \<open>The same with the first two slots running.\<close>

definition pair_sched :: usched where
  "pair_sched = set_cur (set_slot (set_slot small_sched 0 (run_ready 0 blank_process)) 1 (run_ready 1 blank_process)) 2"

lemma small_name: "rt_string_len ((\<lambda>_. 0)(0x5000 := 65)) 0x5000 = Some 1"
  unfolding rt_string_len_def by (subst string_len_loop.simps, simp, subst string_len_loop.simps, simp)

lemma Spawn_small:
  assumes "ram s = (\<lambda>_. 0)(0x5000 := 65)" and "fresh_heap (kheap s) 0x100000"
    and "slot_ok s (mProcessCur (mTeam s))" and "mProcessCur (mTeam s) \<le> 32"
    and "code AND kPageOffsetMask \<noteq> 0" and "(x + StackSize (slot s (mProcessCur (mTeam s)))) AND kPageOffsetMask \<noteq> 0"
  shows "\<exists>s'. Spawn (\<lambda>_. x) s 0x5000 code 0 0 = Some (Ok (s', mProcessCur (mTeam s)))"
proof -
  obtain h1 where h1: "mm_alloc_ptr (kheap s) stack_frame_sz True False 0 = Some (h1, 0x10005C)" "fresh_heap h1 0x1000A4"
    using fresh_alloc [OF assms(2), of stack_frame_sz True False] by (auto simp: stack_frame_sz_def)
  obtain h2 where h2: "mm_alloc_ptr h1 tree_node_sz True False 0 = Some (h2, 0x100100)"
    using fresh_alloc [OF h1(2), of tree_node_sz True False] by (auto simp: tree_node_sz_def)
  have n: "operator_new (kheap s) stack_frame_sz = Some (h1, 0x10005C)" "operator_new h1 tree_node_sz = Some (h2, 0x100100)"
    using h1 h2 by (simp_all add: operator_new_def stack_frame_sz_def tree_node_sz_def)
  have m: "spawn_map s' code (x + StackSize (slot s (mProcessCur (mTeam s)))) = s'" for s' :: "'a usched_scheme"
    using assms(5,6) by (simp add: spawn_map_def Let_def mm_map_page_refuses)
  have "code \<noteq> 0" using assms(5) by auto
  then show ?thesis using assms(3,4) small_name n
    by (simp add: Spawn_def Let_def assms(1) kCPSProcessLimitPerTeam_def kCPSNameLen_def m spawn_finish_def)
qed

lemma small_facts:
  "length (mProcessList (mTeam small_sched)) = 32" "ram small_sched = (\<lambda>_. 0)(0x5000 := 65)"
  "mProcessCur (mTeam small_sched) = 0" "kheap small_sched = zero_bitmap"
  "0 \<le> i \<Longrightarrow> i < 32 \<Longrightarrow> slot small_sched i = blank_process"
  by (simp_all add: small_sched_def UserProcessTeam_def kCPSProcessLimitPerTeam_def slot_def)
    (simp add: blank_process_def)

lemma small_slot_ok: "slot_ok small_sched i = (0 \<le> i \<and> i < 32)"
  by (simp add: slot_ok_def small_facts)

lemma small_spawn: "\<exists>s'. Spawn (\<lambda>_. 0x7001) small_sched 0x5000 0x1234 0 0 = Some (Ok (s', 0))"
  using Spawn_small [of small_sched "0x1234" "0x7001"] fresh_zero_bitmap
  by (simp add: small_facts small_slot_ok kPageOffsetMask_def blank_process_def kCPSMaxStackSz_def)


theorem Spawn_full_team_witness:
  "Spawn (\<lambda>_. 0x7001) (set_cur small_sched 32) 0x5000 0x1234 0 0 = Some OutOfBounds"
  using Spawn_full_team [of "0x5000" "0x1234" "set_cur small_sched 32"] by (simp add: small_facts)

theorem spawn_map_unaligned_witness: "spawn_map small_sched 0x1234 0x9001 = small_sched"
  by (rule spawn_map_unaligned) (simp_all add: kPageOffsetMask_def)

lemma pair_facts:
  "slot pair_sched 0 = run_ready 0 blank_process" "slot pair_sched 1 = run_ready 1 blank_process"
  "mProcessCur (mTeam pair_sched) = 2" "length (mProcessList (mTeam pair_sched)) = 32"
  "slot_ok pair_sched i = (0 \<le> i \<and> i < 32)" "ram pair_sched = (\<lambda>_. 0)(0x5000 := 65)" "kheap pair_sched = zero_bitmap"
  by (simp_all add: pair_sched_def slot_set_slot small_slot_ok small_facts)

lemma free_null_tree: "sched_free_ptr_tree debug h nd 0 = Some (Ok (h, nd))"
  by (subst sched_free_ptr_tree.simps) simp

lemma pair_remove: "\<exists>s1. Remove False True pair_sched 0 = Some (Ok s1) \<and> ram s1 = ram pair_sched \<and> kheap s1 = kheap pair_sched"
  by (simp add: Remove_def Exit_def pair_facts kCPSProcessLimitPerTeam_def Exit_process_def Let_def obind_def free_null_tree
      free_if_valid_def) (simp add: run_ready_def blank_process_def free_null_tree pair_facts)

theorem Spawn_after_Remove_overwrites_witness:
  "\<exists>s1 s2. Remove False True pair_sched 0 = Some (Ok s1) \<and> Spawn (\<lambda>_. 0x7001) s1 0x5000 0x1234 0 0 = Some (Ok (s2, 1))
     \<and> Status (slot s1 1) = kRunning \<and> fCode (Image (slot s2 1)) = 0x1234"
proof -
  obtain s1 where s1: "Remove False True pair_sched 0 = Some (Ok s1)" "ram s1 = ram pair_sched" "kheap s1 = kheap pair_sched"
    using pair_remove by blast
  have "Exit False True pair_sched 0 kErrorSuccess = Some (Ok s1)"
    using s1(1) by (simp add: Remove_def pair_facts kCPSProcessLimitPerTeam_def run_ready_def)
  note x = Exit_Ok [OF this]
  have c: "mProcessCur (mTeam s1) = 1" "slot_ok s1 1" "slot s1 1 = run_ready 1 blank_process"
    using x by (simp_all add: pair_facts slot_ok_def)
  obtain s2 where s2: "Spawn (\<lambda>_. 0x7001) s1 0x5000 0x1234 0 0 = Some (Ok (s2, 1))"
    using Spawn_small [of s1 "0x1234" "0x7001"] fresh_zero_bitmap s1 c
    by (auto simp: pair_facts kPageOffsetMask_def run_ready_def kCPSMaxStackSz_def)
  show ?thesis using Spawn_after_Remove_overwrites [OF s1(1) _ _ _ _ _ s2] s1 s2 c
    by (simp add: pair_facts run_ready_def)
qed


theorem Run_leaves_team_witness: "Run (pair_sched\<lparr>process_index := 31\<rparr>) = OutOfBounds"
  using Run_leaves_team [of "pair_sched\<lparr>process_index := 31\<rparr>"] by (simp add: pair_facts)

theorem frozen_process_starves_witness:
  "\<exists>s'. Run (set_slot pair_sched 1 (Wake (run_ready 1 blank_process) False)) = Ok (s', 1)
     \<and> \<not> CanBeScheduled ((run_wait ^^ 1000) (Wake (slot s' 1) True))"
proof -
  have p: "process_index pair_sched = 0" by (simp add: pair_sched_def) (simp add: small_sched_def)
  show ?thesis using frozen_process_starves [of "set_slot pair_sched 1 (Wake (run_ready 1 blank_process) False)" 1000]
    by (simp add: pair_facts p slot_set_slot) (simp add: Wake_def run_ready_def kStandard_def kUltraHigh_def)
qed

theorem Scheduler_not_is_negation_witness: "Scheduler_not pair_sched = (\<not> Scheduler_bool pair_sched)"
  using Scheduler_not_is_negation [of pair_sched] by (simp add: pair_facts)

end
