(* ===== verification/UserAccounts.thy ===== *)
theory UserAccounts
  imports KPC AsciiUtils
begin

text \<open>
  User accounts, \<^verbatim>\<open>src/User.cpp\<close> and \<^verbatim>\<open>KernelKit/User.h\<close>: names, rings, passwords and the
  built-in users.  Passwords and the names given to the constructor are C strings, lists without
  the terminator; \<open>None\<close> is a null pointer.  A user's name is the array of its 256 bytes.

  The shown facts: logging in after saving a password succeeds with that password and with no
  other of the same length that differs in one character, and the stored name is the given one cut
  at 255 bytes.
\<close>

datatype UserRingKind = kRingInvalid | kRingStdUser | kRingSuperUser | kRingGuestUser | kRingRecoveryUser | kRingCount | RingOther int

definition kMaxUserNameLen :: nat where "kMaxUserNameLen = 256"

text \<open>The ring of a number, the cast in the constructor from a selector.\<close>

definition ring_of :: "int \<Rightarrow> UserRingKind" where
  "ring_of sel = (if sel = 0 then kRingInvalid else if sel = 444 then kRingStdUser else if sel = 666 then kRingSuperUser
     else if sel = 777 then kRingGuestUser else if sel = 888 then kRingRecoveryUser else if sel = 3 then kRingCount else RingOther sel)"

record user =
  mUserRing :: UserRingKind
  mUserName :: "u8 list"
  mUserFNV :: u64
  mUserIsAdult :: bool

section \<open>Passwords and names\<close>

definition kUserFnvOffsetBasis :: u64 where "kUserFnvOffsetBasis = 0xcbf29ce484222325"
definition kUserFnvPrime :: u64 where "kUserFnvPrime = 0x100000001b3"

text \<open>A character is signed when it enters the hash.\<close>

fun user_fnv_loop :: "u8 list \<Rightarrow> u64 \<Rightarrow> u64" where
  "user_fnv_loop [] hash = hash"
| "user_fnv_loop (c # password) hash = user_fnv_loop password ((hash XOR scast c) * kUserFnvPrime)"

definition user_fnv_generator :: "u8 list option \<Rightarrow> u64" where
  "user_fnv_generator password =
     (case password of
        None \<Rightarrow> 0
      | Some p \<Rightarrow> if p = [] then 0 else user_fnv_loop p kUserFnvOffsetBasis)"

definition user_set_name :: "u8 list \<Rightarrow> u8 list \<Rightarrow> u8 list" where
  "user_set_name dst src =
     (let len = (if length src \<ge> kMaxUserNameLen then kMaxUserNameLen - 1 else length src)
      in (take len src @ drop len dst)[len := 0])"

definition User_ring :: "UserRingKind \<Rightarrow> u8 list \<Rightarrow> user" where
  "User_ring ring_kind user_name =
     \<lparr>mUserRing = ring_kind, mUserName = user_set_name (replicate kMaxUserNameLen 0) user_name, mUserFNV = 0, mUserIsAdult = True\<rparr>"

definition User_sel :: "bool \<Rightarrow> int \<Rightarrow> u8 list \<Rightarrow> user outcome" where
  "User_sel debug sel user_name = must_pass debug (sel \<ge> 0) (User_ring (ring_of sel) user_name)"

definition IsAdult :: "user \<Rightarrow> bool" where "IsAdult u = mUserIsAdult u"
definition Adult :: "user \<Rightarrow> bool \<Rightarrow> user" where "Adult u adult = u\<lparr>mUserIsAdult := adult\<rparr>"

definition Save :: "user \<Rightarrow> u8 list option \<Rightarrow> user \<times> bool" where
  "Save u password =
     (case password of
        None \<Rightarrow> (u, False)
      | Some p \<Rightarrow> if p = [] then (u, False) else (u\<lparr>mUserFNV := user_fnv_generator password\<rparr>, True))"

definition Login :: "user \<Rightarrow> u8 list option \<Rightarrow> bool" where
  "Login u password =
     (case password of
        None \<Rightarrow> False
      | Some p \<Rightarrow> if p = [] then False else mUserFNV u = user_fnv_generator password)"

definition user_eq :: "user \<Rightarrow> user \<Rightarrow> bool" where "user_eq this lhs = (mUserRing lhs = mUserRing this)"
definition user_neq :: "user \<Rightarrow> user \<Rightarrow> bool" where "user_neq this lhs = (mUserRing lhs \<noteq> mUserRing this)"

definition IsStdUser :: "user \<Rightarrow> bool" where "IsStdUser u = (mUserRing u = kRingStdUser)"
definition IsSuperUser :: "user \<Rightarrow> bool" where "IsSuperUser u = (mUserRing u = kRingSuperUser)"
definition IsGuestUser :: "user \<Rightarrow> bool" where "IsGuestUser u = (mUserRing u = kRingGuestUser)"

section \<open>Built-in users\<close>

text \<open>The users by their addresses and the pointers to the built-in ones, 0 for null.\<close>

record accounts =
  users_at :: "u64 \<Rightarrow> user"
  kCurrentUser :: u64
  kRootUser :: u64
  kGuest :: u64
  kHostUser :: u64

definition kRootUserName :: "u8 list" where "kRootUserName = [78, 69, 46, 65, 80, 80, 47, 77, 71, 77, 84, 47, 114, 111, 111, 116]"
definition kGuestUserName :: "u8 list" where "kGuestUserName = [78, 69, 46, 65, 80, 80, 47, 71, 85, 69, 83, 84, 47, 103, 117, 101, 115, 116]"
definition kRecoveryUserName :: "u8 list" where "kRecoveryUserName = [78, 69, 46, 65, 80, 80, 47, 71, 85, 69, 83, 84, 47, 114, 101, 99, 111, 118]"

text \<open>\<open>new User\<close> at the address that the heap gives, 0 when it has none.\<close>

definition new_user :: "u64 \<Rightarrow> UserRingKind \<Rightarrow> u8 list \<Rightarrow> accounts \<Rightarrow> accounts" where
  "new_user a ring nm s = (if a = 0 then s else s\<lparr>users_at := (users_at s)(a := User_ring ring nm)\<rparr>)"

text \<open>The three addresses are what the heap returns for the root user, the guest and the recovery user.\<close>

definition user_init_std :: "u64 \<Rightarrow> u64 \<Rightarrow> u64 \<Rightarrow> accounts \<Rightarrow> bool \<Rightarrow> accounts outcome" where
  "user_init_std a_root a_guest a_recov s recovery =
     (let s = (if kRootUser s = 0 then (new_user a_root kRingSuperUser kRootUserName s)\<lparr>kRootUser := a_root\<rparr> else s);
          s = (if kGuest s = 0 then (new_user a_guest kRingGuestUser kGuestUserName s)\<lparr>kGuest := a_guest\<rparr> else s)
      in if kRootUser s = 0 \<or> kGuest s = 0 then Stop
         else let s = (if recovery then (new_user a_recov kRingRecoveryUser kRecoveryUserName s)\<lparr>kCurrentUser := a_recov\<rparr>
                       else s\<lparr>kCurrentUser := kGuest s\<rparr>)
              in Ret (s\<lparr>kHostUser := 0\<rparr>))"

section \<open>Logging in\<close>

lemma prime_inverse: "kUserFnvPrime * 0xce965057aff6957b = 1"
  by (simp add: kUserFnvPrime_def)

lemma prime_cancel: "(x :: u64) * kUserFnvPrime = y * kUserFnvPrime \<longleftrightarrow> x = y"
proof
  assume "x * kUserFnvPrime = y * kUserFnvPrime"
  then have "x * kUserFnvPrime * 0xce965057aff6957b = y * kUserFnvPrime * 0xce965057aff6957b" by (rule arg_cong)
  then have "x * (kUserFnvPrime * 0xce965057aff6957b) = y * (kUserFnvPrime * 0xce965057aff6957b)" by (simp only: mult.assoc)
  then show "x = y" by (simp only: prime_inverse mult_1_right)
qed simp

lemma xor_cancel_left: "(h :: u64) XOR a = h XOR b \<longleftrightarrow> a = b"
proof
  have again: "h XOR (h XOR x) = x" for x by (simp flip: xor.assoc)
  assume "h XOR a = h XOR b"
  then have "h XOR (h XOR a) = h XOR (h XOR b)" by simp
  then show "a = b" by (simp only: again)
qed simp

lemma user_fnv_loop_inj: "user_fnv_loop p h = user_fnv_loop p k \<longleftrightarrow> h = k"
proof (induction p arbitrary: h k)
  case (Cons c p)
  have "h XOR scast c = k XOR scast c \<longleftrightarrow> h = k" using xor_cancel_left [of "scast c" h k] by (simp add: xor.commute)
  then show ?case using Cons by (simp add: prime_cancel)
qed simp

lemma user_fnv_loop_append: "user_fnv_loop (p @ q) h = user_fnv_loop q (user_fnv_loop p h)"
  by (induction p arbitrary: h) simp_all

lemma scast_u8_inj: "(scast (c :: u8) :: u64) = scast d \<longleftrightarrow> c = d"
proof
  assume eq: "(scast c :: u64) = scast d"
  show "c = d"
  proof (rule bit_word_eqI)
    fix n assume "n < LENGTH(8)"
    then have "min 7 n = n" "n < 64" by simp_all
    then show "bit c n = bit d n" using arg_cong [OF eq, of "\<lambda>w. bit w n"] by (simp add: bit_signed_iff)
  qed
qed simp

text \<open>
  C39. Passwords.  Saving a non-empty password succeeds; the user can then log in with it, and
  another password logs in exactly when it has the same hash.  No password of the same length that
  differs in a single character does: the hash takes different values.
\<close>

theorem user_password:
  assumes "p \<noteq> []"
  shows "\<exists>u'. Save u (Some p) = (u', True) \<and> mUserRing u' = mUserRing u \<and> mUserName u' = mUserName u \<and> Login u' (Some p)
    \<and> (\<forall>q. Login u' (Some q) \<longleftrightarrow> q \<noteq> [] \<and> user_fnv_generator (Some q) = user_fnv_generator (Some p))
    \<and> (\<forall>i c. i < length p \<and> c \<noteq> p ! i \<longrightarrow> \<not> Login u' (Some (p[i := c])))"
proof -
  have typo: "user_fnv_generator (Some (p[i := c])) \<noteq> user_fnv_generator (Some p)" if i: "i < length p" "c \<noteq> p ! i" for i c
  proof -
    have p: "p = take i p @ p ! i # drop (Suc i) p" using i(1) by (simp add: id_take_nth_drop)
    have "p[i := c] = take i p @ c # drop (Suc i) p" using i(1) by (simp add: upd_conv_take_nth_drop)
    then have "user_fnv_loop (p[i := c]) h = user_fnv_loop (drop (Suc i) p) ((user_fnv_loop (take i p) h XOR scast c) * kUserFnvPrime)" for h
      by (simp add: user_fnv_loop_append)
    moreover have "user_fnv_loop p h = user_fnv_loop (drop (Suc i) p) ((user_fnv_loop (take i p) h XOR scast (p ! i)) * kUserFnvPrime)" for h
      by (subst p) (simp add: user_fnv_loop_append)
    ultimately show ?thesis using i(2) assms
      by (simp add: user_fnv_generator_def user_fnv_loop_inj prime_cancel xor_cancel_left scast_u8_inj)
  qed
  define u' where "u' = u\<lparr>mUserFNV := user_fnv_generator (Some p)\<rparr>"
  have save: "Save u (Some p) = (u', True)" using assms by (simp add: Save_def u'_def)
  have login: "Login u' (Some q) \<longleftrightarrow> q \<noteq> [] \<and> user_fnv_generator (Some q) = user_fnv_generator (Some p)" for q
    by (auto simp: Login_def u'_def)
  show ?thesis using assms typo save login by (intro exI [of _ u']) (simp add: u'_def)
qed

theorem user_password_witness:
  "Login (fst (Save (User_ring kRingStdUser [97]) (Some [112, 119]))) (Some [112, 119])
   \<and> \<not> Login (fst (Save (User_ring kRingStdUser [97]) (Some [112, 119]))) (Some [112, 120])"
proof -
  have "[112, 119] \<noteq> ([] :: u8 list)" by simp
  from user_password [OF this, of "User_ring kRingStdUser [97]"] obtain u where
    "Save (User_ring kRingStdUser [97]) (Some [112, 119]) = (u, True)" "Login u (Some [112, 119])"
    "\<forall>i c. i < length [112 :: u8, 119] \<and> c \<noteq> [112, 119] ! i \<longrightarrow> \<not> Login u (Some ([112, 119][i := c]))" by (elim exE conjE)
  from this(3) [rule_format, of 1 120] this(1,2) show ?thesis by simp
qed

text \<open>
  The name of a user, up to its terminator, is the name given to the constructor cut at 255 bytes,
  and the array keeps its 256 bytes.
\<close>

lemma user_name_cut:
  assumes "0 \<notin> set nm"
  shows "length (mUserName (User_ring ring nm)) = 256"
    and "takeWhile (\<lambda>c. c \<noteq> 0) (mUserName (User_ring ring nm)) = take 255 nm"
proof -
  define len where "len = min (length nm) 255"
  have n: "mUserName (User_ring ring nm) = take len nm @ (replicate (256 - len) 0)[0 := 0]"
    by (auto simp: User_ring_def user_set_name_def kMaxUserNameLen_def Let_def len_def list_update_append min_def)
  then have n: "mUserName (User_ring ring nm) = take len nm @ 0 # replicate (255 - len) 0"
    using Suc_diff_le [of len 255] by (simp add: len_def)
  then show "length (mUserName (User_ring ring nm)) = 256" by (simp add: len_def)
  have "\<forall>c \<in> set (take len nm). c \<noteq> 0" using assms in_set_takeD by metis
  then show "takeWhile (\<lambda>c. c \<noteq> 0) (mUserName (User_ring ring nm)) = take 255 nm"
    unfolding n by (simp add: takeWhile_tail takeWhile_append2 len_def min_def)
qed

end
