(* ===== verification/SystemCalls.thy ===== *)
theory SystemCalls
  imports UserScheduler UserAccounts
begin

text \<open>
  Interrupts and system calls: the interrupt descriptor table of
  \<^verbatim>\<open>HALKit/AMD64/HalDescriptorLoader.cpp\<close>, the fault handlers and call entries of
  \<^verbatim>\<open>HalCoreInterruptHandler.cpp\<close>, the call tables of \<^verbatim>\<open>ArchKit.h\<close>, and the table of
  \<^verbatim>\<open>hal/src/HALSystemCalls.cpp\<close> with the hash of \<^verbatim>\<open>HALHashCalls.cpp\<close>.

  A handler gives the new state and the writes that end the interrupt.  The scheduler keeps the
  current process by value, so a handler works on a copy of the slot.  Calling a procedure is
  returning its address with the arguments; for a kernel call these are all the procedures called,
  in order.  Names are the bytes before the terminator.
\<close>

section \<open>The interrupt descriptor table\<close>

record gate =
  OffsetLow :: u16
  Selector :: u16
  Ist :: u8
  TypeAttributes :: u8
  OffsetMid :: u16
  OffsetHigh :: u32
  Zero :: u32

record register64 =
  Limit_r :: u16
  Base_r :: u64

definition kKernelIdtSize :: nat where "kKernelIdtSize = 0x100"
definition kKernelInterruptId :: u64 where "kKernelInterruptId = 0x32"
definition kKernelCallId :: u64 where "kKernelCallId = 0x33"
definition kDoubleFaultId :: u64 where "kDoubleFaultId = 0x08"
definition kPageFaultId :: u64 where "kPageFaultId = 0x0E"
definition kFaultStackId :: u8 where "kFaultStackId = 1"
definition kInterruptGate :: u8 where "kInterruptGate = 0x8E"
definition kUserInterruptGate :: u8 where "kUserInterruptGate = 0xEE"
definition kIDTSelector :: u16 where "kIDTSelector = 0x08"

definition idt_is_user_gate :: "u64 \<Rightarrow> bool" where
  "idt_is_user_gate vec \<longleftrightarrow> vec = kKernelInterruptId \<or> vec = kKernelCallId"

definition idt_stack_of :: "u64 \<Rightarrow> u8" where
  "idt_stack_of vec = (if vec = kDoubleFaultId \<or> vec = kPageFaultId then kFaultStackId else 0)"

text \<open>One turn of the loop, which sets every field of the gate, and the loop.\<close>

definition idt_gate :: "u64 \<Rightarrow> u64 \<Rightarrow> gate" where
  "idt_gate vec handler =
     \<lparr>OffsetLow = ucast (handler AND 0xFFFF), Selector = kIDTSelector, Ist = idt_stack_of vec,
      TypeAttributes = (if idt_is_user_gate vec then kUserInterruptGate else kInterruptGate),
      OffsetMid = ucast (drop_bit 16 handler AND 0xFFFF), OffsetHigh = ucast (drop_bit 32 handler AND 0xFFFFFFFF),
      Zero = 0\<rparr>"

definition idt_fill :: "mem \<Rightarrow> u64 \<Rightarrow> gate list \<Rightarrow> gate list" where
  "idt_fill m ptr_ivt = fold (\<lambda>i vt. vt[i := idt_gate (of_nat i) (load64 m (ptr_ivt + 8 * of_nat i))]) [0 ..< kKernelIdtSize]"

definition sizeof_gate :: u64 where "sizeof_gate = 16"

text \<open>\<open>IDTLoader::Load\<close>; \<open>table_at\<close> is the address of the static table.\<close>

definition IDTLoader_Load :: "mem \<Rightarrow> u64 \<Rightarrow> register64 \<Rightarrow> gate list \<Rightarrow> (register64 \<times> gate list) outcome" where
  "IDTLoader_Load m table_at idt vt =
     (if Base_r idt = 0 then Stop
      else Ret (idt\<lparr>Base_r := table_at, Limit_r := ucast (sizeof_gate * of_nat kKernelIdtSize)\<rparr>,
                idt_fill m (Base_r idt) vt))"

section \<open>Faults\<close>

datatype eoi = ApicEoi | Out8 u16 u8

definition kPICCommand :: u16 where "kPICCommand = 0x20"
definition kPIC2Command :: u16 where "kPIC2Command = 0xA0"

definition hal_idt_send_eoi :: "u8 \<Rightarrow> eoi list" where
  "hal_idt_send_eoi vector =
     ApicEoi # (if vector \<ge> ucast kPICCommand \<and> vector \<le> 0x2F then
                  (if vector \<ge> 0x28 then [Out8 kPIC2Command (ucast kPICCommand)] else []) @ [Out8 kPICCommand (ucast kPICCommand)]
                else [])"

definition SIGKILL :: u64 where "SIGKILL = 1"
definition SIGSEG :: u64 where "SIGSEG = 7"

text \<open>A change of the current process, which the team holds by value.\<close>

definition on_current :: "(user_process \<Rightarrow> user_process) \<Rightarrow> 'a usched_scheme \<Rightarrow> 'a usched_scheme" where
  "on_current f s = s\<lparr>mTeam := (mTeam s)\<lparr>mCurrentProcess := f (mCurrentProcess (mTeam s))\<rparr>\<rparr>"

definition crash_if :: "user_process \<Rightarrow> user_process" where
  "crash_if p = (if UserProcess_bool p then Crash p else p)"

definition set_signal :: "u64 \<Rightarrow> u64 \<Rightarrow> user_process \<Rightarrow> user_process" where
  "set_signal arg sid p = p\<lparr>SignalArg := arg, SignalID := sid, SignalStatus := Status p\<rparr>"

definition signal_if :: "u64 \<Rightarrow> u64 \<Rightarrow> user_process \<Rightarrow> user_process" where
  "signal_if arg sid p = (if UserProcess_bool p then set_signal arg sid p else p)"

definition idt_handle_gpf :: "'a usched_scheme \<Rightarrow> u64 \<Rightarrow> 'a usched_scheme \<times> eoi list" where
  "idt_handle_gpf s rsp = (on_current (signal_if rsp SIGKILL) (on_current crash_if s), hal_idt_send_eoi 13)"

definition idt_handle_pf :: "'a usched_scheme \<Rightarrow> u64 \<Rightarrow> 'a usched_scheme \<times> eoi list" where
  "idt_handle_pf s rsp = (on_current (signal_if rsp SIGKILL) (on_current crash_if s), hal_idt_send_eoi 14)"

definition idt_handle_math :: "'a usched_scheme \<Rightarrow> u64 \<Rightarrow> 'a usched_scheme \<times> eoi list" where
  "idt_handle_math s rsp =
     (on_current (signal_if rsp (sig_generate_unique SIGKILL)) (on_current crash_if s), hal_idt_send_eoi 8)"

definition idt_handle_generic :: "'a usched_scheme \<Rightarrow> u64 \<Rightarrow> 'a usched_scheme \<times> eoi list" where
  "idt_handle_generic s rsp =
     (on_current (set_signal rsp (sig_generate_unique SIGSEG)) (on_current crash_if s), hal_idt_send_eoi 30)"

definition idt_handle_breakpoint :: "'a usched_scheme \<Rightarrow> u64 \<Rightarrow> 'a usched_scheme \<times> eoi list" where
  "idt_handle_breakpoint s rip =
     (let s = on_current (set_signal rip (sig_generate_unique SIGTRAP)) (on_current crash_if s)
      in (on_current (\<lambda>p. p\<lparr>Status := kFrozen\<rparr>) s, hal_idt_send_eoi 3))"

definition idt_handle_ud :: "'a usched_scheme \<Rightarrow> u64 \<Rightarrow> 'a usched_scheme \<times> eoi list" where
  "idt_handle_ud s rsp =
     (on_current (set_signal rsp (sig_generate_unique SIGKILL)) (on_current crash_if s), hal_idt_send_eoi 6)"

text \<open>
  The timer interrupt; \<open>running n\<close> is what the n-th read of \<open>kIsRunning\<close> finds.  It spins until the
  flag is clear, holds it while the scheduler runs and clears it.
\<close>

partial_function (option) running_spin :: "(nat \<Rightarrow> bool) \<Rightarrow> nat \<Rightarrow> nat option" where
  "running_spin running n = (if running n then running_spin running (Suc n) else Some n)"

definition idt_handle_scheduler :: "(nat \<Rightarrow> bool) \<Rightarrow> 'a usched_scheme \<Rightarrow> (('a usched_scheme \<times> u64) res \<times> eoi list) option" where
  "idt_handle_scheduler running s =
     (case running_spin running 0 of
        None \<Rightarrow> None
      | Some _ \<Rightarrow> Some (StartScheduling s, hal_idt_send_eoi 32))"

section \<open>System calls\<close>

record call_entry =
  fHash :: u64
  fHooked :: bool
  fProc :: u64

definition kMaxDispatchCallCount :: nat where "kMaxDispatchCallCount = 512"

definition kFNVSeed :: u64 where "kFNVSeed = 0xcbf29ce484222325"
definition kFNVPrime :: u64 where "kFNVPrime = 0x100000001b3"

text \<open>A character is signed when it enters the hash; \<open>None\<close> is the null pointer.\<close>

fun fnv_loop :: "u8 list \<Rightarrow> u64 \<Rightarrow> u64" where
  "fnv_loop [] hash = hash"
| "fnv_loop (c # name) hash = fnv_loop name ((hash XOR scast c) * kFNVPrime)"

definition ke_hash_64 :: "u8 list option \<Rightarrow> u64" where
  "ke_hash_64 name = (case name of None \<Rightarrow> 0 | Some nm \<Rightarrow> if nm = [] then 0 else fnv_loop nm kFNVSeed)"

text \<open>\<open>hali_hash_fnv64\<close> is the same loop with a check of the result.\<close>

definition hali_hash_fnv64 :: "u8 list option \<Rightarrow> u64 outcome" where
  "hali_hash_fnv64 path =
     (case path of
        None \<Rightarrow> Ret 0
      | Some p \<Rightarrow> if p = [] then Ret 0
                  else let hash = fnv_loop p kFNVSeed in if hash \<noteq> 0 then Ret hash else Stop)"

text \<open>The loop over the slots: it fills the first that is not hooked and gives its index.\<close>

fun install_loop :: "call_entry list \<Rightarrow> nat \<Rightarrow> u64 \<Rightarrow> u64 \<Rightarrow> call_entry list \<times> int" where
  "install_loop [] i hash proc = ([], -1)"
| "install_loop (e # es) i hash proc =
     (if fHooked e then let (es', r) = install_loop es (Suc i) hash proc in (e # es', r)
      else (e\<lparr>fHash := hash, fProc := proc, fHooked := True\<rparr> # es, int i))"

text \<open>\<open>ke_install_syscall\<close> and \<open>ke_install_kerncall\<close> differ in the table only.\<close>

definition ke_install :: "call_entry list \<Rightarrow> u8 list option \<Rightarrow> u64 \<Rightarrow> call_entry list \<times> int" where
  "ke_install calls name proc =
     (if name = None \<or> name = Some [] then (calls, -1)
      else let hash = ke_hash_64 name
           in if hash = 0 \<or> proc = 0 then (calls, -1) else install_loop calls 0 hash proc)"

record call_state = accounts +
  kSysCalls :: "call_entry list"
  kKernCalls :: "call_entry list"

definition ke_install_syscall :: "call_state \<Rightarrow> u8 list option \<Rightarrow> u64 \<Rightarrow> call_state \<times> int" where
  "ke_install_syscall s name proc = (let (t, r) = ke_install (kSysCalls s) name proc in (s\<lparr>kSysCalls := t\<rparr>, r))"

definition ke_install_kerncall :: "call_state \<Rightarrow> u8 list option \<Rightarrow> u64 \<Rightarrow> call_state \<times> int" where
  "ke_install_kerncall s name proc = (let (t, r) = ke_install (kKernCalls s) name proc in (s\<lparr>kKernCalls := t\<rparr>, r))"

text \<open>The dispatch loop of a system call: the procedure it calls, if any.\<close>

fun sys_loop :: "call_entry list \<Rightarrow> u64 \<Rightarrow> u64 option" where
  "sys_loop [] hash = None"
| "sys_loop (e # es) hash =
     (if fHooked e \<and> hash = fHash e then (if fProc e = 0 then None else Some (fProc e)) else sys_loop es hash)"

definition hal_system_call_enter :: "call_state \<Rightarrow> u64 \<Rightarrow> u64 \<Rightarrow> (u64 \<times> u64) option" where
  "hal_system_call_enter s rcx_hash rdx_syscall_arg =
     (if kCurrentUser s = 0 then None
      else map_option (\<lambda>p. (p, rdx_syscall_arg)) (sys_loop (kSysCalls s) rcx_hash))"

fun kern_loop :: "call_entry list \<Rightarrow> u64 \<Rightarrow> u64 list" where
  "kern_loop [] hash = []"
| "kern_loop (e # es) hash = (if fHooked e \<and> hash = fHash e \<and> fProc e \<noteq> 0 then [fProc e] else []) @ kern_loop es hash"

definition hal_kernel_call_enter :: "call_state \<Rightarrow> u64 \<Rightarrow> u64 \<Rightarrow> u64 \<Rightarrow> u64 \<Rightarrow> (u64 \<times> u64 \<times> u64 \<times> u64) list \<times> eoi list" where
  "hal_kernel_call_enter s rcx_hash cnt arg sz =
     ((if kRootUser s = 0 then []
       else if kCurrentUser s \<noteq> kRootUser s then []
       else if \<not> IsSuperUser (users_at s (kCurrentUser s)) then []
       else map (\<lambda>p. (p, cnt, arg, sz)) (kern_loop (kKernCalls s) rcx_hash)),
      hal_idt_send_eoi 51)"

section \<open>The table of the hardware layer\<close>

record hal_entry =
  fHash_h :: u64
  fActive :: bool
  fProc_h :: u64
  fAuthLevel :: "64 word"

definition hal_slot :: "u64 \<Rightarrow> nat" where
  "hal_slot hash = unat (hash mod of_nat kMaxDispatchCallCount)"

definition hali_add_entry :: "hal_entry list \<Rightarrow> u64 \<Rightarrow> u64 \<Rightarrow> u64 \<Rightarrow> hal_entry list \<times> int" where
  "hali_add_entry t proc level hash =
     (if hash = 0 then (t, -1)
      else if proc = 0 then (t, -1)
      else let i = hal_slot hash
           in if i > kMaxDispatchCallCount then (t, -1)
              else if fActive (t ! i) then (t, -1)
              else (t[i := \<lparr>fHash_h = hash, fActive = True, fProc_h = proc, fAuthLevel = level\<rparr>], -1))"

definition hali_remove_entry :: "hal_entry list \<Rightarrow> u64 \<Rightarrow> hal_entry list" where
  "hali_remove_entry t hash =
     (if hash = 0 then t
      else let i = hal_slot hash
           in if i > kMaxDispatchCallCount then t
              else if fHash_h (t ! i) \<noteq> hash then t
              else t[i := \<lparr>fHash_h = 0, fActive = False, fProc_h = 0, fAuthLevel = 0\<rparr>])"

section \<open>Gates\<close>

definition gate_offset :: "gate \<Rightarrow> u64" where
  "gate_offset g = ucast (OffsetLow g) OR push_bit 16 (ucast (OffsetMid g)) OR push_bit 32 (ucast (OffsetHigh g))"

definition gate_dpl :: "gate \<Rightarrow> u8" where
  "gate_dpl g = drop_bit 5 (TypeAttributes g) AND 3"

lemma gate_offset_idt_gate: "gate_offset (idt_gate vec handler) = handler"
proof (rule bit_word_eqI)
  fix n :: nat
  assume "n < LENGTH(64)"
  then consider "n < 16" | "16 \<le> n" "n < 32" | "32 \<le> n" "n < 64" by force
  moreover have m: "(0xFFFF :: u64) = mask 16" "(0xFFFFFFFF :: u64) = mask 32" by (simp_all add: mask_eq_exp_minus_1)
  ultimately show "bit (gate_offset (idt_gate vec handler)) n \<longleftrightarrow> bit handler n"
    by cases (auto simp: gate_offset_def idt_gate_def m bit_simps)
qed

lemma length_fold_update: "length (fold (\<lambda>i vt. vt[i := f i]) is vt) = length vt"
  by (induction "is" arbitrary: vt) simp_all

lemma nth_fold_update:
  "i < length vt \<Longrightarrow> fold (\<lambda>i vt. vt[i := f i]) is vt ! i = (if i \<in> set is then f i else vt ! i)"
proof (induction "is" arbitrary: vt)
  case (Cons j js)
  then show ?case by (cases "i = j") simp_all
qed simp

lemma of_nat_vec:
  assumes "i < kKernelIdtSize" and "n < 256"
  shows "(of_nat i :: u64) = of_nat n \<longleftrightarrow> i = n"
proof (rule of_nat_inj64)
  have "(256 :: nat) < 2 ^ 64" by simp
  then show "i < 2 ^ 64" "n < 2 ^ 64" using assms unfolding kKernelIdtSize_def by linarith+
qed

lemma vec_eq:
  assumes "i < kKernelIdtSize"
  shows "(of_nat i :: u64) = 0x32 \<longleftrightarrow> i = 0x32" "(of_nat i :: u64) = 0x33 \<longleftrightarrow> i = 0x33"
    "(of_nat i :: u64) = 8 \<longleftrightarrow> i = 8" "(of_nat i :: u64) = 0xE \<longleftrightarrow> i = 14"
  using of_nat_vec [OF assms, of "0x32"] of_nat_vec [OF assms, of "0x33"] of_nat_vec [OF assms, of "8"] of_nat_vec [OF assms, of "14"]
  by simp_all

text \<open>
  The interrupt table is what the vector table says.  \<open>IDTLoader::Load\<close> stops on a null table;
  otherwise every one of the 256 gates is present, holds the full 64-bit address of its handler, may
  be entered from user mode exactly for the system call and the kernel call, and runs on the fault
  stack exactly for double faults and page faults.  The register then names the table and its size.
\<close>

theorem idt_gates_exact:
  assumes "length vt = kKernelIdtSize"
  shows "IDTLoader_Load m table_at idt vt =
      (if Base_r idt = 0 then Stop
       else Ret (\<lparr>Limit_r = 4096, Base_r = table_at\<rparr>, idt_fill m (Base_r idt) vt))
    \<and> (\<forall>i < kKernelIdtSize. let g = idt_fill m (Base_r idt) vt ! i
         in gate_offset g = load64 m (Base_r idt + 8 * of_nat i) \<and> bit (TypeAttributes g) 7
            \<and> (gate_dpl g = 3 \<longleftrightarrow> i = 0x32 \<or> i = 0x33) \<and> (gate_dpl g = 0 \<longleftrightarrow> i \<noteq> 0x32 \<and> i \<noteq> 0x33)
            \<and> Ist g = (if i = 8 \<or> i = 14 then 1 else 0) \<and> Selector g = 8)"
proof -
  have "IDTLoader_Load m table_at idt vt =
      (if Base_r idt = 0 then Stop
       else Ret (\<lparr>Limit_r = 4096, Base_r = table_at\<rparr>, idt_fill m (Base_r idt) vt))"
    by (cases idt) (simp add: IDTLoader_Load_def sizeof_gate_def kKernelIdtSize_def)
  moreover have "let g = idt_fill m (Base_r idt) vt ! i
       in gate_offset g = load64 m (Base_r idt + 8 * of_nat i) \<and> bit (TypeAttributes g) 7
            \<and> (gate_dpl g = 3 \<longleftrightarrow> i = 0x32 \<or> i = 0x33) \<and> (gate_dpl g = 0 \<longleftrightarrow> i \<noteq> 0x32 \<and> i \<noteq> 0x33)
            \<and> Ist g = (if i = 8 \<or> i = 14 then 1 else 0) \<and> Selector g = 8" if i: "i < kKernelIdtSize" for i
  proof -
    have g: "idt_fill m (Base_r idt) vt ! i = idt_gate (of_nat i) (load64 m (Base_r idt + 8 * of_nat i))"
      using i assms by (simp add: idt_fill_def nth_fold_update)
    have u: "idt_is_user_gate (of_nat i) \<longleftrightarrow> i = 0x32 \<or> i = 0x33"
      by (simp add: idt_is_user_gate_def kKernelInterruptId_def kKernelCallId_def vec_eq [OF i])
    have st: "idt_stack_of (of_nat i) = (if i = 8 \<or> i = 14 then 1 else 0)"
      by (simp add: idt_stack_of_def kDoubleFaultId_def kPageFaultId_def kFaultStackId_def vec_eq [OF i])
    have "TypeAttributes (idt_gate (of_nat i) h) = (if i = 0x32 \<or> i = 0x33 then 0xEE else 0x8E)"
      "Ist (idt_gate (of_nat i) h) = (if i = 8 \<or> i = 14 then 1 else 0)" "Selector (idt_gate (of_nat i) h) = 8" for h
      by (simp_all add: idt_gate_def u st kInterruptGate_def kUserInterruptGate_def kIDTSelector_def)
    moreover have "bit (0xEE :: u8) 7" "bit (0x8E :: u8) 7" by simp_all
    ultimately show ?thesis by (simp add: g gate_offset_idt_gate gate_dpl_def Let_def)
  qed
  ultimately show ?thesis by blast
qed

theorem idt_gates_exact_witness:
  "length (replicate 256 (idt_gate 0 0)) = kKernelIdtSize
    \<and> gate_offset (idt_fill (\<lambda>a. if a = 0x2191 then 0x80 else 0) 0x2000 (replicate 256 (idt_gate 0 0)) ! 0x32) = 0x8000"
proof -
  have l: "length (replicate 256 (idt_gate 0 0)) = kKernelIdtSize" by (simp add: kKernelIdtSize_def)
  let ?m = "\<lambda>a :: u64. if a = 0x2191 then (0x80 :: u8) else 0"
  have "load64 ?m (0x2000 + 8 * of_nat 0x32) = 0x8000"
    by (simp add: load64_def read_bytes_def upt_rec)
  then show ?thesis
    using idt_gates_exact [OF l, of ?m 0 "\<lparr>Limit_r = 0, Base_r = 0x2000\<rparr>"] l by (simp add: kKernelIdtSize_def Let_def)
qed


section \<open>Faults and the scheduler\<close>

lemma on_current_on_current: "on_current f (on_current g s) = on_current (f \<circ> g) s"
  by (simp add: on_current_def)

lemma on_current_simps [simp]:
  "mProcessList (mTeam (on_current f s)) = mProcessList (mTeam s)" "mProcessCur (mTeam (on_current f s)) = mProcessCur (mTeam s)"
  "mCurrentProcess (mTeam (on_current f s)) = f (mCurrentProcess (mTeam s))"
  "kcores (on_current f s) = kcores s" "process_index (on_current f s) = process_index s"
  by (simp_all add: on_current_def)

lemma on_current_slots [simp]: "slot_ok (on_current f s) i = slot_ok s i" "slot (on_current f s) i = slot s i"
  by (simp_all add: slot_ok_def slot_def)

lemma handler_current:
  "fst (idt_handle_gpf s rsp) = on_current (signal_if rsp SIGKILL \<circ> crash_if) s"
  "fst (idt_handle_pf s rsp) = on_current (signal_if rsp SIGKILL \<circ> crash_if) s"
  "fst (idt_handle_math s rsp) = on_current (signal_if rsp (sig_generate_unique SIGKILL) \<circ> crash_if) s"
  "fst (idt_handle_generic s rsp) = on_current (set_signal rsp (sig_generate_unique SIGSEG) \<circ> crash_if) s"
  "fst (idt_handle_ud s rsp) = on_current (set_signal rsp (sig_generate_unique SIGKILL) \<circ> crash_if) s"
  "fst (idt_handle_breakpoint s rsp) =
     on_current ((\<lambda>p. p\<lparr>Status := kFrozen\<rparr>) \<circ> (set_signal rsp (sig_generate_unique SIGTRAP) \<circ> crash_if)) s"
  by (simp_all add: idt_handle_gpf_def idt_handle_pf_def idt_handle_math_def idt_handle_generic_def idt_handle_ud_def
      idt_handle_breakpoint_def on_current_on_current Let_def)

lemma signal_if_crash_if: "signal_if arg sid (crash_if p) = crash_if p"
  by (simp add: signal_if_def crash_if_def Crash_def UserProcess_bool_def)

text \<open>\<open>Run\<close> reads the slots only, so a change of the current copy does not reach it.\<close>

lemma Run_on_current:
  fixes s :: "'a usched_scheme"
  assumes "Run s = Ok (s1, r)"
  shows "\<exists>s2. Run (on_current f s) = Ok (s2, r) \<and> mProcessList (mTeam s2) = mProcessList (mTeam s1)
    \<and> kcores s2 = kcores s1 \<and> process_index s2 = process_index s1"
  using assms unfolding Run_def on_current_def
  by (auto simp: Let_def slot_ok_def slot_def set_slot_def split: if_splits prod.splits)

text \<open>
  C12. A fault does not stop the process that caused it.  Every fault handler marks the current
  process killed (a breakpoint: frozen) in the copy that the scheduler keeps; no slot of the team
  changes, so every process can be scheduled exactly as before, and the next run of the scheduler
  gives the same cores, slots and index as without the fault.  The handlers of protection faults,
  page faults and math faults never record the signal either: they test the process again after it
  was killed.
\<close>

theorem fault_leaves_slot_schedulable:
  fixes s :: "'a usched_scheme"
  assumes "h \<in> {idt_handle_gpf, idt_handle_pf, idt_handle_math, idt_handle_generic, idt_handle_ud, idt_handle_breakpoint}"
    and "UserProcess_bool (mCurrentProcess (mTeam s))" and "Run s = Ok (s1, r)"
  shows "\<not> UserProcess_bool (mCurrentProcess (mTeam (fst (h s rsp))))
    \<and> mProcessList (mTeam (fst (h s rsp))) = mProcessList (mTeam s)
    \<and> (\<exists>s2. Run (fst (h s rsp)) = Ok (s2, r) \<and> mProcessList (mTeam s2) = mProcessList (mTeam s1)
          \<and> kcores s2 = kcores s1 \<and> process_index s2 = process_index s1)
    \<and> mCurrentProcess (mTeam (fst (idt_handle_gpf s rsp))) = (mCurrentProcess (mTeam s))\<lparr>Status := kKilled\<rparr>
    \<and> mCurrentProcess (mTeam (fst (idt_handle_pf s rsp))) = (mCurrentProcess (mTeam s))\<lparr>Status := kKilled\<rparr>
    \<and> mCurrentProcess (mTeam (fst (idt_handle_math s rsp))) = (mCurrentProcess (mTeam s))\<lparr>Status := kKilled\<rparr>"
proof -
  let ?p = "mCurrentProcess (mTeam s)"
  have cr: "crash_if ?p = ?p\<lparr>Status := kKilled\<rparr>" using assms(2) by (simp add: crash_if_def Crash_def UserProcess_bool_def)
  have st: "UserProcess_bool (set_signal a i p) = UserProcess_bool p" for a i p
    by (simp add: set_signal_def UserProcess_bool_def)
  have k: "\<not> UserProcess_bool (?p\<lparr>Status := kKilled\<rparr>)" "\<not> UserProcess_bool (q\<lparr>Status := kFrozen\<rparr>)" for q
    by (simp_all add: UserProcess_bool_def)
  have ex: "\<exists>f. on_current g s = on_current f s \<and> \<not> UserProcess_bool (f ?p)" if "\<not> UserProcess_bool (g ?p)" for g
    using that by blast
  have "\<exists>f. fst (h s rsp) = on_current f s \<and> \<not> UserProcess_bool (f ?p)"
    using assms(1) unfolding insert_iff empty_iff
    by (elim disjE) (auto simp only: handler_current comp_apply signal_if_crash_if [of _ _ ?p, unfolded cr] cr st k not_True_eq_False not_False_eq_True intro!: ex)
  then obtain f where f: "fst (h s rsp) = on_current f s" "\<not> UserProcess_bool (f ?p)" by blast
  show ?thesis using Run_on_current [OF assms(3), of f] f by (simp add: handler_current signal_if_crash_if [of _ _ ?p, unfolded cr] cr)
qed

theorem fault_leaves_slot_schedulable_witness:
  "\<exists>s1 r. Run (on_current (run_ready 0) (set_cur small_sched 1)) = Ok (s1, r)
    \<and> \<not> UserProcess_bool (mCurrentProcess (mTeam (fst (idt_handle_pf (on_current (run_ready 0) (set_cur small_sched 1)) 0x7000))))"
proof -
  let ?s = "on_current (run_ready 0) (set_cur small_sched 1)"
  have sl: "slot small_sched 1 = blank_process" "slot_ok small_sched 1" "process_index small_sched = 0"
    by (simp_all add: small_facts small_slot_ok) (simp add: small_sched_def)
  have "\<not> CanBeScheduled blank_process" by (simp add: CanBeScheduled_def blank_process_def kStandard_def kUltraHigh_def)
  then have "\<exists>s1 r. Run (set_cur small_sched 1) = Ok (s1, r)"
    using sl by (simp add: Run_def Let_def set_cur_def slot_ok_def slot_def small_facts(1))
  then obtain s1 r where "Run (set_cur small_sched 1) = Ok (s1, r)" by blast
  from Run_on_current [OF this, of "run_ready 0"] obtain s2 where "Run ?s = Ok (s2, r)" by blast
  moreover have "UserProcess_bool (mCurrentProcess (mTeam ?s))" by (simp add: UserProcess_bool_def run_ready_def)
  ultimately show ?thesis using fault_leaves_slot_schedulable [of idt_handle_pf ?s s2 r "0x7000"] by blast
qed


section \<open>The call tables\<close>

text \<open>The entries of a table that the code can reach: the hooked ones come first and have a procedure.\<close>

definition calls_ok :: "call_entry list \<Rightarrow> bool" where
  "calls_ok t \<longleftrightarrow> length t = kMaxDispatchCallCount \<and> (\<forall>e \<in> set (takeWhile fHooked t). fProc e \<noteq> 0)
     \<and> (\<forall>e \<in> set (dropWhile fHooked t). \<not> fHooked e)"

lemma install_loop_eq:
  "install_loop t i hash proc =
     (case dropWhile fHooked t of
        [] \<Rightarrow> (t, -1)
      | e # es \<Rightarrow> (takeWhile fHooked t @ e\<lparr>fHash := hash, fProc := proc, fHooked := True\<rparr> # es, int (i + length (takeWhile fHooked t))))"
proof (induction t arbitrary: i)
  case (Cons e t)
  then show ?case by (cases "dropWhile fHooked t") (simp_all del: dropWhile_eq_Nil_conv)
qed simp

lemma sys_loop_append: "\<forall>e \<in> set es. \<not> fHooked e \<Longrightarrow> sys_loop (xs @ es) h = sys_loop xs h"
proof (induction xs)
  case Nil
  then show ?case by (induction es) auto
qed auto

lemma sys_loop_snoc:
  "\<forall>e \<in> set xs. fHooked e \<and> fProc e \<noteq> 0 \<Longrightarrow> fHooked e \<Longrightarrow> fProc e \<noteq> 0 \<Longrightarrow> \<forall>d \<in> set es. \<not> fHooked d
    \<Longrightarrow> sys_loop (xs @ e # es) h = (case sys_loop xs h of None \<Rightarrow> if h = fHash e then Some (fProc e) else None | Some p \<Rightarrow> Some p)"
proof (induction xs)
  case Nil
  then show ?case using sys_loop_append [of es "[e]" h] by auto
qed auto

lemma kern_loop_append: "\<forall>e \<in> set es. \<not> fHooked e \<Longrightarrow> kern_loop (xs @ es) h = kern_loop xs h"
proof (induction xs)
  case Nil
  then show ?case by (induction es) auto
qed auto

lemma kern_loop_app: "kern_loop (xs @ ys) h = kern_loop xs h @ kern_loop ys h"
  by (induction xs) auto

text \<open>What installing a procedure does to a table in this shape.\<close>

lemma ke_install_exact:
  assumes ok: "calls_ok t" and nm: "nm \<noteq> []" and h: "ke_hash_64 (Some nm) \<noteq> 0" and p: "proc \<noteq> 0"
    and ins: "ke_install t (Some nm) proc = (t', r)"
  shows "(r = -1 \<and> t' = t \<and> (\<forall>e \<in> set t. fHooked e))
    \<or> (0 \<le> r \<and> r < 512 \<and> (\<exists>e \<in> set t. \<not> fHooked e) \<and> calls_ok t'
        \<and> (\<forall>g. sys_loop t' g = (case sys_loop t g of None \<Rightarrow> if g = ke_hash_64 (Some nm) then Some proc else None | Some q \<Rightarrow> Some q))
        \<and> (\<forall>g. kern_loop t' g = kern_loop t g @ (if g = ke_hash_64 (Some nm) then [proc] else [])))"
proof -
  let ?a = "takeWhile fHooked t" and ?h = "ke_hash_64 (Some nm)"
  have il: "install_loop t 0 ?h proc = (t', r)" using ins nm h p by (simp add: ke_install_def)
  have a: "\<forall>e \<in> set ?a. fHooked e \<and> fProc e \<noteq> 0" using ok by (auto simp: calls_ok_def dest: set_takeWhileD)
  have t: "t = ?a @ dropWhile fHooked t" by simp
  show ?thesis
  proof (cases "dropWhile fHooked t")
    case Nil
    then have "\<forall>e \<in> set t. fHooked e" by simp
    then show ?thesis using il Nil by (simp add: install_loop_eq)
  next
    case (Cons e es)
    define e' where "e' = e\<lparr>fHash := ?h, fProc := proc, fHooked := True\<rparr>"
    have r: "t' = ?a @ e' # es" "r = int (length ?a)" using il Cons by (simp_all add: install_loop_eq e'_def)
    have e: "\<not> fHooked e" "\<forall>d \<in> set es. \<not> fHooked d" using ok Cons by (auto simp: calls_ok_def)
    have len: "length t = length ?a + Suc (length es)" using t Cons by (metis length_append length_Cons)
    have ent: "fHooked e'" "fHash e' = ?h" "fProc e' = proc" by (simp_all add: e'_def)
    have ok': "calls_ok t'"
      using ok len a e ent p unfolding calls_ok_def r by (auto simp: takeWhile_append2 dropWhile_append2 takeWhile_eq_all_conv
          dest: set_takeWhileD set_dropWhileD)
    have s: "sys_loop t g = sys_loop ?a g" "kern_loop t g = kern_loop ?a g" for g
      using sys_loop_append [of "e # es" ?a g] kern_loop_append [of "e # es" ?a g] e t Cons by simp_all
    have "sys_loop t' g = (case sys_loop t g of None \<Rightarrow> if g = ?h then Some proc else None | Some q \<Rightarrow> Some q)" for g
      using sys_loop_snoc [OF a ent(1) _ e(2), of g] p unfolding r s ent by blast
    moreover have "kern_loop t' g = kern_loop t g @ (if g = ?h then [proc] else [])" for g
      using kern_loop_append [OF e(2), of "?a @ [e']" g] p unfolding r s by (simp add: kern_loop_app ent)
    moreover have "e \<in> set t" using t Cons by (metis in_set_conv_decomp)
    moreover have "0 \<le> r" "r < 512" using r(2) len ok by (simp_all add: calls_ok_def kMaxDispatchCallCount_def)
    ultimately show ?thesis using ok' e(1) by blast
  qed
qed

text \<open>
  C19. Installing and entering a system call.  From a table in which the hooked entries come first,
  \<open>ke_install_syscall\<close> refuses (with -1) exactly when every slot is hooked, and otherwise takes a slot
  below 512.  A user program that then enters with the hash of the name reaches the new procedure with
  its argument, unless the name was installed before: the first procedure keeps the name, every other
  hash reaches what it did before, and no call is reached while there is no current user.
\<close>

theorem syscall_install_enter:
  assumes "calls_ok (kSysCalls s)" and "nm \<noteq> []" and "ke_hash_64 (Some nm) \<noteq> 0" and "proc \<noteq> 0"
    and "ke_install_syscall s (Some nm) proc = (s', r)"
  shows "(r = -1 \<longleftrightarrow> (\<forall>e \<in> set (kSysCalls s). fHooked e)) \<and> (r \<noteq> -1 \<longrightarrow> 0 \<le> r \<and> r < 512) \<and> calls_ok (kSysCalls s')
    \<and> (r \<noteq> -1 \<longrightarrow> hal_system_call_enter s' (ke_hash_64 (Some nm)) arg =
         (if kCurrentUser s = 0 then None
          else case hal_system_call_enter s (ke_hash_64 (Some nm)) arg of None \<Rightarrow> Some (proc, arg) | Some c \<Rightarrow> Some c))
    \<and> (\<forall>g. g \<noteq> ke_hash_64 (Some nm) \<longrightarrow> hal_system_call_enter s' g arg = hal_system_call_enter s g arg)"
proof -
  obtain t where t: "ke_install (kSysCalls s) (Some nm) proc = (t, r)" "s' = s\<lparr>kSysCalls := t\<rparr>"
    using assms(5) by (auto simp: ke_install_syscall_def split: prod.splits)
  from ke_install_exact [OF assms(1-4) t(1)] show ?thesis
  proof (elim disjE conjE)
    assume "r = -1" "t = kSysCalls s" "\<forall>e \<in> set (kSysCalls s). fHooked e"
    then show ?thesis using assms(1) t(2) by simp
  next
    assume a: "0 \<le> r" "r < 512" "\<exists>e \<in> set (kSysCalls s). \<not> fHooked e" "calls_ok t"
      and l: "\<forall>g. sys_loop t g = (case sys_loop (kSysCalls s) g of None \<Rightarrow> if g = ke_hash_64 (Some nm) then Some proc else None | Some q \<Rightarrow> Some q)"
    have "hal_system_call_enter s' g arg =
        (if kCurrentUser s = 0 then None
         else case hal_system_call_enter s g arg of
                None \<Rightarrow> if g = ke_hash_64 (Some nm) then Some (proc, arg) else None
              | Some c \<Rightarrow> Some c)" for g
      using l by (auto simp: hal_system_call_enter_def t(2) split: option.splits)
    then show ?thesis using a by (auto simp: t(2) hal_system_call_enter_def split: option.splits)
  qed
qed


definition no_call :: call_entry where "no_call = \<lparr>fHash = 0, fHooked = False, fProc = 0\<rparr>"

definition guest_calls :: call_state where
  "guest_calls = \<lparr>users_at = (\<lambda>_. User_ring kRingGuestUser kGuestUserName), kCurrentUser = 0x3000, kRootUser = 0x2000,
     kGuest = 0x3000, kHostUser = 0, kSysCalls = replicate 512 no_call, kKernCalls = replicate 512 no_call\<rparr>"

definition ke_ping_name :: "u8 list" where "ke_ping_name = [107, 101, 95, 112, 105, 110, 103]"

lemma calls_ok_empty: "calls_ok (replicate 512 no_call)"
  by (simp add: calls_ok_def kMaxDispatchCallCount_def no_call_def takeWhile_replicate dropWhile_replicate)

lemma sys_loop_empty: "sys_loop (replicate n no_call) g = None"
  by (induction n) (simp_all add: no_call_def)

theorem syscall_install_enter_witness:
  "\<exists>s' r. ke_install_syscall guest_calls (Some ke_ping_name) 0x9000 = (s', r) \<and> r \<noteq> -1
    \<and> hal_system_call_enter s' (ke_hash_64 (Some ke_ping_name)) 7 = Some (0x9000, 7)"
proof -
  obtain s' r where i: "ke_install_syscall guest_calls (Some ke_ping_name) 0x9000 = (s', r)" by fastforce
  have h: "ke_hash_64 (Some ke_ping_name) \<noteq> 0" by (simp add: ke_hash_64_def ke_ping_name_def kFNVSeed_def kFNVPrime_def)
  have g: "calls_ok (kSysCalls guest_calls)" "kCurrentUser guest_calls = 0x3000" "\<not> (\<forall>e \<in> set (kSysCalls guest_calls). fHooked e)"
    "hal_system_call_enter guest_calls k 7 = None" for k
    by (simp_all add: guest_calls_def calls_ok_empty hal_system_call_enter_def sys_loop_empty) (simp add: no_call_def)
  have "ke_ping_name \<noteq> []" by (simp add: ke_ping_name_def)
  from syscall_install_enter [OF g(1) this h _ i, of 7] g show ?thesis using i by simp
qed

text \<open>
  Kernel calls need root, and root is never the current user after boot.  Whatever the tables
  hold, once \<open>user_init_std\<close> has set up the users (the heap gives the root user an address of its own),
  no kernel call runs any procedure, in recovery mode or not, although a system call with an installed
  hash still runs, unless the recovery user could not be allocated.  For a current root user, by
  contrast, a kernel call runs every installed procedure of its hash, in the order of the table.
\<close>

theorem kernel_calls_need_root:
  assumes "user_init_std a_root a_guest a_recov a recovery = Ret a'" and "kRootUser a = 0" and "kGuest a = 0"
    and "a_root \<noteq> a_guest" and "a_root \<noteq> a_recov"
  shows "fst (hal_kernel_call_enter (accounts.extend a' tables) hash cnt arg sz) = []
    \<and> hal_system_call_enter (accounts.extend a' tables) hash arg =
        (if recovery \<and> a_recov = 0 then None else map_option (\<lambda>p. (p, arg)) (sys_loop (kSysCalls (accounts.extend a' tables)) hash))
    \<and> fst (hal_kernel_call_enter ((accounts.extend a' tables)\<lparr>kCurrentUser := kRootUser a'\<rparr>) hash cnt arg sz) =
        map (\<lambda>p. (p, cnt, arg, sz)) (kern_loop (kKernCalls (accounts.extend a' tables)) hash)"
proof -
  have r: "a_root \<noteq> 0" "a_guest \<noteq> 0"
    using assms(1-3) by (auto simp: user_init_std_def new_user_def Let_def split: if_splits)
  have u: "kRootUser a' = a_root" "kCurrentUser a' = (if recovery then a_recov else a_guest)"
    "users_at a' a_root = User_ring kRingSuperUser kRootUserName"
    using assms r by (auto simp: user_init_std_def new_user_def Let_def split: if_splits)
  have ext: "kRootUser (accounts.extend a' tables) = kRootUser a'" "kCurrentUser (accounts.extend a' tables) = kCurrentUser a'"
    "users_at (accounts.extend a' tables) = users_at a'"
    by (simp_all add: accounts.defs)
  have "IsSuperUser (users_at a' a_root)" by (simp add: u IsSuperUser_def User_ring_def)
  then show ?thesis using u r assms(4,5) by (simp add: hal_kernel_call_enter_def hal_system_call_enter_def ext)
qed

theorem kernel_calls_need_root_witness:
  "\<exists>a'. user_init_std 0x2000 0x3000 0 \<lparr>users_at = (\<lambda>_. User_ring kRingInvalid []), kCurrentUser = 0, kRootUser = 0, kGuest = 0, kHostUser = 0\<rparr> False = Ret a'
    \<and> fst (hal_kernel_call_enter (accounts.extend a' \<lparr>kSysCalls = [], kKernCalls = [\<lparr>fHash = 1, fHooked = True, fProc = 2\<rparr>]\<rparr>) 1 0 0 0) = []"
proof -
  let ?a = "\<lparr>users_at = (\<lambda>_. User_ring kRingInvalid []), kCurrentUser = 0, kRootUser = 0, kGuest = 0, kHostUser = 0\<rparr>"
  obtain a' where a': "user_init_std 0x2000 0x3000 0 ?a False = Ret a'" by (simp add: user_init_std_def new_user_def Let_def)
  show ?thesis
    using a' kernel_calls_need_root [OF a', of "\<lparr>kSysCalls = [], kKernCalls = [\<lparr>fHash = 1, fHooked = True, fProc = 2\<rparr>]\<rparr>" 1 0 0 0] by simp
qed

section \<open>The table of the hardware layer\<close>

definition no_entry :: hal_entry where
  "no_entry = \<lparr>fHash_h = 0, fActive = False, fProc_h = 0, fAuthLevel = 0\<rparr>"

text \<open>Every active entry is at the slot of its hash, every other entry is clear.\<close>

definition entry_ok :: "nat \<Rightarrow> hal_entry \<Rightarrow> bool" where
  "entry_ok i e \<longleftrightarrow> (if fActive e then hal_slot (fHash_h e) = i \<and> fHash_h e \<noteq> 0 \<and> fProc_h e \<noteq> 0 else e = no_entry)"

definition hal_ok :: "hal_entry list \<Rightarrow> bool" where
  "hal_ok t \<longleftrightarrow> length t = kMaxDispatchCallCount \<and> (\<forall>i < length t. entry_ok i (t ! i))"

lemma hal_slot_less: "hal_slot hash < 512"
  by (simp add: hal_slot_def kMaxDispatchCallCount_def unat_mod)

lemma hali_add_eq:
  "hal_ok t \<Longrightarrow> hali_add_entry t proc level hash =
     (if hash = 0 \<or> proc = 0 \<or> fActive (t ! hal_slot hash) then t
      else t[hal_slot hash := \<lparr>fHash_h = hash, fActive = True, fProc_h = proc, fAuthLevel = level\<rparr>], -1)"
  using hal_slot_less [of hash] by (simp add: hali_add_entry_def Let_def kMaxDispatchCallCount_def)

lemma hali_remove_eq:
  "hal_ok t \<Longrightarrow> hali_remove_entry t hash =
     (if fActive (t ! hal_slot hash) \<and> fHash_h (t ! hal_slot hash) = hash then t[hal_slot hash := no_entry] else t)"
  using hal_slot_less [of hash]
  by (auto simp: hali_remove_entry_def Let_def kMaxDispatchCallCount_def hal_ok_def entry_ok_def no_entry_def split: if_splits)

text \<open>
  The call table of the hardware layer.  Its invariant (active entries at the slot of their hash,
  the others clear) is kept by adding and removing.  An entry is added exactly when its slot is free,
  and removing it again restores the table; a second entry whose hash falls on the same slot changes
  nothing until the first is removed.  The result of adding is -1 in every case, also when the entry
  was added.
\<close>

theorem hal_table_add_remove:
  assumes "hal_ok t" and "hash \<noteq> 0" and "proc \<noteq> 0"
  shows "snd (hali_add_entry t proc level hash) = -1
    \<and> hal_ok (fst (hali_add_entry t proc level hash)) \<and> hal_ok (hali_remove_entry t hash)
    \<and> (if fActive (t ! hal_slot hash) then fst (hali_add_entry t proc level hash) = t
       else fst (hali_add_entry t proc level hash) ! hal_slot hash
              = \<lparr>fHash_h = hash, fActive = True, fProc_h = proc, fAuthLevel = level\<rparr>
          \<and> hali_remove_entry (fst (hali_add_entry t proc level hash)) hash = t)"
proof -
  have len: "hal_slot hash < length t" using assms(1) hal_slot_less by (simp add: hal_ok_def kMaxDispatchCallCount_def)
  have rest: "hal_ok (t[hal_slot hash := e])" if "entry_ok (hal_slot hash) e" for e
    using assms(1) that unfolding hal_ok_def by (metis length_list_update nth_list_update_eq nth_list_update_neq)
  have ok: "hal_ok (fst (hali_add_entry t proc level hash))"
    using rest [of "\<lparr>fHash_h = hash, fActive = True, fProc_h = proc, fAuthLevel = level\<rparr>"] assms by (simp add: hali_add_eq entry_ok_def)
  moreover have "hal_ok (hali_remove_entry t hash)" using rest [of no_entry] assms(1) by (simp add: hali_remove_eq entry_ok_def no_entry_def)
  moreover have "t[hal_slot hash := no_entry] = t" if "\<not> fActive (t ! hal_slot hash)"
    using assms(1) len that by (metis hal_ok_def entry_ok_def list_update_id)
  ultimately show ?thesis using assms len hali_remove_eq [OF ok, of hash]
    by (cases "fActive (t ! hal_slot hash)") (simp_all add: hali_add_eq)
qed

theorem hal_table_add_remove_witness:
  "hal_ok (replicate 512 no_entry)
    \<and> hali_remove_entry (fst (hali_add_entry (replicate 512 no_entry) 0x9000 3 0x201)) 0x201 = replicate 512 no_entry"
proof -
  have ok: "hal_ok (replicate 512 no_entry)" by (simp add: hal_ok_def entry_ok_def kMaxDispatchCallCount_def no_entry_def)
  have "hal_slot 0x201 = 1" by (simp add: hal_slot_def kMaxDispatchCallCount_def)
  then have "\<not> fActive (replicate 512 no_entry ! hal_slot 0x201)" by (simp add: no_entry_def)
  then show ?thesis using hal_table_add_remove [OF ok, of "0x201" "0x9000" 3] ok by simp
qed

end
