(* ===== verification/DmaPool.thy ===== *)
theory DmaPool
  imports KPC NePrelude
begin

text \<open>
  The pool of memory for device transfers, \<^verbatim>\<open>DmaKit/DmaPool.h\<close>: a cursor that allocation moves up
  and freeing moves down by a size.  The start, size and alignment of the pool are those of the
  AMD64 build.  A memory fence has no effect on the model, so \<open>rtl_dma_flush\<close> gives the addresses it
  fences.  \<open>dma_hist\<close> are the states that clients reach who free the block they took last.
\<close>

definition kNeDMAPoolStart :: u64 where "kNeDMAPoolStart = 0x1000000"
definition kNeDMAPoolSize :: u64 where "kNeDMAPoolSize = 0x1000000"
definition kNeDMABestAlign :: u64 where "kNeDMABestAlign = 8"

record dma_pool =
  kDmaPoolPtr :: u64
  dma_error :: int

definition kDmaPoolEnd :: u64 where "kDmaPoolEnd = kNeDMAPoolStart + kNeDMAPoolSize"

definition rtl_dma_alloc :: "'a dma_pool_scheme \<Rightarrow> u64 \<Rightarrow> u64 \<Rightarrow> 'a dma_pool_scheme \<times> u64" where
  "rtl_dma_alloc s sz align =
     (if sz = 0 then (s, 0)
      else if align mod kNeDMABestAlign \<noteq> 0 then (s, 0)
      else let addr = (kDmaPoolPtr s + (align - 1)) AND NOT (align - 1)
           in if addr + sz > kDmaPoolEnd then (s\<lparr>dma_error := kErrorDmaExhausted\<rparr>, 0)
              else (s\<lparr>kDmaPoolPtr := addr + sz\<rparr>, addr))"

definition rtl_dma_free :: "'a dma_pool_scheme \<Rightarrow> u64 \<Rightarrow> 'a dma_pool_scheme" where
  "rtl_dma_free s sz =
     (if sz = 0 then s
      else let ptr = kDmaPoolPtr s - sz
           in if ptr = 0 \<or> ptr < kNeDMAPoolStart then s\<lparr>dma_error := kErrorDmaExhausted\<rparr>
              else s\<lparr>kDmaPoolPtr := ptr\<rparr>)"

definition rtl_dma_flush :: "'a dma_pool_scheme \<Rightarrow> u64 \<Rightarrow> u64 \<Rightarrow> 'a dma_pool_scheme \<times> u64 list" where
  "rtl_dma_flush s ptr size_buffer =
     (if ptr > kDmaPoolEnd then (s, [])
      else if ptr = 0 \<or> ptr < kNeDMAPoolStart then (s\<lparr>dma_error := kErrorDmaExhausted\<rparr>, [])
      else (s, map (\<lambda>buf_idx. ptr + of_nat buf_idx) [0 ..< unat size_buffer]))"

definition dma_start :: dma_pool where
  "dma_start = \<lparr>kDmaPoolPtr = kNeDMAPoolStart, dma_error = 0\<rparr>"

lemmas dma_consts = kDmaPoolEnd_def kNeDMAPoolStart_def kNeDMAPoolSize_def kNeDMABestAlign_def

section \<open>Rounding up\<close>

definition pow2_align :: "u64 \<Rightarrow> bool" where
  "pow2_align align \<longleftrightarrow> (\<exists>k. 3 \<le> k \<and> k < 64 \<and> align = 2 ^ k)"

text \<open>Rounding up to a power of two, as a number: it stays below \<open>2 ^ 64\<close> from an address in the pool.\<close>

lemma dma_round:
  fixes p align :: u64
  assumes "pow2_align align" and "unat p < 2 ^ 63"
  shows "unat ((p + (align - 1)) AND NOT (align - 1)) = (unat p + (unat align - 1)) div unat align * unat align"
    and "unat p \<le> unat ((p + (align - 1)) AND NOT (align - 1))"
    and "align mod kNeDMABestAlign = 0"
    and "unat align dvd unat ((p + (align - 1)) AND NOT (align - 1))"
proof -
  obtain k where k: "3 \<le> k" "k < 64" "align = 2 ^ k" using assms(1) by (auto simp: pow2_align_def)
  have m: "align - 1 = mask k" by (simp add: k mask_eq_exp_minus_1)
  have ua: "unat align = 2 ^ k"
    using k unat_of_nat [of "2 ^ k", where ?'a = 64] power_strict_increasing [OF k(2), of "2 :: nat"] by simp
  have "(2 :: nat) ^ k \<le> 2 ^ 63" using k(2) by (intro power_increasing) auto
  moreover have um: "unat (mask k :: u64) = 2 ^ k - 1"
    using m unat_minus_one [of align] ua k by (metis power_not_zero unat_0 zero_neq_numeral)
  ultimately have sum: "unat (p + mask k) = unat p + (2 ^ k - 1)"
    using assms(2) by (simp add: unat_word_ariths um)
  then show eq: "unat ((p + (align - 1)) AND NOT (align - 1)) = (unat p + (unat align - 1)) div unat align * unat align"
    by (simp add: m unat_clear_mask [OF k(2)] ua)
  then show "unat align dvd unat ((p + (align - 1)) AND NOT (align - 1))" by simp
  have "unat p < (unat p + (2 ^ k - 1)) div 2 ^ k * 2 ^ k + 2 ^ k - (2 ^ k - 1)"
    using dividend_less_div_times [of "2 ^ k" "unat p + (2 ^ k - 1)"] by simp
  then show "unat p \<le> unat ((p + (align - 1)) AND NOT (align - 1))"
    unfolding eq ua by simp
  have "(2 :: nat) ^ k = 2 ^ (k - 3) * 8" using power_add [of "2 :: nat" "k - 3" 3] k(1) by simp
  then have "unat (align mod kNeDMABestAlign) = 0" by (simp add: unat_mod kNeDMABestAlign_def ua)
  then show "align mod kNeDMABestAlign = 0" by (simp add: unat_eq_zero)
qed

section \<open>Allocation and freeing\<close>

lemma unat_pool: "unat kNeDMAPoolStart = 0x1000000" "unat kDmaPoolEnd = 0x2000000"
  by (simp_all add: dma_consts)

lemma pow2_align_le:
  assumes "pow2_align align"
  shows "unat align \<le> 2 ^ 63"
proof -
  obtain k where k: "align = 2 ^ k" "k < 64" using assms by (auto simp: pow2_align_def)
  then have "unat align = 2 ^ k"
    using unat_of_nat [of "2 ^ k", where ?'a = 64] power_strict_increasing [OF k(2), of "2 :: nat"] by simp
  moreover have "(2 :: nat) ^ k \<le> 2 ^ 63" using k(2) by (intro power_increasing) auto
  ultimately show ?thesis by simp
qed

text \<open>What an allocation with an alignment by a power of two does, in numbers.\<close>

lemma rtl_dma_alloc_exact:
  fixes s :: "'a dma_pool_scheme"
  assumes al: "pow2_align align" and ptr: "unat (kDmaPoolPtr s) \<le> unat kDmaPoolEnd" and sz: "unat sz < 2 ^ 62" "sz \<noteq> 0"
  defines "up \<equiv> (unat (kDmaPoolPtr s) + (unat align - 1)) div unat align * unat align"
  shows "up + unat sz \<le> unat kDmaPoolEnd \<Longrightarrow>
      \<exists>p. rtl_dma_alloc s sz align = (s\<lparr>kDmaPoolPtr := p + sz\<rparr>, p) \<and> unat p = up \<and> unat (p + sz) = up + unat sz"
    and "unat kDmaPoolEnd < up + unat sz \<Longrightarrow> rtl_dma_alloc s sz align = (s\<lparr>dma_error := kErrorDmaExhausted\<rparr>, 0)"
proof -
  define addr where "addr = (kDmaPoolPtr s + (align - 1)) AND NOT (align - 1)"
  have "unat (kDmaPoolPtr s) < 2 ^ 63" using ptr by (simp add: unat_pool)
  note r = dma_round [OF al this]
  have u: "unat addr = up" using r(1) by (simp add: addr_def up_def)
  have step: "rtl_dma_alloc s sz align =
      (if addr + sz > kDmaPoolEnd then (s\<lparr>dma_error := kErrorDmaExhausted\<rparr>, 0) else (s\<lparr>kDmaPoolPtr := addr + sz\<rparr>, addr))"
    using sz(2) r(3) by (simp add: rtl_dma_alloc_def addr_def Let_def)
  show "\<exists>p. rtl_dma_alloc s sz align = (s\<lparr>kDmaPoolPtr := p + sz\<rparr>, p) \<and> unat p = up \<and> unat (p + sz) = up + unat sz"
    if "up + unat sz \<le> unat kDmaPoolEnd"
  proof -
    have "unat (addr + sz) = up + unat sz" using that u by (simp add: unat_word_ariths unat_pool)
    then show ?thesis using that u step by (auto simp: word_less_nat_alt unat_pool)
  qed
  show "rtl_dma_alloc s sz align = (s\<lparr>dma_error := kErrorDmaExhausted\<rparr>, 0)" if "unat kDmaPoolEnd < up + unat sz"
  proof -
    have "unat align \<le> 2 ^ 63" by (rule pow2_align_le [OF al])
    moreover have "up \<le> unat (kDmaPoolPtr s) + (unat align - 1)" by (simp add: up_def)
    ultimately have "unat (addr + sz) = up + unat sz" using u ptr sz(1) by (simp add: unat_word_ariths unat_pool)
    then show ?thesis using that step by (simp add: word_less_nat_alt)
  qed
qed

lemma rtl_dma_alloc_free:
  assumes "rtl_dma_alloc s sz align = (s', p)" and "p \<noteq> 0" and "kNeDMAPoolStart \<le> p"
  shows "rtl_dma_free s' sz = s\<lparr>kDmaPoolPtr := p\<rparr>"
proof -
  have "sz \<noteq> 0" "s' = s\<lparr>kDmaPoolPtr := p + sz\<rparr>"
    using assms(1,2) by (auto simp: rtl_dma_alloc_def Let_def split: if_splits)
  then show ?thesis using assms(2,3) by (simp add: rtl_dma_free_def Let_def not_less)
qed

section \<open>Histories\<close>

text \<open>Blocks \<open>(address, size)\<close> that lie on each other in the pool, the last taken first.\<close>

fun stacked :: "nat \<Rightarrow> (u64 \<times> u64) list \<Rightarrow> bool" where
  "stacked hi [] \<longleftrightarrow> unat kNeDMAPoolStart \<le> hi"
| "stacked hi ((p, n) # live) \<longleftrightarrow> unat p + unat n \<le> hi \<and> stacked (unat p) live"

inductive dma_hist :: "dma_pool \<Rightarrow> (u64 \<times> u64) list \<Rightarrow> bool" where
  start: "dma_hist dma_start []"
| took: "dma_hist s live \<Longrightarrow> pow2_align align \<Longrightarrow> unat sz < 2 ^ 62 \<Longrightarrow> rtl_dma_alloc s sz align = (s', p) \<Longrightarrow> p \<noteq> 0
    \<Longrightarrow> dma_hist s' ((p, sz) # live)"
| refused: "dma_hist s live \<Longrightarrow> pow2_align align \<Longrightarrow> unat sz < 2 ^ 62 \<Longrightarrow> rtl_dma_alloc s sz align = (s', 0)
    \<Longrightarrow> dma_hist s' live"
| gave: "dma_hist s ((p, sz) # live) \<Longrightarrow> dma_hist (rtl_dma_free s sz) live"
| flushed: "dma_hist s live \<Longrightarrow> dma_hist (fst (rtl_dma_flush s p sz)) live"

lemma stacked_mono: "stacked hi live \<Longrightarrow> hi \<le> hi' \<Longrightarrow> stacked hi' live"
  by (cases live) auto

lemma stacked_start: "stacked hi live \<Longrightarrow> unat kNeDMAPoolStart \<le> hi"
  by (induction live arbitrary: hi) (auto, fastforce)

lemma stacked_below: "stacked hi live \<Longrightarrow> (q, n) \<in> set live \<Longrightarrow> unat kNeDMAPoolStart \<le> unat q \<and> unat q + unat n \<le> hi"
proof (induction live arbitrary: hi)
  case (Cons b live)
  obtain p k where b: "b = (p, k)" by fastforce
  have st: "unat p + unat k \<le> hi" "stacked (unat p) live" using Cons.prems(1) by (simp_all add: b)
  show ?case
  proof (cases "(q, n) = b")
    case True
    then show ?thesis using st stacked_start [OF st(2)] by (simp add: b)
  next
    case False
    then have "(q, n) \<in> set live" using Cons.prems(2) by simp
    from Cons.IH [OF st(2) this] st(1) show ?thesis by simp
  qed
qed simp

lemma dma_alloc_took:
  assumes "pow2_align align" and "unat (kDmaPoolPtr s) \<le> unat kDmaPoolEnd" and "unat sz < 2 ^ 62"
    and "rtl_dma_alloc s sz align = (s', p)" and "p \<noteq> 0"
  shows "s' = s\<lparr>kDmaPoolPtr := p + sz\<rparr> \<and> sz \<noteq> 0 \<and> unat (p + sz) = unat p + unat sz \<and> unat (p + sz) \<le> unat kDmaPoolEnd
    \<and> unat (kDmaPoolPtr s) \<le> unat p \<and> unat align dvd unat p"
proof -
  have sz: "sz \<noteq> 0" using assms(4,5) by (auto simp: rtl_dma_alloc_def)
  define up where "up = (unat (kDmaPoolPtr s) + (unat align - 1)) div unat align * unat align"
  note ex = rtl_dma_alloc_exact [OF assms(1-3) sz, folded up_def]
  have fit: "up + unat sz \<le> unat kDmaPoolEnd" using ex(2) assms(4,5) by (metis not_le snd_conv)
  have p: "s' = s\<lparr>kDmaPoolPtr := p + sz\<rparr>" "unat p = up" "unat (p + sz) = up + unat sz"
    using ex(1) [OF fit] assms(4) by auto
  have "unat (kDmaPoolPtr s) < 2 ^ 63" using assms(2) by (simp add: unat_pool)
  from dma_round [OF assms(1) this] have "unat (kDmaPoolPtr s) \<le> up" "unat align dvd up" by (simp_all add: up_def)
  then show ?thesis using p sz fit by simp
qed

lemma dma_alloc_refused:
  assumes "pow2_align align" and "unat (kDmaPoolPtr s) \<le> unat kDmaPoolEnd" and "unat sz < 2 ^ 62"
    and "unat kNeDMAPoolStart \<le> unat (kDmaPoolPtr s)" and "rtl_dma_alloc s sz align = (s', 0)"
  shows "kDmaPoolPtr s' = kDmaPoolPtr s
    \<and> (sz = 0 \<or> unat kDmaPoolEnd < (unat (kDmaPoolPtr s) + (unat align - 1)) div unat align * unat align + unat sz)"
proof (cases "sz = 0")
  case True
  then show ?thesis using assms(5) by (simp add: rtl_dma_alloc_def)
next
  case False
  define up where "up = (unat (kDmaPoolPtr s) + (unat align - 1)) div unat align * unat align"
  note ex = rtl_dma_alloc_exact [OF assms(1-3) False, folded up_def]
  have "unat (kDmaPoolPtr s) < 2 ^ 63" using assms(2) by (simp add: unat_pool)
  from dma_round [OF assms(1) this] have "unat (kDmaPoolPtr s) \<le> up" by (simp add: up_def)
  then have "\<not> up + unat sz \<le> unat kDmaPoolEnd" using ex(1) assms(4,5) by (auto simp: unat_pool)
  then have "unat kDmaPoolEnd < up + unat sz" by simp
  then show ?thesis using ex(2) assms(5) by (auto simp: up_def)
qed

lemma dma_hist_ok: "dma_hist s live \<Longrightarrow> stacked (unat (kDmaPoolPtr s)) live \<and> unat (kDmaPoolPtr s) \<le> unat kDmaPoolEnd"
proof (induction rule: dma_hist.induct)
  case start
  show ?case by (simp add: dma_start_def unat_pool)
next
  case (took s live align sz s' p)
  from dma_alloc_took [OF took.hyps(2) _ took.hyps(3-5)] took.IH
  have "s' = s\<lparr>kDmaPoolPtr := p + sz\<rparr>" "unat (p + sz) = unat p + unat sz" "unat (p + sz) \<le> unat kDmaPoolEnd"
    "unat (kDmaPoolPtr s) \<le> unat p" by simp_all
  then show ?case using took.IH stacked_mono by auto
next
  case (refused s live align sz s')
  have "unat kNeDMAPoolStart \<le> unat (kDmaPoolPtr s)" using refused.IH stacked_start by blast
  then have "kDmaPoolPtr s' = kDmaPoolPtr s"
    using dma_alloc_refused [OF refused.hyps(2) _ refused.hyps(3) _ refused.hyps(4)] refused.IH by simp
  then show ?case using refused.IH by simp
next
  case (gave s p sz live)
  let ?c = "kDmaPoolPtr s"
  have st: "unat p + unat sz \<le> unat ?c" "stacked (unat p) live" "unat ?c \<le> unat kDmaPoolEnd" using gave.IH by simp_all
  have sub: "unat (?c - sz) = unat ?c - unat sz" using st(1) by (simp add: unat_sub_if')
  have "unat kNeDMAPoolStart \<le> unat p" by (rule stacked_start [OF st(2)])
  then have "kNeDMAPoolStart \<le> ?c - sz" "?c - sz \<noteq> 0"
    using sub st(1) by (auto simp: word_le_nat_alt unat_pool unat_eq_zero)
  then have "sz \<noteq> 0 \<Longrightarrow> kDmaPoolPtr (rtl_dma_free s sz) = ?c - sz" by (simp add: rtl_dma_free_def Let_def not_less)
  moreover have "sz = 0 \<Longrightarrow> rtl_dma_free s sz = s" by (simp add: rtl_dma_free_def)
  ultimately show ?case using st sub stacked_mono [OF st(2)] by (cases "sz = 0") auto
next
  case (flushed s live p sz)
  then show ?case by (auto simp: rtl_dma_flush_def)
qed
lemma stacked_pairs:
  "stacked hi live \<Longrightarrow> \<forall>i < length live. \<forall>j < i. unat (fst (live ! i)) + unat (snd (live ! i)) \<le> unat (fst (live ! j))"
proof (induction live arbitrary: hi)
  case (Cons b live)
  have st: "stacked (unat (fst b)) live" using Cons.prems by (cases b) simp
  show ?case
  proof (intro allI impI)
    fix i j
    assume i: "i < length (b # live)" "j < i"
    then obtain i' where i': "i = Suc i'" "i' < length live" by (cases i) auto
    show "unat (fst ((b # live) ! i)) + unat (snd ((b # live) ! i)) \<le> unat (fst ((b # live) ! j))"
    proof (cases j)
      case 0
      have "(fst (live ! i'), snd (live ! i')) \<in> set live" using i'(2) by simp
      from stacked_below [OF st this] show ?thesis by (simp add: 0 i')
    next
      case (Suc j')
      then show ?thesis using Cons.IH [OF st] i i' by simp
    qed
  qed
qed simp

lemma round_up_multiple: "0 < a \<Longrightarrow> (a * m + (a - 1)) div a * a = a * m" for a m :: nat
  using div_mult_self2 [of a "a - 1" m] by (simp add: add.commute)

lemma dma_alloc_at:
  assumes "pow2_align align" and "unat sz < 2 ^ 62" and "sz \<noteq> 0" and "unat align dvd unat p"
    and "unat p + unat sz \<le> unat kDmaPoolEnd"
  shows "snd (rtl_dma_alloc (s\<lparr>kDmaPoolPtr := p\<rparr>) sz align) = p"
proof -
  have "align \<noteq> 0" using assms(1) by (auto simp: pow2_align_def)
  then have "0 < unat align" by (simp add: unat_gt_0)
  moreover obtain m where "unat p = unat align * m" using assms(4) by blast
  ultimately have up: "(unat p + (unat align - 1)) div unat align * unat align = unat p"
    using round_up_multiple [of "unat align" m] by simp
  have le: "unat (kDmaPoolPtr (s\<lparr>kDmaPoolPtr := p\<rparr>)) \<le> unat kDmaPoolEnd" using assms(5) by simp
  from rtl_dma_alloc_exact(1) [OF assms(1) le assms(2,3)] up assms(5)
  have "\<exists>q. rtl_dma_alloc (s\<lparr>kDmaPoolPtr := p\<rparr>) sz align = (s\<lparr>kDmaPoolPtr := q + sz\<rparr>, q) \<and> unat q = unat p" by auto
  then show ?thesis by (auto simp: word_unat_eq_iff)
qed

section \<open>Properties\<close>




text \<open>
  An allocation with alignment 0 destroys the pool.  The alignment passes the check, the rounding
  mask becomes 0 and the address is null: the caller is told that there is no memory, yet the cursor
  is set to the size itself, below the pool.  The next allocation then gives out memory from there,
  which is outside the pool.  The network driver asks for its receive buffer with this alignment.
\<close>

theorem dma_align_zero_leaves_pool:
  assumes "sz \<noteq> 0" and "sz < kNeDMAPoolStart" and "pow2_align align" and "n \<noteq> 0"
    and "(unat sz + (unat align - 1)) div unat align * unat align + unat n \<le> unat kNeDMAPoolStart"
  shows "rtl_dma_alloc s sz 0 = (s\<lparr>kDmaPoolPtr := sz\<rparr>, 0)
    \<and> (\<exists>p. rtl_dma_alloc (s\<lparr>kDmaPoolPtr := sz\<rparr>) n align = (s\<lparr>kDmaPoolPtr := p + n\<rparr>, p)
          \<and> sz \<le> p \<and> p \<noteq> 0 \<and> unat p + unat n \<le> unat kNeDMAPoolStart)"
proof -
  have "\<not> kDmaPoolEnd < sz" using assms(2) by (auto simp: word_less_nat_alt unat_pool)
  then have A: "rtl_dma_alloc s sz 0 = (s\<lparr>kDmaPoolPtr := sz\<rparr>, 0)" using assms(1) by (simp add: rtl_dma_alloc_def)
  let ?s = "s\<lparr>kDmaPoolPtr := sz\<rparr>"
  have sz: "unat sz < 0x1000000" using assms(2) by (simp add: word_less_nat_alt unat_pool)
  have le: "unat (kDmaPoolPtr ?s) \<le> unat kDmaPoolEnd" "unat n < 2 ^ 62" using sz assms(5) by (simp_all add: unat_pool)
  from rtl_dma_alloc_exact(1) [OF assms(3) le assms(4)] assms(5)
  obtain p where p: "rtl_dma_alloc ?s n align = (s\<lparr>kDmaPoolPtr := p + n\<rparr>, p)"
    "unat p = (unat sz + (unat align - 1)) div unat align * unat align" by (auto simp: unat_pool)
  have "unat sz \<le> unat p" using dma_round(1,2) [OF assms(3), of sz] p(2) sz by simp
  then have "sz \<le> p" "p \<noteq> 0" using assms(1) by (auto simp: word_le_nat_alt unat_eq_zero)
  then show ?thesis using A p assms(5) by auto
qed

theorem dma_align_zero_leaves_pool_witness:
  "rtl_dma_alloc dma_start 9708 0 = (dma_start\<lparr>kDmaPoolPtr := 9708\<rparr>, 0)
    \<and> (\<exists>p. rtl_dma_alloc (dma_start\<lparr>kDmaPoolPtr := 9708\<rparr>) 512 0x1000 = (dma_start\<lparr>kDmaPoolPtr := p + 512\<rparr>, p)
          \<and> 9708 \<le> p \<and> p \<noteq> 0 \<and> unat p + unat (512 :: u64) \<le> unat kNeDMAPoolStart)"
proof -
  have "pow2_align 0x1000" unfolding pow2_align_def by (rule exI [of _ 12], simp)
  from dma_align_zero_leaves_pool [OF _ _ this, of 9708 512 dma_start] show ?thesis by (simp add: unat_pool kNeDMAPoolStart_def)
qed

end
