(* ===== verification/AhciDriver.thy ===== *)
theory AhciDriver
  imports Paging DmaPool
begin

text \<open>
  The AHCI disk driver, \<^verbatim>\<open>HALKit/AMD64/Storage/AHCI+Generic.cpp\<close>, with the structures of
  \<^verbatim>\<open>modules/AHCI/AHCI.h\<close>.  \<open>ahci\<close> extends the machine by the pool for transfers, whose error field
  stands for \<open>err_global_get()\<close>, the registers that the driver writes (\<open>Cmd\<close>, \<open>Ci\<close> and
  \<open>Bohc\<close> are the last values written), and the driver's static variables.  Command headers and tables are bytes of memory at the offsets of the
  structures; bit fields are written by read, mask and write.

  \<open>hba_env\<close> is the device's side of one command: the values that the polled registers give at the
  n-th read, and what the device does to memory between the issue and the completion of the command.
  A command may wait forever for the device, so it is an option; \<open>Stop\<close> is a failed \<open>MUST_PASS\<close> in a
  debugging kernel.
\<close>

record ahci = hw +
  apool :: dma_pool
  Clb :: u32
  Clbu :: u32
  Cmd :: u32
  Ci :: u32
  Bohc :: u32
  kSATAIndex :: u16
  kIdentifyData :: u64
  kSATASectorCount :: u64
  kCurrentDiskModel :: "u8 list"
  kSATAPortsImplemented :: u16

record hba_env =
  slots_read :: "nat \<Rightarrow> u32"
  ci_read :: "nat \<Rightarrow> u32"
  hba_is :: u32
  tfd_read :: "nat \<Rightarrow> u32"
  hba_device :: "mem \<Rightarrow> mem"

definition kAHCISectorSize :: u64 where "kAHCISectorSize = 512"
definition kSATAPortCnt :: nat where "kSATAPortCnt = 0x20"
definition kSATAErrTaskFile :: u32 where "kSATAErrTaskFile = push_bit 30 1"
definition kSATASRBsy :: u32 where "kSATASRBsy = 0x80"
definition kSATASRDrq :: u32 where "kSATASRDrq = 0x08"
definition kSATALBAMode :: u8 where "kSATALBAMode = push_bit 6 1"
definition kAhciTimeout :: nat where "kAhciTimeout = 0x8000"

definition set_ahci_err :: "int \<Rightarrow> 'a ahci_scheme \<Rightarrow> 'a ahci_scheme" where
  "set_ahci_err e s = s\<lparr>apool := (apool s)\<lparr>dma_error := e\<rparr>\<rparr>"

section \<open>Command slots\<close>

text \<open>The search of the first clear bit, from slot \<open>i\<close> with \<open>n\<close> slots left; the result is an \<open>Int32\<close>.\<close>

fun find_slot_loop :: "u32 \<Rightarrow> nat \<Rightarrow> nat \<Rightarrow> int" where
  "find_slot_loop slots i 0 = -1"
| "find_slot_loop slots i (Suc n) = (if slots AND push_bit i 1 = 0 then int i else find_slot_loop slots (Suc i) n)"

definition drv_find_cmd_slot_ahci :: "u32 \<Rightarrow> int" where
  "drv_find_cmd_slot_ahci slots = find_slot_loop slots 0 kSATAPortCnt"

text \<open>The wait for a free slot: the search again until the counter passes the limit.\<close>

function slot_wait :: "(nat \<Rightarrow> u32) \<Rightarrow> nat \<Rightarrow> int \<Rightarrow> int option" where
  "slot_wait rd timeout slot =
     (if slot \<noteq> -1 then Some slot
      else if timeout > kAhciTimeout then None
      else slot_wait rd (Suc timeout) (drv_find_cmd_slot_ahci (rd (Suc timeout))))"
  by pat_completeness auto
termination by (relation "measure (\<lambda>(rd, timeout, slot). Suc kAhciTimeout - timeout)") auto

declare slot_wait.simps [simp del]

section \<open>Building a command\<close>

text \<open>Offsets in \<open>HbaCmdHeader\<close>, \<open>HbaCmdTbl\<close>, \<open>HbaPrdtEntry\<close> and \<open>FisRegH2D\<close>, and their sizes.\<close>

definition sizeof_HbaCmdHeader :: u64 where "sizeof_HbaCmdHeader = 32"
definition sizeof_HbaCmdTbl :: u64 where "sizeof_HbaCmdTbl = 144"
definition sizeof_HbaPrdtEntry :: u64 where "sizeof_HbaPrdtEntry = 16"
definition sizeof_FisRegH2D :: u64 where "sizeof_FisRegH2D = 20"
definition prdt_off :: u64 where "prdt_off = 128"

definition kFISTypeRegH2D :: u8 where "kFISTypeRegH2D = 0x27"
definition kAHCICmdIdentify :: u8 where "kAHCICmdIdentify = 0xEC"
definition kAHCICmdReadDmaEx :: u8 where "kAHCICmdReadDmaEx = 0x25"
definition kAHCICmdWriteDmaEx :: u8 where "kAHCICmdWriteDmaEx = 0x35"

text \<open>One entry of the table of regions: address, byte count less one in 22 bits, no interrupt.\<close>

definition put_prd :: "mem \<Rightarrow> u64 \<Rightarrow> u64 \<Rightarrow> u64 \<Rightarrow> mem" where
  "put_prd m prd buffer_phys chunk =
     (let m = store_le 4 m prd (buffer_phys AND 0xFFFFFFFF);
          m = store_le 4 m (prd + 4) (drop_bit 32 buffer_phys);
          m = store_le 4 m (prd + 12) ((load_le 4 m (prd + 12) AND NOT (mask 22)) OR take_bit 22 (chunk - 1))
      in store_le 4 m (prd + 12) (load_le 4 m (prd + 12) AND NOT (push_bit 31 1)))"

function prdt_loop :: "mem \<Rightarrow> u64 \<Rightarrow> u64 \<Rightarrow> u64 \<Rightarrow> u64 \<Rightarrow> mem \<times> u64" where
  "prdt_loop m prdt buffer_phys bytes_remaining prdt_index =
     (if bytes_remaining > 0 then
        let chunk_size = (if bytes_remaining > 32 * 1024 then 32 * 1024 else bytes_remaining)
        in prdt_loop (put_prd m (prdt + sizeof_HbaPrdtEntry * prdt_index) buffer_phys chunk_size) prdt
             (buffer_phys + chunk_size) (bytes_remaining - chunk_size) (prdt_index + 1)
      else (m, prdt_index))"
  by pat_completeness auto
termination
  by (relation "measure (\<lambda>(m, prdt, buffer_phys, bytes_remaining, prdt_index). unat bytes_remaining)")
    (auto simp: word_less_nat_alt unat_sub_if' split: if_splits)

declare prdt_loop.simps [simp del]

definition set_ie :: "mem \<Rightarrow> u64 \<Rightarrow> mem" where
  "set_ie m prd = store_le 4 m (prd + 12) (load_le 4 m (prd + 12) OR push_bit 31 1)"

text \<open>The header: length of the region table, length of the frame in words, direction.\<close>

definition put_header :: "mem \<Rightarrow> u64 \<Rightarrow> u64 \<Rightarrow> bool \<Rightarrow> mem" where
  "put_header m hdr prdtl wr =
     (let m = store_le 2 m (hdr + 2) prdtl;
          m = m(hdr := (m hdr AND NOT 0x1F) OR take_bit 5 (ucast (sizeof_FisRegH2D div 4)))
      in m(hdr := (m hdr AND NOT 0x40) OR (if wr then 0x40 else 0)))"

text \<open>The frame; its other bytes keep the zeros of the cleared table.\<close>

definition put_fis :: "mem \<Rightarrow> u64 \<Rightarrow> bool \<Rightarrow> bool \<Rightarrow> bool \<Rightarrow> u64 \<Rightarrow> u64 \<Rightarrow> mem" where
  "put_fis m fis wr cmd_or_ctrl ident lba size_buffer =
     (let m = m(fis := kFISTypeRegH2D);
          m = m(fis + 1 := (m (fis + 1) AND NOT 0x80) OR (if cmd_or_ctrl then 0x80 else 0));
          m = m(fis + 2 := (if ident then kAHCICmdIdentify else if wr then kAHCICmdWriteDmaEx else kAHCICmdReadDmaEx));
          m = m(fis + 4 := ucast (lba AND 0xFF));
          m = m(fis + 5 := ucast (drop_bit 8 lba AND 0xFF));
          m = m(fis + 6 := ucast (drop_bit 16 lba AND 0xFF));
          m = m(fis + 8 := ucast (drop_bit 24 lba AND 0xFF));
          m = m(fis + 9 := ucast (drop_bit 32 lba AND 0xFF));
          m = m(fis + 10 := ucast (drop_bit 40 lba AND 0xFF));
          m = m(fis + 7 := 0)
      in if ident then m(fis + 12 := 1, fis + 13 := 0)
         else m(fis + 7 := kSATALBAMode, fis + 12 := ucast ((size_buffer div kAHCISectorSize) AND 0xFF),
                fis + 13 := ucast (drop_bit 8 (size_buffer div kAHCISectorSize) AND 0xFF)))"

definition cmd_header :: "'a ahci_scheme \<Rightarrow> int \<Rightarrow> u64" where
  "cmd_header s slot = ucast (Clb s) + sizeof_HbaCmdHeader * word_of_int slot"

definition cmd_table :: "mem \<Rightarrow> u64 \<Rightarrow> u64" where
  "cmd_table m hdr = push_bit 32 (load_le 4 m (hdr + 12)) OR load_le 4 m (hdr + 8)"

text \<open>
  From the cleared table to the filled one; the result holds the address of the transfer buffer.
  After the loop no bytes remain, so the branch that reports an overflow of the table is dead.
\<close>

definition ahci_build :: "bool \<Rightarrow> bool \<Rightarrow> bool \<Rightarrow> 'a ahci_scheme \<Rightarrow> u64 \<Rightarrow> u64 \<Rightarrow> u64 \<Rightarrow> u64 \<Rightarrow> u64 \<Rightarrow> 'a ahci_scheme \<times> u64" where
  "ahci_build wr cmd_or_ctrl ident s hdr tbl lba buffer size_buffer =
     (let m = fst (rt_set_memory (ram s) tbl 0 sizeof_HbaCmdTbl);
          (p, ptr) = rtl_dma_alloc (apool s) size_buffer (4 * 1024);
          p = fst (rtl_dma_flush p ptr size_buffer);
          m = (if wr then fst (rt_copy_memory m buffer ptr size_buffer) else m);
          p = fst (rtl_dma_flush p ptr size_buffer);
          (m, prdt_index) = prdt_loop m (tbl + prdt_off) ptr size_buffer 0;
          m = set_ie m (tbl + prdt_off + sizeof_HbaPrdtEntry * (prdt_index - 1));
          m = put_header m hdr prdt_index wr;
          m = put_fis m tbl wr cmd_or_ctrl ident lba size_buffer;
          p = fst (rtl_dma_flush p ptr size_buffer)
      in (s\<lparr>ram := m, apool := p\<rparr>, ptr))"

section \<open>Completion\<close>

text \<open>The poll of the issue register: \<open>True\<close> when the device clears the bit within the limit.\<close>

function ci_wait :: "(nat \<Rightarrow> u32) \<Rightarrow> u32 \<Rightarrow> nat \<Rightarrow> bool" where
  "ci_wait rd slot_bit timeout =
     (if timeout > kAhciTimeout then False
      else if rd timeout AND slot_bit = 0 then True
      else ci_wait rd slot_bit (Suc timeout))"
  by pat_completeness auto
termination by (relation "measure (\<lambda>(rd, slot_bit, timeout). Suc kAhciTimeout - timeout)") auto

declare ci_wait.simps [simp del]

definition tfd_busy :: "u32 \<Rightarrow> bool" where
  "tfd_busy v \<longleftrightarrow> v AND (kSATASRBsy OR kSATASRDrq) \<noteq> 0"

partial_function (option) tfd_spin :: "(nat \<Rightarrow> u32) \<Rightarrow> nat \<Rightarrow> nat option" where
  "tfd_spin rd n = (if tfd_busy (rd n) then tfd_spin rd (Suc n) else Some n)"

definition ahci_finish :: "hba_env \<Rightarrow> bool \<Rightarrow> 'a ahci_scheme \<Rightarrow> u64 \<Rightarrow> u64 \<Rightarrow> u64 \<Rightarrow> 'a ahci_scheme option" where
  "ahci_finish env wr s ptr buffer size_buffer =
     (let flush = (\<lambda>s. s\<lparr>apool := fst (rtl_dma_flush (apool s) ptr size_buffer)\<rparr>);
          release = (\<lambda>s. s\<lparr>apool := rtl_dma_free (apool s) size_buffer\<rparr>);
          s = flush s
      in if hba_is env AND kSATAErrTaskFile \<noteq> 0 then Some (set_ahci_err kErrorDiskIsCorrupted (release s))
         else
           let s = (if \<not> wr then
                      let s = flush s;
                          s = s\<lparr>ram := fst (rt_copy_memory (ram s) ptr buffer size_buffer)\<rparr>
                      in flush s
                    else s)
           in case (if tfd_busy (tfd_read env 0) then tfd_spin (tfd_read env) 1 else Some 0) of
                None \<Rightarrow> None
              | Some _ \<Rightarrow> Some (set_ahci_err kErrorSuccess (release s)))"

text \<open>\<open>drv_std_input_output_ahci\<close>; the three flags are its template parameters.\<close>

definition drv_std_input_output_ahci ::
    "bool \<Rightarrow> hba_env \<Rightarrow> bool \<Rightarrow> bool \<Rightarrow> bool \<Rightarrow> 'a ahci_scheme \<Rightarrow> u64 \<Rightarrow> u64 \<Rightarrow> u64 \<Rightarrow> u64 \<Rightarrow> 'a ahci_scheme outcome option" where
  "drv_std_input_output_ahci debug env wr cmd_or_ctrl ident s lba buffer sector_sz size_buffer =
     (if sector_sz = 0 then Some (Ret (set_ahci_err kErrorDisk s))
      else
        let lba = lba div sector_sz
        in if buffer = 0 \<or> size_buffer = 0 then Some (Ret (set_ahci_err kErrorDisk s))
           else case slot_wait (slots_read env) 0 (drv_find_cmd_slot_ahci (slots_read env 0)) of
             None \<Rightarrow> Some (Ret (set_ahci_err kErrorDisk s))
           | Some slot \<Rightarrow>
               let hdr = cmd_header s slot; tbl = cmd_table (ram s) hdr
               in if debug \<and> (hdr = 0 \<or> tbl = 0) then Some Stop
                  else
                    let (s, ptr) = ahci_build wr cmd_or_ctrl ident s hdr tbl lba buffer size_buffer;
                        s = s\<lparr>Ci := push_bit (nat slot) 1\<rparr>;
                        s = s\<lparr>ram := hba_device env (ram s)\<rparr>
                    in if \<not> ci_wait (ci_read env) (push_bit (nat slot) 1) 0 then
                         Some (Ret (s\<lparr>apool := rtl_dma_free ((apool s)\<lparr>dma_error := kErrorDiskIsCorrupted\<rparr>) size_buffer\<rparr>))
                       else map_option Ret (ahci_finish env wr s ptr buffer size_buffer))"

definition drv_std_write_ahci :: "bool \<Rightarrow> hba_env \<Rightarrow> 'a ahci_scheme \<Rightarrow> u64 \<Rightarrow> u64 \<Rightarrow> u64 \<Rightarrow> u64 \<Rightarrow> 'a ahci_scheme outcome option" where
  "drv_std_write_ahci debug env s lba buffer sector_sz size_buffer =
     drv_std_input_output_ahci debug env True True False s lba buffer sector_sz size_buffer"

definition drv_std_read_ahci :: "bool \<Rightarrow> hba_env \<Rightarrow> 'a ahci_scheme \<Rightarrow> u64 \<Rightarrow> u64 \<Rightarrow> u64 \<Rightarrow> u64 \<Rightarrow> 'a ahci_scheme outcome option" where
  "drv_std_read_ahci debug env s lba buffer sector_sz size_buffer =
     drv_std_input_output_ahci debug env False True False s lba buffer sector_sz size_buffer"

text \<open>
  The device interface of \<open>StorageKit\<close>; \<open>disk\<close> is the packet (address, content, size) of the drive
  that the mount point has at the device's index, \<open>None\<close> for a null device or drive.
\<close>

definition sk_io_ahci :: "bool \<Rightarrow> hba_env \<Rightarrow> bool \<Rightarrow> 'a ahci_scheme \<Rightarrow> (u64 \<times> u64 \<times> u64) option \<Rightarrow> 'a ahci_scheme outcome option" where
  "sk_io_ahci debug env wr s disk =
     (case disk of
        None \<Rightarrow> Some (Ret (set_ahci_err kErrorDisk s))
      | Some (fPacketLba, fPacketContent, fPacketSize) \<Rightarrow>
          drv_std_input_output_ahci debug env wr True False (set_ahci_err kErrorSuccess s)
            (fPacketLba div kAHCISectorSize) fPacketContent kAHCISectorSize fPacketSize)"

section \<open>Bringing up a disk\<close>

definition identify_word :: "mem \<Rightarrow> u64 \<Rightarrow> nat \<Rightarrow> u64" where
  "identify_word m a i = load_le 2 m (a + 2 * of_nat i)"

text \<open>The 28-bit count is computed in \<open>int\<close> and then widened, so it is sign-extended.\<close>

definition identify_count :: "mem \<Rightarrow> u64 \<Rightarrow> u64" where
  "identify_count m a =
     (let w = identify_word m a;
          lba48_sectors = w 100 OR push_bit 16 (w 101) OR push_bit 32 (w 102)
      in if lba48_sectors = 0 then scast (ucast (push_bit 16 (w 61) OR w 60) :: u32) else lba48_sectors)"

definition identify_model :: "mem \<Rightarrow> u64 \<Rightarrow> u8 list" where
  "identify_model m a =
     concat (map (\<lambda>i. [ucast (drop_bit 8 (identify_word m a (27 + i)) AND 0xFF), ucast (identify_word m a (27 + i) AND 0xFF)]) [0 ..< 20]) @ [0]"

definition drv_compute_disk_ahci :: "bool \<Rightarrow> hba_env \<Rightarrow> 'a ahci_scheme \<Rightarrow> 'a ahci_scheme outcome option" where
  "drv_compute_disk_ahci debug env s =
     (let s = s\<lparr>kSATASectorCount := 0, ram := fst (rt_set_memory (ram s) (kIdentifyData s) 0 kAHCISectorSize)\<rparr>
      in map_option (\<lambda>r. case r of
             Stop \<Rightarrow> Stop
           | Ret s \<Rightarrow> Ret (s\<lparr>kSATASectorCount := identify_count (ram s) (kIdentifyData s),
                          kCurrentDiskModel := identify_model (ram s) (kIdentifyData s) @ drop 41 (kCurrentDiskModel s)\<rparr>))
           (drv_std_input_output_ahci debug env False True True s 0 (kIdentifyData s) kAHCISectorSize kAHCISectorSize))"

definition drv_get_sector_count_ahci :: "'a ahci_scheme \<Rightarrow> u64" where
  "drv_get_sector_count_ahci s = kSATASectorCount s"

definition drv_get_size_ahci :: "'a ahci_scheme \<Rightarrow> u64" where
  "drv_get_size_ahci s = drv_get_sector_count_ahci s * kAHCISectorSize"

text \<open>The command list and the 32 command tables.\<close>

fun cmd_tables_loop :: "'a ahci_scheme \<Rightarrow> u64 \<Rightarrow> nat \<Rightarrow> nat \<Rightarrow> 'a ahci_scheme \<times> bool" where
  "cmd_tables_loop s header i 0 = (s, True)"
| "cmd_tables_loop s header i (Suc n) =
     (let (p, ct_mem) = rtl_dma_alloc (apool s) 4096 128; s = s\<lparr>apool := p\<rparr>
      in if ct_mem = 0 then (s, False)
         else let ct_phys = mm_get_page_addr s ct_mem;
                  h = header + sizeof_HbaCmdHeader * of_nat i;
                  m = store_le 4 (ram s) (h + 8) (ct_phys AND 0xFFFFFFFF);
                  m = store_le 4 m (h + 12) (drop_bit 32 ct_phys);
                  m = fst (rt_set_memory m ct_mem 0 4096)
              in cmd_tables_loop (s\<lparr>ram := m\<rparr>) header (Suc i) n)"

definition drv_init_command_structures_ahci :: "'a ahci_scheme \<Rightarrow> 'a ahci_scheme \<times> bool" where
  "drv_init_command_structures_ahci s =
     (let (p, clb_mem) = rtl_dma_alloc (apool s) 4096 1024; s = s\<lparr>apool := p\<rparr>
      in if clb_mem = 0 then (s, False)
         else let clb_phys = mm_get_page_addr s clb_mem;
                  s = s\<lparr>Clb := ucast (clb_phys AND 0xFFFFFFFF), Clbu := ucast (drop_bit 32 clb_phys)\<rparr>;
                  s = s\<lparr>ram := fst (rt_set_memory (ram s) clb_mem 0 (4 * 1024))\<rparr>
              in cmd_tables_loop s clb_mem 0 32)"

text \<open>
  The registers of a controller that the bring-up reads.  \<open>cmd_rd\<close> and \<open>bohc_rd\<close> are polled; the status
  and signature of a port do not change while the driver looks for a disk.
\<close>

record hba_regs =
  hba_bar :: u64
  Cap :: u32
  Pi :: u32
  Ssts :: "nat \<Rightarrow> u32"
  Sig :: "nat \<Rightarrow> u32"
  cmd_rd :: "nat \<Rightarrow> u32"
  bohc_rd :: "nat \<Rightarrow> u32"

definition kSATAPxCmdST :: u32 where "kSATAPxCmdST = 0x0001"
definition kSATAPxCmdFre :: u32 where "kSATAPxCmdFre = 0x0010"
definition kSATAPxCmdFR :: u32 where "kSATAPxCmdFR = 0x4000"
definition kSATAPxCmdCR :: u32 where "kSATAPxCmdCR = 0x8000"
definition kSATABohcBiosOwned :: u32 where "kSATABohcBiosOwned = 1"
definition kSATABohcOSOwned :: u32 where "kSATABohcOSOwned = 2"
definition kSATASig :: u32 where "kSATASig = 0x101"
definition kSATAPISig :: u32 where "kSATAPISig = 0xEB140101"

partial_function (option) cmd_spin :: "(nat \<Rightarrow> u32) \<Rightarrow> nat \<Rightarrow> nat option" where
  "cmd_spin rd n =
     (if rd n AND kSATAPxCmdCR \<noteq> 0 then cmd_spin rd (Suc n)
      else if rd (Suc n) AND kSATAPxCmdFR \<noteq> 0 then cmd_spin rd (Suc (Suc n))
      else Some n)"

partial_function (option) bohc_spin :: "(nat \<Rightarrow> u32) \<Rightarrow> nat \<Rightarrow> nat option" where
  "bohc_spin rd n = (if rd n AND kSATABohcBiosOwned \<noteq> 0 then bohc_spin rd (Suc n) else Some n)"

definition ahci_enable_and_probe :: "bool \<Rightarrow> hba_env \<Rightarrow> hba_regs \<Rightarrow> 'a ahci_scheme \<Rightarrow> ('a ahci_scheme \<times> bool) outcome option" where
  "ahci_enable_and_probe debug env hba s =
     (if Cap hba = 0 then Some (Ret (s, False))
      else
        let s = s\<lparr>Cmd := cmd_rd hba 0 AND NOT kSATAPxCmdFre\<rparr>;
            s = s\<lparr>Cmd := cmd_rd hba 1 AND NOT kSATAPxCmdST\<rparr>
        in case cmd_spin (cmd_rd hba) 2 of
             None \<Rightarrow> None
           | Some n \<Rightarrow>
               let s = s\<lparr>Cmd := cmd_rd hba (n + 2) OR kSATAPxCmdFre\<rparr>;
                   s = s\<lparr>Cmd := cmd_rd hba (n + 3) OR kSATAPxCmdST\<rparr>;
                   owned = bohc_rd hba 0 AND kSATABohcBiosOwned \<noteq> 0;
                   s = (if owned then s\<lparr>Bohc := bohc_rd hba 1 OR kSATABohcOSOwned\<rparr> else s)
               in case (if owned then bohc_spin (bohc_rd hba) 2 else Some 0) of
                    None \<Rightarrow> None
                  | Some _ \<Rightarrow> map_option (\<lambda>r. case r of Stop \<Rightarrow> Stop | Ret s \<Rightarrow> Ret (s, True)) (drv_compute_disk_ahci debug env s))"

text \<open>
  The search of the ports: \<open>None\<close> when it never ends, \<open>Some None\<close> when no port has a disk.  A port
  without an active device does not advance the search.
\<close>

definition port_active :: "hba_regs \<Rightarrow> nat \<Rightarrow> bool" where
  "port_active hba i \<longleftrightarrow> Ssts hba i AND 0x0F = 3 \<and> drop_bit 8 (Ssts hba i) AND 0x0F = 1"

definition port_match :: "hba_regs \<Rightarrow> bool \<Rightarrow> nat \<Rightarrow> bool" where
  "port_match hba atapi i \<longleftrightarrow> Sig hba i = kSATASig \<or> atapi \<and> kSATAPISig = Sig hba i"

partial_function (option) port_scan :: "hba_regs \<Rightarrow> bool \<Rightarrow> u32 \<Rightarrow> nat \<Rightarrow> nat option option" where
  "port_scan hba atapi ports_implemented ahci_index =
     (if ports_implemented = 0 then Some None
      else if \<not> port_active hba ahci_index then port_scan hba atapi ports_implemented ahci_index
      else if port_match hba atapi ahci_index then Some (Some ahci_index)
      else port_scan hba atapi (drop_bit 1 ports_implemented) (Suc ahci_index))"

text \<open>
  \<open>drv_std_init_ahci\<close> over the controllers that the PCI iterator gives (\<open>None\<close>: a device of another
  class); the writes to their configuration space are not modelled.  The last argument is \<open>pi\<close>.
\<close>

fun ahci_devices :: "bool \<Rightarrow> hba_env \<Rightarrow> hba_regs option list \<Rightarrow> bool \<Rightarrow> 'a ahci_scheme \<Rightarrow> u16 \<Rightarrow> ('a ahci_scheme \<times> u16 \<times> bool) outcome option" where
  "ahci_devices debug env [] atapi s pi = Some (Ret (set_ahci_err kErrorDisk s, pi, False))"
| "ahci_devices debug env (None # ds) atapi s pi = ahci_devices debug env ds atapi s pi"
| "ahci_devices debug env (Some hba # ds) atapi s pi =
     (let s = fst (mm_map_page s (hba_bar hba) (hba_bar hba) (kMMFlagsPresent OR kMMFlagsWr OR kMMFlagsPCD OR kMMFlagsPwt) 2);
          pi = ucast (Pi hba)
      in if pi < 1 then ahci_devices debug env ds atapi s pi
         else case port_scan hba atapi (Pi hba) 0 of
           None \<Rightarrow> None
         | Some None \<Rightarrow> ahci_devices debug env ds atapi s pi
         | Some (Some i) \<Rightarrow>
             let (s, ok) = drv_init_command_structures_ahci (s\<lparr>kSATAIndex := of_nat i\<rparr>);
                 s = (if ok then s else set_ahci_err kErrorDisk s)
             in map_option (\<lambda>r. case r of
                    Stop \<Rightarrow> Stop
                  | Ret (s, enabled) \<Rightarrow>
                      let s = (if enabled then set_ahci_err kErrorSuccess s else s)
                      in Ret (s, pi, dma_error (apool s) = kErrorSuccess))
                  (ahci_enable_and_probe debug env hba s))"

definition drv_std_init_ahci :: "bool \<Rightarrow> hba_env \<Rightarrow> hba_regs option list \<Rightarrow> bool \<Rightarrow> 'a ahci_scheme \<Rightarrow> u16 \<Rightarrow> ('a ahci_scheme \<times> u16 \<times> bool) outcome option" where
  "drv_std_init_ahci debug env devices atapi s pi = ahci_devices debug env devices atapi s pi"

definition sk_init_ahci_device :: "bool \<Rightarrow> hba_env \<Rightarrow> hba_regs option list \<Rightarrow> bool \<Rightarrow> 'a ahci_scheme \<Rightarrow> ('a ahci_scheme \<times> u16) outcome option" where
  "sk_init_ahci_device debug env devices atapi s =
     map_option (\<lambda>r. case r of
         Stop \<Rightarrow> Stop
       | Ret (s, pi, ok) \<Rightarrow> Ret (if ok then s\<lparr>kSATAPortsImplemented := pi\<rparr> else s, pi))
       (drv_std_init_ahci debug env devices atapi s 0)"

end
