(* ===== verification/AhciDisk.thy ===== *)
theory AhciDisk
  imports AhciDriver
begin

text \<open>
  What the AHCI driver does: the lemmas and properties of \<open>AhciDriver\<close>.  The command that a transfer
  builds in memory, its completion and its waits, the search of the ports, the command list and tables
  that are laid out in the pool, and the answer to the identify command.  Memory is reasoned about by
  frames: \<open>outside a n x\<close> says that the address \<open>x\<close> is not among the \<open>n\<close> bytes from \<open>a\<close>.
\<close>

section \<open>Slots\<close>

lemma and_push_bit_0: "(v :: u32) AND push_bit i 1 = 0 \<longleftrightarrow> \<not> bit v i" if "i < 32"
proof -
  have "v AND push_bit i 1 = (if bit v i then push_bit i 1 else 0)"
    by (rule bit_word_eqI) (auto simp: bit_simps)
  moreover have "push_bit i (1 :: u32) \<noteq> 0"
    using that by (auto simp: bit_eq_iff bit_simps)
  ultimately show ?thesis by simp
qed

lemma find_slot_loop_spec:
  assumes "i + n \<le> 32"
  shows "(find_slot_loop slots i n = -1 \<and> (\<forall>j. i \<le> j \<and> j < i + n \<longrightarrow> bit slots j))
    \<or> (\<exists>k. find_slot_loop slots i n = int k \<and> i \<le> k \<and> k < i + n \<and> \<not> bit slots k \<and> (\<forall>j. i \<le> j \<and> j < k \<longrightarrow> bit slots j))"
  using assms
proof (induction n arbitrary: i)
  case (Suc n)
  have t: "slots AND push_bit i 1 = 0 \<longleftrightarrow> \<not> bit slots i" using Suc.prems by (intro and_push_bit_0) simp
  show ?case
  proof (cases "bit slots i")
    case False
    then show ?thesis using t by auto
  next
    case True
    have "Suc i + n \<le> 32" using Suc.prems by simp
    from Suc.IH [OF this] show ?thesis
    proof
      assume a: "find_slot_loop slots (Suc i) n = -1 \<and> (\<forall>j. Suc i \<le> j \<and> j < Suc i + n \<longrightarrow> bit slots j)"
      have "bit slots j" if "i \<le> j" "j < i + Suc n" for j
        using a True that by (cases "j = i") auto
      then show ?thesis using a True t by simp
    next
      assume "\<exists>k. find_slot_loop slots (Suc i) n = int k \<and> Suc i \<le> k \<and> k < Suc i + n \<and> \<not> bit slots k \<and> (\<forall>j. Suc i \<le> j \<and> j < k \<longrightarrow> bit slots j)"
      then obtain k where k: "find_slot_loop slots (Suc i) n = int k" "Suc i \<le> k" "k < Suc i + n" "\<not> bit slots k"
        "\<forall>j. Suc i \<le> j \<and> j < k \<longrightarrow> bit slots j" by blast
      have "bit slots j" if "i \<le> j" "j < k" for j using k(5) True that by (cases "j = i") auto
      then show ?thesis using k True t by (intro disjI2 exI [of _ k]) simp
    qed
  qed
qed auto

section \<open>Frames\<close>

text \<open>What stays where: addresses as numbers, for regions that do not reach the end of memory.\<close>

lemma unat_minus_less: "unat (x - a) < n \<Longrightarrow> unat a + n \<le> 2 ^ 64 \<Longrightarrow> unat a \<le> unat x \<and> unat x < unat a + n" for x a :: u64
  using unsigned_less [of x, where ?'a = nat] unsigned_less [of a, where ?'a = nat]
  by (auto simp: unat_sub_if' split: if_splits)

definition outside :: "u64 \<Rightarrow> nat \<Rightarrow> u64 \<Rightarrow> bool" where
  "outside a n x \<longleftrightarrow> unat x < unat a \<or> unat a + n \<le> unat x"

lemma write_bytes_outside: "unat a + length bs \<le> 2 ^ 64 \<Longrightarrow> outside a (length bs) x \<Longrightarrow> write_bytes m a bs x = m x"
  using unat_minus_less [of x a "length bs"] by (auto simp: write_bytes_def outside_def)

lemma store_le_outside: "unat a + n \<le> 2 ^ 64 \<Longrightarrow> outside a n x \<Longrightarrow> store_le n m a v x = m x"
  by (simp add: store_le_def write_bytes_outside)

lemma load_le_same:
  assumes "\<And>x. unat a \<le> unat x \<Longrightarrow> unat x < unat a + n \<Longrightarrow> m' x = m x" and "unat a + n \<le> 2 ^ 64"
  shows "load_le n m' a = load_le n m a"
proof -
  have "m' (a + of_nat i) = m (a + of_nat i)" if "i < n" for i
  proof -
    have "unat (a + of_nat i) = unat a + i" using that assms(2) by (simp add: unat_word_ariths unat_of_nat)
    then show ?thesis using assms(1) that by simp
  qed
  then show ?thesis unfolding load_le_def read_bytes_def by (intro arg_cong [where f = le_word] map_cong) auto
qed

lemma unat_plus_num: "unat a + unat b < 2 ^ 64 \<Longrightarrow> unat (a + b) = unat a + unat b" for a b :: u64
  by (simp add: unat_word_ariths)

section \<open>The region table\<close>

definition prd_addr :: "mem \<Rightarrow> u64 \<Rightarrow> u64" where
  "prd_addr m prd = push_bit 32 (load_le 4 m (prd + 4)) OR load_le 4 m prd"

definition prd_len :: "mem \<Rightarrow> u64 \<Rightarrow> u64" where
  "prd_len m prd = take_bit 22 (load_le 4 m (prd + 12)) + 1"

definition prd_ie :: "mem \<Rightarrow> u64 \<Rightarrow> bool" where
  "prd_ie m prd \<longleftrightarrow> bit (load_le 4 m (prd + 12)) 31"

lemma split_addr: "push_bit 32 (take_bit 32 (drop_bit 32 a)) OR take_bit 32 a = (a :: u64)"
  by (rule bit_word_eqI) (auto simp: bit_simps)

lemma low_field:
  "take_bit n (take_bit w (take_bit w ((x AND NOT (mask n)) OR take_bit n c) AND NOT (push_bit k 1))) = take_bit n (c :: u64)"
  if "n \<le> k" "k < w"
  using that by (intro bit_word_eqI) (auto simp: bit_simps)

lemma take_bit_small: "unat x < 2 ^ n \<Longrightarrow> take_bit n x = x" for x :: u64
  by (simp add: word_unat_eq_iff unsigned_take_bit_eq take_bit_nat_eq_self)

lemma put_prd_fields:
  assumes "chunk \<noteq> 0" and "chunk \<le> 0x400000"
  shows "prd_addr (put_prd m prd a chunk) prd = a" "prd_len (put_prd m prd a chunk) prd = chunk" "\<not> prd_ie (put_prd m prd a chunk) prd"
proof -
  define m1 where "m1 = store_le 4 (store_le 4 m prd (a AND 0xFFFFFFFF)) (prd + 4) (drop_bit 32 a)"
  define v where "v = (load_le 4 m1 (prd + 12) AND NOT (mask 22)) OR take_bit 22 (chunk - 1)"
  have put: "put_prd m prd a chunk = store_le 4 (store_le 4 m1 (prd + 12) v) (prd + 12) (take_bit 32 v AND NOT (push_bit 31 1))"
    by (simp add: put_prd_def m1_def v_def Let_def mem_simps)
  have "0xFFFFFFFF = (mask 32 :: u64)" by (simp add: mask_eq_exp_minus_1)
  then have "load_le 4 (put_prd m prd a chunk) prd = take_bit 32 a" "load_le 4 (put_prd m prd a chunk) (prd + 4) = take_bit 32 (drop_bit 32 a)"
    by (simp_all add: put m1_def mem_simps sep_simps take_bit_eq_mask)
  then show "prd_addr (put_prd m prd a chunk) prd = a" by (simp add: prd_addr_def split_addr)
  have c: "load_le 4 (put_prd m prd a chunk) (prd + 12) = take_bit 32 (take_bit 32 v AND NOT (push_bit 31 1))"
    by (simp add: put mem_simps)
  show "\<not> prd_ie (put_prd m prd a chunk) prd" by (simp add: prd_ie_def c bit_simps)
  have "take_bit 22 (take_bit 32 (take_bit 32 v AND NOT (push_bit 31 1))) = take_bit 22 (chunk - 1)"
    unfolding v_def by (rule low_field) simp_all
  moreover have "take_bit 22 (chunk - 1) = chunk - 1"
  proof -
    have "unat (chunk - 1) < 2 ^ 22"
      using assms unat_minus_one [OF assms(1)] by (simp add: word_le_nat_alt unat_gt_0)
    then show ?thesis by (rule take_bit_small)
  qed
  ultimately show "prd_len (put_prd m prd a chunk) prd = chunk" by (simp add: prd_len_def c)
qed

lemma put_prd_outside:
  assumes "unat prd + 16 \<le> 2 ^ 64" and "outside prd 16 x"
  shows "put_prd m prd a chunk x = m x"
proof -
  have u: "unat (prd + 4) = unat prd + 4" "unat (prd + 12) = unat prd + 12"
    using assms(1) by (simp_all add: unat_word_ariths)
  have "outside prd 4 x" "outside (prd + 4) 4 x" "outside (prd + 12) 4 x" using assms(2) by (auto simp: outside_def u)
  then show ?thesis using assms(1) by (simp add: put_prd_def Let_def store_le_outside u)
qed


text \<open>The number of regions for \<open>r\<close> bytes, and the entry of region \<open>j\<close>.\<close>

definition chunks :: "nat \<Rightarrow> nat" where
  "chunks r = (r + 32767) div 32768"

definition prd_at :: "u64 \<Rightarrow> nat \<Rightarrow> u64" where
  "prd_at prdt j = prdt + 16 * of_nat j"

lemma unat_prd_at: "unat prdt + 16 * j < 2 ^ 64 \<Longrightarrow> unat (prd_at prdt j) = unat prdt + 16 * j"
  by (simp add: prd_at_def unat_word_ariths unat_of_nat mod_mult_right_eq)

lemma prd_fields_same:
  assumes "\<And>x. unat prd \<le> unat x \<Longrightarrow> unat x < unat prd + 16 \<Longrightarrow> m' x = m x" and "unat prd + 16 \<le> 2 ^ 64"
  shows "prd_addr m' prd = prd_addr m prd" "prd_len m' prd = prd_len m prd" "prd_ie m' prd = prd_ie m prd"
proof -
  have u: "unat (prd + 4) = unat prd + 4" "unat (prd + 12) = unat prd + 12"
    using assms(2) by (simp_all add: unat_word_ariths)
  have "load_le 4 m' prd = load_le 4 m prd" "load_le 4 m' (prd + 4) = load_le 4 m (prd + 4)"
    "load_le 4 m' (prd + 12) = load_le 4 m (prd + 12)"
    using assms by (auto intro!: load_le_same simp: u)
  then show "prd_addr m' prd = prd_addr m prd" "prd_len m' prd = prd_len m prd" "prd_ie m' prd = prd_ie m prd"
    by (simp_all add: prd_addr_def prd_len_def prd_ie_def)
qed

text \<open>The loop writes one entry for each region and nothing else.\<close>

lemma prdt_loop_spec:
  assumes "k = chunks (unat r)" and "unat prdt + 16 * (i + k) < 2 ^ 64"
  shows "\<exists>m'. prdt_loop m prdt buf r (of_nat i) = (m', of_nat (i + k))
    \<and> (\<forall>j < k. prd_addr m' (prd_at prdt (i + j)) = buf + 32768 * of_nat j
          \<and> prd_len m' (prd_at prdt (i + j)) = of_nat (min 32768 (unat r - 32768 * j)) \<and> \<not> prd_ie m' (prd_at prdt (i + j)))
    \<and> (\<forall>x. outside (prd_at prdt i) (16 * k) x \<longrightarrow> m' x = m x)"
  using assms
proof (induction k arbitrary: m buf r i)
  case 0
  then have "unat r = 0" by (simp add: chunks_def div_eq_0_iff)
  then have "r = 0" by (simp add: unat_eq_zero)
  then show ?case by (subst prdt_loop.simps) simp
next
  case (Suc k)
  have r: "r > 0" using Suc.prems(1) by (auto simp: chunks_def word_gt_0 intro: ccontr)
  define c where "c = (if r > 32 * 1024 then 32 * 1024 else r)"
  have uc: "unat c = min 32768 (unat r)" by (auto simp: c_def word_less_nat_alt)
  then have ur: "unat (r - c) = unat r - unat c" by (simp add: unat_sub_if')
  have c0: "c \<noteq> 0" "c \<le> 0x400000" using r uc by (auto simp: c_def word_le_nat_alt)
  have ch: "chunks (unat (r - c)) = k" using Suc.prems(1) by (auto simp: ur uc chunks_def min_def)
  define e where "e = prd_at prdt i"
  have ue: "unat e = unat prdt + 16 * i" using Suc.prems(2) by (simp add: e_def unat_prd_at)
  have step: "prdt_loop m prdt buf r (of_nat i) = prdt_loop (put_prd m e buf c) prdt (buf + c) (r - c) (of_nat (Suc i))"
    using r by (subst prdt_loop.simps) (simp add: c_def e_def prd_at_def sizeof_HbaPrdtEntry_def Let_def add.commute)
  from Suc.IH [OF ch [symmetric], of "Suc i" "put_prd m e buf c" "buf + c"] Suc.prems(2)
  obtain m' where m': "prdt_loop (put_prd m e buf c) prdt (buf + c) (r - c) (of_nat (Suc i)) = (m', of_nat (Suc i + k))"
    "\<And>j. j < k \<Longrightarrow> prd_addr m' (prd_at prdt (Suc i + j)) = buf + c + 32768 * of_nat j
        \<and> prd_len m' (prd_at prdt (Suc i + j)) = of_nat (min 32768 (unat (r - c) - 32768 * j)) \<and> \<not> prd_ie m' (prd_at prdt (Suc i + j))"
    "\<And>x. outside (prd_at prdt (Suc i)) (16 * k) x \<Longrightarrow> m' x = put_prd m e buf c x" by auto
  have us: "unat (prd_at prdt (Suc i)) = unat prdt + 16 * Suc i" using Suc.prems(2) by (intro unat_prd_at) simp
  have keep: "m' x = put_prd m e buf c x" if "unat x < unat e + 16" for x
    using m'(3) that by (simp add: outside_def us ue)
  have e16: "unat e + 16 \<le> 2 ^ 64" using Suc.prems(2) ue by simp
  have first: "prd_addr m' e = buf" "prd_len m' e = c" "\<not> prd_ie m' e"
    using prd_fields_same [OF keep e16] put_prd_fields [OF c0, of m e buf] by simp_all
  have "prd_addr m' (prd_at prdt (i + j)) = buf + 32768 * of_nat j
      \<and> prd_len m' (prd_at prdt (i + j)) = of_nat (min 32768 (unat r - 32768 * j)) \<and> \<not> prd_ie m' (prd_at prdt (i + j))" if "j < Suc k" for j
  proof (cases j)
    case 0
    have "c = of_nat (min 32768 (unat r))" using uc by (metis of_nat_unat ucast_id)
    then show ?thesis using first 0 by (simp add: e_def)
  next
    case (Suc l)
    then have "unat r > 32768" using that ch by (auto simp: ur uc chunks_def min_def split: if_splits)
    then have "c = 32768" "unat (r - c) = unat r - 32768" using uc ur by (auto simp: c_def word_less_nat_alt)
    then show ?thesis using m'(2) [of l] that Suc by (simp add: algebra_simps)
  qed
  moreover have "m' x = m x" if "outside (prd_at prdt i) (16 * Suc k) x" for x
  proof -
    have "outside (prd_at prdt (Suc i)) (16 * k) x" "outside e 16 x"
      using that by (auto simp: outside_def us ue e_def [symmetric])
    then show ?thesis using m'(3) put_prd_outside [OF e16] by simp
  qed
  ultimately show ?case using m'(1) step by auto
qed


section \<open>The command\<close>

lemma set_ie_fields:
  "prd_addr (set_ie m prd) prd = prd_addr m prd" "prd_len (set_ie m prd) prd = prd_len m prd" "prd_ie (set_ie m prd) prd"
proof -
  have l: "load_le 4 (set_ie m prd) prd = load_le 4 m prd" "load_le 4 (set_ie m prd) (prd + 4) = load_le 4 m (prd + 4)"
    "load_le 4 (set_ie m prd) (prd + 12) = take_bit 32 (load_le 4 m (prd + 12) OR push_bit 31 1)"
    by (simp_all add: set_ie_def mem_simps sep_simps)
  have "take_bit 22 (take_bit 32 (v OR push_bit k 1)) = take_bit 22 v" if "22 \<le> k" for v :: u64 and k
    using that by (intro bit_word_eqI) (auto simp: bit_simps)
  from this [of 31] show "prd_len (set_ie m prd) prd = prd_len m prd" by (simp add: prd_len_def l)
  show "prd_ie (set_ie m prd) prd" by (simp add: prd_ie_def l bit_simps)
  show "prd_addr (set_ie m prd) prd = prd_addr m prd" by (simp add: prd_addr_def l)
qed

lemma set_ie_outside: "unat prd + 16 \<le> 2 ^ 64 \<Longrightarrow> outside prd 16 x \<Longrightarrow> set_ie m prd x = m x"
  unfolding set_ie_def by (rule store_le_outside) (auto simp: outside_def unat_word_ariths)

lemma byte_outside: "outside a n x \<Longrightarrow> i < n \<Longrightarrow> unat a + n \<le> 2 ^ 64 \<Longrightarrow> x \<noteq> a + of_nat i"
  by (auto simp: outside_def unat_word_ariths unat_of_nat)

lemma put_header_outside:
  assumes "outside hdr 4 x" and "unat hdr + 4 \<le> 2 ^ 64"
  shows "put_header m hdr prdtl wr x = m x"
proof -
  have "x \<noteq> hdr" using byte_outside [OF assms(1), of 0] assms(2) by simp
  moreover have "outside (hdr + 2) 2 x" "unat (hdr + 2) + 2 \<le> 2 ^ 64" using assms by (auto simp: outside_def unat_word_ariths)
  ultimately show ?thesis by (simp add: put_header_def Let_def store_le_outside)
qed

lemma header_bits:
  assumes "(((b AND NOT (mask n)) OR v) AND NOT (push_bit k 1)) OR (if wr then push_bit k 1 else 0) = (w :: u8)"
    and "n \<le> k" and "k < 8" and "take_bit n v = v"
  shows "w AND mask n = v \<and> bit w k = wr"
proof -
  have vb: "bit v i \<longleftrightarrow> i < n \<and> bit v i" for i using assms(4) by (metis bit_take_bit_iff)
  have "w AND mask n = v"
  proof (rule bit_word_eqI)
    fix i assume "i < LENGTH(8)"
    then show "bit (w AND mask n) i = bit v i" using vb [of i] assms(2) unfolding assms(1) [symmetric] by (auto simp: bit_simps)
  qed
  moreover have "bit w k = wr" using assms(3) unfolding assms(1) [symmetric] by (auto simp: bit_simps)
  ultimately show ?thesis by simp
qed

lemma put_header_fields:
  assumes "unat hdr + 4 \<le> 2 ^ 64"
  shows "load_le 2 (put_header m hdr prdtl wr) (hdr + 2) = take_bit 16 prdtl"
    "put_header m hdr prdtl wr hdr AND 0x1F = 5" "bit (put_header m hdr prdtl wr hdr) 6 = wr"
proof -
  define m1 where "m1 = store_le 2 m (hdr + 2) prdtl"
  have p: "put_header m hdr prdtl wr = m1(hdr := (((m1 hdr AND NOT 0x1F) OR 5) AND NOT 0x40) OR (if wr then 0x40 else 0))"
    by (simp add: put_header_def m1_def Let_def sizeof_FisRegH2D_def)
  have "load_le 2 (put_header m hdr prdtl wr) (hdr + 2) = load_le 2 m1 (hdr + 2)"
    by (rule load_le_same) (use assms in \<open>auto simp: p unat_word_ariths\<close>)
  then show "load_le 2 (put_header m hdr prdtl wr) (hdr + 2) = take_bit 16 prdtl" by (simp add: m1_def mem_simps)
  have c: "(0x1F :: u8) = mask 5" "(0x40 :: u8) = push_bit 6 1" by (simp_all add: mask_eq_exp_minus_1)
  have "take_bit 5 (5 :: u8) = 5" by simp
  note b = this
  have e: "put_header m hdr prdtl wr hdr = (((m1 hdr AND NOT (mask 5)) OR 5) AND NOT (push_bit 6 1)) OR (if wr then push_bit 6 1 else 0)"
    by (simp only: p fun_upd_same c [symmetric])
  have "put_header m hdr prdtl wr hdr AND mask 5 = 5 \<and> bit (put_header m hdr prdtl wr hdr) 6 = wr"
    by (rule header_bits [OF e [symmetric] _ _ b]) simp_all
  then show "put_header m hdr prdtl wr hdr AND 0x1F = 5" "bit (put_header m hdr prdtl wr hdr) 6 = wr"
    by (simp_all only: c [symmetric])
qed

definition fis_lba :: "mem \<Rightarrow> u64 \<Rightarrow> u64" where
  "fis_lba m fis = le_word [m (fis + 4), m (fis + 5), m (fis + 6), m (fis + 8), m (fis + 9), m (fis + 10)]"

definition fis_count :: "mem \<Rightarrow> u64 \<Rightarrow> u64" where
  "fis_count m fis = le_word [m (fis + 12), m (fis + 13)]"

definition fis_command :: "bool \<Rightarrow> bool \<Rightarrow> u8" where
  "fis_command wr ident = (if ident then kAHCICmdIdentify else if wr then kAHCICmdWriteDmaEx else kAHCICmdReadDmaEx)"

lemma ucast_low_byte: "(ucast ((v :: u64) AND 0xFF) :: u8) = ucast v"
proof -
  have "(0xFF :: u64) = mask 8" by (simp add: mask_eq_exp_minus_1)
  then show ?thesis by (simp add: bit_eq_iff bit_simps take_bit_eq_mask [symmetric])
qed

lemma le_bytes_6: "le_bytes 6 v = [ucast v, ucast (drop_bit 8 v), ucast (drop_bit 16 v), ucast (drop_bit 24 v), ucast (drop_bit 32 v), ucast (drop_bit 40 v)]"
  by (simp add: le_bytes_Suc numeral_eq_Suc drop_bit_drop_bit)

lemma le_bytes_2: "le_bytes 2 v = [ucast v, ucast (drop_bit 8 v)]"
  by (simp add: le_bytes_Suc numeral_eq_Suc)

lemma put_fis_fields:
  assumes "m (fis + 1) = 0"
  shows "put_fis m fis wr coc ident lba sz fis = kFISTypeRegH2D" "put_fis m fis wr coc ident lba sz (fis + 1) = (if coc then 0x80 else 0)"
    "put_fis m fis wr coc ident lba sz (fis + 2) = fis_command wr ident" "fis_lba (put_fis m fis wr coc ident lba sz) fis = take_bit 48 lba"
    "put_fis m fis wr coc ident lba sz (fis + 7) = (if ident then 0 else kSATALBAMode)"
    "fis_count (put_fis m fis wr coc ident lba sz) fis = (if ident then 1 else take_bit 16 (sz div 512))"
proof -
  show "put_fis m fis wr coc ident lba sz fis = kFISTypeRegH2D" "put_fis m fis wr coc ident lba sz (fis + 1) = (if coc then 0x80 else 0)"
    "put_fis m fis wr coc ident lba sz (fis + 2) = fis_command wr ident"
    "put_fis m fis wr coc ident lba sz (fis + 7) = (if ident then 0 else kSATALBAMode)"
    using assms by (simp_all add: put_fis_def Let_def fis_command_def)
  have "[put_fis m fis wr coc ident lba sz (fis + 4), put_fis m fis wr coc ident lba sz (fis + 5), put_fis m fis wr coc ident lba sz (fis + 6),
      put_fis m fis wr coc ident lba sz (fis + 8), put_fis m fis wr coc ident lba sz (fis + 9), put_fis m fis wr coc ident lba sz (fis + 10)]
    = le_bytes 6 lba"
    by (simp add: put_fis_def Let_def ucast_low_byte le_bytes_6)
  then show "fis_lba (put_fis m fis wr coc ident lba sz) fis = take_bit 48 lba"
    unfolding fis_lba_def by (simp only: le_word_le_bytes) simp
  have "[put_fis m fis wr coc ident lba sz (fis + 12), put_fis m fis wr coc ident lba sz (fis + 13)]
    = (if ident then [1, 0] else le_bytes 2 (sz div 512))"
    by (simp add: put_fis_def Let_def ucast_low_byte le_bytes_2 kAHCISectorSize_def)
  then show "fis_count (put_fis m fis wr coc ident lba sz) fis = (if ident then 1 else take_bit 16 (sz div 512))"
    unfolding fis_count_def by (cases ident) (simp_all add: le_word_le_bytes)
qed

lemma put_fis_outside:
  assumes "outside fis 14 x" and "unat fis + 14 \<le> 2 ^ 64"
  shows "put_fis m fis wr coc ident lba sz x = m x"
proof -
  have n: "x \<noteq> fis + of_nat i" if "i < 14" for i using byte_outside [OF assms(1) that assms(2)] .
  have "x \<noteq> fis" "x \<noteq> fis + 1" "x \<noteq> fis + 2" "x \<noteq> fis + 4" "x \<noteq> fis + 5" "x \<noteq> fis + 6" "x \<noteq> fis + 7" "x \<noteq> fis + 8"
    "x \<noteq> fis + 9" "x \<noteq> fis + 10" "x \<noteq> fis + 12" "x \<noteq> fis + 13"
    using n [of 0] n [of 1] n [of 2] n [of 4] n [of 5] n [of 6] n [of 7] n [of 8] n [of 9] n [of 10] n [of 12] n [of 13] by simp_all
  then show ?thesis by (simp add: put_fis_def Let_def)
qed


text \<open>The bytes that building a command may change, and its memory without the frame and the header.\<close>

definition cmd_bytes :: "bool \<Rightarrow> u64 \<Rightarrow> u64 \<Rightarrow> u64 \<Rightarrow> u64 \<Rightarrow> u64 \<Rightarrow> bool" where
  "cmd_bytes wr hdr tbl ptr sz x \<longleftrightarrow> \<not> outside hdr 4 x \<or> \<not> outside tbl (128 + 16 * chunks (unat sz)) x \<or> wr \<and> \<not> outside ptr (unat sz) x"

definition cmd_room :: "u64 \<Rightarrow> u64 \<Rightarrow> u64 \<Rightarrow> u64 \<Rightarrow> bool" where
  "cmd_room hdr tbl ptr sz \<longleftrightarrow> 0 < unat sz \<and> unat hdr + 32 \<le> unat tbl \<and> unat tbl + 128 + 16 * chunks (unat sz) \<le> unat ptr
     \<and> unat ptr + unat sz < 2 ^ 64"

definition build_data :: "bool \<Rightarrow> mem \<Rightarrow> u64 \<Rightarrow> u64 \<Rightarrow> u64 \<Rightarrow> u64 \<Rightarrow> mem" where
  "build_data wr m tbl ptr buffer sz =
     (let m = fst (rt_set_memory m tbl 0 sizeof_HbaCmdTbl)
      in if wr then fst (rt_copy_memory m buffer ptr sz) else m)"

lemma chunks_pos: "0 < r \<Longrightarrow> 0 < chunks r"
  by (simp add: chunks_def div_greater_zero_iff)

lemma copy_loop_outside:
  assumes "unat d + n < 2 ^ 64" and "outside d n x"
  shows "copy_loop m src d 0 n x = m x"
proof (rule copy_loop_frame)
  show "unat (0 :: u64) + n < 2 ^ 64" using assms(1) by simp
  show "\<not> unat (x - d) < unat (0 :: u64) + n"
    using unat_minus_less [of x d n] assms by (auto simp: outside_def)
qed

lemma sep_ranges:
  assumes "unat a + n \<le> unat b" and "unat b + k \<le> 2 ^ 64" and "0 < n"
  shows "sep a n b k" "sep b k a n"
proof -
  have "unat (b - a) = unat b - unat a" using assms(1) by (simp add: unat_sub_if')
  moreover have "a \<noteq> b" using assms(1,3) by auto
  ultimately have "unat (b - a) = unat b - unat a" "unat (a - b) + (unat b - unat a) = 2 ^ 64" using unat_minus_swap [of a b] by simp_all
  then show "sep a n b k" using assms unfolding sep_def by linarith
  then show "sep b k a n" by (rule sep_sym)
qed

lemma build_data_outside:
  assumes "cmd_room hdr tbl ptr sz" and "outside tbl 144 x" and "wr \<Longrightarrow> outside ptr (unat sz) x"
  shows "build_data wr m tbl ptr buffer sz x = m x"
proof -
  have "0 < chunks (unat sz)" using assms(1) chunks_pos by (simp add: cmd_room_def)
  then have t: "tbl \<noteq> 0" "unat tbl + 144 < 2 ^ 64" using assms(1) by (auto simp: cmd_room_def)
  have s: "fst (rt_set_memory m tbl 0 sizeof_HbaCmdTbl) x = m x"
    using t assms(2) by (simp add: rt_set_memory_def sizeof_HbaCmdTbl_def set_loop_eq write_bytes_outside)
  have c: "copy_loop m' buffer ptr 0 (unat sz) x = m' x" if "outside ptr (unat sz) x" for m'
    using assms(1) that by (intro copy_loop_outside) (simp add: cmd_room_def)
  show ?thesis using s c assms(3) by (auto simp: build_data_def Let_def rt_copy_memory_def)
qed

lemma build_data_zero:
  assumes "cmd_room hdr tbl ptr sz" and "i < 144"
  shows "build_data wr m tbl ptr buffer sz (tbl + of_nat i) = 0"
proof -
  have "0 < chunks (unat sz)" using assms(1) chunks_pos by (simp add: cmd_room_def)
  then have t: "tbl \<noteq> 0" "unat tbl + 144 < 2 ^ 64" "unat tbl + 144 \<le> unat ptr" using assms(1) by (auto simp: cmd_room_def)
  have ui: "unat (tbl + of_nat i) = unat tbl + i" using t(2) assms(2) by (simp add: unat_word_ariths unat_of_nat)
  have s: "fst (rt_set_memory m tbl 0 sizeof_HbaCmdTbl) (tbl + of_nat i) = 0"
    using t assms(2) by (simp add: rt_set_memory_def sizeof_HbaCmdTbl_def set_loop_eq write_bytes_def unat_of_nat)
  have "copy_loop m' buffer ptr 0 (unat sz) (tbl + of_nat i) = m' (tbl + of_nat i)" for m'
    using assms ui t by (intro copy_loop_outside) (auto simp: cmd_room_def outside_def)
  then show ?thesis using s by (auto simp: build_data_def Let_def rt_copy_memory_def)
qed

lemma build_data_copied:
  assumes "cmd_room hdr tbl ptr sz" and "buffer \<noteq> 0"
    and "unat buffer + unat sz \<le> unat tbl \<or> unat ptr + unat sz \<le> unat buffer \<and> unat buffer + unat sz < 2 ^ 64"
  shows "read_bytes (build_data True m tbl ptr buffer sz) ptr (unat sz) = read_bytes m buffer (unat sz)"
proof -
  have "0 < chunks (unat sz)" using assms(1) chunks_pos by (simp add: cmd_room_def)
  then have t: "tbl \<noteq> 0" "unat tbl + 144 < 2 ^ 64" "unat tbl + 144 \<le> unat ptr" "ptr \<noteq> 0" using assms(1) by (auto simp: cmd_room_def)
  let ?m = "fst (rt_set_memory m tbl 0 sizeof_HbaCmdTbl)"
  have b: "unat (buffer + of_nat i) = unat buffer + i" if "i < unat sz" for i
    using assms(1,3) that by (auto simp: unat_word_ariths unat_of_nat cmd_room_def)
  have "?m (buffer + of_nat i) = m (buffer + of_nat i)" if "i < unat sz" for i
  proof -
    have "outside tbl 144 (buffer + of_nat i)" using b [OF that] assms(3) that t by (auto simp: outside_def)
    then show ?thesis using t by (simp add: rt_set_memory_def sizeof_HbaCmdTbl_def set_loop_eq write_bytes_outside)
  qed
  then have "read_bytes ?m buffer (unat sz) = read_bytes m buffer (unat sz)" by (auto simp: read_bytes_def)
  moreover have "sep buffer (unat sz) ptr (unat sz)"
    using assms(1,3) t by (auto simp: cmd_room_def intro: sep_ranges)
  ultimately show ?thesis using assms t
    by (simp add: build_data_def Let_def rt_copy_memory_def copy_loop_eq mem_simps cmd_room_def)
qed


definition pool_ok :: "'a dma_pool_scheme \<Rightarrow> bool" where
  "pool_ok p \<longleftrightarrow> unat kNeDMAPoolStart \<le> unat (kDmaPoolPtr p) \<and> unat (kDmaPoolPtr p) \<le> unat kDmaPoolEnd"

lemma pow2_align_page: "pow2_align 4096"
  unfolding pow2_align_def by (rule exI [of _ 12]) simp

lemma flush_in_pool: "kNeDMAPoolStart \<le> ptr \<Longrightarrow> ptr \<le> kDmaPoolEnd \<Longrightarrow> fst (rtl_dma_flush p ptr sz) = p"
  using word_coorder.extremum_uniqueI by (auto simp: rtl_dma_flush_def not_less dma_consts)

text \<open>A buffer that the pool gives lies between its cursor and its end.\<close>

lemma alloc_page:
  assumes "pool_ok p" and "unat sz < 2 ^ 62" and "rtl_dma_alloc p sz 4096 = (p', ptr)" and "ptr \<noteq> 0"
  shows "p' = p\<lparr>kDmaPoolPtr := ptr + sz\<rparr> \<and> sz \<noteq> 0 \<and> unat (kDmaPoolPtr p) \<le> unat ptr \<and> unat ptr + unat sz \<le> unat kDmaPoolEnd
    \<and> kNeDMAPoolStart \<le> ptr \<and> ptr \<le> kDmaPoolEnd"
  using dma_alloc_took [OF pow2_align_page _ assms(2-4)] assms(1) by (auto simp: pool_ok_def word_le_nat_alt)

text \<open>The memory of the finished command over the memory \<open>m\<close> with the region table.\<close>

definition cmd_mem :: "mem \<Rightarrow> u64 \<Rightarrow> u64 \<Rightarrow> nat \<Rightarrow> bool \<Rightarrow> bool \<Rightarrow> bool \<Rightarrow> u64 \<Rightarrow> u64 \<Rightarrow> mem" where
  "cmd_mem m hdr tbl k wr coc ident lba sz =
     put_fis (put_header (set_ie m (prd_at (tbl + 128) (k - 1))) hdr (of_nat k) wr) tbl wr coc ident lba sz"

lemma ahci_build_ram:
  fixes s :: "'a ahci_scheme"
  assumes pool: "pool_ok (apool s)" "unat sz < 2 ^ 62" and al: "rtl_dma_alloc (apool s) sz 4096 = (p, ptr)" "ptr \<noteq> 0"
    and room: "cmd_room hdr tbl ptr sz" and k: "k = chunks (unat sz)"
  shows "\<exists>m. ahci_build wr coc ident s hdr tbl lba buffer sz =
        (s\<lparr>ram := cmd_mem m hdr tbl k wr coc ident lba sz, apool := p\<rparr>, ptr)
    \<and> (\<forall>j < k. prd_addr m (prd_at (tbl + 128) j) = ptr + 32768 * of_nat j
          \<and> prd_len m (prd_at (tbl + 128) j) = of_nat (min 32768 (unat sz - 32768 * j)) \<and> \<not> prd_ie m (prd_at (tbl + 128) j))
    \<and> (\<forall>x. outside (tbl + 128) (16 * k) x \<longrightarrow> m x = build_data wr (ram s) tbl ptr buffer sz x)"
proof -
  have b: "kNeDMAPoolStart \<le> ptr" "ptr \<le> kDmaPoolEnd" using alloc_page [OF pool al] by simp_all
  have u: "unat (tbl + 128) = unat tbl + 128" using room by (simp add: cmd_room_def unat_word_ariths)
  have "unat (tbl + 128) + 16 * (0 + k) < 2 ^ 64" using room by (simp add: cmd_room_def u k)
  from prdt_loop_spec [OF k this, of "build_data wr (ram s) tbl ptr buffer sz" ptr]
  obtain m where m: "prdt_loop (build_data wr (ram s) tbl ptr buffer sz) (tbl + 128) ptr sz 0 = (m, of_nat k)"
    "\<forall>j < k. prd_addr m (prd_at (tbl + 128) j) = ptr + 32768 * of_nat j
          \<and> prd_len m (prd_at (tbl + 128) j) = of_nat (min 32768 (unat sz - 32768 * j)) \<and> \<not> prd_ie m (prd_at (tbl + 128) j)"
    "\<forall>x. outside (tbl + 128) (16 * k) x \<longrightarrow> m x = build_data wr (ram s) tbl ptr buffer sz x"
    by (auto simp: prd_at_def)
  have "0 < k" using room chunks_pos by (simp add: cmd_room_def k)
  then have e: "tbl + prdt_off + sizeof_HbaPrdtEntry * (of_nat k - 1) = prd_at (tbl + 128) (k - 1)"
    by (simp add: prd_at_def prdt_off_def sizeof_HbaPrdtEntry_def of_nat_diff)
  have "ahci_build wr coc ident s hdr tbl lba buffer sz =
      (s\<lparr>ram := cmd_mem m hdr tbl k wr coc ident lba sz, apool := p\<rparr>, ptr)"
    using m(1) [unfolded prdt_off_def [symmetric]] al(1) e unfolding ahci_build_def build_data_def cmd_mem_def by (simp add: Let_def flush_in_pool [OF b])
  then show ?thesis using m(2,3) by blast
qed

lemma room_unat:
  assumes "cmd_room hdr tbl ptr sz" and "j < chunks (unat sz)"
  shows "unat (prd_at (tbl + 128) j) = unat tbl + 128 + 16 * j" "unat tbl + 144 + 16 * j \<le> unat ptr" "unat ptr < 2 ^ 64" "unat hdr + 32 \<le> unat tbl"
proof -
  have r: "unat tbl + 128 + 16 * chunks (unat sz) \<le> unat ptr" "unat ptr < 2 ^ 64" "unat hdr + 32 \<le> unat tbl"
    using assms(1) by (simp_all add: cmd_room_def)
  have "unat (tbl + 128) = unat tbl + 128" using r by (simp add: unat_word_ariths)
  then show "unat (prd_at (tbl + 128) j) = unat tbl + 128 + 16 * j" using r assms(2) by (simp add: unat_prd_at)
  show "unat tbl + 144 + 16 * j \<le> unat ptr" "unat ptr < 2 ^ 64" "unat hdr + 32 \<le> unat tbl" using r assms(2) by simp_all
qed

lemma cmd_mem_outside:
  assumes "cmd_room hdr tbl ptr sz" and "outside hdr 4 x" and "outside tbl 14 x" and "outside (prd_at (tbl + 128) (chunks (unat sz) - 1)) 16 x"
  shows "cmd_mem m hdr tbl (chunks (unat sz)) wr coc ident lba sz x = m x"
proof -
  have "0 < chunks (unat sz)" using assms(1) chunks_pos by (simp add: cmd_room_def)
  then have "chunks (unat sz) - 1 < chunks (unat sz)" by simp
  note r = room_unat [OF assms(1) this]
  show ?thesis unfolding cmd_mem_def using r assms(2-4) by (simp add: put_fis_outside put_header_outside set_ie_outside)
qed

lemma cmd_mem_prd:
  fixes m :: mem and lba :: u64 and wr coc ident :: bool
  assumes "cmd_room hdr tbl ptr sz" and "j < chunks (unat sz)"
  defines "M \<equiv> cmd_mem m hdr tbl (chunks (unat sz)) wr coc ident lba sz" and "e \<equiv> prd_at (tbl + 128)"
  shows "prd_addr M (e j) = prd_addr m (e j)" "prd_len M (e j) = prd_len m (e j)"
    "prd_ie M (e j) \<longleftrightarrow> prd_ie m (e j) \<or> j = chunks (unat sz) - 1"
proof -
  let ?k = "chunks (unat sz)" and ?i = "set_ie m (e (chunks (unat sz) - 1))"
  have "?k - 1 < ?k" using assms(2) by simp
  note r = room_unat [OF assms(1,2), folded e_def] room_unat [OF assms(1) this, folded e_def]
  have e16: "unat (e j) + 16 \<le> 2 ^ 64" using r by simp
  have "M x = ?i x" if "unat (e j) \<le> unat x" "unat x < unat (e j) + 16" for x
  proof -
    have "outside hdr 4 x" "outside tbl 14 x" using that r by (auto simp: outside_def)
    then show ?thesis using r unfolding M_def cmd_mem_def e_def by (simp add: put_fis_outside put_header_outside)
  qed
  note A = prd_fields_same [OF this e16]
  have "(prd_addr ?i (e j) = prd_addr m (e j) \<and> prd_len ?i (e j) = prd_len m (e j)) \<and> (prd_ie ?i (e j) \<longleftrightarrow> prd_ie m (e j) \<or> j = ?k - 1)"
  proof (cases "j = ?k - 1")
    case True
    then show ?thesis by (simp add: set_ie_fields)
  next
    case False
    then have "?i x = m x" if "unat (e j) \<le> unat x" "unat x < unat (e j) + 16" for x
      using that r assms(2) by (intro set_ie_outside) (auto simp: outside_def)
    from prd_fields_same [OF this e16] False show ?thesis by simp
  qed
  then show "prd_addr M (e j) = prd_addr m (e j)" "prd_len M (e j) = prd_len m (e j)"
    "prd_ie M (e j) \<longleftrightarrow> prd_ie m (e j) \<or> j = ?k - 1"
    using A by simp_all
qed

lemma cmd_mem_fields:
  fixes m :: mem and lba :: u64 and wr coc ident :: bool
  assumes "cmd_room hdr tbl ptr sz" and "m (tbl + 1) = 0"
  defines "M \<equiv> cmd_mem m hdr tbl (chunks (unat sz)) wr coc ident lba sz"
  shows "load_le 2 M (hdr + 2) = take_bit 16 (of_nat (chunks (unat sz)))" "M hdr AND 0x1F = 5" "bit (M hdr) 6 = wr"
    "M tbl = kFISTypeRegH2D" "M (tbl + 1) = (if coc then 0x80 else 0)" "M (tbl + 2) = fis_command wr ident"
    "fis_lba M tbl = take_bit 48 lba" "fis_count M tbl = (if ident then 1 else take_bit 16 (sz div 512))"
proof -
  let ?k = "chunks (unat sz)"
  have "0 < ?k" using assms(1) chunks_pos by (simp add: cmd_room_def)
  then have k: "?k - 1 < ?k" by simp
  note r = room_unat [OF assms(1) k]
  let ?h = "put_header (set_ie m (prd_at (tbl + 128) (?k - 1))) hdr (of_nat ?k) wr"
  have M: "M = put_fis ?h tbl wr coc ident lba sz" by (simp add: M_def cmd_mem_def)
  have h4: "unat hdr + 4 \<le> 2 ^ 64" "unat (hdr + 2) = unat hdr + 2" using r by (simp_all add: unat_word_ariths)
  have low: "M x = ?h x" if "unat x < unat hdr + 4" for x
    unfolding M using that r by (intro put_fis_outside) (auto simp: outside_def)
  have "load_le 2 M (hdr + 2) = load_le 2 ?h (hdr + 2)" by (rule load_le_same) (use low h4 in auto)
  then show "load_le 2 M (hdr + 2) = take_bit 16 (of_nat ?k)" using put_header_fields(1) [OF h4(1)] by simp
  have "M hdr = ?h hdr" using low by simp
  then show "M hdr AND 0x1F = 5" "bit (M hdr) 6 = wr" using put_header_fields(2,3) [OF h4(1)] by simp_all
  have u: "unat (tbl + 1) = unat tbl + 1" using r by (simp add: unat_word_ariths)
  have "outside hdr 4 (tbl + 1)" "outside (prd_at (tbl + 128) (?k - 1)) 16 (tbl + 1)" using u r by (auto simp: outside_def)
  then have "?h (tbl + 1) = 0" using assms(2) h4(1) r by (simp add: put_header_outside set_ie_outside)
  from put_fis_fields [of ?h tbl, OF this] show "M tbl = kFISTypeRegH2D" "M (tbl + 1) = (if coc then 0x80 else 0)" "M (tbl + 2) = fis_command wr ident"
    "fis_lba M tbl = take_bit 48 lba" "fis_count M tbl = (if ident then 1 else take_bit 16 (sz div 512))"
    unfolding M by simp_all
qed

text \<open>
  C14. The command says what was asked for.  When the pool has room for the buffer and the tables lie
  below it, the memory after \<open>drv_std_input_output_ahci\<close> has built its command holds a region
  table that covers exactly the buffer, in order and in pieces of at most 32 KiB, with the interrupt
  on the last entry only; a header with the length of this table, the length of the frame and the
  direction; a frame with the command, the low 48 bits of the sector and the sector count; for a write
  the bytes of the caller's buffer; and nothing else is changed.  The table of a slot has room for 248
  regions: for a longer transfer the entries run on behind it, from \<open>tbl + 4096\<close>.
\<close>

theorem ahci_command_exact:
  fixes s :: "'a ahci_scheme"
  assumes "pool_ok (apool s)" and "unat sz < 2 ^ 62" and "rtl_dma_alloc (apool s) sz 4096 = (p, ptr)" and "ptr \<noteq> 0"
    and "cmd_room hdr tbl ptr sz" and "ahci_build wr coc ident s hdr tbl lba buffer sz = (s', ptr')"
    and "buffer \<noteq> 0"
    and "unat buffer + unat sz \<le> unat tbl \<or> unat ptr + unat sz \<le> unat buffer \<and> unat buffer + unat sz < 2 ^ 64"
  shows "ptr' = ptr \<and> apool s' = p
    \<and> (\<forall>j < chunks (unat sz). prd_addr (ram s') (prd_at (tbl + 128) j) = ptr + 32768 * of_nat j
          \<and> prd_len (ram s') (prd_at (tbl + 128) j) = of_nat (min 32768 (unat sz - 32768 * j))
          \<and> (prd_ie (ram s') (prd_at (tbl + 128) j) \<longleftrightarrow> j = chunks (unat sz) - 1))
    \<and> load_le 2 (ram s') (hdr + 2) = take_bit 16 (of_nat (chunks (unat sz))) \<and> ram s' hdr AND 0x1F = 5 \<and> bit (ram s' hdr) 6 = wr
    \<and> ram s' tbl = kFISTypeRegH2D \<and> ram s' (tbl + 1) = (if coc then 0x80 else 0) \<and> ram s' (tbl + 2) = fis_command wr ident
    \<and> fis_lba (ram s') tbl = take_bit 48 lba \<and> fis_count (ram s') tbl = (if ident then 1 else take_bit 16 (sz div 512))
    \<and> (wr \<longrightarrow> read_bytes (ram s') ptr (unat sz) = read_bytes (ram s) buffer (unat sz))
    \<and> (\<forall>x. \<not> cmd_bytes wr hdr tbl ptr sz x \<longrightarrow> ram s' x = ram s x)
    \<and> prd_at (tbl + 128) 248 = tbl + 4096"
proof -
  let ?k = "chunks (unat sz)" and ?e = "prd_at (tbl + 128)"
  obtain m where m: "ahci_build wr coc ident s hdr tbl lba buffer sz =
        (s\<lparr>ram := cmd_mem m hdr tbl ?k wr coc ident lba sz, apool := p\<rparr>, ptr)"
    "\<And>j. j < ?k \<Longrightarrow> prd_addr m (?e j) = ptr + 32768 * of_nat j
          \<and> prd_len m (?e j) = of_nat (min 32768 (unat sz - 32768 * j)) \<and> \<not> prd_ie m (?e j)"
    "\<And>x. outside (tbl + 128) (16 * ?k) x \<Longrightarrow> m x = build_data wr (ram s) tbl ptr buffer sz x"
    using ahci_build_ram [OF assms(1-5) refl] by blast
  let ?M = "cmd_mem m hdr tbl ?k wr coc ident lba sz" and ?d = "build_data wr (ram s) tbl ptr buffer sz"
  have s': "ptr' = ptr" "apool s' = p" "ram s' = ?M" using m(1) assms(6) by auto
  have "0 < ?k" using assms(5) chunks_pos by (simp add: cmd_room_def)
  then have k: "?k - 1 < ?k" by simp
  note r = room_unat [OF assms(5) k]
  have u: "unat (tbl + 128) = unat tbl + 128" "unat (tbl + 1) = unat tbl + 1" using r by (simp_all add: unat_word_ariths)
  have "m (tbl + 1) = 0" using m(3) [of "tbl + 1"] build_data_zero [OF assms(5), of 1] u by (simp add: outside_def)
  note f = cmd_mem_fields [of hdr tbl ptr sz m, OF assms(5) this]
  have out: "?M x = ?d x" if "outside hdr 4 x" "outside tbl (128 + 16 * ?k) x" for x
    using that r k m(3) [of x] u by (subst cmd_mem_outside [OF assms(5)]) (auto simp: outside_def)
  have "read_bytes ?M ptr (unat sz) = read_bytes (ram s) buffer (unat sz)" if wr
  proof -
    have "?M (ptr + of_nat i) = ?d (ptr + of_nat i)" if "i < unat sz" for i
    proof -
      have "unat (ptr + of_nat i) = unat ptr + i" using that assms(5) by (simp add: unat_word_ariths unat_of_nat cmd_room_def)
      then show ?thesis using assms(5) by (intro out) (auto simp: outside_def cmd_room_def)
    qed
    then have "read_bytes ?M ptr (unat sz) = read_bytes ?d ptr (unat sz)" by (auto simp: read_bytes_def)
    then show ?thesis using build_data_copied [OF assms(5,7,8)] that by simp
  qed
  moreover have "?M x = ram s x" if "\<not> cmd_bytes wr hdr tbl ptr sz x" for x
  proof -
    have "outside hdr 4 x" "outside tbl (128 + 16 * ?k) x" "wr \<longrightarrow> outside ptr (unat sz) x" using that by (auto simp: cmd_bytes_def)
    moreover from this(2) have "outside tbl 144 x" using k by (auto simp: outside_def)
    ultimately show ?thesis using out build_data_outside [OF assms(5)] by simp
  qed
  moreover have "?e 248 = tbl + 4096" by (simp add: prd_at_def)
  ultimately show ?thesis using s' f m(2) cmd_mem_prd [OF assms(5)] by simp
qed


section \<open>Transfers\<close>

lemma slot_wait_refused:
  "t \<le> Suc kAhciTimeout \<Longrightarrow> (\<And>u. t < u \<Longrightarrow> u \<le> Suc kAhciTimeout \<Longrightarrow> drv_find_cmd_slot_ahci (rd u) = -1) \<Longrightarrow> slot_wait rd t (-1) = None"
proof (induction "Suc kAhciTimeout - t" arbitrary: t)
  case 0
  then show ?case by (subst slot_wait.simps) simp
next
  case (Suc n)
  then have t: "t < Suc kAhciTimeout" "n = Suc kAhciTimeout - Suc t" by simp_all
  have "slot_wait rd (Suc t) (-1) = None" using Suc.hyps(1) [OF t(2)] Suc.prems(2) t(1) by simp
  then show ?case using Suc.prems(2) [of "Suc t"] t(1) by (subst slot_wait.simps) simp
qed

lemma ci_wait_iff: "t \<le> Suc kAhciTimeout \<Longrightarrow> ci_wait rd b t \<longleftrightarrow> (\<exists>u. t \<le> u \<and> u \<le> kAhciTimeout \<and> rd u AND b = 0)"
proof (induction "Suc kAhciTimeout - t" arbitrary: t)
  case 0
  then show ?case by (subst ci_wait.simps) auto
next
  case (Suc n)
  then have t: "t \<le> kAhciTimeout" "n = Suc kAhciTimeout - Suc t" by simp_all
  have IH: "ci_wait rd b (Suc t) \<longleftrightarrow> (\<exists>u. Suc t \<le> u \<and> u \<le> kAhciTimeout \<and> rd u AND b = 0)" using Suc.hyps(1) [OF t(2)] t(1) by simp
  show ?case
  proof (cases "rd t AND b = 0")
    case True
    then show ?thesis using t(1) by (subst ci_wait.simps) auto
  next
    case False
    then have "(\<exists>u. t \<le> u \<and> u \<le> kAhciTimeout \<and> rd u AND b = 0) \<longleftrightarrow> (\<exists>u. Suc t \<le> u \<and> u \<le> kAhciTimeout \<and> rd u AND b = 0)"
      by (metis Suc_leI le_eq_less_or_eq Suc_leD)
    then show ?thesis using IH False t(1) by (subst ci_wait.simps) simp
  qed
qed

lemma tfd_spin_busy:
  assumes "\<And>n. tfd_busy (rd n)"
  shows "tfd_spin rd i = None"
proof (cases "tfd_spin rd i")
  case (Some r)
  have "\<exists>n. \<not> tfd_busy (rd n)"
    by (rule tfd_spin.raw_induct [where P = "\<lambda>rd i r. \<exists>n. \<not> tfd_busy (rd n)", OF _ Some]) (auto split: if_splits)
  then show ?thesis using assms by blast
qed simp

text \<open>What the completion does after a good transfer.\<close>

lemma ahci_finish_good:
  fixes s :: "'a ahci_scheme"
  assumes "kNeDMAPoolStart \<le> ptr" and "ptr \<le> kDmaPoolEnd" and "hba_is env AND kSATAErrTaskFile = 0" and "\<not> tfd_busy (tfd_read env 0)"
  shows "ahci_finish env wr s ptr buffer sz =
    Some (set_ahci_err kErrorSuccess
      (s\<lparr>ram := (if wr then ram s else fst (rt_copy_memory (ram s) ptr buffer sz)), apool := rtl_dma_free (apool s) sz\<rparr>))"
  using assms(3,4) by (simp add: ahci_finish_def Let_def flush_in_pool [OF assms(1,2)])

text \<open>What a command needs: a free slot, room in the pool, and tables below the buffer.\<close>

definition cmd_ready :: "hba_env \<Rightarrow> 'a ahci_scheme \<Rightarrow> int \<Rightarrow> u64 \<Rightarrow> u64 \<Rightarrow> bool" where
  "cmd_ready env s slot ptr sz \<longleftrightarrow>
     pool_ok (apool s) \<and> unat sz < 2 ^ 62 \<and> snd (rtl_dma_alloc (apool s) sz 4096) = ptr \<and> ptr \<noteq> 0
     \<and> drv_find_cmd_slot_ahci (slots_read env 0) = slot \<and> slot \<noteq> -1
     \<and> cmd_room (cmd_header s slot) (cmd_table (ram s) (cmd_header s slot)) ptr sz \<and> cmd_header s slot \<noteq> 0"

text \<open>A device that takes the command in time, without an error, and is idle afterwards.\<close>

definition answers :: "hba_env \<Rightarrow> int \<Rightarrow> bool" where
  "answers env slot \<longleftrightarrow> (\<exists>t \<le> kAhciTimeout. ci_read env t AND push_bit (nat slot) 1 = 0)
     \<and> hba_is env AND kSATAErrTaskFile = 0 \<and> \<not> tfd_busy (tfd_read env 0)"

lemma cmd_readyD:
  assumes "cmd_ready env s slot ptr sz"
  shows "\<exists>p. rtl_dma_alloc (apool s) sz 4096 = (p, ptr)" "pool_ok (apool s)" "unat sz < 2 ^ 62" "ptr \<noteq> 0"
    "cmd_room (cmd_header s slot) (cmd_table (ram s) (cmd_header s slot)) ptr sz"
    "kNeDMAPoolStart \<le> ptr" "ptr \<le> kDmaPoolEnd" "sz \<noteq> 0"
proof -
  show al: "\<exists>p. rtl_dma_alloc (apool s) sz 4096 = (p, ptr)" and r: "pool_ok (apool s)" "unat sz < 2 ^ 62" "ptr \<noteq> 0"
    "cmd_room (cmd_header s slot) (cmd_table (ram s) (cmd_header s slot)) ptr sz"
    using assms by (auto simp: cmd_ready_def) (metis prod.collapse)
  then show "kNeDMAPoolStart \<le> ptr" "ptr \<le> kDmaPoolEnd" "sz \<noteq> 0" using alloc_page by blast+
qed

text \<open>The transfer up to the issue of the command.\<close>

lemma io_start:
  fixes s :: "'a ahci_scheme"
  assumes "cmd_ready env s slot ptr sz" and "buffer \<noteq> 0" and "sector_sz \<noteq> 0"
  shows "\<exists>m p. ahci_build wr coc ident s (cmd_header s slot) (cmd_table (ram s) (cmd_header s slot)) (lba div sector_sz) buffer sz
        = (s\<lparr>ram := m, apool := p\<rparr>, ptr)
    \<and> (\<forall>e. rtl_dma_free (p\<lparr>dma_error := e\<rparr>) sz = (apool s)\<lparr>dma_error := e, kDmaPoolPtr := ptr\<rparr>) \<and> rtl_dma_free p sz = (apool s)\<lparr>kDmaPoolPtr := ptr\<rparr>
    \<and> fis_lba m (cmd_table (ram s) (cmd_header s slot)) = take_bit 48 (lba div sector_sz)
    \<and> drv_std_input_output_ahci debug env wr coc ident s lba buffer sector_sz sz =
        (let s2 = s\<lparr>apool := p, Ci := push_bit (nat slot) 1, ram := hba_device env m\<rparr>
         in if \<not> ci_wait (ci_read env) (push_bit (nat slot) 1) 0 then
              Some (Ret (s2\<lparr>apool := rtl_dma_free (p\<lparr>dma_error := kErrorDiskIsCorrupted\<rparr>) sz\<rparr>))
            else map_option Ret (ahci_finish env wr s2 ptr buffer sz))"
proof -
  let ?h = "cmd_header s slot" and ?t = "cmd_table (ram s) (cmd_header s slot)" and ?k = "chunks (unat sz)"
  note r = cmd_readyD(2-8) [OF assms(1)]
  obtain p where al: "rtl_dma_alloc (apool s) sz 4096 = (p, ptr)" using cmd_readyD(1) [OF assms(1)] by blast
  obtain m where m: "ahci_build wr coc ident s ?h ?t (lba div sector_sz) buffer sz
      = (s\<lparr>ram := cmd_mem m ?h ?t ?k wr coc ident (lba div sector_sz) sz, apool := p\<rparr>, ptr)"
    "\<And>x. outside (?t + 128) (16 * ?k) x \<Longrightarrow> m x = build_data wr (ram s) ?t ptr buffer sz x"
    using ahci_build_ram [OF r(1,2) al r(3,4) refl] by blast
  have k: "0 < ?k" using r(4) chunks_pos by (simp add: cmd_room_def)
  have "unat (?t + 128) = unat ?t + 128" "unat (?t + 1) = unat ?t + 1" using room_unat [OF r(4) k] by (simp_all add: unat_word_ariths)
  then have "m (?t + 1) = 0" using m(2) [of "?t + 1"] build_data_zero [OF r(4), of 1] by (simp add: outside_def)
  note lba = cmd_mem_fields(7) [of ?h ?t ptr sz m, OF r(4) this]
  have slot: "slot_wait (slots_read env) 0 (drv_find_cmd_slot_ahci (slots_read env 0)) = Some slot"
    using assms(1) by (subst slot_wait.simps) (simp add: cmd_ready_def)
  have t0: "?t \<noteq> 0" "?h \<noteq> 0" using r(4) assms(1) by (auto simp: cmd_room_def cmd_ready_def)
  have p: "p = (apool s)\<lparr>kDmaPoolPtr := ptr + sz\<rparr>" using alloc_page [OF r(1,2) al r(3)] by simp
  have fr: "rtl_dma_free (p\<lparr>dma_error := e\<rparr>) sz = (apool s)\<lparr>dma_error := e, kDmaPoolPtr := ptr\<rparr>"
    "rtl_dma_free p sz = (apool s)\<lparr>kDmaPoolPtr := ptr\<rparr>" for e
    using r(3,5,7) by (simp_all add: p rtl_dma_free_def Let_def not_less)
  have "drv_std_input_output_ahci debug env wr coc ident s lba buffer sector_sz sz =
        (let s2 = s\<lparr>apool := p, Ci := push_bit (nat slot) 1, ram := hba_device env (cmd_mem m ?h ?t ?k wr coc ident (lba div sector_sz) sz)\<rparr>
         in if \<not> ci_wait (ci_read env) (push_bit (nat slot) 1) 0 then
              Some (Ret (s2\<lparr>apool := rtl_dma_free (p\<lparr>dma_error := kErrorDiskIsCorrupted\<rparr>) sz\<rparr>))
            else map_option Ret (ahci_finish env wr s2 ptr buffer sz))"
    using assms(2,3) r(7) slot t0 m(1) by (simp add: drv_std_input_output_ahci_def Let_def)
  then show ?thesis using m(1) fr lba by (intro exI [of _ "cmd_mem m ?h ?t ?k wr coc ident (lba div sector_sz) sz"] exI [of _ p]) simp
qed

lemma ci_wait_answers: "answers env slot \<Longrightarrow> ci_wait (ci_read env) (push_bit (nat slot) 1) 0"
  by (auto simp: answers_def ci_wait_iff)



text \<open>
  C16. A read delivers.  With a free slot, room in the pool and a device that completes within the
  limit, reports no error and puts the sectors' bytes into the regions of the command,
  \<open>drv_std_read\<close> returns with these bytes in the caller's buffer and the error number cleared.  The
  pool is left so that the next transfer gets the same buffer: reading again and again never uses it up.
\<close>

theorem ahci_read_returns:
  fixes s :: "'a ahci_scheme"
  assumes "cmd_ready env s slot ptr sz" and "answers env slot" and "buffer \<noteq> 0"
    and "unat ptr + unat sz \<le> unat buffer \<and> unat buffer + unat sz < 2 ^ 64 \<or> unat buffer + unat sz \<le> unat ptr"
    and "length data = unat sz"
    and "\<And>m. ram (fst (ahci_build False True False s (cmd_header s slot) (cmd_table (ram s) (cmd_header s slot)) (lba div 512) buffer sz)) = m
           \<Longrightarrow> hba_device env m = write_bytes m ptr data"
  shows "\<exists>s'. drv_std_read_ahci debug env s lba buffer 512 sz = Some (Ret s') \<and> read_bytes (ram s') buffer (unat sz) = data
    \<and> dma_error (apool s') = kErrorSuccess \<and> snd (rtl_dma_alloc (apool s') sz 4096) = ptr"
proof -
  let ?h = "cmd_header s slot" and ?t = "cmd_table (ram s) (cmd_header s slot)"
  note r = cmd_readyD(2-8) [OF assms(1)]
  obtain m p where io: "ahci_build False True False s ?h ?t (lba div 512) buffer sz = (s\<lparr>ram := m, apool := p\<rparr>, ptr)"
    "rtl_dma_free p sz = (apool s)\<lparr>kDmaPoolPtr := ptr\<rparr>"
    "drv_std_input_output_ahci debug env False True False s lba buffer 512 sz =
      map_option Ret (ahci_finish env False (s\<lparr>apool := p, Ci := push_bit (nat slot) 1, ram := hba_device env m\<rparr>) ptr buffer sz)"
    using io_start [OF assms(1,3), of 512 False True False lba debug] ci_wait_answers [OF assms(2)] by (auto simp: Let_def)
  let ?m = "write_bytes m ptr data"
  have dev: "hba_device env m = ?m" using assms(6) io(1) by simp
  have "sep ptr (unat sz) buffer (unat sz)" using assms(4) r(4) by (auto simp: cmd_room_def intro: sep_ranges)
  then have "fst (rt_copy_memory ?m ptr buffer sz) = write_bytes ?m buffer (read_bytes ?m ptr (unat sz))"
    using r(2,3) assms(3) by (simp add: rt_copy_memory_def copy_loop_eq)
  then have copied: "read_bytes (fst (rt_copy_memory ?m ptr buffer sz)) buffer (unat sz) = data"
    using r(2) by (simp add: assms(5) [symmetric] mem_simps)
  obtain p' where "rtl_dma_alloc (apool s) sz 4096 = (p', ptr)" using cmd_readyD(1) [OF assms(1)] by blast
  note took = dma_alloc_took [OF pow2_align_page _ r(2) this r(3)]
  have eq: "(apool s)\<lparr>kDmaPoolPtr := ptr, dma_error := kErrorSuccess\<rparr> = (apool s)\<lparr>dma_error := kErrorSuccess\<rparr>\<lparr>kDmaPoolPtr := ptr\<rparr>"
    by (cases "apool s") simp
  have "snd (rtl_dma_alloc ((apool s)\<lparr>kDmaPoolPtr := ptr, dma_error := kErrorSuccess\<rparr>) sz 4096) = ptr"
    unfolding eq using took r(1) by (intro dma_alloc_at [OF pow2_align_page r(2)]) (simp_all add: pool_ok_def)
  then show ?thesis
    using io(2,3) copied assms(2) by (simp add: drv_std_read_ahci_def dev ahci_finish_good [OF r(5,6)] answers_def set_ahci_err_def)
qed

text \<open>
  Waiting for the device.  A transfer gives up with \<open>kErrorDisk\<close> and no other effect when all 32 slots
  stay busy for 32770 looks at the registers; it gives up with \<open>kErrorDiskIsCorrupted\<close>, its buffer
  returned to the pool, when the device does not take the command within 32769 looks; but it waits
  forever when the device takes the command and stays busy.
\<close>

theorem ahci_waits:
  fixes s :: "'a ahci_scheme"
  assumes "buffer \<noteq> 0" and "sz \<noteq> 0" and "sector_sz \<noteq> 0"
  shows "((\<forall>t \<le> 32769. slots_read env t = -1) \<longrightarrow>
        drv_std_input_output_ahci debug env wr coc ident s lba buffer sector_sz sz = Some (Ret (set_ahci_err kErrorDisk s)))
    \<and> (cmd_ready env s slot ptr sz \<and> (\<forall>t \<le> 32768. ci_read env t AND push_bit (nat slot) 1 \<noteq> 0) \<longrightarrow>
        (\<exists>s'. drv_std_input_output_ahci debug env wr coc ident s lba buffer sector_sz sz = Some (Ret s')
          \<and> dma_error (apool s') = kErrorDiskIsCorrupted \<and> kDmaPoolPtr (apool s') = ptr))
    \<and> (cmd_ready env s slot ptr sz \<and> ci_read env 0 AND push_bit (nat slot) 1 = 0 \<and> hba_is env AND kSATAErrTaskFile = 0
          \<and> (\<forall>n. tfd_busy (tfd_read env n)) \<longrightarrow>
        drv_std_input_output_ahci debug env wr coc ident s lba buffer sector_sz sz = None)"
proof (intro conjI impI)
  assume all: "\<forall>t \<le> 32769. slots_read env t = -1"
  have f: "drv_find_cmd_slot_ahci (-1) = -1"
    using find_slot_loop_spec [of 0 32 "-1"] by (auto simp: drv_find_cmd_slot_ahci_def kSATAPortCnt_def)
  then have "slot_wait (slots_read env) 0 (-1) = None" using all by (intro slot_wait_refused) (simp_all add: kAhciTimeout_def)
  then show "drv_std_input_output_ahci debug env wr coc ident s lba buffer sector_sz sz = Some (Ret (set_ahci_err kErrorDisk s))"
    using assms all f by (simp add: drv_std_input_output_ahci_def Let_def)
next
  assume a: "cmd_ready env s slot ptr sz \<and> (\<forall>t \<le> 32768. ci_read env t AND push_bit (nat slot) 1 \<noteq> 0)"
  have "\<not> ci_wait (ci_read env) (push_bit (nat slot) 1) 0" using a by (auto simp: ci_wait_iff kAhciTimeout_def)
  then show "\<exists>s'. drv_std_input_output_ahci debug env wr coc ident s lba buffer sector_sz sz = Some (Ret s')
      \<and> dma_error (apool s') = kErrorDiskIsCorrupted \<and> kDmaPoolPtr (apool s') = ptr"
    using io_start [OF conjunct1 [OF a] assms(1,3), of wr coc ident lba debug] by (auto simp: Let_def)
next
  assume a: "cmd_ready env s slot ptr sz \<and> ci_read env 0 AND push_bit (nat slot) 1 = 0 \<and> hba_is env AND kSATAErrTaskFile = 0
      \<and> (\<forall>n. tfd_busy (tfd_read env n))"
  have ci: "ci_wait (ci_read env) (push_bit (nat slot) 1) 0" using a by (subst ci_wait.simps) (simp add: kAhciTimeout_def)
  have "ahci_finish env wr s2 ptr buffer sz = None" for s2 :: "'a ahci_scheme"
    using a tfd_spin_busy [of "tfd_read env" 1] by (simp add: ahci_finish_def Let_def)
  then show "drv_std_input_output_ahci debug env wr coc ident s lba buffer sector_sz sz = None"
    using io_start [OF conjunct1 [OF a] assms(1,3), of wr coc ident lba debug] ci by (auto simp: Let_def)
qed

text \<open>
  The device interface divides the address twice.  \<open>drv_std_read\<close> and \<open>drv_std_write\<close> put the sector of a byte
  address, its quotient by 512, into the command.  \<open>sk_io_read_ahci\<close> and \<open>sk_io_write_ahci\<close>
  divide the packet's address before they pass it on, so their command names the quotient of the
  sector by 512: every packet in the first 256 KiB of the disk goes to sector 0.
\<close>

theorem sk_io_divides_twice:
  fixes s :: "'a ahci_scheme"
  assumes "cmd_ready env s slot ptr sz" and "buffer \<noteq> 0" and "answers env slot"
  defines "tbl \<equiv> cmd_table (ram s) (cmd_header s slot)"
  shows "(\<exists>m p. ahci_build wr True False s (cmd_header s slot) tbl (lba div 512) buffer sz = (s\<lparr>ram := m, apool := p\<rparr>, ptr)
        \<and> fis_lba m tbl = take_bit 48 (lba div 512)
        \<and> drv_std_input_output_ahci debug env wr True False s lba buffer 512 sz =
            map_option Ret (ahci_finish env wr (s\<lparr>apool := p, Ci := push_bit (nat slot) 1, ram := hba_device env m\<rparr>) ptr buffer sz))
    \<and> (\<exists>m p. fis_lba m tbl = take_bit 48 (lba div 512 div 512)
        \<and> sk_io_ahci debug env wr s (Some (lba, buffer, sz)) =
            map_option Ret (ahci_finish env wr (s\<lparr>apool := p, Ci := push_bit (nat slot) 1, ram := hba_device env m\<rparr>) ptr buffer sz))"
proof (rule conjI)
  note ci = ci_wait_answers [OF assms(3)]
  show "\<exists>m p. ahci_build wr True False s (cmd_header s slot) tbl (lba div 512) buffer sz = (s\<lparr>ram := m, apool := p\<rparr>, ptr)
        \<and> fis_lba m tbl = take_bit 48 (lba div 512)
        \<and> drv_std_input_output_ahci debug env wr True False s lba buffer 512 sz =
            map_option Ret (ahci_finish env wr (s\<lparr>apool := p, Ci := push_bit (nat slot) 1, ram := hba_device env m\<rparr>) ptr buffer sz)"
    using io_start [OF assms(1,2), of 512 wr True False lba debug] ci unfolding tbl_def by (auto simp: Let_def)
  let ?s = "set_ahci_err kErrorSuccess s"
  have f: "ram ?s = ram s" "cmd_header ?s slot = cmd_header s slot" by (simp_all add: set_ahci_err_def cmd_header_def)
  have "snd (rtl_dma_alloc (p\<lparr>dma_error := e\<rparr>) sz 4096) = snd (rtl_dma_alloc p sz 4096)" for p :: dma_pool and e
    by (simp add: rtl_dma_alloc_def Let_def)
  then have "cmd_ready env ?s slot ptr sz" using assms(1) by (simp add: cmd_ready_def f pool_ok_def) (simp add: set_ahci_err_def)
  from io_start [OF this assms(2), of 512 wr True False "lba div 512" debug] ci
  show "\<exists>m p. fis_lba m tbl = take_bit 48 (lba div 512 div 512)
        \<and> sk_io_ahci debug env wr s (Some (lba, buffer, sz)) =
            map_option Ret (ahci_finish env wr (s\<lparr>apool := p, Ci := push_bit (nat slot) 1, ram := hba_device env m\<rparr>) ptr buffer sz)"
    unfolding tbl_def f by (auto simp: Let_def sk_io_ahci_def kAHCISectorSize_def) (auto simp: set_ahci_err_def)
qed

section \<open>Finding a disk\<close>

lemma port_scan_hangs:
  assumes "pi \<noteq> 0" and "\<not> port_active hba i"
  shows "port_scan hba atapi pi i = None"
proof (cases "port_scan hba atapi pi i")
  case (Some r)
  have "\<not> (pi \<noteq> 0 \<and> \<not> port_active hba i)"
    by (rule port_scan.raw_induct [where P = "\<lambda>hba atapi pi i r. \<not> (pi \<noteq> 0 \<and> \<not> port_active hba i)", OF _ Some])
      (auto split: if_splits, blast)
  then show ?thesis using assms by blast
qed simp

lemma port_scan_skip:
  assumes "\<forall>j < k. port_active hba (i + j) \<and> \<not> port_match hba atapi (i + j)" and "\<forall>j < k. drop_bit j pi \<noteq> 0"
  shows "port_scan hba atapi pi i = port_scan hba atapi (drop_bit k pi) (i + k)"
  using assms
proof (induction k)
  case (Suc k)
  have "port_scan hba atapi (drop_bit k pi) (i + k) = port_scan hba atapi (drop_bit (Suc k) pi) (i + Suc k)"
    using Suc.prems by (subst port_scan.simps) (simp add: drop_bit_drop_bit)
  then show ?case using Suc by simp
qed simp

text \<open>
  C31. The search of the ports.  While the ports are active and hold no disk, the search goes on; at
  the first port whose device is missing or asleep it looks at the same port forever, so bringing
  up the controller never returns, whatever disks the later ports have; a port that is active and has
  the signature of a disk is taken.  A controller whose low 16 implemented-port bits are clear is
  skipped.
\<close>

theorem ahci_port_search:
  assumes "\<forall>j < k. port_active hba j \<and> \<not> port_match hba atapi j" and "drop_bit k (Pi hba) \<noteq> 0"
  shows "(\<not> port_active hba k \<longrightarrow> port_scan hba atapi (Pi hba) 0 = None
          \<and> (ucast (Pi hba) \<noteq> (0 :: u16) \<longrightarrow> sk_init_ahci_device debug env (Some hba # ds) atapi s = None))
    \<and> (port_active hba k \<and> port_match hba atapi k \<longrightarrow> port_scan hba atapi (Pi hba) 0 = Some (Some k))
    \<and> (ucast (Pi hba) = (0 :: u16) \<longrightarrow> drv_std_init_ahci debug env (Some hba # ds) atapi s pi =
          drv_std_init_ahci debug env ds atapi
            (fst (mm_map_page s (hba_bar hba) (hba_bar hba) (kMMFlagsPresent OR kMMFlagsWr OR kMMFlagsPCD OR kMMFlagsPwt) 2)) 0)"
proof -
  have "drop_bit j (Pi hba) \<noteq> 0" if "j < k" for j
  proof
    assume "drop_bit j (Pi hba) = 0"
    then have "drop_bit (k - j) (drop_bit j (Pi hba)) = 0" by simp
    then show False using assms(2) that by (simp add: drop_bit_drop_bit)
  qed
  then have sk: "port_scan hba atapi (Pi hba) 0 = port_scan hba atapi (drop_bit k (Pi hba)) k"
    using port_scan_skip [of k hba 0 atapi "Pi hba"] assms(1) by simp
  have nz: "\<not> (ucast (Pi hba) :: u16) < 1 \<longleftrightarrow> ucast (Pi hba) \<noteq> (0 :: u16)" by (simp add: word_less_1)
  have "port_scan hba atapi (Pi hba) 0 = None" if "\<not> port_active hba k"
    using sk port_scan_hangs [OF assms(2) that] by simp
  moreover have "port_scan hba atapi (drop_bit k (Pi hba)) k = Some (Some k)" if "port_active hba k" "port_match hba atapi k"
    using assms(2) that by (subst port_scan.simps) simp
  ultimately show ?thesis using sk nz by (auto simp: sk_init_ahci_device_def drv_std_init_ahci_def Let_def)
qed


section \<open>The command tables\<close>

lemma alloc_here:
  assumes "pow2_align align" and "unat align dvd unat (kDmaPoolPtr p)" and "unat (kDmaPoolPtr p) + unat sz \<le> unat kDmaPoolEnd"
    and "unat sz < 2 ^ 62" and "sz \<noteq> 0"
  shows "rtl_dma_alloc p sz align = (p\<lparr>kDmaPoolPtr := kDmaPoolPtr p + sz\<rparr>, kDmaPoolPtr p)"
proof -
  have "align \<noteq> 0" using assms(1) by (auto simp: pow2_align_def)
  then have "0 < unat align" by (simp add: unat_gt_0)
  moreover obtain m where "unat (kDmaPoolPtr p) = unat align * m" using assms(2) by blast
  ultimately have up: "(unat (kDmaPoolPtr p) + (unat align - 1)) div unat align * unat align = unat (kDmaPoolPtr p)"
    using round_up_multiple [of "unat align" m] by simp
  have le: "unat (kDmaPoolPtr p) \<le> unat kDmaPoolEnd" using assms(3) by simp
  from rtl_dma_alloc_exact(1) [OF assms(1) le assms(4,5)] up assms(3)
  obtain q where "rtl_dma_alloc p sz align = (p\<lparr>kDmaPoolPtr := q + sz\<rparr>, q)" "unat q = unat (kDmaPoolPtr p)" by auto
  moreover from this(2) have "q = kDmaPoolPtr p" by (simp add: word_unat_eq_iff)
  ultimately show ?thesis by simp
qed

text \<open>Page tables outside the command memory that map the pool to itself.\<close>

definition pool_identity :: "'a ahci_scheme \<Rightarrow> u64 \<Rightarrow> bool" where
  "pool_identity s clb \<longleftrightarrow> (\<forall>t :: 'a ahci_scheme. \<forall>y. cr3 t = cr3 s \<and> (\<forall>x. outside clb 135168 x \<longrightarrow> ram t x = ram s x)
     \<and> unat kNeDMAPoolStart \<le> unat y \<and> unat y < unat kDmaPoolEnd \<longrightarrow> mm_get_page_addr t y = y)"

text \<open>One turn of the loop: the header of the slot gets the address of a fresh, cleared table.\<close>

definition table_at :: "u64 \<Rightarrow> nat \<Rightarrow> u64" where
  "table_at clb i = clb + 4096 * of_nat (Suc i)"

definition header_at :: "u64 \<Rightarrow> nat \<Rightarrow> u64" where
  "header_at clb i = clb + 32 * of_nat i"

definition table_mem :: "mem \<Rightarrow> u64 \<Rightarrow> nat \<Rightarrow> mem" where
  "table_mem m clb i =
     write_bytes (store_le 4 (store_le 4 m (header_at clb i + 8) (table_at clb i AND 0xFFFFFFFF)) (header_at clb i + 12) (drop_bit 32 (table_at clb i)))
       (table_at clb i) (replicate 4096 0)"

lemma table_unat:
  assumes "unat clb + 135168 \<le> unat kDmaPoolEnd" and "i < 32"
  shows "unat (table_at clb i) = unat clb + 4096 * Suc i" "unat (header_at clb i) = unat clb + 32 * i"
    "unat (header_at clb i + 8) = unat clb + 32 * i + 8" "unat (header_at clb i + 12) = unat clb + 32 * i + 12"
  using assms by (simp_all add: table_at_def header_at_def unat_word_ariths unat_of_nat unat_pool mod_simps)

lemma table_mem_outside:
  assumes "unat clb + 135168 \<le> unat kDmaPoolEnd" and "i < 32"
    and "outside (header_at clb i + 8) 8 x" and "outside (table_at clb i) 4096 x"
  shows "table_mem m clb i x = m x"
proof -
  note u = table_unat [OF assms(1,2)]
  have "unat kDmaPoolEnd < 2 ^ 64 - 4096" by (simp add: unat_pool)
  moreover have "outside (header_at clb i + 8) 4 x" "outside (header_at clb i + 12) 4 x" using assms(3) u by (auto simp: outside_def)
  ultimately show ?thesis using assms u unfolding table_mem_def
    by (simp add: write_bytes_outside store_le_outside)
qed

lemma table_mem_header:
  assumes "unat clb + 135168 \<le> unat kDmaPoolEnd" and "i < 32"
  shows "cmd_table (table_mem m clb i) (header_at clb i) = table_at clb i"
proof -
  note u = table_unat [OF assms]
  let ?m = "store_le 4 (store_le 4 m (header_at clb i + 8) (table_at clb i AND 0xFFFFFFFF)) (header_at clb i + 12) (drop_bit 32 (table_at clb i))"
  have "load_le 4 (table_mem m clb i) a = load_le 4 ?m a" if "a = header_at clb i + 8 \<or> a = header_at clb i + 12" for a
    using that u assms unfolding table_mem_def
    by (intro load_le_same write_bytes_outside) (auto simp: outside_def unat_pool)
  moreover have "load_le 4 ?m (header_at clb i + 8) = take_bit 32 (table_at clb i)"
    "load_le 4 ?m (header_at clb i + 12) = take_bit 32 (drop_bit 32 (table_at clb i))"
    by (simp_all add: mem_simps sep_simps take_bit_eq_mask mask_eq_exp_minus_1)
  ultimately show ?thesis by (simp add: cmd_table_def split_addr)
qed

lemma table_step:
  fixes s :: "'a ahci_scheme"
  assumes pool: "unat clb + 135168 \<le> unat kDmaPoolEnd" "unat kNeDMAPoolStart \<le> unat clb" "128 dvd unat clb"
    and i: "i < 32" and cur: "kDmaPoolPtr (apool s) = table_at clb i" and idm: "pool_identity s clb"
  shows "cmd_tables_loop s clb i (Suc n) =
    cmd_tables_loop (s\<lparr>apool := (apool s)\<lparr>kDmaPoolPtr := table_at clb (Suc i)\<rparr>, ram := table_mem (ram s) clb i\<rparr>) clb (Suc i) n"
proof -
  note u = table_unat [OF pool(1) i]
  have d: "unat (128 :: u64) dvd unat (kDmaPoolPtr (apool s))" using pool(3) by (simp add: cur u dvd_add)
  have p2: "pow2_align 128" unfolding pow2_align_def by (rule exI [of _ 7]) simp
  have "rtl_dma_alloc (apool s) 4096 128 = ((apool s)\<lparr>kDmaPoolPtr := table_at clb i + 4096\<rparr>, table_at clb i)"
    using alloc_here [OF p2 d, of 4096] pool i u by (simp add: cur)
  moreover have "table_at clb i + 4096 = table_at clb (Suc i)" by (simp add: table_at_def algebra_simps)
  moreover have "table_at clb i \<noteq> 0" using u pool by (auto simp: unat_pool)
  moreover have "mm_get_page_addr (s\<lparr>apool := q\<rparr>) (table_at clb i) = table_at clb i" for q
    using idm u pool i by (simp add: pool_identity_def)
  ultimately show ?thesis
    by (simp add: Let_def sizeof_HbaCmdHeader_def rt_set_memory_def set_loop_eq table_mem_def header_at_def)
qed

lemma pool_identity_keep:
  fixes s t :: "'a ahci_scheme"
  assumes "pool_identity s clb" and "cr3 t = cr3 s" and "\<And>x. outside clb 135168 x \<Longrightarrow> ram t x = ram s x"
  shows "pool_identity t clb"
  using assms unfolding pool_identity_def by metis

lemma cmd_tables_loop_ok:
  fixes s :: "'a ahci_scheme"
  assumes pool: "unat clb + 135168 \<le> unat kDmaPoolEnd" "unat kNeDMAPoolStart \<le> unat clb" "128 dvd unat clb"
    and "i + n = 32" and "kDmaPoolPtr (apool s) = table_at clb i" and "pool_identity s clb"
  shows "\<exists>m'. cmd_tables_loop s clb i n = (s\<lparr>ram := m', apool := (apool s)\<lparr>kDmaPoolPtr := table_at clb 32\<rparr>\<rparr>, True)
    \<and> (\<forall>j. i \<le> j \<and> j < 32 \<longrightarrow> cmd_table m' (header_at clb j) = table_at clb j)
    \<and> (\<forall>x. unat x < unat clb + 32 * i \<or> unat clb + 135168 \<le> unat x \<longrightarrow> m' x = ram s x)"
  using assms(4-6)
proof (induction n arbitrary: i s)
  case 0
  have "s\<lparr>ram := ram s, apool := (apool s)\<lparr>kDmaPoolPtr := table_at clb 32\<rparr>\<rparr> = s" using 0 by simp
  then show ?case using 0 by (intro exI [of _ "ram s"]) auto
next
  case (Suc n)
  then have i: "i < 32" "Suc i + n = 32" by simp_all
  note u = table_unat [OF pool(1) i(1)]
  let ?m = "table_mem (ram s) clb i"
  let ?s = "s\<lparr>apool := (apool s)\<lparr>kDmaPoolPtr := table_at clb (Suc i)\<rparr>, ram := ?m\<rparr>"
  have fr: "?m x = ram s x" if "unat x < unat clb + 32 * i \<or> unat clb + 135168 \<le> unat x" for x
    using that u i by (intro table_mem_outside [OF pool(1) i(1)]) (auto simp: outside_def)
  then have idm: "pool_identity ?s clb" by (intro pool_identity_keep [OF Suc.prems(3)]) (auto simp: outside_def)
  obtain m' where m': "cmd_tables_loop ?s clb (Suc i) n = (?s\<lparr>ram := m', apool := (apool ?s)\<lparr>kDmaPoolPtr := table_at clb 32\<rparr>\<rparr>, True)"
    "\<forall>j. Suc i \<le> j \<and> j < 32 \<longrightarrow> cmd_table m' (header_at clb j) = table_at clb j"
    "\<forall>x. unat x < unat clb + 32 * Suc i \<or> unat clb + 135168 \<le> unat x \<longrightarrow> m' x = ?m x"
    using Suc.IH [OF i(2) _ idm] by auto
  have "load_le 4 m' (header_at clb i + 8) = load_le 4 ?m (header_at clb i + 8)"
    "load_le 4 m' (header_at clb i + 12) = load_le 4 ?m (header_at clb i + 12)"
    using m'(3) u pool(1) i(1) by (auto intro!: load_le_same simp: unat_pool)
  then have "cmd_table m' (header_at clb i) = table_at clb i" using table_mem_header [OF pool(1) i(1), of "ram s"] by (simp add: cmd_table_def)
  then have tb: "\<forall>j. i \<le> j \<and> j < 32 \<longrightarrow> cmd_table m' (header_at clb j) = table_at clb j"
    using m'(2) by (metis le_eq_less_or_eq Suc_leI)
  have "cmd_tables_loop s clb i (Suc n) = (s\<lparr>ram := m', apool := (apool s)\<lparr>kDmaPoolPtr := table_at clb 32\<rparr>\<rparr>, True)"
    using table_step [OF pool i(1) Suc.prems(2,3), of n] m'(1) by simp
  then show ?case using tb m'(3) fr by (intro exI [of _ m']) auto
qed

lemma low_word:
  assumes "unat c < 2 ^ 32"
  shows "ucast (c AND 0xFFFFFFFF) = (ucast c :: u32)" "drop_bit 32 c = (0 :: u64)" "ucast (ucast c :: u32) = (c :: u64)"
proof -
  have "(0xFFFFFFFF :: u64) = mask 32" by (simp add: mask_eq_exp_minus_1)
  then show "ucast (c AND 0xFFFFFFFF) = (ucast c :: u32)" by (simp add: bit_eq_iff bit_simps)
  have "unat (drop_bit 32 c) = 0" using assms by (simp add: drop_bit_eq_div unat_div)
  then show "drop_bit 32 c = 0" by (simp add: unat_eq_zero)
  have "ucast (ucast c :: u32) = take_bit 32 c" by (simp add: bit_eq_iff bit_simps)
  then show "ucast (ucast c :: u32) = c" using take_bit_small [OF assms] by simp
qed

lemma room_after_init:
  assumes "unat c + 135168 \<le> unat kDmaPoolEnd" and "i < 32"
    and "snd (rtl_dma_alloc (p\<lparr>kDmaPoolPtr := table_at c 32\<rparr>) sz 4096) = ptr" and "ptr \<noteq> 0" and "unat sz \<le> 248 * 32768"
  shows "cmd_room (header_at c i) (table_at c i) ptr sz"
proof -
  note u = table_unat [OF assms(1,2)]
  have t: "unat (table_at c 32) = unat c + 135168" using assms(1) by (simp add: table_at_def unat_word_ariths unat_pool)
  obtain q where "rtl_dma_alloc (p\<lparr>kDmaPoolPtr := table_at c 32\<rparr>) sz 4096 = (q, ptr)" using assms(3) by (metis prod.collapse)
  from dma_alloc_took [OF pow2_align_page _ _ this assms(4)] assms(1,5) t
  have "sz \<noteq> 0" "unat c + 135168 \<le> unat ptr" "unat ptr + unat sz \<le> unat kDmaPoolEnd" by simp_all
  moreover have "chunks (unat sz) \<le> 248" using assms(5) by (simp add: chunks_def)
  ultimately show ?thesis using u assms(2) by (simp add: cmd_room_def unat_gt_0 unat_pool)
qed

text \<open>
  C23. Bringing up the command memory makes every slot usable.  From a pool cursor aligned to 1 KiB with
  132 KiB left, and page tables outside this memory that map the pool to itself,
  \<open>drv_init_command_structures_ahci\<close> succeeds.  Afterwards the header of each of the 32 slots leads to
  a table of its own, and for every slot and every transfer up to 248 regions of 32 KiB for which
  the pool still has a buffer, header, table and buffer are in the order that commands need.
\<close>

theorem ahci_init_slots_ready:
  fixes s :: "'a ahci_scheme"
  assumes "1024 dvd unat (kDmaPoolPtr (apool s))" and "unat kNeDMAPoolStart \<le> unat (kDmaPoolPtr (apool s))"
    and "unat (kDmaPoolPtr (apool s)) + 135168 \<le> unat kDmaPoolEnd" and "pool_identity s (kDmaPoolPtr (apool s))"
  shows "\<exists>s'. drv_init_command_structures_ahci s = (s', True)
    \<and> (\<forall>i < 32. \<forall>j < 32. cmd_table (ram s') (cmd_header s' (int i)) = cmd_table (ram s') (cmd_header s' (int j)) \<longrightarrow> i = j)
    \<and> (\<forall>i < 32. \<forall>sz ptr. snd (rtl_dma_alloc (apool s') sz 4096) = ptr \<and> ptr \<noteq> 0 \<and> unat sz \<le> 248 * 32768
          \<longrightarrow> cmd_room (cmd_header s' (int i)) (cmd_table (ram s') (cmd_header s' (int i))) ptr sz)"
proof -
  let ?c = "kDmaPoolPtr (apool s)"
  have p2: "pow2_align 1024" unfolding pow2_align_def by (rule exI [of _ 10]) simp
  have al: "rtl_dma_alloc (apool s) 4096 1024 = ((apool s)\<lparr>kDmaPoolPtr := table_at ?c 0\<rparr>, ?c)"
    using alloc_here [OF p2, of "apool s" 4096] assms(1,3) by (simp add: table_at_def)
  have c0: "?c \<noteq> 0" using assms(2) by (auto simp: unat_pool)
  have "128 dvd unat ?c" using assms(1) by (rule dvd_trans [rotated]) simp
  note pool = assms(3,2) this
  have c32: "unat ?c < 2 ^ 32" using assms(3) by (simp add: unat_pool)
  let ?m = "write_bytes (ram s) ?c (replicate 4096 0)"
  let ?s = "s\<lparr>apool := (apool s)\<lparr>kDmaPoolPtr := table_at ?c 0\<rparr>, Clb := ucast ?c, Clbu := 0, ram := ?m\<rparr>"
  have "?m x = ram s x" if "outside ?c 135168 x" for x
    using that c32 by (intro write_bytes_outside) (auto simp: outside_def)
  then have "pool_identity ?s ?c" by (intro pool_identity_keep [OF assms(4)]) auto
  from cmd_tables_loop_ok [OF pool _ _ this, of 0 32]
  obtain m' where m': "cmd_tables_loop ?s ?c 0 32 = (?s\<lparr>ram := m', apool := (apool ?s)\<lparr>kDmaPoolPtr := table_at ?c 32\<rparr>\<rparr>, True)"
    "\<forall>j < 32. cmd_table m' (header_at ?c j) = table_at ?c j" by auto
  have id: "mm_get_page_addr (s\<lparr>apool := q\<rparr>) ?c = ?c" for q using assms(2-4) by (simp add: pool_identity_def unat_pool)
  note lo = low_word [OF c32]
  let ?s' = "?s\<lparr>ram := m', apool := (apool ?s)\<lparr>kDmaPoolPtr := table_at ?c 32\<rparr>\<rparr>"
  have init: "drv_init_command_structures_ahci s = (?s', True)"
    using m'(1) c0 by (simp add: drv_init_command_structures_ahci_def al Let_def id lo rt_set_memory_def set_loop_eq)
  have hd: "cmd_header ?s' (int i) = header_at ?c i" for i
    by (simp add: cmd_header_def header_at_def sizeof_HbaCmdHeader_def lo)
  then have tb: "cmd_table m' (cmd_header ?s' (int i)) = table_at ?c i" if "i < 32" for i using m'(2) that by simp
  have "i = j" if "i < 32" "j < 32" "table_at ?c i = table_at ?c j" for i j
    using that table_unat(1) [OF assms(3)] by (metis add_left_cancel mult_left_cancel nat.inject zero_neq_numeral)
  moreover have "cmd_room (header_at ?c i) (table_at ?c i) ptr sz"
    if i: "i < 32" and a: "snd (rtl_dma_alloc ((apool s)\<lparr>kDmaPoolPtr := table_at ?c 32\<rparr>) sz 4096) = ptr" "ptr \<noteq> 0" "unat sz \<le> 248 * 32768" for i sz ptr
    by (rule room_after_init [OF assms(3) i a])
  ultimately show ?thesis using tb hd by (intro exI [of _ ?s'] conjI init) auto
qed

section \<open>The answer to the identify command\<close>

lemma load_le_Suc: "load_le (Suc n) m a = ucast (m a) OR push_bit 8 (load_le n m (a + 1))"
  by (simp add: load_le_def read_bytes_Suc)

lemma load_le_0: "load_le 0 m a = 0"
  by (simp add: load_le_def)

lemma identify_word_bytes: "identify_word m a i = ucast (m (a + 2 * of_nat i)) OR push_bit 8 (ucast (m (a + 2 * of_nat i + 1)))"
  by (simp add: identify_word_def numeral_2_eq_2 load_le_Suc load_le_0)

lemma word_byte:
  fixes x y :: u8
  shows "ucast ((ucast x OR push_bit 8 (ucast y) :: u64) AND 0xFF) = x"
    "ucast (drop_bit 8 (ucast x OR push_bit 8 (ucast y) :: u64) AND 0xFF) = y"
proof -
  have "(0xFF :: u64) = mask 8" by (simp add: mask_eq_exp_minus_1)
  then show "ucast ((ucast x OR push_bit 8 (ucast y) :: u64) AND 0xFF) = x"
    "ucast (drop_bit 8 (ucast x OR push_bit 8 (ucast y) :: u64) AND 0xFF) = y"
    by (auto simp: bit_eq_iff bit_simps dest: bit_imp_le_length)
qed

lemma concat_pairs_nth:
  "i < n \<Longrightarrow> concat (map (\<lambda>i. [f i, g i]) [0 ..< n]) ! (2 * i) = f i \<and> concat (map (\<lambda>i. [f i, g i]) [0 ..< n]) ! Suc (2 * i) = g i"
  "length (concat (map (\<lambda>i. [f i, g i]) [0 ..< n])) = 2 * n"
proof -
  show len: "length (concat (map (\<lambda>i. [f i, g i]) [0 ..< n])) = 2 * n" for n by (induction n) simp_all
  show "i < n \<Longrightarrow> concat (map (\<lambda>i. [f i, g i]) [0 ..< n]) ! (2 * i) = f i \<and> concat (map (\<lambda>i. [f i, g i]) [0 ..< n]) ! Suc (2 * i) = g i"
  proof (induction n)
    case (Suc n)
    then show ?case by (cases "i = n") (auto simp: nth_append len)
  qed simp
qed

text \<open>
  What the driver makes of the identify data.  The sector count is the 48-bit number at byte 200,
  or, when that is 0, the 32-bit number at byte 120, extended by its sign; the model name is the 40
  bytes from byte 54, the two bytes of each word swapped, with a terminator.
\<close>

theorem ahci_identify_exact:
  "identify_count m a =
      (if load_le 6 m (a + 200) \<noteq> 0 then load_le 6 m (a + 200) else scast (ucast (load_le 4 m (a + 120)) :: u32))
    \<and> length (identify_model m a) = 41 \<and> identify_model m a ! 40 = 0
    \<and> (\<forall>i < 20. identify_model m a ! (2 * i) = m (a + 54 + 2 * of_nat i + 1) \<and> identify_model m a ! Suc (2 * i) = m (a + 54 + 2 * of_nat i))"
proof -
  have l6: "load_le 6 m (a + 200) = identify_word m a 100 OR push_bit 16 (identify_word m a 101) OR push_bit 32 (identify_word m a 102)"
    by (simp add: eval_nat_numeral load_le_Suc identify_word_bytes load_le_0 push_bit_or or.assoc add.assoc)
  have l4: "load_le 4 m (a + 120) = push_bit 16 (identify_word m a 61) OR identify_word m a 60"
    by (simp add: eval_nat_numeral load_le_Suc identify_word_bytes load_le_0 push_bit_or or.assoc or.commute or.left_commute add.assoc)
  have ad: "a + 2 * of_nat (27 + i) = a + 54 + 2 * (of_nat i :: u64)" for i by (simp add: algebra_simps)
  have md: "identify_model m a = concat (map (\<lambda>i. [m (a + 54 + 2 * of_nat i + 1), m (a + 54 + 2 * of_nat i)]) [0 ..< 20]) @ [0]"
    by (simp only: identify_model_def identify_word_bytes word_byte ad)
  note nth = concat_pairs_nth(1) [of _ 20 "\<lambda>i. m (a + 54 + 2 * of_nat i + 1)" "\<lambda>i. m (a + 54 + 2 * of_nat i)"]
  show ?thesis using nth l6 l4 by (simp add: identify_count_def Let_def md nth_append concat_pairs_nth(2))
qed

section \<open>The driver's properties at concrete inputs\<close>

text \<open>A machine that maps its first gigabyte to itself, with a command list at \<open>0x4000\<close> and a table at \<open>0x5000\<close>.\<close>

definition disk_machine :: ahci where
  "disk_machine = \<lparr>ram = (\<lambda>_. 0)(0x1000 := 0x03, 0x1001 := 0x20, 0x2000 := 0x83, 0x4009 := 0x50), kPmmBase = 0, kPmmCursor = 0,
     kPmmEnd = 0, kPmmFreeHead = 0, kPmmFree = 0, kPmmUsed = 0, cr3 = 0x1000, apool = dma_start, Clb = 0x4000, Clbu = 0, Cmd = 0,
     Ci = 0, Bohc = 0, kSATAIndex = 0, kIdentifyData = 0x6000, kSATASectorCount = 0, kCurrentDiskModel = replicate 50 0, kSATAPortsImplemented = 0\<rparr>"

definition good_device :: "(mem \<Rightarrow> mem) \<Rightarrow> hba_env" where
  "good_device dev = \<lparr>slots_read = (\<lambda>_. 0), ci_read = (\<lambda>_. 0), hba_is = 0, tfd_read = (\<lambda>_. 0), hba_device = dev\<rparr>"

lemma load_le_4: "load_le 4 m a = ucast (m a) OR push_bit 8 (ucast (m (a + 1))) OR push_bit 16 (ucast (m (a + 2))) OR push_bit 24 (ucast (m (a + 3)))"
  by (simp add: eval_nat_numeral load_le_Suc load_le_0 push_bit_or or.assoc add.assoc)

lemma load_le_6: "load_le 6 m a = load_le 4 m a OR push_bit 32 (load_le 2 m (a + 4))"
  by (simp add: eval_nat_numeral load_le_Suc load_le_0 push_bit_or or.assoc add.assoc)

lemma load_le_2: "load_le 2 m a = ucast (m a) OR push_bit 8 (ucast (m (a + 1)))"
  by (simp add: eval_nat_numeral load_le_Suc load_le_0)

lemma load_le_8: "load_le 8 m a = load_le 4 m a OR push_bit 32 (load_le 4 m (a + 4))"
  by (simp add: eval_nat_numeral load_le_Suc load_le_0 push_bit_or or.assoc add.assoc)

lemma disk_machine_tables: "cmd_header disk_machine 0 = 0x4000" "cmd_table (ram disk_machine) 0x4000 = 0x5000"
  by (simp_all add: cmd_header_def disk_machine_def sizeof_HbaCmdHeader_def cmd_table_def load_le_4)

lemma disk_machine_pool: "rtl_dma_alloc (apool disk_machine) 512 4096 = (dma_start\<lparr>kDmaPoolPtr := 0x1000200\<rparr>, 0x1000000)"
  "pool_ok (apool disk_machine)" "kDmaPoolPtr (apool disk_machine) = 0x1000000"
  by (simp_all add: disk_machine_def dma_start_def rtl_dma_alloc_def dma_consts pool_ok_def)

lemma disk_machine_room: "cmd_room 0x4000 0x5000 0x1000000 512"
  by (simp add: cmd_room_def chunks_def)

lemma disk_machine_ready: "cmd_ready (good_device dev) disk_machine 0 0x1000000 512" "answers (good_device dev) 0"
proof -
  have "drv_find_cmd_slot_ahci 0 = 0" by (simp add: drv_find_cmd_slot_ahci_def kSATAPortCnt_def eval_nat_numeral)
  then show "cmd_ready (good_device dev) disk_machine 0 0x1000000 512"
    using disk_machine_room by (simp add: cmd_ready_def good_device_def disk_machine_tables disk_machine_pool)
  show "answers (good_device dev) 0" by (auto simp: answers_def good_device_def tfd_busy_def)
qed

lemma disk_machine_identity: "pool_identity disk_machine (kDmaPoolPtr (apool disk_machine))"
  unfolding pool_identity_def
proof (intro allI impI)
  fix t :: ahci and y :: u64
  assume a: "cr3 t = cr3 disk_machine \<and> (\<forall>x. outside (kDmaPoolPtr (apool disk_machine)) 135168 x \<longrightarrow> ram t x = ram disk_machine x)
    \<and> unat kNeDMAPoolStart \<le> unat y \<and> unat y < unat kDmaPoolEnd"
  have low: "ram t x = ram disk_machine x" if "unat x < 0x1000000" for x
    using a that by (simp add: disk_machine_pool outside_def)
  have l: "load64 (ram t) 0x1000 = 0x2003" "load64 (ram t) 0x2000 = 0x83"
    unfolding load64_le load_le_8 load_le_4 by (simp_all add: low) (simp_all add: disk_machine_def)
  have y: "unat y < 2 ^ 25" using a by (simp add: unat_pool)
  then have "unat (drop_bit 39 y) = 0" "unat (drop_bit 30 y) = 0" by (simp_all add: drop_bit_eq_div unat_div)
  then have d: "drop_bit 39 y = 0" "drop_bit 30 y = 0" by (simp_all add: unat_eq_zero)
  have "y AND mask 30 = y" using take_bit_small [of y 30] y by (simp add: take_bit_eq_mask)
  then have "y AND (push_bit 30 1 - 1) = y" by (simp add: mask_eq_exp_minus_1)
  then show "mm_get_page_addr t y = y"
    using a by (simp add: mm_get_page_addr_def Let_def d l table_slot_def kMask9Bits_def kPageSizeBit_def kAddrMask_def kPageOffsetMask_def)
      (simp add: disk_machine_def l)
qed


theorem ahci_command_exact_witness:
  "cmd_room 0x4000 0x5000 0x1000000 512
    \<and> fis_lba (ram (fst (ahci_build True True False disk_machine 0x4000 0x5000 77 0x3000 512))) 0x5000 = 77
    \<and> fis_count (ram (fst (ahci_build True True False disk_machine 0x4000 0x5000 77 0x3000 512))) 0x5000 = 1"
proof -
  obtain s' ptr' where b: "ahci_build True True False disk_machine 0x4000 0x5000 77 0x3000 512 = (s', ptr')" by fastforce
  have w: "rtl_dma_alloc (apool disk_machine) 512 4096 = (dma_start\<lparr>kDmaPoolPtr := 0x1000200\<rparr>, 0x1000000)" by (rule disk_machine_pool(1))
  show ?thesis
    using ahci_command_exact [OF disk_machine_pool(2) _ w _ disk_machine_room b] disk_machine_room by (simp add: b)
qed

theorem ahci_read_returns_witness:
  "\<exists>s'. drv_std_read_ahci True (good_device (\<lambda>m. write_bytes m 0x1000000 (replicate 512 7))) disk_machine 0x9A00 0x7000 512 512 = Some (Ret s')
    \<and> read_bytes (ram s') 0x7000 512 = replicate 512 7"
  using ahci_read_returns [OF disk_machine_ready [where dev = "\<lambda>m. write_bytes m 0x1000000 (replicate 512 7)"],
      where buffer = "0x7000" and data = "replicate 512 7" and lba = "0x9A00" and debug = True]
  by (auto simp: good_device_def)

theorem ahci_waits_witness:
  "drv_std_input_output_ahci False ((good_device id)\<lparr>slots_read := \<lambda>_. -1\<rparr>) True True False disk_machine 512 0x7000 512 512
      = Some (Ret (set_ahci_err kErrorDisk disk_machine))"
  using ahci_waits [of "0x7000" 512 512 "(good_device id)\<lparr>slots_read := \<lambda>_. -1\<rparr>" False True True False disk_machine 512 0 0] by simp

theorem sk_io_divides_twice_witness:
  "\<exists>m p. fis_lba m 0x5000 = 0
    \<and> sk_io_ahci True (good_device id) False disk_machine (Some (0x20000, 0x7000, 512)) =
        map_option Ret (ahci_finish (good_device id) False (disk_machine\<lparr>apool := p, Ci := 1, ram := m\<rparr>) 0x1000000 0x7000 512)"
  using sk_io_divides_twice [OF disk_machine_ready(1) [where dev = id] _ disk_machine_ready(2) [where dev = id], where buffer = "0x7000" and wr = False and lba = "0x20000" and debug = True]
  by (simp add: disk_machine_tables good_device_def)

theorem ahci_port_search_witness:
  "sk_init_ahci_device True (good_device id) [Some \<lparr>hba_bar = 0xFEB00000, Cap = 1, Pi = 2, Ssts = (\<lambda>i. if i = 1 then 0x103 else 0), Sig = (\<lambda>i. kSATASig),
      cmd_rd = (\<lambda>_. 0), bohc_rd = (\<lambda>_. 0)\<rparr>] False disk_machine = None"
  using ahci_port_search [of 0 "\<lparr>hba_bar = 0xFEB00000, Cap = 1, Pi = 2, Ssts = (\<lambda>i. if i = 1 then 0x103 else 0), Sig = (\<lambda>i. kSATASig),
      cmd_rd = (\<lambda>_. 0), bohc_rd = (\<lambda>_. 0)\<rparr>" False True "good_device id" "[]" disk_machine]
  by (simp add: port_active_def)

theorem ahci_init_slots_ready_witness:
  "\<exists>s'. drv_init_command_structures_ahci disk_machine = (s', True)"
  using ahci_init_slots_ready [OF _ _ _ disk_machine_identity] by (simp add: disk_machine_pool unat_pool) blast

theorem ahci_identify_exact_witness:
  "identify_count ((\<lambda>_. 0)(0x60C8 := 5)) 0x6000 = 5 \<and> identify_model ((\<lambda>_. 0)(0x6036 := 65)) 0x6000 ! 1 = 65"
proof -
  let ?m = "(\<lambda>_. 0)(0x60C8 := 5) :: mem" and ?n = "(\<lambda>_. 0)(0x6036 := 65) :: mem"
  have "load_le 6 ?m (0x6000 + 200) = 5" by (simp add: load_le_6 load_le_4 load_le_2)
  then have c: "identify_count ?m 0x6000 = 5" using ahci_identify_exact [of ?m "0x6000"] by (simp del: fun_upd_apply)
  have "(0 :: nat) < 20" by simp
  then have "identify_model ?n 0x6000 ! Suc (2 * 0) = ?n (0x6000 + 54 + 2 * of_nat 0)" using ahci_identify_exact [of ?n "0x6000"] by blast
  then show ?thesis using c by simp
qed

end
