(* ===== verification/AcpiTables.thy ===== *)
theory AcpiTables
  imports UserProcesses
begin

text \<open>
  The ACPI tables of the AMD64 kernel: the search of \<^verbatim>\<open>ACPIFactoryInterface.cpp\<close> over
  the structures of \<^verbatim>\<open>modules/ACPI/ACPI.h\<close>, and \<open>mp_init_cores\<close> of
  \<^verbatim>\<open>HalApplicationProcessor.cpp\<close>, which walks the MADT to list the processors.  A table is a
  pointer into the memory; a field is a load at its offset in the packed structure.

  The shown facts: the walk lists exactly the enabled local APICs, or leaves the array of eight
  when there are more; but the search itself rejects every root pointer, so the walk is never
  entered and the kernel stays on one processor.
\<close>

section \<open>Results\<close>

text \<open>\<open>ErrorOr\<close> of a pointer: an error leaves the reference null.\<close>

record error_or =
  mRef :: u64
  mId :: int

definition ErrorOr_err :: "int \<Rightarrow> error_or" where
  "ErrorOr_err err = \<lparr>mRef = 0, mId = err\<rparr>"

definition ErrorOr_val :: "u64 \<Rightarrow> error_or" where
  "ErrorOr_val klass = \<lparr>mRef = klass, mId = 0\<rparr>"

definition HasError :: "error_or \<Rightarrow> bool" where
  "HasError e = (mId e < kErrorSuccess)"

section \<open>Tables\<close>

definition sizeof_SDT :: u64 where "sizeof_SDT = 36"
definition SDT_Length :: "mem \<Rightarrow> u64 \<Rightarrow> u64" where "SDT_Length m p = load_le 4 m (p + 4)"
definition SDT_Revision :: "mem \<Rightarrow> u64 \<Rightarrow> u8" where "SDT_Revision m p = m (p + 8)"
definition RSDP_RsdtAddress :: "mem \<Rightarrow> u64 \<Rightarrow> u64" where "RSDP_RsdtAddress m p = load_le 4 m (p + sizeof_SDT)"

definition RSDT_AddressArr :: "mem \<Rightarrow> u64 \<Rightarrow> u64 \<Rightarrow> u64" where
  "RSDT_AddressArr m p i = load_le 4 m (p + sizeof_SDT + 4 * i)"

definition kMinACPIVer :: u8 where "kMinACPIVer = 2"

record acpi =
  fRsdp :: u64
  fEntries :: u64

definition ACPIFactoryInterface :: "u64 \<Rightarrow> acpi" where
  "ACPIFactoryInterface rsp_ptr = \<lparr>fRsdp = rsp_ptr, fEntries = 0\<rparr>"

text \<open>The comparison of the four signature characters, \<open>n\<close> of them to go.\<close>

fun sig_loop :: "mem \<Rightarrow> u64 \<Rightarrow> u64 \<Rightarrow> nat \<Rightarrow> nat \<Rightarrow> bool" where
  "sig_loop m sdt sg i 0 = False"
| "sig_loop m sdt sg i (Suc n) =
     (if m (sdt + of_nat i) \<noteq> m (sg + of_nat i) then False
      else if i = 4 - 1 then True
      else sig_loop m sdt sg (i + 1) n)"

text \<open>The loop over the entries, \<open>n\<close> of them to go.\<close>

fun table_loop :: "mem \<Rightarrow> u64 \<Rightarrow> u64 \<Rightarrow> u64 \<Rightarrow> nat \<Rightarrow> error_or" where
  "table_loop m xsdt sg i 0 = ErrorOr_err (- kErrorInvalidData)"
| "table_loop m xsdt sg i (Suc n) =
     (let sdt = RSDT_AddressArr m xsdt i
      in if sdt = 0 then table_loop m xsdt sg (i + 1) n
         else if sig_loop m sdt sg 0 4 then ErrorOr_val (RSDT_AddressArr m xsdt i)
         else table_loop m xsdt sg (i + 1) n)"

definition acpi_Find :: "mem \<Rightarrow> acpi \<Rightarrow> u64 \<Rightarrow> acpi \<times> error_or" where
  "acpi_Find m a sg =
     (if fRsdp a \<noteq> 0 then (a, ErrorOr_err (- kErrorInvalidData))
      else if sg = 0 then (a, ErrorOr_err (- kErrorInvalidData))
      else if m sg = 0 then (a, ErrorOr_err (- kErrorInvalidData))
      else let rsp_ptr = fRsdp a
           in if rsp_ptr = 0 \<or> SDT_Revision m rsp_ptr < kMinACPIVer then (a, ErrorOr_err (- kErrorInvalidData))
              else let xsdt = RSDP_RsdtAddress m rsp_ptr
                   in if xsdt = 0 then (a, ErrorOr_err (- kErrorInvalidData))
                      else let num = sint ((SDT_Length m xsdt - sizeof_SDT) div 8)
                           in if num < 1 then (a, ErrorOr_err (- kErrorInvalidData))
                              else let a = a\<lparr>fEntries := of_int num\<rparr>
                                   in (a, table_loop m xsdt sg 0 (unat (fEntries a))))"

definition acpi_index :: "mem \<Rightarrow> acpi \<Rightarrow> u64 \<Rightarrow> acpi \<times> error_or" where
  "acpi_index m a sg = (if sg = 0 then (a, ErrorOr_err (- kErrorInvalidData)) else acpi_Find m a sg)"

text \<open>\<open>Checksum\<close>: the length is signed, the sum wraps in a byte.\<close>

fun sum_loop :: "mem \<Rightarrow> u64 \<Rightarrow> nat \<Rightarrow> u8 \<Rightarrow> u8" where
  "sum_loop m p 0 chr = chr"
| "sum_loop m p (Suc n) chr = sum_loop m (p + 1) n (chr + m p)"

definition acpi_Checksum :: "mem \<Rightarrow> u64 \<Rightarrow> int \<Rightarrow> bool" where
  "acpi_Checksum m checksum len =
     (if len = 0 \<or> checksum = 0 then False else sum_loop m checksum (nat len) 0 = 0)"

definition acpi_Shutdown :: "acpi \<Rightarrow> bool" where
  "acpi_Shutdown a = False"

section \<open>Processors\<close>

text \<open>The static variables of the application-processor code, the memory and the model-specific registers.\<close>

record smp = cores +
  smp_mem :: mem
  msr :: "u32 \<Rightarrow> u64"
  kSMPInterrupt :: int
  kAPICLocales :: "nat \<Rightarrow> u64"
  kHWThreadID :: "nat \<Rightarrow> u64"
  kRawMADT :: u64
  kApicBaseAddress :: u64

definition LAPIC_Write :: "bool \<Rightarrow> u64 \<Rightarrow> mem \<Rightarrow> u64 \<Rightarrow> u64 \<Rightarrow> mem outcome" where
  "LAPIC_Write debug fApic m reg v = must_pass debug (fApic \<noteq> 0) (store_le 4 m (fApic + 4 * reg) v)"

definition LAPIC_Read :: "bool \<Rightarrow> u64 \<Rightarrow> mem \<Rightarrow> u64 \<Rightarrow> u64 outcome" where
  "LAPIC_Read debug fApic m reg = must_pass debug (fApic \<noteq> 0) (load_le 4 m (fApic + 4 * reg))"

text \<open>The five register writes that switch the local APIC and its timer on.\<close>

definition apic_registers :: "(u64 \<times> u64) list" where
  "apic_registers = [(0x80, 0), (0xF0, 0x1FF), (0x3E0, 3), (0x320, 0x20 OR push_bit 17 1), (0x380, 1000000)]"

fun apic_setup :: "bool \<Rightarrow> u64 \<Rightarrow> (u64 \<times> u64) list \<Rightarrow> mem \<Rightarrow> mem outcome" where
  "apic_setup debug fApic [] m = Ret m"
| "apic_setup debug fApic ((reg, v) # ws) m =
     (case LAPIC_Write debug fApic m reg v of Stop \<Rightarrow> Stop | Ret m \<Rightarrow> apic_setup debug fApic ws m)"

definition add_cpu :: "'a smp_scheme \<Rightarrow> u8 \<Rightarrow> 'a smp_scheme" where
  "add_cpu s processor_id =
     (let s = s\<lparr>kAPICLocales := (kAPICLocales s)(kSMPCount s := ucast processor_id)\<rparr>;
          s = s\<lparr>kHWThreadID := (kHWThreadID s)(kSMPCount s := kAPICLocales s (kSMPCount s))\<rparr>
      in s\<lparr>kSMPCount := kSMPCount s + 1\<rparr>)"

partial_function (option) madt_loop :: "'a smp_scheme \<Rightarrow> u64 \<Rightarrow> u64 \<Rightarrow> 'a smp_scheme res option" where
  "madt_loop s entry_ptr end_ptr =
     (if entry_ptr < end_ptr then
        let m = smp_mem s; kind = m entry_ptr; len = m (entry_ptr + 1)
        in if kind = 0 \<and> len = 8 \<and> load_le 4 m (entry_ptr + 4) AND 1 \<noteq> 0 then
             if kSMPCount s \<ge> kMaxAPInsideSched then Some OutOfBounds
             else madt_loop (add_cpu s (m (entry_ptr + 2))) (entry_ptr + ucast len) end_ptr
           else madt_loop s (entry_ptr + ucast len) end_ptr
      else Some (Ok s))"

definition mp_init_cores :: "bool \<Rightarrow> u64 \<Rightarrow> 'a smp_scheme \<Rightarrow> u64 \<Rightarrow> 'a smp_scheme res option" where
  "mp_init_cores debug APIC_MAG s vendor_ptr =
     (if vendor_ptr = 0 then Some (Ok s)
      else let pwr = snd (acpi_Find (smp_mem s) (ACPIFactoryInterface vendor_ptr) APIC_MAG)
           in if HasError pwr then Some (Ok (s\<lparr>kSMPAware := False\<rparr>))
              else let s = s\<lparr>kRawMADT := mRef pwr, kSMPAware := False\<rparr>
                   in if kRawMADT s = 0 then Some (Ok s)
                      else let s = s\<lparr>kSMPInterrupt := 0, kSMPCount := 0\<rparr>;
                               apic_base = msr s 0x1B OR 0x800;
                               s = s\<lparr>msr := (msr s)(0x1B := apic_base), kApicBaseAddress := apic_base AND 0xFFFFF000\<rparr>
                           in case apic_setup debug (kApicBaseAddress s) apic_registers (smp_mem s) of
                                Stop \<Rightarrow> Some Halt
                              | Ret m \<Rightarrow> madt_loop (s\<lparr>smp_mem := m\<rparr>) (kRawMADT s + 44) (kRawMADT s + SDT_Length m (kRawMADT s)))"

definition mp_is_smp :: "'a smp_scheme \<Rightarrow> bool" where
  "mp_is_smp s = kSMPAware s"

section \<open>The walk of the MADT\<close>

text \<open>A record of the table is a list of bytes that carries its own length; an enabled processor is a record of type 0.\<close>

definition madt_record :: "u8 list \<Rightarrow> bool" where
  "madt_record e = (2 \<le> length e \<and> length e < 256 \<and> e ! 1 = of_nat (length e))"

definition madt_cpu :: "u8 list \<Rightarrow> bool" where
  "madt_cpu e = (length e = 8 \<and> e ! 0 = 0 \<and> bit (e ! 4) 0)"

definition madt_ids :: "u8 list list \<Rightarrow> u8 list" where
  "madt_ids es = map (\<lambda>e. e ! 2) (filter madt_cpu es)"

lemma add_cpu_fields [simp]: "smp_mem (add_cpu s i) = smp_mem s" "kSMPCount (add_cpu s i) = Suc (kSMPCount s)"
  by (simp_all add: add_cpu_def Let_def)

lemma madt_loop_end: "madt_loop s p p = Some (Ok s)"
  by (subst madt_loop.simps) simp

lemma read_bytes_append: "read_bytes m p (a + b) = read_bytes m p a @ read_bytes m (p + of_nat a) b"
  by (rule nth_equalityI) (auto simp: nth_append algebra_simps)

lemma load_le_bit0: "load_le 4 m p AND 1 \<noteq> 0 \<longleftrightarrow> bit (m p) 0"
  by (simp only: and_one_bit load_le_def read_bytes_def) (simp add: upt_conv_Cons bit_or_iff bit_push_bit_iff bit_ucast_iff)

lemma madt_step:
  assumes "madt_record e" and "read_bytes (smp_mem s) p (length e) = e" and "p < q"
  shows "madt_loop s p q =
    (if madt_cpu e then if kSMPCount s \<ge> kMaxAPInsideSched then Some OutOfBounds
       else madt_loop (add_cpu s (e ! 2)) (p + of_nat (length e)) q
     else madt_loop s (p + of_nat (length e)) q)"
proof -
  have at: "smp_mem s (p + of_nat i) = e ! i" if "i < length e" for i
    using nth_read_bytes [OF that, of "smp_mem s" p] assms(2) by simp
  have two: "2 \<le> length e" "e ! 1 = of_nat (length e)" using assms(1) by (simp_all add: madt_record_def)
  have len: "smp_mem s (p + 1) = of_nat (length e)" using at [of 1] two by simp
  have "0 < length e" using two(1) by linarith
  from at [OF this] have kind: "smp_mem s p = e ! 0" by simp
  have wide: "ucast (of_nat (length e) :: u8) = (of_nat (length e) :: u64)"
    using assms(1) by (simp add: word_unat_eq_iff madt_record_def unat_of_nat unsigned_ucast_eq take_bit_nat_eq_self)
  have eight: "(of_nat (length e) :: u8) = 8 \<longleftrightarrow> length e = 8"
    using assms(1) by (simp add: word_unat_eq_iff madt_record_def unat_of_nat)
  have cpu: "(e ! 0 = 0 \<and> length e = 8 \<and> load_le 4 (smp_mem s) (p + 4) AND 1 \<noteq> 0) = madt_cpu e"
    using at [of 4] by (auto simp: madt_cpu_def load_le_bit0)
  have "smp_mem s (p + 2) = e ! 2" if "madt_cpu e" using at [of 2] that by (simp add: madt_cpu_def)
  then show ?thesis using assms(3)
    by (subst madt_loop.simps) (simp only: Let_def len kind wide eight cpu if_True refl split: if_splits, simp)
qed

lemma madt_loop_hangs:
  assumes "p < q" and "smp_mem s (p + 1) = 0"
  shows "madt_loop s p q = None"
proof -
  have "madt_loop s p q \<noteq> Some x" for x
  proof
    assume eq: "madt_loop s p q = Some x"
    have "\<not> (smp_mem s (p + 1) = 0 \<and> p < q)"
      by (rule madt_loop.raw_induct [where P = "\<lambda>s p q x. \<not> (smp_mem s (p + 1) = 0 \<and> p < q)", OF _ eq])
        (auto simp: Let_def split: if_splits)
    then show False using assms by simp
  qed
  then show ?thesis by (cases "madt_loop s p q") auto
qed

text \<open>
  The walk of the MADT.  Over a table of well-formed records, whatever their types, the loop of
  \<open>mp_init_cores\<close> terminates and registers exactly the enabled local APICs, in the order of the
  table; with more than eight processors it leaves the bounds of \<open>kAPICLocales\<close>.  A record of
  length 0 after them makes the loop run forever.
\<close>

theorem madt_scan_exact:
  assumes "list_all madt_record es" and "read_bytes (smp_mem s) p (length (concat es)) = concat es"
    and "unat p + length (concat es) + rest < 2 ^ 64" and "q = p + of_nat (length (concat es) + rest)"
    and "0 < rest \<longrightarrow> smp_mem s (p + of_nat (length (concat es)) + 1) = 0" and "kSMPCount s \<le> kMaxAPInsideSched"
  shows "madt_loop s p q =
    (if kMaxAPInsideSched < kSMPCount s + length (madt_ids es) then Some OutOfBounds
     else if rest = 0 then Some (Ok (foldl add_cpu s (madt_ids es)))
     else None)"
  using assms
proof (induction es arbitrary: s p)
  case Nil
  have "p < q" if "0 < rest" using Nil.prems(3,4) that by (simp add: word_less_nat_alt unat_word_ariths unat_of_nat)
  then show ?case using Nil.prems(4-6) by (auto simp: madt_ids_def madt_loop_end intro: madt_loop_hangs)
next
  case (Cons e es)
  have e: "madt_record e" "2 \<le> length e" using Cons.prems(1) by (simp_all add: madt_record_def)
  define p' where "p' = p + of_nat (length e)"
  have rd: "read_bytes (smp_mem s) p (length e) = e" "read_bytes (smp_mem s) p' (length (concat es)) = concat es"
    using Cons.prems(2) by (simp_all add: read_bytes_append p'_def)
  have up: "unat p' = unat p + length e" using Cons.prems(3) by (simp add: p'_def unat_word_ariths unat_of_nat)
  have q: "q = p + of_nat (length e + length (concat es) + rest)" using Cons.prems(4) by simp
  have "unat q = unat p + length e + length (concat es) + rest"
    using Cons.prems(3) unfolding q by (simp add: unat_word_ariths unat_of_nat)
  then have "p < q" using e(2) unfolding word_less_nat_alt by linarith
  note step = madt_step [OF e(1) rd(1) this, folded p'_def]
  have IH: "madt_loop t p' q =
    (if kMaxAPInsideSched < kSMPCount t + length (madt_ids es) then Some OutOfBounds
     else if rest = 0 then Some (Ok (foldl add_cpu t (madt_ids es))) else None)"
    if "smp_mem t = smp_mem s" "kSMPCount t \<le> kMaxAPInsideSched" for t :: "'a smp_scheme"
    by (rule Cons.IH) (use that Cons.prems rd(2) up in \<open>simp_all add: p'_def algebra_simps\<close>)
  show ?case
    using IH [of "add_cpu s (e ! 2)"] IH [of s] Cons.prems(6) step by (auto simp: madt_ids_def not_le)
qed

text \<open>A table with an enabled processor 7, an I/O APIC record and a disabled processor.\<close>

definition madt_sample :: "u8 list list" where
  "madt_sample = [[0, 8, 7, 7, 1, 0, 0, 0], [1, 12, 2, 0, 0, 0, 0xC0, 0xFE, 0, 0, 0, 0], [0, 8, 8, 8, 0, 0, 0, 0]]"

definition madt_smp :: smp where
  "madt_smp = \<lparr>frames_at = (\<lambda>_. undefined), kSMPAware = False, kSMPCount = 0, kHWThread = (\<lambda>_. 0), fThreadList = [],
     fCurrentThreadIdx = 0, smp_mem = write_bytes (\<lambda>_. 0) 0x1000 (concat madt_sample), msr = (\<lambda>_. 0), kSMPInterrupt = 0,
     kAPICLocales = (\<lambda>_. 0), kHWThreadID = (\<lambda>_. 0), kRawMADT = 0, kApicBaseAddress = 0\<rparr>"

lemma madt_sample_facts:
  "list_all madt_record madt_sample" "madt_ids madt_sample = [7]" "length (concat madt_sample) = 28" "kSMPCount madt_smp = 0"
  by (simp_all add: madt_sample_def madt_record_def madt_ids_def madt_cpu_def bit_0 madt_smp_def)

lemma madt_sample_memory:
  "read_bytes (smp_mem madt_smp) 0x1000 (length (concat madt_sample)) = concat madt_sample" "smp_mem madt_smp 0x101D = 0"
  using madt_sample_facts(3) by (simp add: madt_smp_def read_write_same, simp add: madt_smp_def write_bytes_def)

theorem madt_scan_exact_witness:
  "madt_loop madt_smp 0x1000 0x101C = Some (Ok (add_cpu madt_smp 7)) \<and> madt_loop madt_smp 0x1000 0x101D = None"
  using madt_scan_exact [OF madt_sample_facts(1) madt_sample_memory(1), of 0 "0x101C"] madt_scan_exact [OF madt_sample_facts(1) madt_sample_memory(1), of 1 "0x101D"]
  by (simp add: madt_sample_facts madt_sample_memory(2) kMaxAPInsideSched_def)

section \<open>The search\<close>

text \<open>
  C35. No table is ever found.  \<open>Find\<close> first returns an error when the root pointer is set, and the
  remaining code returns one when it is null: for every memory, root pointer and signature the
  result is the error \<open>-kErrorInvalidData\<close> with a null reference.  So \<open>mp_init_cores\<close>
  never lists a processor, the kernel never becomes aware of more than one, and \<open>mp_register_task\<close>
  records no task afterwards.
\<close>

theorem acpi_tables_never_found:
  assumes "vendor \<noteq> 0"
  shows "acpi_Find m a sg = (a, \<lparr>mRef = 0, mId = - kErrorInvalidData\<rparr>)
    \<and> (\<exists>t. mp_init_cores debug mag s vendor = Some (Ok t) \<and> t = s\<lparr>kSMPAware := False\<rparr> \<and> \<not> mp_is_smp t
         \<and> fst (mp_register_task t frame thrdid) = t)"
  using assms by (simp add: acpi_Find_def mp_init_cores_def ErrorOr_err_def HasError_def kErrorSuccess_def
      kErrorInvalidData_def ACPIFactoryInterface_def mp_is_smp_def mp_register_task_def)

theorem acpi_tables_never_found_witness:
  "(0xE0000 :: u64) \<noteq> 0 \<and> mp_init_cores False 0x100 madt_smp 0xE0000 = Some (Ok (madt_smp\<lparr>kSMPAware := False\<rparr>))"
  using acpi_tables_never_found [of "0xE0000" "\<lambda>_. 0" "ACPIFactoryInterface 1" 0 False "0x100" madt_smp 0 0] by simp

end
