(* ===== verification/Synchronization.thy ===== *)
theory Synchronization
  imports AcpiTables
begin

text \<open>
  Timers, the binary mutex and the semaphore: \<^verbatim>\<open>Timer.h\<close>, \<^verbatim>\<open>SoftwareTimer.cpp\<close>,
  \<^verbatim>\<open>HalTimer.cpp\<close>, \<^verbatim>\<open>BinaryMutex.cpp/.h\<close> and \<^verbatim>\<open>Semaphore.h\<close>.  The locale
  \<open>itimer\<close> is the interface \<open>ITimer\<close>; both timers are interpreted in it.

  A wait that does not return is \<open>None\<close>.  The register a hardware timer polls is a parameter: the
  sequence of the values its reads give.  While a caller waits, other code may run: a wait is a
  function on the state of the caller.
\<close>

section \<open>Timers\<close>

definition kTimeUnit :: u64 where "kTimeUnit = 1000"

definition rtl_microseconds :: "u64 \<Rightarrow> u64" where
  "rtl_microseconds time = (if time < 1 then 0 else time div kTimeUnit)"

definition rtl_milliseconds :: "u64 \<Rightarrow> u64" where
  "rtl_milliseconds time = (if time < 1 then 0 else time)"

text \<open>The software timer: the counter that \<open>fDigitalTimer\<close> points to and the time to wait, a signed number.\<close>

record sw_timer =
  counter :: u64
  fWaitFor_sw :: u64

definition SoftwareTimer :: "u64 \<Rightarrow> sw_timer" where
  "SoftwareTimer seconds = \<lparr>counter = 0, fWaitFor_sw = seconds\<rparr>"

function count_loop_sw :: "u64 \<Rightarrow> u64 \<Rightarrow> u64" where
  "count_loop_sw w t = (if t < t + w then count_loop_sw w (t + 1) else t)"
  by auto
termination
proof (relation "measure (\<lambda>(w, t). 2 ^ 64 - unat t)", simp)
  fix w t :: u64
  assume "t < t + w"
  then have "unat t < unat (t + w)" by (simp only: word_less_nat_alt)
  then have "unat (t + 1) = unat t + 1" using unat_less_64 [of "t + w"] by (intro unat_plus_one) linarith
  then show "((w, t + 1), w, t) \<in> measure (\<lambda>(w, t). 2 ^ 64 - unat t)"
    using unat_less_64 [of t] by simp
qed

declare count_loop_sw.simps [simp del]

definition SoftwareTimer_Wait :: "sw_timer \<Rightarrow> sw_timer \<times> bool" where
  "SoftwareTimer_Wait t =
     (if sint (fWaitFor_sw t) < 1 then (t, False)
      else (t\<lparr>counter := count_loop_sw (fWaitFor_sw t) (counter t)\<rparr>, True))"

text \<open>
  The hardware timer.  Its base is read from the HPET table at the address the ACPI search returns;
  \<open>HPET\<close> is the address of the signature string.
\<close>

record hw_timer =
  fDigitalTimer :: u64
  fWaitFor :: int

definition HardwareTimer :: "bool \<Rightarrow> u64 \<Rightarrow> u64 \<Rightarrow> 'a hw_scheme \<Rightarrow> u64 \<Rightarrow> ('a hw_scheme \<times> hw_timer) outcome" where
  "HardwareTimer debug HPET vendor_ptr s ms =
     (let hpet = mRef (snd (acpi_Find (ram s) (ACPIFactoryInterface vendor_ptr) HPET))
      in case must_pass debug (hpet \<noteq> 0) () of
           Stop \<Rightarrow> Stop
         | Ret _ \<Rightarrow>
             let t = \<lparr>fDigitalTimer = load64 (ram s) (hpet + 44), fWaitFor = sint ms\<rparr>;
                 s = (if ram s (hpet + 55) \<noteq> 0 then
                        fst (mm_map_page s (fDigitalTimer t) (fDigitalTimer t) (kMMFlagsWr OR kMMFlagsPCD OR kMMFlagsPwt) 2)
                      else s);
                 conf = load64 (ram s) (fDigitalTimer t + 0x20)
             in Ret (if conf AND 1 = 0 then s\<lparr>ram := store64 (ram s) (fDigitalTimer t + 0x20) (conf OR 1 OR push_bit 3 1)\<rparr> else s, t))"

text \<open>The polling loop; it yields the number of the read that ends it.\<close>

partial_function (option) spin_until :: "(nat \<Rightarrow> u64) \<Rightarrow> u64 \<Rightarrow> nat \<Rightarrow> nat option" where
  "spin_until reads stop_at n = (if reads n < stop_at then spin_until reads stop_at (n + 1) else Some n)"

definition HardwareTimer_Wait :: "(nat \<Rightarrow> u64) \<Rightarrow> hw_timer \<Rightarrow> bool option" where
  "HardwareTimer_Wait reads t =
     (if fWaitFor t < 1 then Some False
      else if fWaitFor t > 1000000 then Some False
      else if fDigitalTimer t = 0 then Some False
      else let hpet_cap = reads 0;
               femtoseconds_per_tick = drop_bit 32 hpet_cap
           in if femtoseconds_per_tick = 0 then Some False
              else let now = reads 1;
                       fs_wait = of_int (fWaitFor t) * 1000000000000;
                       stop_at = now + fs_wait div femtoseconds_per_tick
                   in case spin_until reads stop_at 2 of None \<Rightarrow> None | Some _ \<Rightarrow> Some True)"

section \<open>Binary mutex\<close>

text \<open>The mutex and the processes it points to; 0 is the null pointer.\<close>

record mutex_state =
  procs :: "u64 \<Rightarrow> user_process"
  fLockingProcess :: u64
  fOwnerOriginalAffinity :: int

definition IsLocked :: "'a mutex_state_scheme \<Rightarrow> bool" where
  "IsLocked w = (fLockingProcess w \<noteq> 0 \<and> Status (procs w (fLockingProcess w)) = kRunning)"

definition set_affinity :: "'a mutex_state_scheme \<Rightarrow> u64 \<Rightarrow> int \<Rightarrow> 'a mutex_state_scheme" where
  "set_affinity w p a = w\<lparr>procs := (procs w)(p := (procs w p)\<lparr>Affinity := a\<rparr>)\<rparr>"

definition Unlock :: "'a mutex_state_scheme \<Rightarrow> 'a mutex_state_scheme \<times> bool" where
  "Unlock w =
     (if fLockingProcess w = 0 then (w, False)
      else let w = (if fOwnerOriginalAffinity w \<noteq> kAffinityInvalid then
                      (set_affinity w (fLockingProcess w) (fOwnerOriginalAffinity w))\<lparr>fOwnerOriginalAffinity := kAffinityInvalid\<rparr>
                    else w)
           in (w\<lparr>fLockingProcess := 0\<rparr>, True))"

definition Lock :: "'a mutex_state_scheme \<Rightarrow> u64 \<Rightarrow> 'a mutex_state_scheme \<times> bool" where
  "Lock w process =
     (if process = 0 then (w, False)
      else if IsLocked w \<and> fLockingProcess w \<noteq> 0 then
        if Affinity (procs w process) < Affinity (procs w (fLockingProcess w)) then
          let w = w\<lparr>fOwnerOriginalAffinity := Affinity (procs w (fLockingProcess w))\<rparr>
          in (set_affinity w (fLockingProcess w) (Affinity (procs w process)), False)
        else (w, False)
      else (w\<lparr>fLockingProcess := process, fOwnerOriginalAffinity := kAffinityInvalid\<rparr>, True))"

text \<open>\<open>LockAndWait\<close>: \<open>timer\<close> is \<open>None\<close> for a null timer, otherwise its wait.\<close>

definition LockAndWait ::
  "('a mutex_state_scheme \<Rightarrow> ('a mutex_state_scheme \<times> bool) option) option \<Rightarrow> 'a mutex_state_scheme \<Rightarrow> u64 \<Rightarrow>
   ('a mutex_state_scheme \<times> bool) option" where
  "LockAndWait timer w process =
     (case timer of
        None \<Rightarrow> Some (w, False)
      | Some wait \<Rightarrow>
          if process = 0 then Some (w, False)
          else let (w, got) = Lock w process
               in if got then Some (w, True)
                  else case wait w of None \<Rightarrow> None | Some (w, _) \<Rightarrow> Some (Lock w process))"

text \<open>\<open>WaitForProcess\<close>: \<open>hw_wait ms\<close> makes a hardware timer for \<open>ms\<close> and waits for it.\<close>

definition WaitForProcess ::
  "(u64 \<Rightarrow> 'a mutex_state_scheme \<Rightarrow> ('a mutex_state_scheme \<times> bool) option) \<Rightarrow> 'a mutex_state_scheme \<Rightarrow> u32 \<Rightarrow>
   ('a mutex_state_scheme \<times> bool) option" where
  "WaitForProcess hw_wait w sec =
     (case hw_wait (rtl_milliseconds (ucast sec)) w of None \<Rightarrow> None | Some (w, _) \<Rightarrow> Some (w, \<not> IsLocked w))"

section \<open>Semaphore\<close>

text \<open>The two words of the semaphore, the condition that a waiter watches and the global error.\<close>

record sem_state =
  sem_owner :: u64
  sem_count :: u64
  sem_condition :: bool
  sem_err :: int

definition rtl_sem_is_valid :: "'a sem_state_scheme \<Rightarrow> u64 \<Rightarrow> bool" where
  "rtl_sem_is_valid s owner = (sem_owner s = owner \<and> sem_count s > 0)"

definition rtl_sem_release :: "'a sem_state_scheme \<Rightarrow> 'a sem_state_scheme \<times> bool" where
  "rtl_sem_release s = (s\<lparr>sem_owner := 0, sem_count := 0\<rparr>, True)"

definition rtl_sem_acquire :: "'a sem_state_scheme \<Rightarrow> u64 \<Rightarrow> 'a sem_state_scheme \<times> bool" where
  "rtl_sem_acquire s owner =
     (if owner = 0 then (s\<lparr>sem_err := kErrorInvalidData\<rparr>, False)
      else (s\<lparr>sem_owner := owner, sem_count := 0\<rparr>, True))"

text \<open>Taking one unit, the code of both branches that see the condition cleared.\<close>

definition sem_take :: "'a sem_state_scheme \<Rightarrow> 'a sem_state_scheme \<times> bool" where
  "sem_take s =
     (if sem_count s = 0 then (s\<lparr>sem_err := kErrorUnavailable\<rparr>, False)
      else (s\<lparr>sem_err := kErrorSuccess, sem_count := sem_count s - 1\<rparr>, True))"

definition rtl_sem_wait ::
  "(u64 \<Rightarrow> 'a sem_state_scheme \<Rightarrow> ('a sem_state_scheme \<times> bool) option) \<Rightarrow> 'a sem_state_scheme \<Rightarrow> u64 \<Rightarrow> u64 \<Rightarrow>
   ('a sem_state_scheme \<times> bool) option" where
  "rtl_sem_wait hw_wait s owner timeout =
     (if \<not> rtl_sem_is_valid s owner then Some (s\<lparr>sem_err := kErrorInvalidData\<rparr>, False)
      else if timeout = 0 then Some (s\<lparr>sem_err := kErrorTimeout\<rparr>, False)
      else if \<not> sem_condition s then Some (sem_take s)
      else case hw_wait timeout s of
             None \<Rightarrow> None
           | Some (s, ret) \<Rightarrow>
               if ret \<and> \<not> sem_condition s then Some (sem_take s)
               else Some (s\<lparr>sem_err := kErrorTimeout\<rparr>, False))"

section \<open>Timers end by wrapping around, or not at all\<close>

lemma count_loop_sw_end:
  assumes "w \<noteq> 0" and "unat t + unat w \<le> 2 ^ 64"
  shows "count_loop_sw w t = - w"
  using assms(2)
proof (induction "2 ^ 64 - unat t - unat w" arbitrary: t)
  case 0
  then have "unat t + unat w = 2 ^ 64" by linarith
  then have z: "t + w = 0" by (simp add: word_unat_eq_iff unat_word_ariths)
  then have "t = - w" by (simp add: eq_neg_iff_add_eq_0)
  then show ?case using z by (subst count_loop_sw.simps) simp
next
  case (Suc n)
  have w: "0 < unat w" using assms(1) by (simp add: unat_gt_0)
  have "unat t + unat w < 2 ^ 64" using Suc.hyps(2) by linarith
  then have lt: "t < t + w" using w by (simp add: word_less_nat_alt unat_word_ariths)
  have up: "unat (t + 1) = unat t + 1" using \<open>unat t + unat w < 2 ^ 64\<close> w by (intro unat_plus_one) linarith
  have "count_loop_sw w (t + 1) = - w" using Suc.hyps(2) up by (intro Suc.hyps(1)) linarith+
  then show ?case using lt by (subst count_loop_sw.simps) simp
qed

lemma spin_until_found:
  assumes "n \<le> k" and "\<not> reads k < stop_at"
  shows "\<exists>m. spin_until reads stop_at n = Some m"
  using assms(1)
proof (induction "k - n" arbitrary: n)
  case 0
  then show ?case using assms(2) by (subst spin_until.simps) simp
next
  case (Suc d)
  then have "\<exists>m. spin_until reads stop_at (n + 1) = Some m" by (intro Suc.hyps(1)) linarith+
  then show ?case by (subst spin_until.simps) auto
qed

lemma spin_until_hangs:
  assumes "\<And>k. n \<le> k \<Longrightarrow> reads k < stop_at"
  shows "spin_until reads stop_at n = None"
proof (cases "spin_until reads stop_at n")
  case (Some x)
  have "\<not> (\<forall>k \<ge> n. reads k < stop_at)"
    by (rule spin_until.raw_induct [where P = "\<lambda>reads stop_at n x. \<not> (\<forall>k \<ge> n. reads k < stop_at)", OF _ Some])
      (simp split: if_splits, meson Suc_leD, blast)
  then show ?thesis using assms by blast
qed simp

text \<open>
  The software timer ends by overflow.  Waiting for \<open>w > 0\<close> counts from 0 until adding \<open>w\<close>
  wraps around, that is to \<open>2 ^ 64 - w\<close>: the shorter the requested time, the longer the wait.
  A second wait on the same timer returns at once.
\<close>

theorem SoftwareTimer_wraps:
  assumes "0 < sint w"
  shows "SoftwareTimer_Wait (SoftwareTimer w) = (\<lparr>counter = - w, fWaitFor_sw = w\<rparr>, True)
    \<and> SoftwareTimer_Wait (fst (SoftwareTimer_Wait (SoftwareTimer w))) = SoftwareTimer_Wait (SoftwareTimer w)
    \<and> unat (counter (fst (SoftwareTimer_Wait (SoftwareTimer w)))) = 2 ^ 64 - unat w"
proof -
  have w: "w \<noteq> 0" using assms by auto
  have le: "unat (0 :: u64) + unat w \<le> 2 ^ 64" using unat_less_64 [of w] by simp
  have "unat (0 - w) = 2 ^ 64 - unat w" using unat_sub_if' [of 0 w] w by (simp add: word_unat_eq_iff)
  moreover from this have "unat (- w) + unat w \<le> 2 ^ 64" using unat_less_64 [of w] by simp
  ultimately show ?thesis using assms count_loop_sw_end [OF w le] count_loop_sw_end [OF w, of "- w"]
    by (simp add: SoftwareTimer_Wait_def SoftwareTimer_def)
qed

theorem SoftwareTimer_wraps_witness:
  "0 < sint (5 :: u64) \<and> SoftwareTimer_Wait (SoftwareTimer 5) = (\<lparr>counter = - 5, fWaitFor_sw = 5\<rparr>, True)"
  using SoftwareTimer_wraps [of 5] by simp

text \<open>
  The hardware timer never ends.  \<open>Wait\<close> polls the register at offset 0, which is the
  capability register: on a device whose capability register keeps its value and gives a period of
  at most \<open>10 ^ 8\<close> femtoseconds, as the HPET specification requires, a wait of any admitted
  duration spins forever; it returns only when the duration is refused.
\<close>

theorem HardwareTimer_never_ends:
  assumes "\<forall>n. reads n = cap" and "0 < unat (drop_bit 32 cap)" and "unat (drop_bit 32 cap) \<le> 10 ^ 8"
    and "fDigitalTimer t \<noteq> 0"
  shows "HardwareTimer_Wait reads t = (if 1 \<le> fWaitFor t \<and> fWaitFor t \<le> 1000000 then None else Some False)"
proof (cases "1 \<le> fWaitFor t \<and> fWaitFor t \<le> 1000000")
  case True
  define period where "period = drop_bit 32 cap"
  define wait where "wait = (of_int (fWaitFor t) * 1000000000000 :: u64)"
  have "unat (of_int (fWaitFor t) :: u64) = nat (fWaitFor t)"
    using True by (simp add: unat_eq_nat_uint uint_word_of_int)
  moreover have ms: "1 \<le> nat (fWaitFor t)" "nat (fWaitFor t) \<le> 1000000" using True by linarith+
  from ms(2) have "nat (fWaitFor t) * 1000000000000 < 2 ^ 64" by simp
  ultimately have w: "unat wait = nat (fWaitFor t) * 10 ^ 12"
    by (simp add: wait_def unat_word_ariths)
  have "unat (wait div period) = unat wait div unat period" by (simp add: unat_div)
  moreover have "10 ^ 12 \<le> unat wait" "unat wait \<le> 10 ^ 18" using w ms by simp_all
  moreover have "10 ^ 12 div unat period \<noteq> 0" using assms(2,3) by (simp add: period_def div_eq_0_iff)
  ultimately have d: "0 < unat (wait div period)" "unat (wait div period) \<le> 10 ^ 18"
    by (metis div_le_mono le_zero_eq neq0_conv, metis div_le_dividend le_trans)
  have "unat cap div 2 ^ 32 \<le> 10 ^ 8" using assms(3) by (simp add: unat_div drop_bit_eq_div)
  then have "unat cap < (10 ^ 8 + 1) * 2 ^ 32" by simp
  then have "cap < cap + wait div period" using d by (simp add: word_less_nat_alt unat_word_ariths)
  then have "spin_until reads (cap + wait div period) 2 = None" using assms(1) by (intro spin_until_hangs) simp
  moreover have "period \<noteq> 0" using assms(2) by (auto simp: period_def)
  ultimately show ?thesis using True assms(1,4)
    by (simp add: HardwareTimer_Wait_def period_def wait_def)
next
  case False
  then show ?thesis by (auto simp: HardwareTimer_Wait_def)
qed

theorem HardwareTimer_never_ends_witness:
  "HardwareTimer_Wait (\<lambda>_. 0x0429B17F80000000) \<lparr>fDigitalTimer = 0xFED00000, fWaitFor = 10\<rparr> = None"
proof -
  have "drop_bit 32 (0x0429B17F80000000 :: u64) = 0x0429B17F" by code_simp
  then show ?thesis
    using HardwareTimer_never_ends [of "\<lambda>_. 0x0429B17F80000000" "0x0429B17F80000000" "\<lparr>fDigitalTimer = 0xFED00000, fWaitFor = 10\<rparr>"]
    by simp
qed

section \<open>The timer interface\<close>

lemma Lock_again:
  assumes "Lock w p = (w1, False)"
  shows "Lock w1 p = (w1, False)"
  using assms by (cases "p = fLockingProcess w") (auto simp: Lock_def Let_def IsLocked_def set_affinity_def split: if_splits)

text \<open>
  What \<open>ITimer\<close> promises of both timers: a wait for less than one unit is refused at once.
  \<open>due\<close> is the time a timer waits for.  A client that waits for such a timer, as
  \<open>LockAndWait\<close> does, only tries twice.
\<close>

lemma Lock_null: "Lock w 0 = (w, False)"
  by (simp add: Lock_def)

locale itimer =
  fixes Wait :: "'t \<Rightarrow> bool option"
    and due :: "'t \<Rightarrow> int"
  assumes refused: "due t < 1 \<Longrightarrow> Wait t = Some False"
begin

lemma hangs_due: "Wait t = None \<Longrightarrow> 1 \<le> due t"
  using refused [of t] by (cases "due t < 1") auto

lemma lock_without_wait:
  assumes "due t < 1"
  shows "LockAndWait (Some (\<lambda>w. map_option (Pair w) (Wait t))) w p = Some (Lock w p)"
proof (cases "Lock w p")
  case (Pair w1 got)
  then show ?thesis using refused [OF assms] Lock_again [of w p w1]
    by (cases got) (auto simp: LockAndWait_def Lock_null)
qed

end

interpretation swt: itimer "\<lambda>t. Some (snd (SoftwareTimer_Wait t))" "\<lambda>t. sint (fWaitFor_sw t)"
  by unfold_locales (simp add: SoftwareTimer_Wait_def)

interpretation hwt: itimer "HardwareTimer_Wait reads" fWaitFor
  by unfold_locales (simp add: HardwareTimer_Wait_def)
section \<open>Priority inheritance\<close>

text \<open>A row of processes that try to take the mutex, and the successive strict minima of their priorities.\<close>

definition lock_all :: "'a mutex_state_scheme \<Rightarrow> u64 list \<Rightarrow> 'a mutex_state_scheme" where
  "lock_all w ps = foldl (\<lambda>w p. fst (Lock w p)) w ps"

fun lows :: "int \<Rightarrow> int list \<Rightarrow> int list" where
  "lows a [] = [a]"
| "lows a (b # bs) = (if b < a then a # lows b bs else lows a bs)"

lemma lows_hd: "\<exists>bs. lows a as = a # bs"
  by (induction as arbitrary: a) auto

lemma last_lows: "last (lows a as) = Min (set (a # as))"
proof -
  have "last (lows a as) = fold min as a"
  proof (induction as arbitrary: a)
    case (Cons b bs)
    then show ?case using lows_hd [of b bs] by (auto simp: min_def)
  qed simp
  then show ?thesis by (simp only: Min.set_eq_fold)
qed

definition held :: "'a mutex_state_scheme \<Rightarrow> u64 \<Rightarrow> bool" where
  "held w owner = (fLockingProcess w = owner \<and> owner \<noteq> 0 \<and> Status (procs w owner) = kRunning)"

definition boosted :: "'a mutex_state_scheme \<Rightarrow> u64 \<Rightarrow> int \<Rightarrow> int \<Rightarrow> 'a mutex_state_scheme" where
  "boosted w r a saved = w\<lparr>procs := (procs w)(r := (procs w r)\<lparr>Affinity := a\<rparr>), fOwnerOriginalAffinity := saved\<rparr>"

lemma boosted_simps [simp]:
  "procs (boosted w r a saved) r = (procs w r)\<lparr>Affinity := a\<rparr>" "p \<noteq> r \<Longrightarrow> procs (boosted w r a saved) p = procs w p"
  "fOwnerOriginalAffinity (boosted w r a saved) = saved" "fLockingProcess (boosted w r a saved) = fLockingProcess w"
  "boosted (boosted w r a saved) r b saved' = boosted w r b saved'" "held (boosted w r a saved) r = held w r"
  "boosted w r (Affinity (procs w r)) (fOwnerOriginalAffinity w) = w"
  by (simp_all add: boosted_def held_def)

lemma Lock_held:
  assumes "held w r" and "p \<noteq> 0"
  shows "Lock w p = (if Affinity (procs w p) < Affinity (procs w r)
    then boosted w r (Affinity (procs w p)) (Affinity (procs w r)) else w, False)"
  using assms by (auto simp: Lock_def held_def IsLocked_def Let_def set_affinity_def boosted_def)

lemma lock_all_held:
  assumes "held w r" and "0 \<notin> set ps" and "r \<notin> set ps"
    and "l = lows (Affinity (procs w r)) (map (\<lambda>p. Affinity (procs w p)) ps)"
  shows "lock_all w ps = boosted w r (last l) (if tl l = [] then fOwnerOriginalAffinity w else last (butlast l))"
  using assms
proof (induction ps arbitrary: w l)
  case Nil
  then show ?case by (simp add: lock_all_def)
next
  case (Cons p ps)
  define a where "a = Affinity (procs w r)"
  define b where "b = Affinity (procs w p)"
  define w1 where "w1 = fst (Lock w p)"
  have w1: "w1 = (if b < a then boosted w r b a else w)"
    using Lock_held [OF Cons.prems(1), of p] Cons.prems(2) by (simp add: w1_def a_def b_def)
  define l1 where "l1 = lows (Affinity (procs w1 r)) (map (\<lambda>p. Affinity (procs w p)) ps)"
  have same: "map (\<lambda>p. Affinity (procs w1 p)) ps = map (\<lambda>p. Affinity (procs w p)) ps"
    using Cons.prems(3) by (auto simp: w1 boosted_def)
  have "held w1 r" using Cons.prems(1) by (simp add: w1)
  then have "lock_all w1 ps = boosted w1 r (last l1) (if tl l1 = [] then fOwnerOriginalAffinity w1 else last (butlast l1))"
    using Cons.prems(2,3) by (intro Cons.IH) (simp_all add: l1_def same)
  moreover have "lock_all w (p # ps) = lock_all w1 ps" by (simp add: lock_all_def w1_def)
  moreover obtain bs where "l1 = Affinity (procs w1 r) # bs" using lows_hd by (auto simp: l1_def)
  moreover have "l = (if b < a then a # l1 else l1)" using Cons.prems(4) by (simp add: l1_def w1 a_def b_def)
  ultimately show ?case by (cases "b < a") (simp_all add: w1)
qed

text \<open>
  C33. Priority inheritance.  While the owner of the mutex runs, processes that try to lock it fail
  and do not become owner; the owner runs with the highest priority (the least number) among its
  own and theirs, and no other process changes.  \<open>Unlock\<close> gives back the priority that the
  owner had before the last boost: with at most one boost this is its own priority, with more it is
  the one borrowed from an earlier waiter.
\<close>

theorem mutex_priority_inheritance:
  assumes "held w r" and "fOwnerOriginalAffinity w = kAffinityInvalid" and "0 \<notin> set ps" and "r \<notin> set ps"
    and "0 < Affinity (procs w r)" and "\<forall>p \<in> set ps. 0 < Affinity (procs w p)"
    and "as = map (\<lambda>p. Affinity (procs w p)) ps" and "l = lows (Affinity (procs w r)) as"
  shows "fLockingProcess (lock_all w ps) = r \<and> IsLocked (lock_all w ps)
    \<and> Affinity (procs (lock_all w ps) r) = Min (set (Affinity (procs w r) # as))
    \<and> (\<forall>p. p \<noteq> r \<longrightarrow> procs (lock_all w ps) p = procs w p)
    \<and> snd (Unlock (lock_all w ps)) \<and> \<not> IsLocked (fst (Unlock (lock_all w ps)))
    \<and> Affinity (procs (fst (Unlock (lock_all w ps))) r) = (if length l \<le> 2 then Affinity (procs w r) else l ! (length l - 2))"
proof -
  define a where "a = Affinity (procs w r)"
  have state: "lock_all w ps = boosted w r (last l) (if tl l = [] then 0 else last (butlast l))"
    using lock_all_held [OF assms(1,3,4)] assms(2,7,8) by (simp add: kAffinityInvalid_def)
  obtain bs where l: "l = a # bs" using lows_hd assms(8) by (auto simp: a_def)
  have mem: "set (lows c cs) \<subseteq> set (c # cs)" for c cs by (induction c cs rule: lows.induct) auto
  have pos: "\<forall>x \<in> set l. 0 < x" using mem [of "Affinity (procs w r)" as] assms(5,6,7,8) by auto
  have before: "last (butlast l) = l ! (length l - 2)" if "bs \<noteq> []" using that l by (cases bs rule: rev_cases) (auto simp: nth_append butlast_append last_conv_nth)
  have "0 < last (butlast l)" if "bs \<noteq> []" using that pos l by (cases bs rule: rev_cases) (auto simp: butlast_append last_in_set)
  then have "Affinity (procs (fst (Unlock (lock_all w ps))) r) = (if length l \<le> 2 then a else l ! (length l - 2))"
    using assms(1) l before by (cases bs) (auto simp: state Unlock_def set_affinity_def held_def kAffinityInvalid_def a_def Let_def)
  then show ?thesis using assms(1) last_lows [of "Affinity (procs w r)" as] assms(8)
    by (simp add: state held_def IsLocked_def Unlock_def Let_def a_def set_affinity_def)
qed

text \<open>An owner of priority 1000 and two waiters that boost it in turn: it is left with the priority of the first.\<close>

definition two_waiters :: mutex_state where
  "two_waiters = \<lparr>procs = (\<lambda>p. blank_process\<lparr>Status := kRunning, Affinity := (if p = 1 then 1000 else if p = 2 then 200 else 100)\<rparr>),
     fLockingProcess = 1, fOwnerOriginalAffinity = kAffinityInvalid\<rparr>"

theorem mutex_priority_inheritance_witness:
  "Affinity (procs (lock_all two_waiters [2, 3]) 1) = 100 \<and> Affinity (procs (fst (Unlock (lock_all two_waiters [2, 3]))) 1) = 200"
  using mutex_priority_inheritance [of two_waiters 1 "[2, 3]" "[200, 100]" "[1000, 200, 100]"]
  by (simp add: two_waiters_def held_def)

section \<open>The semaphore never lets anyone through\<close>

text \<open>The states that the semaphore functions lead to, from whatever start.\<close>

inductive sem_reach :: "(u64 \<Rightarrow> sem_state \<Rightarrow> (sem_state \<times> bool) option) \<Rightarrow> sem_state \<Rightarrow> sem_state \<Rightarrow> bool" for hw_wait where
  start: "sem_reach hw_wait s s"
| acquire: "sem_reach hw_wait s t \<Longrightarrow> sem_reach hw_wait s (fst (rtl_sem_acquire t owner))"
| release: "sem_reach hw_wait s t \<Longrightarrow> sem_reach hw_wait s (fst (rtl_sem_release t))"
| waited: "sem_reach hw_wait s t \<Longrightarrow> rtl_sem_wait hw_wait t owner timeout = Some (t', r) \<Longrightarrow> sem_reach hw_wait s t'"
| condition: "sem_reach hw_wait s t \<Longrightarrow> sem_reach hw_wait s (t\<lparr>sem_condition := c\<rparr>)"

lemma rtl_sem_wait_invalid:
  "sem_count s = 0 \<Longrightarrow> rtl_sem_wait hw_wait s owner timeout = Some (s\<lparr>sem_err := kErrorInvalidData\<rparr>, False)"
  by (simp add: rtl_sem_wait_def rtl_sem_is_valid_def)

lemma sem_reach_empty: "sem_reach hw_wait s t \<Longrightarrow> sem_count s = 0 \<Longrightarrow> sem_count t = 0"
  by (induction rule: sem_reach.induct) (auto simp: rtl_sem_acquire_def rtl_sem_release_def rtl_sem_wait_invalid)

text \<open>
  C34. The semaphore never lets anyone through.  No function of the semaphore raises its count:
  after any sequence of acquisitions, releases and waits, with the condition changing in between,
  from a semaphore with count 0, the count is 0 and every wait, also of the owner that has just
  acquired it, returns false with \<open>kErrorInvalidData\<close>.
\<close>

theorem semaphore_never_grants:
  assumes "sem_reach hw_wait s t" and "sem_count s = 0"
  shows "sem_count t = 0 \<and> rtl_sem_wait hw_wait t owner timeout = Some (t\<lparr>sem_err := kErrorInvalidData\<rparr>, False)
    \<and> rtl_sem_wait hw_wait (fst (rtl_sem_acquire t owner)) owner timeout
        = Some ((fst (rtl_sem_acquire t owner))\<lparr>sem_err := kErrorInvalidData\<rparr>, False)"
proof -
  have "sem_count t = 0" using sem_reach_empty [OF assms] .
  then show ?thesis by (simp add: rtl_sem_wait_invalid rtl_sem_acquire_def)
qed

theorem semaphore_never_grants_witness:
  "\<exists>t. sem_reach (\<lambda>_ _. None) \<lparr>sem_owner = 0, sem_count = 0, sem_condition = True, sem_err = 0\<rparr> t \<and> sem_owner t = 7
     \<and> rtl_sem_wait (\<lambda>_ _. None) t 7 100 = Some (t\<lparr>sem_err := kErrorInvalidData\<rparr>, False)"
proof -
  have r: "sem_reach (\<lambda>_ _. None) \<lparr>sem_owner = 0, sem_count = 0, sem_condition = True, sem_err = 0\<rparr>
      (fst (rtl_sem_acquire \<lparr>sem_owner = 0, sem_count = 0, sem_condition = True, sem_err = 0\<rparr> 7))"
    by (rule sem_reach.acquire [OF sem_reach.start])
  from semaphore_never_grants [OF r, of 7 100] r show ?thesis
    by (intro exI [of _ "fst (rtl_sem_acquire \<lparr>sem_owner = 0, sem_count = 0, sem_condition = True, sem_err = 0\<rparr> 7)"])
      (simp add: rtl_sem_acquire_def)
qed

end
