(* ===== verification/Messaging.thy ===== *)
theory Messaging
  imports AsciiUtils KPC
begin

text \<open>
  Messages between processes and network addresses: \<^verbatim>\<open>NetworkKit/IPC.h\<close>,
  \<^verbatim>\<open>src/Network/IPCMessage.cpp\<close>, \<^verbatim>\<open>IPCAddress.cpp\<close>, \<^verbatim>\<open>IPAddress.cpp\<close> and
  \<^verbatim>\<open>NetworkKit/IP.h\<close>.  A message is the record of its header; its data is a pointer into the
  memory.  The lock word of a message may be changed by another processor while \<open>Pass\<close> waits for
  it: the values that the reads give are a parameter, and a wait that does not end is \<open>None\<close>.

  The shown facts: what \<open>Pass\<close> does with the data and with the two values of the lock, that a
  constructed packet does not pass the sanitiser, and exactly which strings
  \<open>IpCheckVersion4\<close> accepts.
\<close>

section \<open>Messages\<close>

record ipc_addr =
  UserProcessID :: u64
  UserProcessTeam :: u64

definition ipc_addr_eq :: "ipc_addr \<Rightarrow> ipc_addr \<Rightarrow> bool" where
  "ipc_addr_eq this addr = (UserProcessID addr = UserProcessID this \<and> UserProcessTeam addr = UserProcessTeam this)"

definition ipc_addr_neq :: "ipc_addr \<Rightarrow> ipc_addr \<Rightarrow> bool" where
  "ipc_addr_neq this addr = (UserProcessID addr \<noteq> UserProcessID this \<or> UserProcessTeam addr \<noteq> UserProcessTeam this)"

record ipc_msg =
  IpcHeaderMagic :: u32
  IpcEndianess :: u8
  IpcPacketSize :: u64
  IpcFrom :: ipc_addr
  IpcTo :: ipc_addr
  IpcCRC32 :: u32
  IpcMsg :: u32
  IpcMsgSz :: u32
  IpcLock :: u32
  IpcSize :: u64
  IpcData :: u64

definition kIPCHeaderMagic :: u32 where "kIPCHeaderMagic = 0x4950434"
definition kIPCLittleEndian :: u8 where "kIPCLittleEndian = 0"
definition kIPCBigEndian :: u8 where "kIPCBigEndian = 1"
definition kIPCMixedEndian :: u8 where "kIPCMixedEndian = 2"
definition kIPCLockFree :: u32 where "kIPCLockFree = 1"
definition kIPCLockUsed :: u32 where "kIPCLockUsed = 2"
definition sizeof_IPC_MSG :: u64 where "sizeof_IPC_MSG = 80"

datatype Endian = kEndianInvalid | kEndianBig | kEndianLittle | kEndianMixed | kEndianCount

primrec endian_number :: "Endian \<Rightarrow> u8" where
  "endian_number kEndianInvalid = 0"
| "endian_number kEndianBig = 1"
| "endian_number kEndianLittle = 2"
| "endian_number kEndianMixed = 3"
| "endian_number kEndianCount = 4"

definition RTL_ENDIAN :: "u8 \<Rightarrow> u8 \<Rightarrow> Endian" where
  "RTL_ENDIAN first v = (if first = v then kEndianBig else kEndianLittle)"

text \<open>The first byte of a message is the low byte of the magic number.\<close>

definition msg_first :: "ipc_msg \<Rightarrow> u8" where
  "msg_first p = ucast (IpcHeaderMagic p)"

text \<open>The result comes with the local error.\<close>

definition ipc_int_sanitize_packet :: "int \<Rightarrow> ipc_msg \<Rightarrow> bool \<times> int" where
  "ipc_int_sanitize_packet err pckt =
     (let failed = (False, kErrorIPC);
          wrong_endian = (case RTL_ENDIAN (msg_first pckt) (msg_first pckt) of
             kEndianBig \<Rightarrow> IpcEndianess pckt = kIPCLittleEndian
           | kEndianLittle \<Rightarrow> IpcEndianess pckt = kIPCBigEndian
           | kEndianMixed \<Rightarrow> IpcEndianess pckt = kIPCMixedEndian
           | _ \<Rightarrow> True)
      in if wrong_endian then failed
         else if ipc_addr_eq (IpcFrom pckt) (IpcTo pckt) \<or> IpcPacketSize pckt < 1 then failed
         else (IpcPacketSize pckt > 1 \<and> IpcHeaderMagic pckt = kIPCHeaderMagic, err))"

definition ipc_sanitize_packet :: "int \<Rightarrow> ipc_msg option \<Rightarrow> bool \<times> int" where
  "ipc_sanitize_packet err pckt =
     (case pckt of
        None \<Rightarrow> (False, err)
      | Some p \<Rightarrow> let (ok, err) = ipc_int_sanitize_packet err p in if \<not> ok then (False, err) else (True, err))"

text \<open>\<open>fresh\<close> is what \<open>new\<close> returns, a zeroed message or null.\<close>

definition ipc_construct_packet :: "bool \<Rightarrow> ipc_msg option \<Rightarrow> ipc_msg option option \<Rightarrow> (ipc_msg option option \<times> bool) outcome" where
  "ipc_construct_packet debug fresh pckt_in =
     (case pckt_in of
        None \<Rightarrow> Ret (None, False)
      | Some slot \<Rightarrow>
          let slot = (if slot = None then fresh else slot)
          in case must_pass debug (slot \<noteq> None) () of
               Stop \<Rightarrow> Stop
             | Ret _ \<Rightarrow>
                 (case slot of
                    None \<Rightarrow> Ret (Some None, False)
                  | Some p \<Rightarrow>
                      let endianess = RTL_ENDIAN (msg_first p) (msg_first p);
                          p = p\<lparr>IpcHeaderMagic := kIPCHeaderMagic, IpcEndianess := endian_number endianess,
                                IpcPacketSize := sizeof_IPC_MSG,
                                IpcTo := \<lparr>UserProcessID = 0, UserProcessTeam = 0\<rparr>,
                                IpcFrom := \<lparr>UserProcessID = 0, UserProcessTeam = 0\<rparr>,
                                IpcLock := kIPCLockFree\<rparr>
                      in Ret (Some (Some p), True)))"

text \<open>The wait for the lock: it yields the number of the read that ends it, or \<open>None\<close> for a timeout.\<close>

definition kLimitTimeout :: u32 where "kLimitTimeout = 1000000"

partial_function (option) pass_spin :: "(nat \<Rightarrow> u32) \<Rightarrow> u32 \<Rightarrow> nat \<Rightarrow> nat option option" where
  "pass_spin locks timeout n =
     (if locks n mod kIPCLockUsed \<noteq> 0 then
        if timeout > kLimitTimeout then Some None else pass_spin locks timeout (n + 1)
      else Some (Some n))"

text \<open>The messages by their addresses; the lock is counted up around the copy.\<close>

record ipc_state =
  ipc_mem :: mem
  msgs :: "u64 \<Rightarrow> ipc_msg"

definition set_lock :: "ipc_state \<Rightarrow> u64 \<Rightarrow> u32 \<Rightarrow> ipc_state" where
  "set_lock s p v = s\<lparr>msgs := (msgs s)(p := (msgs s p)\<lparr>IpcLock := v\<rparr>)\<rparr>"

definition Pass :: "(nat \<Rightarrow> u32) \<Rightarrow> ipc_state \<Rightarrow> u64 \<Rightarrow> u64 \<Rightarrow> (ipc_state \<times> bool) option" where
  "Pass locks s src target =
     (if src \<noteq> 0 \<and> target \<noteq> 0 \<and> target \<noteq> src then
        if IpcSize (msgs s target) > IpcSize (msgs s src) then Some (s, False)
        else case pass_spin locks 0 0 of
               None \<Rightarrow> None
             | Some None \<Rightarrow> Some (s, False)
             | Some (Some n) \<Rightarrow>
                 let s = set_lock s target (locks n + 1);
                     s = s\<lparr>ipc_mem := fst (rt_copy_memory_safe (ipc_mem s) (IpcData (msgs s src)) (IpcData (msgs s target))
                            (IpcSize (msgs s src)) (IpcSize (msgs s target)))\<rparr>;
                     s = set_lock s target (IpcLock (msgs s target) - 1)
                 in Some (s, True)
      else Some (s, False))"

section \<open>Network addresses\<close>

text \<open>An address is the list of its 4 or 16 bytes; the comparisons return at the first byte that decides.\<close>

fun ip_eq_loop :: "u8 list \<Rightarrow> u8 list \<Rightarrow> bool" where
  "ip_eq_loop (a # as) (b # bs) = (if b \<noteq> a then False else ip_eq_loop as bs)"
| "ip_eq_loop _ _ = True"

fun ip_neq_loop :: "u8 list \<Rightarrow> u8 list \<Rightarrow> bool" where
  "ip_neq_loop (a # as) (b # bs) = (if b = a then False else ip_neq_loop as bs)"
| "ip_neq_loop _ _ = True"

text \<open>\<open>operator[]\<close> for reading: past the end it gives the placeholder, the character 0.\<close>

definition ip_at :: "u8 list \<Rightarrow> u64 \<Rightarrow> u8" where
  "ip_at addr index = (if index \<ge> of_nat (length addr) then 48 else addr ! unat index)"

fun check4_loop :: "u8 list \<Rightarrow> int \<Rightarrow> int \<Rightarrow> bool" where
  "check4_loop [] cnter dot_cnter = (if dot_cnter \<noteq> 3 then False else True)"
| "check4_loop (c # ip) cnter dot_cnter =
     (if sint c = 46 then check4_loop ip 0 (dot_cnter + 1)
      else if sint c > 53 \<or> sint c < 48 then False
      else if \<not> rt_is_alnum (sint c) then False
      else if cnter > 3 then False
      else check4_loop ip (cnter + 1) dot_cnter)"

definition IpCheckVersion4 :: "u8 list option \<Rightarrow> bool" where
  "IpCheckVersion4 ip = (case ip of None \<Rightarrow> False | Some s \<Rightarrow> check4_loop s 0 0)"

section \<open>Passing a message\<close>

lemma pass_spin_odd:
  assumes "\<And>n. locks n mod kIPCLockUsed \<noteq> 0"
  shows "pass_spin locks 0 n = None"
proof (cases "pass_spin locks 0 n")
  case (Some x)
  define z where "z = (0 :: u32)"
  have "z = 0 \<longrightarrow> (\<exists>n. kIPCLockUsed dvd locks n)"
    by (rule pass_spin.raw_induct [where P = "\<lambda>locks z n x. z = 0 \<longrightarrow> (\<exists>n. kIPCLockUsed dvd locks n)", OF _ Some [folded z_def]])
      (auto simp: kLimitTimeout_def split: if_splits)
  then show ?thesis using assms by (auto simp: z_def kIPCLockUsed_def even_iff_mod_2_eq_zero)
qed simp

lemma copy_safe_equal:
  assumes "src \<noteq> 0" and "dst \<noteq> 0" and "sep src (unat n) dst (unat n)"
  shows "read_bytes (fst (rt_copy_memory_safe m src dst n n)) dst (unat n) = read_bytes m src (unat n)"
  using assms unsigned_less [of n, where ?'a = nat]
  by (simp add: rt_copy_memory_safe_def copy_loop_eq read_write_same)

lemma copy_safe_short:
  assumes "dst \<noteq> 0" and "k < n"
  shows "read_bytes (fst (rt_copy_memory_safe m src dst n k)) dst (unat k) = replicate (unat k) 0"
  using assms unsigned_less [of k, where ?'a = nat]
  by (auto simp: rt_copy_memory_safe_def rt_set_memory_safe_def set_loop_eq read_write_same)

text \<open>
  Passing a message.  While nobody else changes the lock of the target, \<open>Pass\<close> spins forever
  if the lock is odd, in particular \<open>kIPCLockFree\<close>, the value of a constructed packet, and
  goes on at once if it is even, in particular \<open>kIPCLockUsed\<close>.  It then reports success and
  leaves all messages as they were; the data of the target becomes that of the source when both
  have the same size, and zeros when the source is longer.
\<close>

theorem ipc_pass_exact:
  assumes "src \<noteq> 0" and "target \<noteq> 0" and "target \<noteq> src" and "\<forall>n. locks n = IpcLock (msgs s target)"
    and "IpcSize (msgs s target) \<le> IpcSize (msgs s src)" and "IpcData (msgs s src) \<noteq> 0" and "IpcData (msgs s target) \<noteq> 0"
    and "sep (IpcData (msgs s src)) (unat (IpcSize (msgs s target))) (IpcData (msgs s target)) (unat (IpcSize (msgs s target)))"
  shows "if odd (IpcLock (msgs s target)) then Pass locks s src target = None
    else \<exists>m. Pass locks s src target = Some (s\<lparr>ipc_mem := m\<rparr>, True)
      \<and> read_bytes m (IpcData (msgs s target)) (unat (IpcSize (msgs s target)))
        = (if IpcSize (msgs s src) = IpcSize (msgs s target)
           then read_bytes (ipc_mem s) (IpcData (msgs s src)) (unat (IpcSize (msgs s target)))
           else replicate (unat (IpcSize (msgs s target))) 0)"
proof -
  define l where "l = IpcLock (msgs s target)"
  have lk: "locks n = l" for n using assms(4) by (simp add: l_def)
  have par: "l mod kIPCLockUsed = 0 \<longleftrightarrow> even l" by (simp add: kIPCLockUsed_def even_iff_mod_2_eq_zero)
  show ?thesis
  proof (cases "even l")
    case False
    then have "pass_spin locks 0 0 = None" using lk par by (intro pass_spin_odd) simp
    then show ?thesis using assms False by (auto simp: Pass_def l_def [symmetric])
  next
    case True
    then have spin: "pass_spin locks 0 0 = Some (Some 0)" using lk par by (subst pass_spin.simps) simp
    define m where "m = fst (rt_copy_memory_safe (ipc_mem s) (IpcData (msgs s src)) (IpcData (msgs s target))
      (IpcSize (msgs s src)) (IpcSize (msgs s target)))"
    have "Pass locks s src target = Some (s\<lparr>ipc_mem := m\<rparr>, True)"
      using assms spin by (auto simp: Pass_def Let_def set_lock_def m_def lk l_def not_less fun_upd_idem)
    then show ?thesis using True assms copy_safe_equal [OF assms(6,7)] copy_safe_short [OF assms(7)]
      by (auto simp: m_def l_def)
  qed
qed

text \<open>Two messages of three bytes; the lock of the second is not \<open>kIPCLockFree\<close>.\<close>

definition sample_msg :: "u32 \<Rightarrow> u64 \<Rightarrow> ipc_msg" where
  "sample_msg lock data = \<lparr>IpcHeaderMagic = kIPCHeaderMagic, IpcEndianess = 1, IpcPacketSize = 80,
     IpcFrom = \<lparr>UserProcessID = 1, UserProcessTeam = 0\<rparr>, IpcTo = \<lparr>UserProcessID = 2, UserProcessTeam = 0\<rparr>,
     IpcCRC32 = 0, IpcMsg = 0, IpcMsgSz = 0, IpcLock = lock, IpcSize = 3, IpcData = data\<rparr>"

definition sample_ipc :: ipc_state where
  "sample_ipc = \<lparr>ipc_mem = write_bytes (\<lambda>_. 0) 0x1000 [1, 2, 3],
     msgs = (\<lambda>p. if p = 16 then sample_msg 1 0x1000 else sample_msg 2 0x2000)\<rparr>"

theorem ipc_pass_exact_witness:
  "(\<exists>m. Pass (\<lambda>_. 2) sample_ipc 16 32 = Some (sample_ipc\<lparr>ipc_mem := m\<rparr>, True) \<and> read_bytes m 0x2000 3 = [1, 2, 3])
   \<and> Pass (\<lambda>_. 1) sample_ipc 32 16 = None"
proof -
  have f: "IpcSize (msgs sample_ipc p) = 3" "IpcData (msgs sample_ipc 16) = 0x1000" "IpcData (msgs sample_ipc 32) = 0x2000"
    "IpcLock (msgs sample_ipc 16) = 1" "IpcLock (msgs sample_ipc 32) = 2" for p
    by (simp_all add: sample_ipc_def sample_msg_def)
  have d: "read_bytes (ipc_mem sample_ipc) 0x1000 3 = [1, 2, 3]" by (simp add: sample_ipc_def read_write_same)
  have s: "sep 0x1000 3 0x2000 3" "sep 0x2000 3 0x1000 3" by (simp_all add: sep_def)
  show ?thesis
    using ipc_pass_exact [of 16 32 "\<lambda>_. 2" sample_ipc] ipc_pass_exact [of 32 16 "\<lambda>_. 1" sample_ipc] by (simp add: f d s)
qed

text \<open>
  A constructed packet is not accepted.  Both addresses of a packet that
  \<open>ipc_construct_packet\<close> makes are 0, and the sanitiser rejects a packet with equal addresses;
  once the addresses differ, the packet passes.
\<close>

theorem ipc_constructed_packet_sanitize:
  assumes "ipc_construct_packet debug fresh (Some slot) = Ret (Some (Some p), True)"
  shows "ipc_sanitize_packet err (Some p) = (False, kErrorIPC)
    \<and> ipc_sanitize_packet err (Some (p\<lparr>IpcFrom := a, IpcTo := b\<rparr>)) = (if a = b then (False, kErrorIPC) else (True, err))"
proof -
  have p: "IpcHeaderMagic p = kIPCHeaderMagic" "IpcEndianess p = 1" "IpcPacketSize p = 80" "IpcFrom p = IpcTo p"
    using assms by (auto simp: ipc_construct_packet_def Let_def must_pass_def RTL_ENDIAN_def sizeof_IPC_MSG_def
        split: outcome.splits option.splits if_splits)
  have "ipc_addr_eq a b \<longleftrightarrow> a = b" for a b :: ipc_addr by (auto simp: ipc_addr_eq_def)
  then show ?thesis using p
    by (simp add: ipc_sanitize_packet_def ipc_int_sanitize_packet_def RTL_ENDIAN_def kIPCLittleEndian_def)
qed

theorem ipc_constructed_packet_sanitize_witness:
  "\<exists>p. ipc_construct_packet True (Some (sample_msg 0 0)) (Some None) = Ret (Some (Some p), True)
     \<and> ipc_sanitize_packet 0 (Some p) = (False, kErrorIPC)"
proof -
  have "\<exists>p. ipc_construct_packet True (Some (sample_msg 0 0)) (Some None) = Ret (Some (Some p), True)"
    by (simp add: ipc_construct_packet_def must_pass_def Let_def)
  then obtain p where p: "ipc_construct_packet True (Some (sample_msg 0 0)) (Some None) = Ret (Some (Some p), True)" ..
  from ipc_constructed_packet_sanitize [OF p] p show ?thesis by blast
qed

section \<open>Addresses as text\<close>

text \<open>The groups of a string between its dots.\<close>

fun dot_groups :: "u8 list \<Rightarrow> u8 list list" where
  "dot_groups [] = [[]]"
| "dot_groups (c # cs) = (if c = 46 then [] # dot_groups cs else (c # hd (dot_groups cs)) # tl (dot_groups cs))"

lemma dot_groups_ne: "dot_groups s \<noteq> []"
  by (cases s) auto

lemma sint_u8: "sint (c :: u8) = (if uint c < 128 then uint c else uint c - 256)"
proof -
  have r: "0 \<le> uint c" "uint c < 256" using unsigned_less [of c, where ?'a = int] by simp_all
  have "sint c = (uint c + 128) mod 256 - 128"
    by (simp add: sint_uint signed_take_bit_eq_take_bit_shift take_bit_eq_mod)
  moreover have "(uint c + 128) mod 256 = (if uint c < 128 then uint c + 128 else uint c - 128)"
    using r mod_add_self2 [of "uint c - 128" 256] by (auto simp: add.commute)
  ultimately show ?thesis by simp
qed

lemma ip_digit:
  "sint (c :: u8) = 46 \<longleftrightarrow> c = 46" "sint c > 53 \<or> sint c < 48 \<longleftrightarrow> c \<notin> {48..53}" "c \<in> {48..53} \<Longrightarrow> rt_is_alnum (sint c)"
proof -
  have r: "0 \<le> uint c" "uint c < 256" using unsigned_less [of c, where ?'a = int] by simp_all
  then show "sint c = 46 \<longleftrightarrow> c = 46" "sint c > 53 \<or> sint c < 48 \<longleftrightarrow> c \<notin> {48..53}" "c \<in> {48..53} \<Longrightarrow> rt_is_alnum (sint c)"
    by (auto simp: sint_u8 word_uint_eq_iff word_le_def rt_is_alnum_def)
qed

lemma check4_loop_groups:
  assumes "0 \<le> cnter" and "cnter \<le> 4"
  shows "check4_loop s cnter dots \<longleftrightarrow>
     int (length (dot_groups s)) + dots = 4 \<and> (\<forall>g \<in> set (dot_groups s). set g \<subseteq> {48..53})
     \<and> int (length (hd (dot_groups s))) + cnter \<le> 4 \<and> (\<forall>g \<in> set (tl (dot_groups s)). length g \<le> 4)"
  using assms
proof (induction s arbitrary: cnter dots)
  case (Cons c s)
  obtain g gs where g: "dot_groups s = g # gs" using dot_groups_ne by (cases "dot_groups s") auto
  show ?case
  proof (cases "c = 46")
    case True
    then show ?thesis using Cons.IH [of 0 "dots + 1"] Cons.prems g by (auto simp: ip_digit)
  next
    case False
    then show ?thesis using Cons.IH [of "cnter + 1" dots] Cons.prems g
      by (cases "c \<in> {48..53}"; cases "cnter > 3") (auto simp: ip_digit)
  qed
qed auto

text \<open>
  IPv4 addresses as text.  \<open>IpCheckVersion4\<close> accepts exactly the strings of four groups
  separated by dots, each of at most four characters, possibly none, from the digits 0 to 5.
\<close>

theorem IpCheckVersion4_iff:
  "IpCheckVersion4 (Some s) \<longleftrightarrow> length (dot_groups s) = 4 \<and> (\<forall>g \<in> set (dot_groups s). length g \<le> 4 \<and> set g \<subseteq> {48..53})"
proof -
  obtain g gs where "dot_groups s = g # gs" using dot_groups_ne by (cases "dot_groups s") auto
  then show ?thesis using check4_loop_groups [of 0 s 0] by (auto simp: IpCheckVersion4_def)
qed

theorem IpCheckVersion4_iff_witness:
  "IpCheckVersion4 (Some [46, 46, 46]) \<and> \<not> IpCheckVersion4 (Some [49, 50, 55, 46, 48, 46, 48, 46, 49])"
  using IpCheckVersion4_iff [of "[46, 46, 46]"] IpCheckVersion4_iff [of "[49, 50, 55, 46, 48, 46, 48, 46, 49]"] by simp

end
