(* ===== verification/KernelTasks.thy ===== *)
theory KernelTasks
  imports UserScheduler
begin

text \<open>
  Kernel tasks and the code manager: \<^verbatim>\<open>src/KernelTask.cpp\<close>, \<^verbatim>\<open>KernelKit/KernelTask.h\<close>,
  \<^verbatim>\<open>src/CodeMgr.cpp\<close>, and the check of thread information blocks of
  \<^verbatim>\<open>src/ThreadLocalStorage.cpp\<close>.  The code of a task is a parameter, what calling it with a
  stack frame does to the cores; \<open>None\<close> when it does not return.  The lock of \<open>Start\<close> is free
  when it is called, since it is released on every path that returns.

  The shown fact: what \<open>Start\<close> reports for every frame that the task leaves.
\<close>

record kernel_task =
  kt_StackFrame :: u64
  kt_StackSize :: u64
  kt_Image :: process_image
  kt_Kid :: int

definition HasCode :: "process_image \<Rightarrow> bool" where "HasCode i = (fCode i \<noteq> 0)"
definition HasImage :: "process_image \<Rightarrow> bool" where "HasImage i = (fBlob i \<noteq> 0)"

type_synonym 'a task_code = "u64 \<Rightarrow> u64 \<Rightarrow> 'a cores_scheme \<Rightarrow> 'a cores_scheme option"

text \<open>Both \<open>MUST_PASS\<close> and the check after it stop the system for bad arguments.\<close>

definition kt_kernel_task_start ::
  "'a task_code \<Rightarrow> 'a cores_scheme \<Rightarrow> u64 \<Rightarrow> u64 \<Rightarrow> ('a cores_scheme \<times> int) outcome option" where
  "kt_kernel_task_start run s stack_frame code =
     (if stack_frame = 0 \<or> code = 0 then Some Stop
      else case run code stack_frame s of
             None \<Rightarrow> None
           | Some s \<Rightarrow>
               if R8 (frames_at s stack_frame) = 0 then Some Stop
               else Some (Ret (s, to_int32 (R8 (frames_at s stack_frame)))))"

text \<open>The result of \<open>Start\<close>: the cores, the task, the local error and the answer.\<close>

definition Start ::
  "'a task_code \<Rightarrow> 'a cores_scheme \<Rightarrow> int \<Rightarrow> kernel_task \<Rightarrow> int \<Rightarrow> ('a cores_scheme \<times> kernel_task \<times> int \<times> bool) outcome option" where
  "Start run s err task_ptr kid =
     (if kid = 0 then Some (Ret (s, task_ptr, err, False))
      else let task_ptr = task_ptr\<lparr>kt_Kid := kid\<rparr>;
               code = (case LeakImage (kt_Image task_ptr) of Inl _ \<Rightarrow> 0 | Inr p \<Rightarrow> p)
           in case kt_kernel_task_start run s (kt_StackFrame task_ptr) code of
                None \<Rightarrow> None
              | Some Stop \<Rightarrow> Some Stop
              | Some (Ret (s, ret)) \<Rightarrow>
                  if ret \<noteq> kErrorSuccess then Some (Ret (s, task_ptr, ret, False))
                  else Some (Ret (s, task_ptr, err, True)))"

definition task_IsValid :: "kernel_task \<Rightarrow> bool" where
  "task_IsValid task_ref =
     (if kt_StackSize task_ref = 0 then False else HasImage (kt_Image task_ref) \<and> HasCode (kt_Image task_ref))"

definition CanBeStarted :: "kernel_task \<Rightarrow> bool" where
  "CanBeStarted task = (if task_IsValid task then True else kt_StackFrame task \<noteq> 0)"

definition rtl_create_kernel_task ::
  "'a task_code \<Rightarrow> 'a cores_scheme \<Rightarrow> int \<Rightarrow> kernel_task \<Rightarrow> int \<Rightarrow> ('a cores_scheme \<times> kernel_task \<times> int \<times> bool) outcome option" where
  "rtl_create_kernel_task run s err task kid =
     (if kid = 0 then Some (Ret (s, task, err, False)) else Start run s err task kid)"

definition kCPSInvalidPID :: int where "kCPSInvalidPID = - 1"

text \<open>A process from a function of the kernel: the name is a pointer to a string, the image is null.\<close>

definition rtl_create_user_process ::
  "(int \<Rightarrow> u64) \<Rightarrow> 'a usched_scheme \<Rightarrow> u64 \<Rightarrow> u64 \<Rightarrow> ('a usched_scheme \<times> int) res option" where
  "rtl_create_user_process stack_at s main process_name =
     (if process_name = 0 \<or> ram s process_name = 0 then Some (Ok (s, kCPSInvalidPID))
      else Spawn stack_at s process_name main 0 0)"

section \<open>Thread information blocks\<close>

text \<open>A block is a pointer; its cookie is its first three bytes, the letters N, K and O.\<close>

definition tlsi_check_tib :: "bool \<Rightarrow> mem \<Rightarrow> u64 \<Rightarrow> bool outcome" where
  "tlsi_check_tib debug m tib_ptr =
     must_pass debug (tib_ptr \<noteq> 0)
       (if tib_ptr = 0 then False else m tib_ptr = 78 \<and> m (tib_ptr + 1) = 75 \<and> m (tib_ptr + 2) = 79)"

definition tls_check_tib :: "bool \<Rightarrow> mem \<Rightarrow> u64 \<Rightarrow> bool outcome" where
  "tls_check_tib debug m tib_ptr =
     (case must_pass debug (tib_ptr \<noteq> 0) () of
        Stop \<Rightarrow> Stop
      | Ret _ \<Rightarrow> if tib_ptr = 0 then Ret False else tlsi_check_tib debug m tib_ptr)"

section \<open>Starting a task\<close>

lemma to_int32_0: "to_int32 x = 0 \<longleftrightarrow> take_bit 32 x = 0"
proof -
  have "to_int32 x = 0 \<longleftrightarrow> (ucast x :: u32) = 0" unfolding to_int32_def by (rule signed_eq_0_iff)
  also have "\<dots> \<longleftrightarrow> take_bit 32 x = 0" by (simp add: word_uint_eq_iff unsigned_ucast_eq unsigned_take_bit_eq)
  finally show ?thesis .
qed

text \<open>
  Starting a kernel task.  A task must leave a non-zero \<open>R8\<close>, or the system stops; but
  \<open>Start\<close> takes the low half of \<open>R8\<close> as an error code where 0 is success.  So a start that
  returns is reported as successful exactly when \<open>R8\<close> is not zero but its low 32 bits are; any
  small non-zero value, as the check asks for, is reported as failed and becomes the local error.
\<close>

theorem kernel_task_start:
  assumes "kid \<noteq> 0" and "kt_StackFrame task \<noteq> 0" and "fCode (kt_Image task) \<noteq> 0"
    and "run (fCode (kt_Image task)) (kt_StackFrame task) s = Some s'" and "r = R8 (frames_at s' (kt_StackFrame task))"
  shows "rtl_create_kernel_task run s err task kid =
      (if r = 0 then Some Stop
       else if take_bit 32 r = 0 then Some (Ret (s', task\<lparr>kt_Kid := kid\<rparr>, err, True))
       else Some (Ret (s', task\<lparr>kt_Kid := kid\<rparr>, to_int32 r, False)))
    \<and> (0 < r \<and> r < 2 ^ 32 \<longrightarrow> take_bit 32 r \<noteq> 0)"
proof -
  have "take_bit 32 r = r" if "r < 2 ^ 32"
    using that by (simp add: take_bit_eq_mod word_less_nat_alt word_unat_eq_iff unat_mod)
  then show ?thesis using assms
    by (auto simp: rtl_create_kernel_task_def Start_def kt_kernel_task_start_def LeakImage_def Let_def to_int32_0 kErrorSuccess_def)
qed

text \<open>A task whose code sets \<open>R8\<close> to 1.\<close>

definition good_task :: kernel_task where
  "good_task = \<lparr>kt_StackFrame = 64, kt_StackSize = 8192, kt_Image = \<lparr>fCode = 0x1000, fBlob = 0, fBlobSz = 0\<rparr>, kt_Kid = 0\<rparr>"

definition set_r8 :: "unit task_code" where
  "set_r8 code frame s = Some (s\<lparr>frames_at := (frames_at s)(frame := (frames_at s frame)\<lparr>R8 := 1\<rparr>)\<rparr>)"

theorem kernel_task_start_witness:
  "\<exists>s'. rtl_create_kernel_task set_r8 two_cores 0 good_task 5 = Some (Ret (s', good_task\<lparr>kt_Kid := 5\<rparr>, 1, False))"
proof -
  obtain s' where run: "set_r8 0x1000 64 two_cores = Some s'" "R8 (frames_at s' 64) = 1" by (simp add: set_r8_def)
  have "to_int32 1 = 1" by (simp add: to_int32_def)
  then show ?thesis
    using kernel_task_start [of 5 good_task set_r8 two_cores s' 1 0] run by (simp add: good_task_def)
qed

end
