(* ===== verification/DriveMgr.thy ===== *)
theory DriveMgr
  imports KPC
begin

text \<open>
  Drives and mount points: \<^verbatim>\<open>src/DriveMgr.cpp\<close>, \<^verbatim>\<open>KernelKit/DriveMgr.h\<close>, \<^verbatim>\<open>src/IFS.cpp\<close> and the
  data transfer of the PIO driver, \<^verbatim>\<open>HALKit/AMD64/Storage/PIO+Generic.cpp\<close>.

  The device is an array of bytes that the driver addresses by sectors of 512 bytes: a command
  carries a 28-bit sector number, and the words of the data port are read from and stored to
  consecutive bytes from there on.  The record \<open>drive\<close> holds the device, the packet's status
  flags, the partition's bounds and the global error number.  The packet's MIME label is left out.

  The locale \<open>sector_store\<close> states what the file systems rely on: what is written at an
  address is read back, and transfers at other addresses do not interfere.  The locale \<open>packed\<close>
  lifts it to structures with an encoding of fixed size, the form in which file systems use a drive.
\<close>

definition kATASectorSize :: u64 where "kATASectorSize = 512"

record drive =
  disk :: mem
  fPacketGood :: bool
  fPacketReadOnly :: bool
  fLbaStart :: u64
  fLbaEnd :: u64
  fSectorSz :: u64
  fKind_drv :: u32
  kATAIdentifyData :: "nat \<Rightarrow> u16"
  err_global :: int

section \<open>The driver\<close>

definition pio_base :: "u64 \<Rightarrow> u64" where
  "pio_base lba = take_bit 28 (lba div kATASectorSize) * kATASectorSize"

function pio_read_loop :: "mem \<Rightarrow> u64 \<Rightarrow> nat \<Rightarrow> nat \<Rightarrow> u8 list" where
  "pio_read_loop d base sz off =
     (if off < sz then
        d (base + of_nat off) # d (base + of_nat (off + 1)) # pio_read_loop d base sz (off + 2)
      else [])"
  by pat_completeness auto
termination by (relation "measure (\<lambda>(d, base, sz, off). sz - off)") auto

declare pio_read_loop.simps [simp del]

definition drv_pio_std_read :: "mem \<Rightarrow> u64 \<Rightarrow> nat \<Rightarrow> u8 list" where
  "drv_pio_std_read d lba sz = pio_read_loop d (pio_base lba) sz 0"

function pio_write_loop :: "mem \<Rightarrow> u64 \<Rightarrow> u8 list \<Rightarrow> nat \<Rightarrow> mem" where
  "pio_write_loop d base buf off =
     (if off < length buf then
        let low = buf ! off;
            high = (if off + 1 < length buf then buf ! (off + 1) else 0)
        in pio_write_loop (d(base + of_nat off := low, base + of_nat (off + 1) := high)) base buf (off + 2)
      else d)"
  by pat_completeness auto
termination by (relation "measure (\<lambda>(d, base, buf, off). length buf - off)") auto

declare pio_write_loop.simps [simp del]

definition drv_pio_std_write :: "mem \<Rightarrow> u64 \<Rightarrow> u8 list \<Rightarrow> mem" where
  "drv_pio_std_write d lba buf = pio_write_loop d (pio_base lba) buf 0"

text \<open>The sector count is an \<open>int\<close> expression that is converted to an unsigned 64-bit number.\<close>

definition drv_pio_get_sector_count :: "'a drive_scheme \<Rightarrow> u64" where
  "drv_pio_get_sector_count t =
     scast (push_bit 16 (ucast (kATAIdentifyData t 61)) OR ucast (kATAIdentifyData t 60) :: u32)"

definition drv_pio_get_size :: "'a drive_scheme \<Rightarrow> u64" where
  "drv_pio_get_size t = drv_pio_get_sector_count t * kATASectorSize"

section \<open>The drive manager\<close>

text \<open>What \<open>io_drv_input\<close> leaves in the packet's buffer of the given size.\<close>

definition io_drv_input :: "'a drive_scheme \<Rightarrow> u64 \<Rightarrow> nat \<Rightarrow> u8 list" where
  "io_drv_input t lba sz = take sz (drv_pio_std_read (disk t) lba sz)"

definition io_drv_output :: "'a drive_scheme \<Rightarrow> u64 \<Rightarrow> u8 list \<Rightarrow> 'a drive_scheme" where
  "io_drv_output t lba content =
     (if fPacketReadOnly t then t\<lparr>fPacketGood := False\<rparr>
      else if \<not> fPacketReadOnly t \<and> lba = 0 then t\<lparr>fPacketGood := False\<rparr>
      else t\<lparr>disk := drv_pio_std_write (disk t) lba content\<rparr>)"

text \<open>\<open>primary\<close> and \<open>secondary\<close> are the results of initialising the two buses.\<close>

definition io_drv_init :: "bool \<Rightarrow> bool \<Rightarrow> 'a drive_scheme \<Rightarrow> 'a drive_scheme" where
  "io_drv_init primary secondary t =
     (if primary then t\<lparr>fPacketGood := True\<rparr>
      else if \<not> secondary then t\<lparr>fPacketGood := True\<rparr>
      else t\<lparr>fPacketGood := True\<rparr>)"

definition io_drv_unimplemented :: "'a drive_scheme \<Rightarrow> 'a drive_scheme" where
  "io_drv_unimplemented t = t"

text \<open>A field of a packed structure: \<open>n\<close> bytes at an offset.\<close>

definition field :: "u8 list \<Rightarrow> nat \<Rightarrow> nat \<Rightarrow> u8 list" where
  "field bs off n = take n (drop off bs)"

definition kEPMBootBlockLba :: u64 where "kEPMBootBlockLba = 0"
definition kEPMMagic :: "u8 list" where "kEPMMagic = [69, 80, 77, 86, 77]"
definition kMagicGPT :: "u8 list" where "kMagicGPT = [69, 70, 73, 32, 80, 65, 82, 84]"
definition kMassStorageDrive :: u32 where "kMassStorageDrive = 0xDA"
definition kReadOnlyDrive :: u32 where "kReadOnlyDrive = 0x10"
definition kEPMDrive :: u32 where "kEPMDrive = 0x11"
definition kGPTDrive :: u32 where "kGPTDrive = 0x14"
definition kUnformattedDrive :: u32 where "kUnformattedDrive = 0x15"

definition io_detect_drive :: "bool \<Rightarrow> bool \<Rightarrow> 'a drive_scheme \<Rightarrow> 'a drive_scheme" where
  "io_detect_drive primary secondary t =
     (let t = io_drv_init primary secondary t;
          block_struct = io_drv_input t kEPMBootBlockLba 512
      in if field block_struct 0 5 = kEPMMagic then
           t\<lparr>fPacketReadOnly := False, fKind_drv := kMassStorageDrive OR kEPMDrive,
             fSectorSz := le_word (field block_struct 65 8), fLbaEnd := le_word (field block_struct 81 8),
             fLbaStart := le_word (field block_struct 73 8)\<rparr>
         else
           let gpt_struct = io_drv_input t kEPMBootBlockLba 512
           in if field gpt_struct 0 8 = kMagicGPT then
                t\<lparr>fPacketReadOnly := False, fKind_drv := kMassStorageDrive OR kGPTDrive,
                  fSectorSz := le_word (field gpt_struct 84 4), fLbaEnd := le_word (field gpt_struct 48 8),
                  fLbaStart := le_word (field gpt_struct 40 8)\<rparr>
              else
                t\<lparr>fPacketReadOnly := True, fKind_drv := kMassStorageDrive OR kUnformattedDrive OR kReadOnlyDrive,
                  fSectorSz := 0x200, fLbaEnd := drv_pio_get_sector_count t - 1, fLbaStart := 0x400\<rparr>)"

definition io_construct_main_drive :: "bool \<Rightarrow> bool \<Rightarrow> 'a drive_scheme \<Rightarrow> 'a drive_scheme" where
  "io_construct_main_drive primary secondary t = io_detect_drive primary secondary t"

section \<open>Mount points\<close>

record mountpoint =
  mA :: drive
  mB :: drive
  mC :: drive
  mD :: drive

definition kDriveIndexInvalid :: int where "kDriveIndexInvalid = 4"

definition GetAddressOf :: "mountpoint \<Rightarrow> int \<Rightarrow> int + drive" where
  "GetAddressOf m index =
     (if index = 0 then Inr (mA m) else if index = 1 then Inr (mB m) else if index = 2 then Inr (mC m)
      else if index = 3 then Inr (mD m) else Inl kErrorNoSuchDisk)"

text \<open>
  \<open>fs_ifs_read\<close> on the drive that the caller passes, normally the one the index names: the
  status, and the buffer.  An index below zero matches no case.
\<close>

definition fs_ifs_read :: "bool \<Rightarrow> 'a drive_scheme \<Rightarrow> int \<Rightarrow> u64 \<Rightarrow> nat \<Rightarrow> 'a drive_scheme \<times> int \<times> u8 list" where
  "fs_ifs_read mnt t DrvIndex lba sz =
     (if \<not> mnt then (t, kErrorDisk, [])
      else if DrvIndex \<ge> kDriveIndexInvalid then (t, kErrorDisk, [])
      else let t = t\<lparr>fPacketGood := False\<rparr>;
               content = (if 0 \<le> DrvIndex then io_drv_input t lba sz else [])
           in (t, if fPacketGood t then kErrorSuccess else kErrorDisk, content))"

definition fs_ifs_write :: "bool \<Rightarrow> 'a drive_scheme \<Rightarrow> int \<Rightarrow> u64 \<Rightarrow> u8 list \<Rightarrow> 'a drive_scheme \<times> int" where
  "fs_ifs_write mnt t DrvIndex lba content =
     (if \<not> mnt then (t, kErrorDisk)
      else if DrvIndex \<ge> kDriveIndexInvalid then (t, kErrorDisk)
      else let t = t\<lparr>fPacketGood := False\<rparr>;
               t = (if 0 \<le> DrvIndex then io_drv_output t lba content else t)
           in (t, if fPacketGood t then kErrorSuccess else kErrorDisk))"

section \<open>Transfers are reads and writes of consecutive bytes\<close>

lemma pio_read_loop_eq: "pio_read_loop d base sz off = read_bytes d (base + of_nat off) (2 * ((sz - off + 1) div 2))"
proof (induction d base sz off rule: pio_read_loop.induct)
  case (1 d base sz off)
  show ?case
  proof (cases "off < sz")
    case True
    define k where "k = (sz - (off + 2) + 1) div 2"
    have k: "2 * ((sz - off + 1) div 2) = Suc (Suc (2 * k))" using True unfolding k_def by presburger
    show ?thesis unfolding k using 1 [OF True] True
      by (subst pio_read_loop.simps) (simp add: read_bytes_Suc k_def algebra_simps)
  next
    case False
    then show ?thesis by (subst pio_read_loop.simps) simp
  qed
qed

lemma take_read_bytes: "n \<le> k \<Longrightarrow> take n (read_bytes m a k) = read_bytes m a n"
  by (simp add: read_bytes_def take_map)

lemma io_drv_input_eq: "io_drv_input t lba sz = read_bytes (disk t) (pio_base lba) sz"
proof -
  have "sz \<le> 2 * ((sz + 1) div 2)" by presburger
  then show ?thesis by (simp add: io_drv_input_def drv_pio_std_read_def pio_read_loop_eq take_read_bytes)
qed

text \<open>A transfer of odd length stores a zero behind the last byte.\<close>

definition even_pad :: "u8 list \<Rightarrow> u8 list" where
  "even_pad bs = (if even (length bs) then bs else bs @ [0])"

lemma pio_write_loop_eq:
  assumes "length buf < 2 ^ 63" and "even off"
  shows "pio_write_loop d base buf off = write_bytes d (base + of_nat off) (drop off (even_pad buf))"
  using assms
proof (induction d base buf off rule: pio_write_loop.induct)
  case (1 d base buf off)
  show ?case
  proof (cases "off < length buf")
    case True
    define low where "low = buf ! off"
    define high where "high = (if off + 1 < length buf then buf ! (off + 1) else 0)"
    have "length (even_pad buf) > off + 1" and e: "even_pad buf ! off = low" "even_pad buf ! (off + 1) = high"
      using True 1(3) by (auto simp: even_pad_def low_def high_def nth_append)
        (metis Suc_lessI dvd_triv_left even_Suc)+
    then have dr: "drop off (even_pad buf) = low # high # drop (off + 2) (even_pad buf)"
      by (metis Cons_nth_drop_Suc Suc_eq_plus1 Suc_lessD add_2_eq_Suc')
    have "length (even_pad buf) < 2 ^ 64" using 1(2) by (simp add: even_pad_def)
    then have len: "length (drop k (even_pad buf)) < 2 ^ 64" for k by (rule le_less_trans [rotated]) simp
    have len1: "length (high # drop (off + 2) (even_pad buf)) < 2 ^ 64" using len [of off] by (simp add: dr)
    have step: "pio_write_loop d base buf off
        = pio_write_loop (d(base + of_nat off := low, base + of_nat (off + 1) := high)) base buf (off + 2)"
      using True by (subst pio_write_loop.simps) (simp add: low_def high_def Let_def)
    have IH: "pio_write_loop (d(base + of_nat off := low, base + of_nat (off + 1) := high)) base buf (off + 2)
        = write_bytes (d(base + of_nat off := low, base + of_nat (off + 1) := high)) (base + of_nat (off + 2)) (drop (off + 2) (even_pad buf))"
      using 1(1) [OF True low_def high_def] 1(2,3) by (simp add: fun_upd_def)
    have "write_bytes d (base + of_nat off) (low # high # drop (off + 2) (even_pad buf))
      = write_bytes (d(base + of_nat off := low, base + of_nat off + 1 := high)) (base + of_nat off + 1 + 1) (drop (off + 2) (even_pad buf))"
      by (simp only: write_bytes_Cons [OF len1] write_bytes_Cons [OF len])
    then show ?thesis unfolding step IH dr by (simp add: algebra_simps)
  next
    case False
    then have "length (even_pad buf) \<le> off" using 1(3) by (auto simp: even_pad_def Suc_le_eq not_less le_less)
    then show ?thesis using False by (subst pio_write_loop.simps) simp
  qed
qed

lemma drv_pio_std_write_eq: "length buf < 2 ^ 63 \<Longrightarrow> drv_pio_std_write d lba buf = write_bytes d (pio_base lba) (even_pad buf)"
  by (simp add: drv_pio_std_write_def pio_write_loop_eq)

section \<open>The interface the file systems use\<close>

text \<open>
  Objects are stored at addresses of a device.  \<open>apart\<close> says that two transfers do not meet,
  \<open>writable\<close> that a write takes effect.
\<close>

locale sector_store =
  fixes get :: "'d \<Rightarrow> u64 \<Rightarrow> nat \<Rightarrow> u8 list"
    and put :: "'d \<Rightarrow> u64 \<Rightarrow> u8 list \<Rightarrow> 'd"
    and writable :: "'d \<Rightarrow> u64 \<Rightarrow> bool"
    and apart :: "u64 \<Rightarrow> nat \<Rightarrow> u64 \<Rightarrow> nat \<Rightarrow> bool"
  assumes get_length: "length (get d a n) = n"
    and get_put_same: "writable d a \<Longrightarrow> length bs \<le> 0x100000 \<Longrightarrow> get (put d a bs) a (length bs) = bs"
    and get_put_apart: "length bs \<le> 0x100000 \<Longrightarrow> apart a (length bs) b n \<Longrightarrow> get (put d a bs) b n = get d b n"
    and writable_put: "writable (put d a bs) b = writable d b"
begin

text \<open>A sequence of writes.\<close>

primrec put_all :: "'d \<Rightarrow> (u64 \<times> u8 list) list \<Rightarrow> 'd" where
  "put_all d [] = d"
| "put_all d (w # ws) = put_all (put d (fst w) (snd w)) ws"

lemma put_all_writable: "writable (put_all d ws) b = writable d b"
  by (induction ws arbitrary: d) (simp_all add: writable_put)

lemma get_put_all_apart:
  assumes "\<forall>w \<in> set ws. length (snd w) \<le> 0x100000 \<and> apart (fst w) (length (snd w)) b n"
  shows "get (put_all d ws) b n = get d b n"
  using assms by (induction ws arbitrary: d) (simp_all add: get_put_apart)

text \<open>The object at an address is the last one written there.\<close>

lemma get_put_all_last:
  assumes "writable d a" and "length bs \<le> 0x100000"
    and "\<forall>w \<in> set ws'. length (snd w) \<le> 0x100000 \<and> apart (fst w) (length (snd w)) a (length bs)"
  shows "get (put_all d (ws @ (a, bs) # ws')) a (length bs) = bs"
  using assms(1)
proof (induction ws arbitrary: d)
  case Nil
  then show ?case using assms(2,3) by (simp add: get_put_all_apart get_put_same)
next
  case (Cons w ws)
  then show ?case by (simp add: writable_put)
qed

lemma put_put_apart:
  assumes "apart a (length bs) b n" and "length bs \<le> 0x100000" and "writable d b" and "length cs = n" and "n \<le> 0x100000"
    and "apart b n a (length bs)"
  shows "get (put (put d a bs) b cs) b n = cs" and "writable d a \<Longrightarrow> get (put (put d a bs) b cs) a (length bs) = bs"
  using assms get_put_same [of "put d a bs" b cs] get_put_same [of d a bs] get_put_apart [of cs b a "length bs" "put d a bs"]
  by (simp_all add: writable_put)

end

definition drive_writable :: "'a drive_scheme \<Rightarrow> u64 \<Rightarrow> bool" where
  "drive_writable t lba \<longleftrightarrow> \<not> fPacketReadOnly t \<and> lba \<noteq> 0"

text \<open>A write of \<open>n\<close> bytes, its padding included, is apart from a read of \<open>k\<close> bytes.\<close>

definition drive_apart :: "u64 \<Rightarrow> nat \<Rightarrow> u64 \<Rightarrow> nat \<Rightarrow> bool" where
  "drive_apart a n b k \<longleftrightarrow> sep (pio_base a) (n + n mod 2) (pio_base b) k"

lemma disk_io_drv_output:
  "length bs \<le> 0x100000 \<Longrightarrow> disk (io_drv_output t lba bs) =
    (if drive_writable t lba then write_bytes (disk t) (pio_base lba) (even_pad bs) else disk t)"
  by (auto simp: io_drv_output_def drive_writable_def drv_pio_std_write_eq)

lemma read_write_prefix:
  assumes "length bs + k < 2 ^ 64"
  shows "read_bytes (write_bytes m a (bs @ replicate k x)) a (length bs) = bs"
proof -
  have "read_bytes (write_bytes m a (bs @ replicate k x)) a (length bs + k) = bs @ replicate k x"
    by (rule read_write_same) (use assms in simp_all)
  then have "take (length bs) (read_bytes (write_bytes m a (bs @ replicate k x)) a (length bs + k)) = bs" by simp
  then show ?thesis by (simp add: take_read_bytes)
qed

lemma even_pad_replicate: "even_pad bs = bs @ replicate (length bs mod 2) 0"
proof (cases "even (length bs)")
  case True
  then have "length bs mod 2 = 0" by presburger
  then show ?thesis using True by (simp add: even_pad_def)
next
  case False
  then have "length bs mod 2 = 1" by presburger
  then show ?thesis using False by (simp add: even_pad_def)
qed

lemma sep_shrink: "sep a n b k \<Longrightarrow> n' \<le> n \<Longrightarrow> k' \<le> k \<Longrightarrow> sep a n' b k'"
  by (simp add: sep_def)

interpretation hd: sector_store io_drv_input io_drv_output drive_writable drive_apart
proof unfold_locales
  fix d :: "'a drive_scheme" and a b :: u64 and n :: nat and bs :: "u8 list"
  show "length (io_drv_input d a n) = n" by (simp add: io_drv_input_eq)
  show "drive_writable (io_drv_output d a bs) b = drive_writable d b"
    by (simp add: drive_writable_def io_drv_output_def)
  assume len: "length bs \<le> 0x100000"
  show "drive_writable d a \<Longrightarrow> io_drv_input (io_drv_output d a bs) a (length bs) = bs"
    using len by (simp add: io_drv_input_eq disk_io_drv_output even_pad_replicate read_write_prefix)
  assume "drive_apart a (length bs) b n"
  then have "sep (pio_base a) (length (even_pad bs)) (pio_base b) n"
    by (simp add: drive_apart_def even_pad_replicate)
  then show "io_drv_input (io_drv_output d a bs) b n = io_drv_input d b n"
    using len by (simp add: io_drv_input_eq disk_io_drv_output read_write_sep)
qed

section \<open>Packed structures on a drive\<close>

text \<open>A structure with an encoding of fixed size; \<open>ok\<close> are the values that the encoding keeps.\<close>

locale packed =
  fixes enc :: "'s \<Rightarrow> u8 list"
    and dec :: "u8 list \<Rightarrow> 's"
    and ok :: "'s \<Rightarrow> bool"
    and sz :: nat
  assumes enc_length: "ok x \<Longrightarrow> length (enc x) = sz"
    and dec_enc: "ok x \<Longrightarrow> dec (enc x) = x"
    and dec_ok: "length bs = sz \<Longrightarrow> ok (dec bs)"
    and sz_small: "sz \<le> 0x100000"
begin

lemma struct_ok: "ok (dec (io_drv_input t a sz))"
  by (simp add: dec_ok hd.get_length)

lemma struct_same: "drive_writable t a \<Longrightarrow> ok x \<Longrightarrow> dec (io_drv_input (io_drv_output t a (enc x)) a sz) = x"
  using hd.get_put_same [of t a "enc x"] sz_small by (simp add: enc_length dec_enc)

lemma struct_apart:
  "ok x \<Longrightarrow> drive_apart a sz b n \<Longrightarrow> io_drv_input (io_drv_output t a (enc x)) b n = io_drv_input t b n"
  using hd.get_put_apart [of "enc x" a b n t] sz_small by (simp add: enc_length)

end

section \<open>Properties\<close>

text \<open>
  Reading through a mount point always fails.  \<open>fs_ifs_read\<close> clears the packet's good flag,
  and the driver's input function never sets it again, so every call returns \<open>kErrorDisk\<close>,
  for every drive index and whatever the device holds; a write likewise.
\<close>

theorem fs_ifs_always_fails:
  "fst (snd (fs_ifs_read mnt t i lba sz)) = kErrorDisk \<and> snd (fs_ifs_write mnt t i lba content) = kErrorDisk"
  by (auto simp: fs_ifs_read_def fs_ifs_write_def Let_def io_drv_output_def)

text \<open>
  The sectors of a drive are a memory.  After a write of at most a megabyte to a writable
  drive, at an address other than 0, reading as many bytes there gives the bytes written, and
  reading at an address whose transfer is apart from it gives what was there before.
\<close>

theorem drive_read_back:
  assumes "drive_writable t a" and "length bs \<le> 0x100000"
  shows "io_drv_input (io_drv_output t a bs) a (length bs) = bs
    \<and> (\<forall>b n. drive_apart a (length bs) b n \<longrightarrow> io_drv_input (io_drv_output t a bs) b n = io_drv_input t b n)"
  using hd.get_put_same [OF assms] hd.get_put_apart [OF assms(2)] by blast

definition blank_drive :: drive where
  "blank_drive = \<lparr>disk = (\<lambda>_. 0), fPacketGood = True, fPacketReadOnly = False, fLbaStart = 0x400, fLbaEnd = 0x100000,
     fSectorSz = 512, fKind_drv = kMassStorageDrive OR kEPMDrive, kATAIdentifyData = (\<lambda>_. 0), err_global = 0\<rparr>"

theorem drive_read_back_witness: "io_drv_input (io_drv_output blank_drive 0x601 [1, 2, 3]) 0x601 3 = [1, 2, 3]"
proof -
  have "drive_writable blank_drive 0x601" by (simp add: blank_drive_def drive_writable_def)
  from drive_read_back [OF this, of "[1, 2, 3]"] show ?thesis by (simp add: numeral_3_eq_3)
qed

end
