(* ===== verification/HeFSLayout.thy ===== *)
theory HeFSLayout
  imports DriveMgr Crc32
begin

text \<open>
  The structures OpenHeFS keeps on disk, \<^verbatim>\<open>FSKit/OpenHeFS.h\<close>: the boot node, the index node of
  a file and the directory node, as records with their packed little-endian encodings.  The
  suffixes \<open>_b\<close>, \<open>_n\<close> and \<open>_d\<close> tell the fields of the three structures apart.
  \<open>bytes_crc\<close> is the checksum the file system computes over a structure in memory.

  The lemmas show that encoding and decoding are inverse, that the encodings have the sizes of
  the structures (513, 512 and 512 bytes), and how a drive that holds an encoded structure reads.
\<close>

section \<open>Constants\<close>

definition kOpenHeFSVersion :: u32 where "kOpenHeFSVersion = 0x0104"
definition kOpenHeFSMagic :: "u8 list" where "kOpenHeFSMagic = [79, 112, 101, 110, 72, 101, 70, 83]"
definition kOpenHeFSMagicLen :: nat where "kOpenHeFSMagicLen = 9"
definition kOpenHeFSBlockLen :: u64 where "kOpenHeFSBlockLen = 512"
definition kOpenHeFSFileNameLen :: nat where "kOpenHeFSFileNameLen = 256"
definition kOpenHeFSPartNameLen :: nat where "kOpenHeFSPartNameLen = 128"
definition kOpenHeFSSliceCount :: nat where "kOpenHeFSSliceCount = 16"
definition kOpenHeFSInvalidVID :: u16 where "kOpenHeFSInvalidVID = 0xFFFF"
definition kOpenHeFSOpticalDrive :: u8 where "kOpenHeFSOpticalDrive = 0x0C"
definition kOpenHeFSMassStorageDevice :: u8 where "kOpenHeFSMassStorageDevice = 0xCC"
definition kOpenHeFSUnknown :: u8 where "kOpenHeFSUnknown = 0xFF"
definition kOpenHeFSStatusUnlocked :: u16 where "kOpenHeFSStatusUnlocked = 0x18"
definition kOpenHeFSEncodingFlagsUTF8 :: u32 where "kOpenHeFSEncodingFlagsUTF8 = 0x50"
definition kOpenHeFSFlagsReadOnly :: u32 where "kOpenHeFSFlagsReadOnly = 0x100"
definition kOpenHeFSRed :: u8 where "kOpenHeFSRed = 100"
definition kOpenHeFSBlack :: u8 where "kOpenHeFSBlack = 101"
definition kOpenHeFSSearchAllStr :: "u8 list" where "kOpenHeFSSearchAllStr = [42]"

definition kOpenHeFSHardDrive :: u8 where "kOpenHeFSHardDrive = 0xC0"
definition kOpenHeFSSolidStateDrive :: u8 where "kOpenHeFSSolidStateDrive = 0xC1"
definition kOpenHeFSScsiDrive :: u8 where "kOpenHeFSScsiDrive = 0xC4"
definition kOpenHeFSFlashDrive :: u8 where "kOpenHeFSFlashDrive = 0xC6"

section \<open>Times and names\<close>

text \<open>The accessors of a packed time return 32 bits of the shifted value.\<close>

definition hefs_year_get :: "u64 \<Rightarrow> u32" where "hefs_year_get raw_atime = ucast (drop_bit 32 raw_atime)"
definition hefs_month_get :: "u64 \<Rightarrow> u32" where "hefs_month_get raw_atime = ucast (drop_bit 24 raw_atime)"
definition hefs_day_get :: "u64 \<Rightarrow> u32" where "hefs_day_get raw_atime = ucast (drop_bit 16 raw_atime)"
definition hefs_hour_get :: "u64 \<Rightarrow> u32" where "hefs_hour_get raw_atime = ucast (drop_bit 8 raw_atime)"
definition hefs_minute_get :: "u64 \<Rightarrow> u32" where "hefs_minute_get raw_atime = ucast (raw_atime AND 0xFF)"

definition hefs_status_to_string :: "u16 \<Rightarrow> string" where
  "hefs_status_to_string status =
     (if status = 0x18 then ''Unlocked'' else if status = 0x19 then ''Locked''
      else if status = 0x1A then ''Error'' else if status = 0x1B then ''Invalid'' else ''Unknown'')"

definition hefs_drive_kind_to_string :: "u8 \<Rightarrow> string" where
  "hefs_drive_kind_to_string kind =
     (if kind = kOpenHeFSHardDrive then ''Hard Drive'' else if kind = kOpenHeFSSolidStateDrive then ''Solid State Drive''
      else if kind = kOpenHeFSOpticalDrive then ''Optical Drive''
      else if kind = kOpenHeFSMassStorageDevice then ''Mass Storage Device''
      else if kind = kOpenHeFSScsiDrive then ''SCSI/SAS Drive'' else if kind = kOpenHeFSFlashDrive then ''Flash Drive''
      else ''Unknown'')"

definition hefs_encoding_to_string :: "u8 \<Rightarrow> string" where
  "hefs_encoding_to_string encoding =
     (if encoding = 0x50 then ''UTF-8'' else if encoding = 0x51 then ''UTF-16'' else if encoding = 0x52 then ''UTF-32''
      else if encoding = 0x53 then ''UTF-16BE'' else if encoding = 0x54 then ''UTF-16LE''
      else if encoding = 0x55 then ''UTF-32BE'' else if encoding = 0x56 then ''UTF-32LE''
      else if encoding = 0x57 then ''UTF-8BE'' else if encoding = 0x58 then ''UTF-8LE'' else ''Unknown'')"

definition hefs_file_kind_to_string :: "u16 \<Rightarrow> string" where
  "hefs_file_kind_to_string kind =
     (if kind = 0 then ''Regular File'' else if kind = 1 then ''Directory'' else if kind = 2 then ''Block Device''
      else if kind = 3 then ''Character Device'' else if kind = 4 then ''FIFO'' else if kind = 5 then ''Socket''
      else if kind = 6 then ''Symbolic Link'' else ''Unknown'')"

definition hefs_file_flags_to_string :: "u32 \<Rightarrow> string" where
  "hefs_file_flags_to_string flags =
     (if flags = 0 then ''No Flags'' else if flags = kOpenHeFSFlagsReadOnly then ''Read Only''
      else if flags = 0x101 then ''Hidden'' else if flags = 0x102 then ''System'' else if flags = 0x103 then ''Archive''
      else if flags = 0x104 then ''Device'' else ''Unknown'')"

section \<open>The structures\<close>

record boot_node =
  fMagic_b :: "u8 list"
  fVolName_b :: "u8 list"
  fVersion_b :: u32
  fBadSectors_b :: u64
  fSectorCount_b :: u64
  fSectorSize_b :: u64
  fChecksum_b :: u32
  fDiskKind_b :: u8
  fEncoding_b :: u8
  fStartIND_b :: u64
  fEndIND_b :: u64
  fINDCount_b :: u64
  fDiskSize_b :: u64
  fDiskStatus_b :: u16
  fDiskFlags_b :: u16
  fVID_b :: u16
  fStartIN_b :: u64
  fEndIN_b :: u64
  fStartBlock_b :: u64
  fEndBlock_b :: u64
  fJournalLBA_b :: u64
  fPad_b :: "u8 list"

record index_node =
  fHashPath_n :: u64
  fFlags_n :: u32
  fKind_n :: u16
  fSize_n :: u32
  fChecksum_n :: u32
  fSymLink_n :: u8
  fCreated_n :: u64
  fAccessed_n :: u64
  fModified_n :: u64
  fDeleted_n :: u64
  fUID_n :: u32
  fGID_n :: u32
  fMode_n :: u32
  fOffsetSliceLow_n :: u32
  fOffsetSliceHigh_n :: u32
  fPad_n :: "u8 list"

record index_dir =
  fHashPath_d :: u64
  fFlags_d :: u32
  fReserved_d :: u16
  fEntryCount_d :: u32
  fChecksum_d :: u32
  fCreated_d :: u64
  fAccessed_d :: u64
  fModified_d :: u64
  fDeleted_d :: u64
  fUID_d :: u32
  fGID_d :: u32
  fMode_d :: u32
  fINSlices_d :: "u64 list"
  fColor_d :: u8
  fNext_d :: u64
  fPrev_d :: u64
  fChild_d :: u64
  fParent_d :: u64
  fPad_d :: "u8 list"

section \<open>Encodings\<close>

definition enc32 :: "u32 \<Rightarrow> u8 list" where "enc32 x = le_bytes 4 (ucast x)"
definition enc16 :: "u16 \<Rightarrow> u8 list" where "enc16 x = le_bytes 2 (ucast x)"

definition enc8 :: "u8 \<Rightarrow> u8 list" where "enc8 x = [x]"

definition dec64 :: "u8 list \<Rightarrow> nat \<Rightarrow> u64" where "dec64 bs off = le_word (field bs off 8)"
definition dec32 :: "u8 list \<Rightarrow> nat \<Rightarrow> u32" where "dec32 bs off = ucast (le_word (field bs off 4))"
definition dec16 :: "u8 list \<Rightarrow> nat \<Rightarrow> u16" where "dec16 bs off = ucast (le_word (field bs off 2))"
definition dec8 :: "u8 list \<Rightarrow> nat \<Rightarrow> u8" where "dec8 bs off = bs ! off"

definition sizeof_boot :: nat where "sizeof_boot = 513"
definition sizeof_node :: nat where "sizeof_node = 512"
definition sizeof_dir :: nat where "sizeof_dir = 512"

definition encode_boot :: "boot_node \<Rightarrow> u8 list" where
  "encode_boot b = fMagic_b b @ fVolName_b b @ enc32 (fVersion_b b) @ le_bytes 8 (fBadSectors_b b)
     @ le_bytes 8 (fSectorCount_b b) @ le_bytes 8 (fSectorSize_b b) @ enc32 (fChecksum_b b)
     @ enc8 (fDiskKind_b b) @ enc8 (fEncoding_b b) @ le_bytes 8 (fStartIND_b b) @ le_bytes 8 (fEndIND_b b)
     @ le_bytes 8 (fINDCount_b b) @ le_bytes 8 (fDiskSize_b b) @ enc16 (fDiskStatus_b b)
     @ enc16 (fDiskFlags_b b) @ enc16 (fVID_b b) @ le_bytes 8 (fStartIN_b b) @ le_bytes 8 (fEndIN_b b)
     @ le_bytes 8 (fStartBlock_b b) @ le_bytes 8 (fEndBlock_b b) @ le_bytes 8 (fJournalLBA_b b) @ fPad_b b"

definition decode_boot :: "u8 list \<Rightarrow> boot_node" where
  "decode_boot bs = \<lparr>fMagic_b = field bs 0 9, fVolName_b = field bs 9 128, fVersion_b = dec32 bs 137,
     fBadSectors_b = dec64 bs 141, fSectorCount_b = dec64 bs 149, fSectorSize_b = dec64 bs 157,
     fChecksum_b = dec32 bs 165, fDiskKind_b = dec8 bs 169, fEncoding_b = dec8 bs 170,
     fStartIND_b = dec64 bs 171, fEndIND_b = dec64 bs 179, fINDCount_b = dec64 bs 187,
     fDiskSize_b = dec64 bs 195, fDiskStatus_b = dec16 bs 203, fDiskFlags_b = dec16 bs 205,
     fVID_b = dec16 bs 207, fStartIN_b = dec64 bs 209, fEndIN_b = dec64 bs 217,
     fStartBlock_b = dec64 bs 225, fEndBlock_b = dec64 bs 233, fJournalLBA_b = dec64 bs 241,
     fPad_b = field bs 249 264\<rparr>"

definition encode_node :: "index_node \<Rightarrow> u8 list" where
  "encode_node n = le_bytes 8 (fHashPath_n n) @ enc32 (fFlags_n n) @ enc16 (fKind_n n) @ enc32 (fSize_n n)
     @ enc32 (fChecksum_n n) @ enc8 (fSymLink_n n) @ le_bytes 8 (fCreated_n n) @ le_bytes 8 (fAccessed_n n)
     @ le_bytes 8 (fModified_n n) @ le_bytes 8 (fDeleted_n n) @ enc32 (fUID_n n) @ enc32 (fGID_n n)
     @ enc32 (fMode_n n) @ enc32 (fOffsetSliceLow_n n) @ enc32 (fOffsetSliceHigh_n n) @ fPad_n n"

definition decode_node :: "u8 list \<Rightarrow> index_node" where
  "decode_node bs = \<lparr>fHashPath_n = dec64 bs 0, fFlags_n = dec32 bs 8, fKind_n = dec16 bs 12, fSize_n = dec32 bs 14,
     fChecksum_n = dec32 bs 18, fSymLink_n = dec8 bs 22, fCreated_n = dec64 bs 23, fAccessed_n = dec64 bs 31,
     fModified_n = dec64 bs 39, fDeleted_n = dec64 bs 47, fUID_n = dec32 bs 55, fGID_n = dec32 bs 59,
     fMode_n = dec32 bs 63, fOffsetSliceLow_n = dec32 bs 67, fOffsetSliceHigh_n = dec32 bs 71,
     fPad_n = field bs 75 437\<rparr>"

definition encode_dir :: "index_dir \<Rightarrow> u8 list" where
  "encode_dir d = le_bytes 8 (fHashPath_d d) @ enc32 (fFlags_d d) @ enc16 (fReserved_d d) @ enc32 (fEntryCount_d d)
     @ enc32 (fChecksum_d d) @ le_bytes 8 (fCreated_d d) @ le_bytes 8 (fAccessed_d d) @ le_bytes 8 (fModified_d d)
     @ le_bytes 8 (fDeleted_d d) @ enc32 (fUID_d d) @ enc32 (fGID_d d) @ enc32 (fMode_d d)
     @ concat (map (le_bytes 8) (fINSlices_d d)) @ enc8 (fColor_d d) @ le_bytes 8 (fNext_d d) @ le_bytes 8 (fPrev_d d)
     @ le_bytes 8 (fChild_d d) @ le_bytes 8 (fParent_d d) @ fPad_d d"

definition decode_dir :: "u8 list \<Rightarrow> index_dir" where
  "decode_dir bs = \<lparr>fHashPath_d = dec64 bs 0, fFlags_d = dec32 bs 8, fReserved_d = dec16 bs 12, fEntryCount_d = dec32 bs 14,
     fChecksum_d = dec32 bs 18, fCreated_d = dec64 bs 22, fAccessed_d = dec64 bs 30, fModified_d = dec64 bs 38,
     fDeleted_d = dec64 bs 46, fUID_d = dec32 bs 54, fGID_d = dec32 bs 58, fMode_d = dec32 bs 62,
     fINSlices_d = map (\<lambda>i. dec64 (field bs 66 128) (8 * i)) [0..<16], fColor_d = dec8 bs 194,
     fNext_d = dec64 bs 195, fPrev_d = dec64 bs 203, fChild_d = dec64 bs 211, fParent_d = dec64 bs 219,
     fPad_d = field bs 227 285\<rparr>"

text \<open>Structures whose arrays have their declared lengths.\<close>

definition boot_ok :: "boot_node \<Rightarrow> bool" where
  "boot_ok b \<longleftrightarrow> length (fMagic_b b) = 9 \<and> length (fVolName_b b) = 128 \<and> length (fPad_b b) = 264"

definition node_ok :: "index_node \<Rightarrow> bool" where
  "node_ok n \<longleftrightarrow> length (fPad_n n) = 437"

definition dir_ok :: "index_dir \<Rightarrow> bool" where
  "dir_ok d \<longleftrightarrow> length (fINSlices_d d) = 16 \<and> length (fPad_d d) = 285"

text \<open>The checksum of a buffer, wherever it lies in memory.\<close>

definition bytes_crc :: "u8 list \<Rightarrow> u32" where
  "bytes_crc bs = ke_calculate_crc32 (write_bytes (\<lambda>_. 0) 0x1000 bs) 0x1000 (int (length bs))"

section \<open>Round trips\<close>

lemma field_skip: "length a \<le> off \<Longrightarrow> field (a @ b) off n = field b (off - length a) n"
  by (simp add: field_def)

lemma field_here: "length a = n \<Longrightarrow> field (a @ b) 0 n = a"
  by (simp add: field_def)

lemma field_last: "length a = n \<Longrightarrow> field a 0 n = a"
  by (simp add: field_def)

lemma length_enc [simp]: "length (enc32 x) = 4" "length (enc16 y) = 2" "length (enc8 z) = 1"
  by (simp_all add: enc32_def enc16_def enc8_def)

lemma dec64_skip: "length a \<le> off \<Longrightarrow> dec64 (a @ b) off = dec64 b (off - length a)"
  and dec32_skip: "length a \<le> off \<Longrightarrow> dec32 (a @ b) off = dec32 b (off - length a)"
  and dec16_skip: "length a \<le> off \<Longrightarrow> dec16 (a @ b) off = dec16 b (off - length a)"
  and dec8_skip: "length a \<le> off \<Longrightarrow> dec8 (a @ b) off = dec8 b (off - length a)"
  by (simp_all add: dec64_def dec32_def dec16_def dec8_def field_skip nth_append)

lemma dec64_here: "dec64 (le_bytes 8 x @ b) 0 = x" "dec64 (le_bytes 8 x) 0 = x"
  by (simp_all add: dec64_def field_here field_last le_word_le_bytes8)

lemma dec32_here: "dec32 (enc32 x @ b) 0 = x"
proof -
  have "uint x < 2 ^ 32" using unsigned_less [of x, where ?'a = int] by simp
  then show ?thesis
    by (intro word_uint_eqI) (simp add: dec32_def enc32_def field_here le_word_le_bytes unsigned_ucast_eq
        unsigned_take_bit_eq take_bit_int_eq_self_iff)
qed

lemma dec16_here: "dec16 (enc16 x @ b) 0 = x"
proof -
  have "uint x < 2 ^ 16" using unsigned_less [of x, where ?'a = int] by simp
  then show ?thesis
    by (intro word_uint_eqI) (simp add: dec16_def enc16_def field_here le_word_le_bytes unsigned_ucast_eq
        unsigned_take_bit_eq take_bit_int_eq_self_iff)
qed

lemma dec8_here: "dec8 (enc8 x @ b) 0 = x"
  by (simp add: dec8_def enc8_def)

lemma length_concat_le: "length (concat (map (le_bytes 8) xs)) = 8 * length xs"
  by (induction xs) simp_all

lemma dec64_concat: "i < length xs \<Longrightarrow> dec64 (concat (map (le_bytes 8) xs)) (8 * i) = xs ! i"
proof (induction xs arbitrary: i)
  case (Cons x xs)
  then show ?case
  proof (cases i)
    case 0
    then show ?thesis by (simp add: dec64_here)
  next
    case (Suc j)
    then show ?thesis using Cons by (simp add: dec64_skip)
  qed
qed simp

lemmas codec_simps = dec64_skip dec32_skip dec16_skip dec8_skip dec64_here dec32_here dec16_here dec8_here
  field_skip field_here field_last

lemma length_encode_boot: "boot_ok b \<Longrightarrow> length (encode_boot b) = sizeof_boot"
  and length_encode_node: "node_ok n \<Longrightarrow> length (encode_node n) = sizeof_node"
  and length_encode_dir: "dir_ok d \<Longrightarrow> length (encode_dir d) = sizeof_dir"
  by (simp_all add: encode_boot_def encode_node_def encode_dir_def boot_ok_def node_ok_def dir_ok_def
      sizeof_boot_def sizeof_node_def sizeof_dir_def length_concat_le)

lemma decode_encode_boot: "boot_ok b \<Longrightarrow> decode_boot (encode_boot b) = b"
  unfolding encode_boot_def decode_boot_def boot_ok_def by (cases b) (simp add: codec_simps)

lemma decode_encode_node: "node_ok n \<Longrightarrow> decode_node (encode_node n) = n"
  unfolding encode_node_def decode_node_def node_ok_def by (cases n) (simp add: codec_simps)

lemma decode_encode_dir:
  assumes "dir_ok d"
  shows "decode_dir (encode_dir d) = d"
proof -
  have len: "length (concat (map (le_bytes 8) (fINSlices_d d))) = 128" "length (fINSlices_d d) = 16"
    using assms by (simp_all add: dir_ok_def length_concat_le)
  have "map (\<lambda>i. dec64 (concat (map (le_bytes 8) (fINSlices_d d))) (8 * i)) [0..<16] = fINSlices_d d"
    by (rule nth_equalityI) (simp_all add: len dec64_concat)
  then show ?thesis using assms len
    unfolding encode_dir_def decode_dir_def dir_ok_def by (simp add: codec_simps)
qed

lemma decode_ok:
  "length bs = sizeof_boot \<Longrightarrow> boot_ok (decode_boot bs)" "length bs = sizeof_node \<Longrightarrow> node_ok (decode_node bs)"
  "length bs = sizeof_dir \<Longrightarrow> dir_ok (decode_dir bs)"
  by (simp_all add: boot_ok_def node_ok_def dir_ok_def decode_boot_def decode_node_def decode_dir_def field_def
      sizeof_boot_def sizeof_node_def sizeof_dir_def)

lemma bytes_crc_eq: "length bs < 2 ^ 64 \<Longrightarrow> 0 < length bs \<Longrightarrow> bytes_crc bs = crc32 bs"
  unfolding bytes_crc_def ke_calculate_crc32_correct by (simp add: read_write_same)

interpretation boot: packed encode_boot decode_boot boot_ok sizeof_boot
  by unfold_locales (simp_all add: length_encode_boot decode_encode_boot decode_ok, simp add: sizeof_boot_def)

interpretation node: packed encode_node decode_node node_ok sizeof_node
  by unfold_locales (simp_all add: length_encode_node decode_encode_node decode_ok, simp add: sizeof_node_def)

interpretation dir: packed encode_dir decode_dir dir_ok sizeof_dir
  by unfold_locales (simp_all add: length_encode_dir decode_encode_dir decode_ok, simp add: sizeof_dir_def)

section \<open>Checksums of structures\<close>

text \<open>
  A structure's checksum is taken over all its bytes, the old checksum among them.  The sum of the
  structure with the new checksum in place is the new checksum only when it did not change.
\<close>

lemma crc_field_same:
  assumes "length pre + length post < 2 ^ 63"
  shows "bytes_crc (pre @ enc32 c @ post) = bytes_crc (pre @ enc32 c' @ post) \<longleftrightarrow> c = c'"
  using assms by (simp add: bytes_crc_eq enc32_def crc32_field)

lemma boot_checksum_stable:
  assumes "boot_ok b"
  shows "bytes_crc (encode_boot (b\<lparr>fChecksum_b := c\<rparr>)) = bytes_crc (encode_boot b) \<longleftrightarrow> c = fChecksum_b b"
proof -
  obtain pre post where e: "\<And>c. encode_boot (b\<lparr>fChecksum_b := c\<rparr>) = pre @ enc32 c @ post"
    and len: "length pre + length post < 2 ^ 63"
  proof
    show "encode_boot (b\<lparr>fChecksum_b := c\<rparr>) =
      (fMagic_b b @ fVolName_b b @ enc32 (fVersion_b b) @ le_bytes 8 (fBadSectors_b b) @ le_bytes 8 (fSectorCount_b b)
        @ le_bytes 8 (fSectorSize_b b)) @ enc32 c @ (enc8 (fDiskKind_b b) @ enc8 (fEncoding_b b) @ le_bytes 8 (fStartIND_b b)
        @ le_bytes 8 (fEndIND_b b) @ le_bytes 8 (fINDCount_b b) @ le_bytes 8 (fDiskSize_b b) @ enc16 (fDiskStatus_b b)
        @ enc16 (fDiskFlags_b b) @ enc16 (fVID_b b) @ le_bytes 8 (fStartIN_b b) @ le_bytes 8 (fEndIN_b b)
        @ le_bytes 8 (fStartBlock_b b) @ le_bytes 8 (fEndBlock_b b) @ le_bytes 8 (fJournalLBA_b b) @ fPad_b b)" for c
      by (simp add: encode_boot_def)
  qed (use assms in \<open>simp add: boot_ok_def\<close>)
  have "encode_boot b = pre @ enc32 (fChecksum_b b) @ post" using e [of "fChecksum_b b"] by simp
  then show ?thesis by (simp only: e crc_field_same [OF len])
qed

section \<open>Properties\<close>

text \<open>
  C30. The packed structures of OpenHeFS round-trip.  A boot node, an index node and a directory
  node are encoded in 513, 512 and 512 bytes, and decoding gives every field back; every buffer
  of that size decodes to a structure whose arrays have their declared lengths.
\<close>

theorem hefs_structs_roundtrip:
  "(boot_ok b \<longrightarrow> length (encode_boot b) = sizeof_boot \<and> decode_boot (encode_boot b) = b)
    \<and> (node_ok n \<longrightarrow> length (encode_node n) = sizeof_node \<and> decode_node (encode_node n) = n)
    \<and> (dir_ok d \<longrightarrow> length (encode_dir d) = sizeof_dir \<and> decode_dir (encode_dir d) = d)
    \<and> (length bs = sizeof_boot \<longrightarrow> boot_ok (decode_boot bs))
    \<and> (length bs = sizeof_node \<longrightarrow> node_ok (decode_node bs))
    \<and> (length bs = sizeof_dir \<longrightarrow> dir_ok (decode_dir bs))"
  by (simp add: length_encode_boot decode_encode_boot length_encode_node decode_encode_node length_encode_dir
      decode_encode_dir decode_ok)

definition zero_dir :: index_dir where
  "zero_dir = decode_dir (replicate 512 0)"

theorem hefs_structs_roundtrip_witness: "dir_ok zero_dir \<and> decode_dir (encode_dir zero_dir) = zero_dir"
proof -
  have "length (replicate 512 0 :: u8 list) = sizeof_dir" by (simp add: sizeof_dir_def)
  with hefs_structs_roundtrip [where d = zero_dir and bs = "replicate 512 0"] show ?thesis by (simp add: zero_dir_def)
qed

end
