(* ===== verification/OpenHeFS.thy ===== *)
theory OpenHeFS
  imports HeFSLayout
begin

text \<open>
  The OpenHeFS file system, \<^verbatim>\<open>src/FS/OpenHeFS+FileSystemParser.cpp\<close>.  A volume is a boot node,
  a region of directory nodes, a region of index nodes and a region of data blocks on a drive;
  directories and files are found by the hashes of their names.  The operations take the drive
  and, where the code passes it, the boot node in memory, and return them updated; the global
  error number is a field of the drive.  Names are the bytes of the C strings.  The temporary
  buffers the code takes from the heap are values here.

  The scans advance by 512 until they pass the end of a region given by the boot node; for an end
  close to the largest address they can wrap around, so they are partial functions: \<open>None\<close> is a
  scan that does not end.  \<open>Stop\<close> is \<open>ke_stop\<close>.
\<close>

section \<open>Hashes\<close>

definition hefsi_to_big_endian_64 :: "u64 \<Rightarrow> u64" where
  "hefsi_to_big_endian_64 val =
     (drop_bit 56 val AND 0x00000000000000FF) OR (drop_bit 40 val AND 0x000000000000FF00)
     OR (drop_bit 24 val AND 0x0000000000FF0000) OR (drop_bit 8 val AND 0x00000000FF000000)
     OR (push_bit 8 val AND 0x000000FF00000000) OR (push_bit 24 val AND 0x0000FF0000000000)
     OR (push_bit 40 val AND 0x00FF000000000000) OR (push_bit 56 val AND 0xFF00000000000000)"

definition kFnvBaseOffset :: u64 where "kFnvBaseOffset = 0xcbf29ce484222325"
definition kFnvPrimeNumber :: u64 where "kFnvPrimeNumber = 0x100000001b3"

fun hefsi_hash_loop :: "u8 list \<Rightarrow> u64 \<Rightarrow> u64" where
  "hefsi_hash_loop [] hash = hash"
| "hefsi_hash_loop (c # path) hash = hefsi_hash_loop path ((hash XOR ucast c) * kFnvPrimeNumber)"

definition hefsi_hash_64 :: "u8 list \<Rightarrow> u64" where
  "hefsi_hash_64 path = (if path = [] then 0 else hefsi_to_big_endian_64 (hefsi_hash_loop path kFnvBaseOffset))"

section \<open>Structures on the drive\<close>

definition read_dir :: "drive \<Rightarrow> u64 \<Rightarrow> index_dir" where
  "read_dir t lba = decode_dir (io_drv_input t lba sizeof_dir)"

definition write_dir :: "drive \<Rightarrow> u64 \<Rightarrow> index_dir \<Rightarrow> drive" where
  "write_dir t lba d = io_drv_output t lba (encode_dir d)"

definition read_node :: "drive \<Rightarrow> u64 \<Rightarrow> index_node" where
  "read_node t lba = decode_node (io_drv_input t lba sizeof_node)"

definition write_node :: "drive \<Rightarrow> u64 \<Rightarrow> index_node \<Rightarrow> drive" where
  "write_node t lba n = io_drv_output t lba (encode_node n)"

definition read_boot :: "drive \<Rightarrow> boot_node" where
  "read_boot t = decode_boot (io_drv_input t (fLbaStart t) sizeof_boot)"

definition write_boot :: "drive \<Rightarrow> boot_node \<Rightarrow> drive" where
  "write_boot t b = io_drv_output t (fLbaStart t) (encode_boot b)"

definition set_err :: "int \<Rightarrow> drive \<Rightarrow> drive" where
  "set_err e t = t\<lparr>err_global := e\<rparr>"

definition dir_sz :: u64 where "dir_sz = 512"

text \<open>A directory slot that a new directory may take, and checksums over a structure.\<close>

definition dir_free :: "index_dir \<Rightarrow> bool" where
  "dir_free d \<longleftrightarrow> fCreated_d d = 0 \<and> fDeleted_d d \<noteq> 0 \<or> fHashPath_d d = 0"

definition sum_dir :: "index_dir \<Rightarrow> index_dir" where
  "sum_dir d = d\<lparr>fChecksum_d := bytes_crc (encode_dir d)\<rparr>"

definition sum_node :: "index_node \<Rightarrow> index_node" where
  "sum_node n = n\<lparr>fChecksum_n := bytes_crc (encode_node n)\<rparr>"

definition sum_boot :: "boot_node \<Rightarrow> boot_node" where
  "sum_boot b = b\<lparr>fChecksum_b := bytes_crc (encode_boot b)\<rparr>"

section \<open>The tree of directories\<close>

partial_function (option) traverse_loop :: "drive \<Rightarrow> u64 \<Rightarrow> u64 \<Rightarrow> bool \<Rightarrow> u64 option" where
  "traverse_loop t ind_start start check_is_good =
     (let d = read_dir t start
      in if \<not> fPacketGood t then Some start
         else if fNext_d d \<noteq> 0 then
           if check_is_good then Some start else traverse_loop t ind_start (fNext_d d) True
         else if fPrev_d d \<noteq> 0 then
           if check_is_good then Some start else traverse_loop t ind_start (fPrev_d d) True
         else if fParent_d d \<noteq> 0 then
           if check_is_good then Some start else traverse_loop t ind_start (fParent_d d) True
         else if start = 0 then traverse_loop t ind_start ind_start check_is_good
         else Some (start + dir_sz))"

definition hefsi_traverse_tree :: "drive \<Rightarrow> u64 \<Rightarrow> u64 \<Rightarrow> u64 option" where
  "hefsi_traverse_tree t ind_start start =
     (case traverse_loop t ind_start start False of
        None \<Rightarrow> None
      | Some s \<Rightarrow> Some (if s + dir_sz = 0 then ind_start else s + dir_sz))"

definition hefsi_rotate_tree :: "drive \<Rightarrow> u64 \<Rightarrow> drive" where
  "hefsi_rotate_tree t start =
     (if start = 0 then t
      else let cur = read_dir t start in
        if fHashPath_d cur = 0 then t
        else let sibling = read_dir t (fPrev_d cur) in
          if fHashPath_d sibling = 0 then t
          else
            let child_sibling = fChild_d sibling;
                child_cur = fChild_d cur;
                cur = cur\<lparr>fChild_d := child_sibling\<rparr>;
                sibling = sum_dir (sibling\<lparr>fChild_d := child_cur\<rparr>);
                cur = sum_dir cur;
                t = write_dir t (fParent_d cur) sibling;
                t = write_dir t start cur;
                sibling_child = (read_dir t child_sibling)\<lparr>fParent_d := fParent_d cur,
                  fChecksum_d := bytes_crc (encode_dir sibling)\<rparr>;
                t = write_dir t child_sibling sibling_child;
                cur_child = (read_dir t child_cur)\<lparr>fParent_d := start,
                  fChecksum_d := bytes_crc (encode_dir sibling)\<rparr>
            in write_dir t child_cur cur_child)"

text \<open>One round of \<open>hefsi_balance_ind\<close> and its loop.\<close>

definition balance_step :: "boot_node \<Rightarrow> drive \<Rightarrow> u64 \<Rightarrow> drive" where
  "balance_step boot t start =
     (let d = read_dir t start;
          d = (if start = fStartIND_b boot then d\<lparr>fColor_d := kOpenHeFSBlack\<rparr> else d);
          t = (if start = fStartIND_b boot then write_dir t start d else t);
          (t, d) =
            (if fColor_d d = kOpenHeFSBlack \<and> fChild_d d \<noteq> 0 then
               (hefsi_rotate_tree t start, d\<lparr>fColor_d := kOpenHeFSRed\<rparr>)
             else if fColor_d d = kOpenHeFSBlack \<and> fChild_d d = 0 then
               (write_dir t start (d\<lparr>fColor_d := kOpenHeFSBlack\<rparr>), d\<lparr>fColor_d := kOpenHeFSBlack\<rparr>)
             else (t, d))
      in if bytes_crc (encode_dir d) \<noteq> fChecksum_d d then write_dir t start (sum_dir d) else t)"

partial_function (option) balance_loop :: "boot_node \<Rightarrow> drive \<Rightarrow> u64 \<Rightarrow> (drive \<times> bool) option" where
  "balance_loop boot t start =
     (if start = 0 \<or> start > fEndIND_b boot then Some (set_err kErrorSuccess t, True)
      else if \<not> fPacketGood t then Some (set_err kErrorDiskIsCorrupted t, False)
      else balance_loop boot (balance_step boot t start) (start + dir_sz))"

definition hefsi_balance_ind :: "boot_node \<Rightarrow> drive \<Rightarrow> (drive \<times> bool) option" where
  "hefsi_balance_ind boot t = balance_loop boot t (fStartIND_b boot)"

section \<open>Directories\<close>

partial_function (option) child_loop :: "drive \<Rightarrow> boot_node \<Rightarrow> index_dir \<Rightarrow> u64 \<Rightarrow> u64 option" where
  "child_loop t boot tmpdir child =
     (let tmpend = read_dir t child
      in if (fCreated_d tmpend = 0 \<and> fDeleted_d tmpend \<noteq> 0) \<or> fHashPath_d tmpdir = 0 then Some child
         else if child + dir_sz > fEndIND_b boot then Some (child + dir_sz)
         else child_loop t boot tmpdir (child + dir_sz))"

text \<open>The entry that replaces slot \<open>tmpdir\<close>, before its child is chosen.\<close>

definition make_dirent :: "boot_node \<Rightarrow> index_dir \<Rightarrow> u8 list \<Rightarrow> u32 \<Rightarrow> bool \<Rightarrow> index_dir" where
  "make_dirent boot tmpdir dir_name flags delete_or_create =
     \<lparr>fHashPath_d = (if delete_or_create then 0 else hefsi_hash_64 dir_name),
      fFlags_d = ucast (ucast flags :: u16), fReserved_d = 0, fEntryCount_d = 0, fChecksum_d = 0,
      fCreated_d = (if delete_or_create then 0 else 1), fAccessed_d = 0, fModified_d = 0,
      fDeleted_d = (if delete_or_create then 1 else 0), fUID_d = 0, fGID_d = 0, fMode_d = 0,
      fINSlices_d = replicate kOpenHeFSSliceCount 0,
      fColor_d = (if fColor_d tmpdir = 0 then (if fNext_d tmpdir \<noteq> 0 then kOpenHeFSRed else kOpenHeFSBlack)
                  else fColor_d tmpdir),
      fNext_d = fNext_d tmpdir,
      fPrev_d = (if fPrev_d tmpdir = 0 then fStartIND_b boot else fPrev_d tmpdir),
      fChild_d = fChild_d tmpdir,
      fParent_d = (if fParent_d tmpdir = 0 then fStartIND_b boot else fParent_d tmpdir),
      fPad_d = replicate 285 0\<rparr>"

definition pick_child :: "drive \<Rightarrow> boot_node \<Rightarrow> index_dir \<Rightarrow> index_dir \<Rightarrow> index_dir option" where
  "pick_child t boot tmpdir dirent =
     (if fChild_d tmpdir = 0 then
        case child_loop t boot tmpdir (fNext_d dirent + dir_sz) of
          None \<Rightarrow> None
        | Some child \<Rightarrow> Some (dirent\<lparr>fColor_d := kOpenHeFSRed,
            fChild_d := (if child > fEndIND_b boot then fStartIND_b boot else child)\<rparr>)
      else Some dirent)"

text \<open>
  \<open>hefsi_update_ind_status\<close> from the slot \<open>start\<close> on.  The variable \<open>parent_location\<close> of
  the code is 0 throughout, so the part that updates a parent is never reached.
\<close>

partial_function (option) ind_loop ::
  "boot_node \<Rightarrow> drive \<Rightarrow> u8 list \<Rightarrow> u32 \<Rightarrow> bool \<Rightarrow> u64 \<Rightarrow> u64 \<Rightarrow> (drive \<times> boot_node \<times> bool) option" where
  "ind_loop boot t dir_name flags delete_or_create start prev_location =
     (let tmpdir = read_dir t (if start \<noteq> 0 then start else prev_location + dir_sz);
          expr = (if \<not> delete_or_create then dir_free tmpdir
                  else fCreated_d tmpdir \<noteq> 0 \<and> fDeleted_d tmpdir = 0 \<and> hefsi_hash_64 dir_name = fHashPath_d tmpdir)
      in if expr then
           case pick_child t boot tmpdir (make_dirent boot tmpdir dir_name flags delete_or_create) of
             None \<Rightarrow> None
           | Some dirent \<Rightarrow>
               let t = set_err kErrorSuccess (write_dir t start (sum_dir dirent));
                   boot = sum_boot (boot\<lparr>fINDCount_b := (if \<not> delete_or_create then fINDCount_b boot + 1
                                                         else fINDCount_b boot - 1)\<rparr>)
               in Some (write_boot t boot, boot, True)
         else if start + dir_sz > fEndIND_b boot \<or> start + dir_sz = 0 then
           Some (set_err kErrorDisk t, boot, False)
         else ind_loop boot t dir_name flags delete_or_create (start + dir_sz) start)"

definition hefsi_update_ind_status ::
  "bool \<Rightarrow> boot_node \<Rightarrow> drive \<Rightarrow> u8 list \<Rightarrow> u32 \<Rightarrow> bool \<Rightarrow> (drive \<times> boot_node \<times> bool) outcome option" where
  "hefsi_update_ind_status debug boot t dir_name flags delete_or_create =
     (if debug \<and> \<not> fStartIND_b boot > fLbaStart t then Some Stop
      else map_option Ret (ind_loop boot t dir_name flags delete_or_create (fStartIND_b boot) (fStartIND_b boot)))"

section \<open>Files\<close>

fun scan_slices :: "drive \<Rightarrow> u64 \<Rightarrow> u8 \<Rightarrow> u64 list \<Rightarrow> index_node option" where
  "scan_slices t hash kind [] = None"
| "scan_slices t hash kind (lba # rest) =
     (let node = read_node t lba
      in if hash = fHashPath_n node \<and> fKind_n node = ucast kind then Some node
         else scan_slices t hash kind rest)"

partial_function (option) fetch_loop ::
  "boot_node \<Rightarrow> drive \<Rightarrow> u8 list \<Rightarrow> u8 list \<Rightarrow> u8 \<Rightarrow> u64 \<Rightarrow> (drive \<times> index_node option) option" where
  "fetch_loop boot t dir_name file_name kind start =
     (if err_global t = kErrorDiskIsCorrupted then Some (t, None)
      else
        let d = read_dir t start;
            found = (if hefsi_hash_64 dir_name = fHashPath_d d
                     then scan_slices t (hefsi_hash_64 file_name) kind (fINSlices_d d) else None)
        in if fHashPath_d d = 0 then Some (set_err kErrorFileNotFound t, None)
           else
             case found of
               Some node \<Rightarrow> Some (t, Some node)
             | None \<Rightarrow>
                 if start + dir_sz \<ge> fEndIND_b boot then Some (set_err kErrorFileNotFound t, None)
                 else fetch_loop boot t dir_name file_name kind (start + dir_sz))"

definition hefsi_fetch_in ::
  "boot_node \<Rightarrow> drive \<Rightarrow> u8 list \<Rightarrow> u8 list \<Rightarrow> u8 \<Rightarrow> (drive \<times> index_node option) option" where
  "hefsi_fetch_in boot t dir_name file_name kind =
     (if fStartIND_b boot > fEndIND_b boot then Some (t, None)
      else if fStartIN_b boot > fEndIN_b boot then Some (t, None)
      else fetch_loop boot t dir_name file_name kind (fStartIND_b boot))"

text \<open>The slice that a creation takes and the one that a deletion clears.\<close>

fun free_slice :: "u64 list \<Rightarrow> nat \<Rightarrow> nat option" where
  "free_slice [] i = None"
| "free_slice (s # ss) i = (if s = 0 then Some i else free_slice ss (i + 1))"

fun file_slice :: "drive \<Rightarrow> u64 \<Rightarrow> u64 list \<Rightarrow> nat \<Rightarrow> nat option" where
  "file_slice t hash_file [] i = None"
| "file_slice t hash_file (s # ss) i =
     (if s \<noteq> 0 \<and> fHashPath_n (read_node t s) = hash_file then Some i else file_slice t hash_file ss (i + 1))"

definition create_commit ::
  "boot_node \<Rightarrow> drive \<Rightarrow> u64 \<Rightarrow> index_dir \<Rightarrow> nat \<Rightarrow> index_node \<Rightarrow> drive \<times> boot_node" where
  "create_commit boot t start d i node =
     (let d = d\<lparr>fINSlices_d := (fINSlices_d d)[i := fStartIN_b boot], fEntryCount_d := fEntryCount_d d + 1\<rparr>;
          t = write_dir t start (sum_dir d);
          lba = fINSlices_d d ! i;
          node = node\<lparr>fOffsetSliceLow_n := ucast (fStartBlock_b boot),
                      fOffsetSliceHigh_n := ucast (drop_bit 32 (fStartBlock_b boot))\<rparr>;
          t = write_node t lba (sum_node node);
          boot = sum_boot (boot\<lparr>fStartIN_b := fStartIN_b boot + 512, fStartBlock_b := fStartBlock_b boot + kOpenHeFSBlockLen\<rparr>)
      in (write_boot t boot, boot))"

definition delete_commit ::
  "boot_node \<Rightarrow> drive \<Rightarrow> u64 \<Rightarrow> index_dir \<Rightarrow> nat \<Rightarrow> index_node \<Rightarrow> drive \<times> boot_node" where
  "delete_commit boot t start d i node =
     (let lba = fINSlices_d d ! i;
          node = node\<lparr>fOffsetSliceLow_n := 0, fOffsetSliceHigh_n := 0\<rparr>;
          boot = sum_boot boot;
          t = write_boot t boot;
          t = write_node t lba node;
          d = d\<lparr>fINSlices_d := (fINSlices_d d)[i := 0],
                fEntryCount_d := (if fEntryCount_d d \<noteq> 0 then fEntryCount_d d - 1 else fEntryCount_d d)\<rparr>
      in (write_dir t start (sum_dir d), boot))"

partial_function (option) in_loop ::
  "boot_node \<Rightarrow> drive \<Rightarrow> u8 list \<Rightarrow> index_node \<Rightarrow> bool \<Rightarrow> u64 \<Rightarrow> (drive \<times> boot_node \<times> bool) option" where
  "in_loop boot t dir_name node delete_or_create start =
     (let d = read_dir t start;
          slice = (if hefsi_hash_64 dir_name \<noteq> fHashPath_d d then None
                   else if \<not> delete_or_create then free_slice (fINSlices_d d) 0
                   else file_slice t (fHashPath_n node) (fINSlices_d d) 0)
      in case slice of
           Some i \<Rightarrow>
             let (t, boot) = (if \<not> delete_or_create then create_commit boot t start d i node
                              else delete_commit boot t start d i node)
             in Some (t, boot, True)
         | None \<Rightarrow>
             if start + dir_sz > fEndIND_b boot \<or> start + dir_sz = 0 then
               Some (set_err kErrorFileNotFound t, boot, False)
             else in_loop boot t dir_name node delete_or_create (start + dir_sz))"

definition hefsi_update_in_status ::
  "boot_node \<Rightarrow> drive \<Rightarrow> u8 list \<Rightarrow> index_node \<Rightarrow> bool \<Rightarrow> (drive \<times> boot_node \<times> bool) option" where
  "hefsi_update_in_status boot t dir_name node delete_or_create =
     (if fStartIND_b boot > fEndIND_b boot then Some (t, boot, False)
      else if fStartIN_b boot > fEndIN_b boot then Some (t, boot, False)
      else if fStartBlock_b boot > fEndBlock_b boot then Some (t, boot, False)
      else in_loop boot t dir_name node delete_or_create (fStartIND_b boot))"

declare traverse_loop.simps [code] balance_loop.simps [code] child_loop.simps [code] ind_loop.simps [code]
  fetch_loop.simps [code] in_loop.simps [code]

section \<open>The parser's operations\<close>

definition kOpenHeFSINDStartOffset :: u64 where "kOpenHeFSINDStartOffset = 513"

definition kOpenHeFSDefaultVolumeName :: "u8 list" where
  "kOpenHeFSDefaultVolumeName = [79, 112, 101, 110, 72, 101, 70, 83, 32, 86, 111, 108, 117, 109, 101]"

text \<open>
  The test of the boot node's magic and version: \<open>KStringBuilder::Equals\<close> on \<open>fMagic\<close>
  compares up to the first zero byte, wherever in the structure it is.
\<close>

definition magic_ok :: "boot_node \<Rightarrow> bool" where
  "magic_ok b \<longleftrightarrow> takeWhile (\<lambda>c. c \<noteq> 0) (encode_boot b) = kOpenHeFSMagic \<and> fVersion_b b = kOpenHeFSVersion"

definition crc_bad :: "boot_node \<Rightarrow> bool" where
  "crc_bad b \<longleftrightarrow> bytes_crc (encode_boot b) \<noteq> fChecksum_b b \<and> fChecksum_b b > 0"

definition INodeDirectoryCtlManip ::
  "bool \<Rightarrow> drive \<Rightarrow> u32 \<Rightarrow> u8 list \<Rightarrow> bool \<Rightarrow> (drive \<times> bool) outcome option" where
  "INodeDirectoryCtlManip debug mnt flags dir delete_or_create =
     (if length dir > kOpenHeFSFileNameLen then Some (Ret (set_err kErrorDisk mnt, False))
      else let boot = read_boot mnt in
        if \<not> magic_ok boot then Some (Ret (set_err kErrorDisk mnt, True))
        else if dir = kOpenHeFSSearchAllStr then Some (Ret (set_err kErrorInvalidData mnt, False))
        else case hefsi_update_ind_status debug boot mnt dir (ucast (ucast flags :: u16)) delete_or_create of
               None \<Rightarrow> None
             | Some Stop \<Rightarrow> Some Stop
             | Some (Ret (mnt, boot, ok)) \<Rightarrow>
                 if ok then map_option (\<lambda>(mnt, _). Ret (mnt, True)) (hefsi_balance_ind boot mnt)
                 else Some (Ret (mnt, False)))"

definition RemoveINodeDirectory :: "bool \<Rightarrow> drive \<Rightarrow> u32 \<Rightarrow> u8 list \<Rightarrow> (drive \<times> bool) outcome option" where
  "RemoveINodeDirectory debug mnt flags dir = INodeDirectoryCtlManip debug mnt flags dir True"

definition CreateINodeDirectory :: "bool \<Rightarrow> drive \<Rightarrow> u32 \<Rightarrow> u8 list \<Rightarrow> (drive \<times> bool) outcome option" where
  "CreateINodeDirectory debug mnt flags dir = INodeDirectoryCtlManip debug mnt flags dir False"

text \<open>The node \<open>INodeCtlManip\<close> fills in.\<close>

definition make_node :: "u32 \<Rightarrow> u8 list \<Rightarrow> bool \<Rightarrow> u8 \<Rightarrow> index_node" where
  "make_node flags nm delete_or_create kind =
     \<lparr>fHashPath_n = hefsi_hash_64 nm, fFlags_n = flags, fKind_n = ucast kind, fSize_n = 0, fChecksum_n = 0,
      fSymLink_n = 0, fCreated_n = (if delete_or_create then 0 else 1), fAccessed_n = 0, fModified_n = 0,
      fDeleted_n = (if delete_or_create then 1 else 0), fUID_n = 0, fGID_n = 0, fMode_n = 0,
      fOffsetSliceLow_n = 0, fOffsetSliceHigh_n = 0, fPad_n = replicate 437 0\<rparr>"

definition INodeCtlManip ::
  "drive \<Rightarrow> u32 \<Rightarrow> u8 list \<Rightarrow> u8 list \<Rightarrow> bool \<Rightarrow> u8 \<Rightarrow> (drive \<times> bool) option" where
  "INodeCtlManip mnt flags dir nm delete_or_create kind =
     (if length nm > kOpenHeFSFileNameLen then Some (set_err kErrorDisk mnt, False)
      else if length dir > kOpenHeFSFileNameLen then Some (set_err kErrorDisk mnt, False)
      else let boot = read_boot mnt in
        if \<not> magic_ok boot then Some (set_err kErrorDisk mnt, True)
        else if dir = kOpenHeFSSearchAllStr then Some (set_err kErrorInvalidData mnt, False)
        else if 47 \<in> set nm then Some (set_err kErrorInvalidData mnt, False)
        else case hefsi_update_in_status boot mnt dir (make_node flags nm delete_or_create kind) delete_or_create of
               None \<Rightarrow> None
             | Some (mnt, boot, ok) \<Rightarrow>
                 if ok then map_option (\<lambda>(mnt, _). (set_err kErrorSuccess mnt, True)) (hefsi_balance_ind boot mnt)
                 else Some (set_err kErrorDirectoryNotFound mnt, False))"

definition DeleteINode :: "drive \<Rightarrow> u32 \<Rightarrow> u8 list \<Rightarrow> u8 list \<Rightarrow> u8 \<Rightarrow> (drive \<times> bool) option" where
  "DeleteINode mnt flags dir nm kind = INodeCtlManip mnt flags dir nm True kind"

definition CreateINode :: "drive \<Rightarrow> u32 \<Rightarrow> u8 list \<Rightarrow> u8 list \<Rightarrow> u8 \<Rightarrow> (drive \<times> bool) option" where
  "CreateINode mnt flags dir nm kind = INodeCtlManip mnt flags dir nm False kind"

text \<open>
  \<open>block\<close> is the caller's buffer of \<open>block_sz\<close> bytes: what is written, and what is
  returned updated when \<open>is_input\<close> holds.
\<close>

definition node_lba :: "index_node \<Rightarrow> u64" where
  "node_lba n = push_bit 32 (ucast (fOffsetSliceHigh_n n)) OR ucast (fOffsetSliceLow_n n)"

definition INodeManip ::
  "drive \<Rightarrow> u8 list \<Rightarrow> u8 list \<Rightarrow> u8 list \<Rightarrow> u8 \<Rightarrow> bool \<Rightarrow> (drive \<times> u8 list \<times> bool) option" where
  "INodeManip mnt block dir nm kind is_input =
     (if length dir > kOpenHeFSFileNameLen then Some (set_err kErrorDisk mnt, block, False)
      else if length nm > kOpenHeFSFileNameLen then Some (set_err kErrorDisk mnt, block, False)
      else let boot = read_boot mnt in
        if \<not> magic_ok boot then Some (set_err kErrorDisk mnt, block, False)
        else case hefsi_fetch_in boot mnt dir nm kind of
               None \<Rightarrow> None
             | Some (mnt, None) \<Rightarrow> Some (set_err kErrorFileNotFound mnt, block, False)
             | Some (mnt, Some start) \<Rightarrow>
                 if fOffsetSliceLow_n start \<noteq> 0 \<and> fHashPath_n start \<noteq> 0 then
                   if is_input then Some (mnt, io_drv_input mnt (node_lba start) (length block), True)
                   else if fFlags_n start AND kOpenHeFSFlagsReadOnly \<noteq> 0 then Some (mnt, block, False)
                   else Some (io_drv_output mnt (node_lba start) block, block, True)
                 else Some (mnt, block, True))"

definition INodeExists :: "drive \<Rightarrow> u8 list \<Rightarrow> u8 list \<Rightarrow> u8 \<Rightarrow> (drive \<times> bool) option" where
  "INodeExists mnt dir nm kind =
     (if length dir > kOpenHeFSFileNameLen then Some (mnt, False)
      else if length nm > kOpenHeFSFileNameLen then Some (mnt, False)
      else let boot = read_boot mnt in
        if \<not> magic_ok boot then Some (set_err kErrorDisk mnt, False)
        else case hefsi_fetch_in boot mnt dir nm kind of
               None \<Rightarrow> None
             | Some (mnt, None) \<Rightarrow> Some (set_err kErrorFileNotFound mnt, False)
             | Some (mnt, Some node) \<Rightarrow> Some (set_err kErrorSuccess mnt, True))"

section \<open>Formatting\<close>

text \<open>
  A sector size of zero stops a debug kernel at \<open>MUST_PASS\<close> and makes the division fault otherwise.
  The volume name is copied with its terminator over the bytes of the boot node, from the field
  \<open>fVolName\<close> on and past its end when the name is longer than the field.
\<close>

definition copy_volname :: "u8 list \<Rightarrow> boot_node \<Rightarrow> boot_node" where
  "copy_volname vol_name b =
     (let bs = encode_boot b
      in decode_boot (take 513 (take 9 bs @ (vol_name @ [0]) @ drop (10 + length vol_name) bs)))"

definition copy_magic :: "boot_node \<Rightarrow> boot_node" where
  "copy_magic b = b\<lparr>fMagic_b := kOpenHeFSMagic @ drop 8 (fMagic_b b)\<rparr>"

definition format_boot :: "drive \<Rightarrow> u16 \<Rightarrow> boot_node \<Rightarrow> boot_node" where
  "format_boot mnt flags boot =
     (let disk_size = drv_pio_get_size mnt;
          max_lba = disk_size div fSectorSz mnt;
          dir_max = max_lba div 300;
          inode_max = max_lba div 400;
          start_ind = fLbaStart mnt + kOpenHeFSINDStartOffset;
          end_ind = start_ind + dir_max;
          end_in = end_ind + inode_max
      in sum_boot (boot\<lparr>fBadSectors_b := 0, fSectorCount_b := drv_pio_get_sector_count mnt, fSectorSize_b := fSectorSz mnt,
           fStartIND_b := start_ind, fEndIND_b := end_ind, fStartIN_b := end_ind, fEndIN_b := end_in,
           fStartBlock_b := end_in, fEndBlock_b := disk_size, fINDCount_b := 0, fDiskSize_b := disk_size,
           fDiskStatus_b := kOpenHeFSStatusUnlocked, fDiskFlags_b := flags,
           fDiskKind_b := (if fKind_drv mnt AND kMassStorageDrive \<noteq> 0 then kOpenHeFSMassStorageDevice
                           else if fKind_drv mnt AND ucast kOpenHeFSOpticalDrive \<noteq> 0 then kOpenHeFSOpticalDrive
                           else kOpenHeFSUnknown),
           fVersion_b := kOpenHeFSVersion, fVID_b := kOpenHeFSInvalidVID\<rparr>))"

definition kFileMap :: "u8 list list" where
  "kFileMap = [[47], [47, 98, 111, 111, 116], [47, 115, 121, 115, 116, 101, 109], [47, 110, 101, 116, 119, 111, 114, 107],
     [47, 100, 101, 118, 105, 99, 101, 115], [47, 109, 101, 100, 105, 97], [47, 100, 101, 118]]"

fun make_dirs :: "bool \<Rightarrow> u8 list list \<Rightarrow> drive \<Rightarrow> drive outcome option" where
  "make_dirs debug [] mnt = Some (Ret mnt)"
| "make_dirs debug (nm # names) mnt =
     (case CreateINodeDirectory debug mnt kOpenHeFSEncodingFlagsUTF8 nm of
        None \<Rightarrow> None
      | Some Stop \<Rightarrow> Some Stop
      | Some (Ret (mnt, _)) \<Rightarrow> make_dirs debug names mnt)"

definition hefs_Format :: "bool \<Rightarrow> drive \<Rightarrow> u32 \<Rightarrow> u8 list \<Rightarrow> (drive \<times> bool) outcome option" where
  "hefs_Format debug mnt flags vol_name =
     (let mnt = io_drv_unimplemented mnt in
      if \<not> fPacketGood mnt then Some (Ret (set_err kErrorDiskIsCorrupted mnt, False))
      else let boot = read_boot mnt in
        if magic_ok boot then
          if crc_bad boot then Some (Ret (set_err kErrorDiskIsCorrupted mnt, False))
          else Some (Ret (set_err kErrorSuccess mnt, True))
        else if crc_bad boot then Some (Ret (set_err kErrorDiskIsCorrupted mnt, False))
        else let boot = copy_magic (copy_volname vol_name boot) in
          if fLbaStart mnt > fLbaEnd mnt then Some (Ret (set_err kErrorDiskIsCorrupted mnt, False))
          else if fSectorSz mnt = 0 then Some Stop
          else let mnt = write_boot mnt (format_boot mnt (ucast flags) boot) in
            if \<not> fPacketGood mnt then Some (Ret (set_err kErrorDiskIsCorrupted mnt, False))
            else case make_dirs debug kFileMap mnt of
                   None \<Rightarrow> None
                 | Some Stop \<Rightarrow> Some Stop
                 | Some (Ret mnt) \<Rightarrow> Some (Ret (set_err kErrorSuccess mnt, True)))"

definition fs_init_openhefs :: "bool \<Rightarrow> bool \<Rightarrow> bool \<Rightarrow> drive \<Rightarrow> (drive \<times> bool) outcome option" where
  "fs_init_openhefs debug primary secondary mnt =
     (let mnt = io_construct_main_drive primary secondary mnt in
      if fPacketReadOnly mnt then Some (Ret (mnt, True))
      else hefs_Format debug mnt kOpenHeFSEncodingFlagsUTF8 kOpenHeFSDefaultVolumeName)"

end
