(* ===== verification/HeFSVolume.thy ===== *)
theory HeFSVolume
  imports OpenHeFS
begin

text \<open>
  What OpenHeFS does to a volume: the lemmas and properties of \<open>OpenHeFS\<close>.  The slots of the
  directory region are numbered (\<open>slot\<close>), \<open>dir_slot\<close> says which slot holds a directory, and
  \<open>dir_map\<close> is the abstract content of a directory: a map from the hash and the kind of a file to
  its index node.  Creating a file is an update of this map and fetching a file a lookup in it.
  The scans of the region are shown to end.
\<close>

section \<open>Structures on a drive\<close>

lemma set_err_drive [simp]:
  "io_drv_input (set_err e t) a n = io_drv_input t a n" "drive_writable (set_err e t) a = drive_writable t a"
  "fLbaStart (set_err e t) = fLbaStart t" "fPacketGood (set_err e t) = fPacketGood t" "disk (set_err e t) = disk t"
  by (simp_all add: set_err_def io_drv_input_def drive_writable_def)

lemma io_drv_output_fields [simp]:
  "fLbaStart (io_drv_output t a bs) = fLbaStart t" "err_global (io_drv_output t a bs) = err_global t"
  by (simp_all add: io_drv_output_def)

lemma write_fields [simp]:
  "fLbaStart (write_dir t a d) = fLbaStart t" "err_global (write_dir t a d) = err_global t"
  "fLbaStart (write_node t a n) = fLbaStart t" "err_global (write_node t a n) = err_global t"
  "fLbaStart (write_boot t b) = fLbaStart t" "err_global (write_boot t b) = err_global t"
  by (simp_all add: write_dir_def write_node_def write_boot_def)

lemma write_writable [simp]:
  "drive_writable (write_dir t a d) x = drive_writable t x" "drive_writable (write_node t a n) x = drive_writable t x"
  "drive_writable (write_boot t b) x = drive_writable t x"
  by (simp_all add: write_dir_def write_node_def write_boot_def hd.writable_put)

lemma sum_ok [simp]: "dir_ok (sum_dir d) = dir_ok d" "node_ok (sum_node n) = node_ok n" "boot_ok (sum_boot b) = boot_ok b"
  by (simp_all add: sum_dir_def sum_node_def sum_boot_def dir_ok_def node_ok_def boot_ok_def)

lemma read_ok [simp]: "dir_ok (read_dir t a)" "node_ok (read_node t a)" "boot_ok (read_boot t)"
  by (simp_all add: read_dir_def read_node_def read_boot_def dir.struct_ok node.struct_ok boot.struct_ok)

lemma read_dir_same: "drive_writable t a \<Longrightarrow> dir_ok d \<Longrightarrow> read_dir (write_dir t a d) a = d"
  and read_node_same: "drive_writable t a \<Longrightarrow> node_ok n \<Longrightarrow> read_node (write_node t a n) a = n"
  and read_boot_same: "drive_writable t (fLbaStart t) \<Longrightarrow> boot_ok b \<Longrightarrow> read_boot (write_boot t b) = b"
  by (simp_all add: read_dir_def write_dir_def read_node_def write_node_def read_boot_def write_boot_def
      dir.struct_same node.struct_same boot.struct_same)

lemma write_dir_apart: "dir_ok d \<Longrightarrow> drive_apart a 512 x n \<Longrightarrow> io_drv_input (write_dir t a d) x n = io_drv_input t x n"
  and write_node_apart: "node_ok nd \<Longrightarrow> drive_apart a 512 x n \<Longrightarrow> io_drv_input (write_node t a nd) x n = io_drv_input t x n"
  and write_boot_apart: "boot_ok b \<Longrightarrow> drive_apart (fLbaStart t) 513 x n \<Longrightarrow> io_drv_input (write_boot t b) x n = io_drv_input t x n"
  by (simp_all add: write_dir_def write_node_def write_boot_def dir.struct_apart node.struct_apart
      boot.struct_apart sizeof_dir_def sizeof_node_def sizeof_boot_def)

text \<open>Drives that agree on a transfer read the same structure.\<close>

lemma read_cong:
  "io_drv_input t a 512 = io_drv_input t' a 512 \<Longrightarrow> read_dir t a = read_dir t' a"
  "io_drv_input t a 512 = io_drv_input t' a 512 \<Longrightarrow> read_node t a = read_node t' a"
  by (simp_all add: read_dir_def read_node_def sizeof_dir_def sizeof_node_def)

section \<open>Hashes are byte-swapped FNV-1a\<close>

definition fnv1a :: "u8 list \<Rightarrow> u64" where
  "fnv1a bs = foldl (\<lambda>h c. (h XOR ucast c) * kFnvPrimeNumber) kFnvBaseOffset bs"

lemma hash_loop_foldl: "hefsi_hash_loop bs h = foldl (\<lambda>h c. (h XOR ucast c) * kFnvPrimeNumber) h bs"
  by (induction bs arbitrary: h) simp_all

lemma le_bytes_8: "le_bytes 8 v = map (\<lambda>i. ucast (drop_bit (8 * i) v)) [0..<8]"
  by (simp add: le_bytes_def)

lemma big_endian_byte:
  assumes "i < 8"
  shows "(ucast (drop_bit (8 * i) (hefsi_to_big_endian_64 v)) :: u8) = ucast (drop_bit (8 * (7 - i)) v)"
proof (rule bit_word_eqI)
  fix n
  assume "n < LENGTH(8)"
  then have n: "n = 0 \<or> n = 1 \<or> n = 2 \<or> n = 3 \<or> n = 4 \<or> n = 5 \<or> n = 6 \<or> n = 7" by (simp, presburger)
  have i: "i = 0 \<or> i = 1 \<or> i = 2 \<or> i = 3 \<or> i = 4 \<or> i = 5 \<or> i = 6 \<or> i = 7" using assms by presburger
  show "bit (ucast (drop_bit (8 * i) (hefsi_to_big_endian_64 v)) :: u8) n = bit (ucast (drop_bit (8 * (7 - i)) v) :: u8) n"
    using n i by (elim disjE) (simp_all add: hefsi_to_big_endian_64_def bit_simps)
qed

lemma big_endian_bytes: "le_bytes 8 (hefsi_to_big_endian_64 v) = rev (le_bytes 8 v)"
proof (rule nth_equalityI)
  fix i
  assume "i < length (le_bytes 8 (hefsi_to_big_endian_64 v))"
  then have "i < 8" by simp
  then show "le_bytes 8 (hefsi_to_big_endian_64 v) ! i = rev (le_bytes 8 v) ! i"
  proof -
    have "[0..<8] ! (7 - i) = 7 - i" using \<open>i < 8\<close> nth_upt [of 0 "7 - i" 8] by linarith
    then show ?thesis using \<open>i < 8\<close> by (simp add: le_bytes_8 rev_nth big_endian_byte)
  qed
qed simp

section \<open>The slots of the directory region\<close>

definition slot :: "boot_node \<Rightarrow> nat \<Rightarrow> u64" where
  "slot b k = fStartIND_b b + dir_sz * of_nat k"

text \<open>Slot \<open>n\<close> is in the region, and holds the first directory with the name's hash.\<close>

definition dir_slot :: "drive \<Rightarrow> boot_node \<Rightarrow> u8 list \<Rightarrow> nat \<Rightarrow> bool" where
  "dir_slot t b nm n \<longleftrightarrow> unat (fStartIND_b b) + 512 * n < unat (fEndIND_b b)
     \<and> fHashPath_d (read_dir t (slot b n)) = hefsi_hash_64 nm \<and> hefsi_hash_64 nm \<noteq> 0
     \<and> list_all (\<lambda>k. fHashPath_d (read_dir t (slot b k)) \<notin> {0, hefsi_hash_64 nm}) [0..<n]"

lemma slot_0 [simp]: "slot b 0 = fStartIND_b b"
  by (simp add: slot_def)

lemma slot_Suc: "slot b k + dir_sz = slot b (Suc k)"
  by (simp add: slot_def algebra_simps)

lemma unat_slot:
  assumes "unat (fStartIND_b b) + 512 * k < 2 ^ 64"
  shows "unat (slot b k) = unat (fStartIND_b b) + 512 * k"
proof -
  have "unat (dir_sz * of_nat k) = 512 * k"
    using assms by (simp add: dir_sz_def unat_word_ariths)
  then show ?thesis using assms unfolding slot_def by (simp add: unat_word_ariths)
qed

lemma slot_inside:
  assumes "unat (fStartIND_b b) + 512 * k \<le> unat (fEndIND_b b)"
  shows "slot b k \<le> fEndIND_b b"
proof -
  have "unat (fEndIND_b b) < 2 ^ 64" using unsigned_less [of "fEndIND_b b"] by simp
  then show ?thesis using assms unat_slot [of b k] by (simp add: word_le_nat_alt)
qed

lemma slot_next:
  assumes "unat (fStartIND_b b) + 512 * Suc k \<le> unat (fEndIND_b b)"
  shows "\<not> fEndIND_b b < slot b (Suc k)" "slot b (Suc k) \<noteq> 0"
proof -
  show "\<not> fEndIND_b b < slot b (Suc k)" using slot_inside [OF assms] by simp
  have "unat (fEndIND_b b) < 2 ^ 64" using unsigned_less [of "fEndIND_b b"] by simp
  then have "unat (slot b (Suc k)) = unat (fStartIND_b b) + 512 * Suc k" using assms by (intro unat_slot) simp
  then show "slot b (Suc k) \<noteq> 0" by auto
qed

text \<open>A file update reaches the directory's slot, whatever the slots before it hold.\<close>

definition in_slice :: "drive \<Rightarrow> index_node \<Rightarrow> bool \<Rightarrow> index_dir \<Rightarrow> nat option" where
  "in_slice t nd del d = (if \<not> del then free_slice (fINSlices_d d) 0 else file_slice t (fHashPath_n nd) (fINSlices_d d) 0)"

lemma in_loop_at:
  assumes slot: "dir_slot t b nm n" and slice: "in_slice t nd del (read_dir t (slot b n)) = Some i" and "j \<le> n"
  shows "in_loop b t nm nd del (slot b j)
    = (let (t', b') = (if \<not> del then create_commit b t (slot b n) (read_dir t (slot b n)) i nd
                       else delete_commit b t (slot b n) (read_dir t (slot b n)) i nd) in Some (t', b', True))"
  using \<open>j \<le> n\<close>
proof (induction rule: inc_induct)
  case base
  show ?case using slot slice unfolding dir_slot_def in_slice_def
    by (subst in_loop.simps) (auto simp: Let_def split: prod.splits)
next
  case (step j)
  have "hefsi_hash_64 nm \<noteq> fHashPath_d (read_dir t (slot b j))"
    using slot step(2) by (auto simp: dir_slot_def list_all_iff)
  moreover have "unat (fStartIND_b b) + 512 * Suc j \<le> unat (fEndIND_b b)" using slot step(2) by (simp add: dir_slot_def)
  ultimately show ?case using slot_next [of b j] step.IH
    by (subst in_loop.simps) (simp add: slot_Suc Let_def)
qed

lemma fetch_loop_at:
  assumes slot: "dir_slot t b nm n" and err: "err_global t \<noteq> kErrorDiskIsCorrupted"
    and scan: "scan_slices t (hefsi_hash_64 f) kind (fINSlices_d (read_dir t (slot b n))) = Some nd" and "j \<le> n"
  shows "fetch_loop b t nm f kind (slot b j) = Some (t, Some nd)"
  using \<open>j \<le> n\<close>
proof (induction rule: inc_induct)
  case base
  show ?case using slot scan err unfolding dir_slot_def
    by (subst fetch_loop.simps) (simp add: Let_def)
next
  case (step j)
  have "fHashPath_d (read_dir t (slot b j)) \<notin> {0, hefsi_hash_64 nm}"
    using slot step(2) by (auto simp: dir_slot_def list_all_iff)
  moreover have "\<not> slot b (Suc j) \<ge> fEndIND_b b"
  proof -
    have "unat (fStartIND_b b) + 512 * Suc j < unat (fEndIND_b b)" using slot step(2) by (simp add: dir_slot_def)
    moreover have "unat (fEndIND_b b) < 2 ^ 64" using unsigned_less [of "fEndIND_b b"] by simp
    ultimately show ?thesis using unat_slot [of b "Suc j"] by (simp add: word_le_nat_alt)
  qed
  ultimately show ?case using step.IH err
    by (subst fetch_loop.simps) (auto simp: slot_Suc Let_def)
qed

lemma in_loop_missing:
  assumes miss: "\<And>k. unat (fStartIND_b b) + 512 * k \<le> unat (fEndIND_b b) \<Longrightarrow>
      fHashPath_d (read_dir t (slot b k)) \<noteq> hefsi_hash_64 nm"
    and "unat (fEndIND_b b) + 512 < 2 ^ 64" and "unat (fStartIND_b b) + 512 * j \<le> unat (fEndIND_b b)"
  shows "in_loop b t nm nd del (slot b j) = Some (set_err kErrorFileNotFound t, b, False)"
  using assms(3)
proof (induction "unat (fEndIND_b b) - 512 * j" arbitrary: j rule: less_induct)
  case less
  have ne: "hefsi_hash_64 nm \<noteq> fHashPath_d (read_dir t (slot b j))" using miss [OF less.prems] by simp
  show ?case
  proof (cases "unat (fStartIND_b b) + 512 * Suc j \<le> unat (fEndIND_b b)")
    case True
    then show ?thesis using ne slot_next [OF True] less.hyps [of "Suc j"]
      by (subst in_loop.simps) (simp add: slot_Suc Let_def)
  next
    case False
    then have "unat (slot b (Suc j)) = unat (fStartIND_b b) + 512 * Suc j"
      using less.prems assms(2) by (intro unat_slot) simp
    then have "slot b (Suc j) > fEndIND_b b" using False by (simp add: word_less_nat_alt)
    then show ?thesis using ne by (subst in_loop.simps) (simp add: slot_Suc Let_def)
  qed
qed

section \<open>The checksum of the boot node\<close>

lemma crc_bad_sum:
  assumes "boot_ok b"
  shows "crc_bad (sum_boot b) \<longleftrightarrow> fChecksum_b (sum_boot b) \<notin> {0, fChecksum_b b}"
  using boot_checksum_stable [OF assms, of "bytes_crc (encode_boot b)"]
  by (auto simp: crc_bad_def sum_boot_def word_gt_0)

text \<open>
  A volume that OpenHeFS wrote is not accepted when it is mounted again.  The checksum of the
  boot node is computed over the node with the old checksum in it, and compared with the sum over
  the node with the new one in it.  A CRC tells these apart, so \<open>Format\<close> finds the volume
  corrupted, returns \<open>NO\<close> and leaves the drive as it is, unless the new checksum is zero
  or equals the old one.
\<close>

theorem hefs_format_rejects_own_volume:
  assumes "boot_ok b" and "read_boot t = sum_boot b" and "magic_ok (sum_boot b)" and "fPacketGood t"
  shows "hefs_Format debug t flags vol_name = Some (Ret
    (if fChecksum_b (sum_boot b) \<in> {0, fChecksum_b b} then (set_err kErrorSuccess t, True)
     else (set_err kErrorDiskIsCorrupted t, False)))"
  using assms crc_bad_sum [OF assms(1)] by (simp add: hefs_Format_def io_drv_unimplemented_def Let_def)

definition sample_boot :: boot_node where
  "sample_boot = \<lparr>fMagic_b = kOpenHeFSMagic @ [0], fVolName_b = replicate 128 0, fVersion_b = kOpenHeFSVersion,
     fBadSectors_b = 0, fSectorCount_b = 0, fSectorSize_b = 512, fChecksum_b = 0, fDiskKind_b = 0xCC, fEncoding_b = 0,
     fStartIND_b = 0x601, fEndIND_b = 0x900, fINDCount_b = 0, fDiskSize_b = 0x100000, fDiskStatus_b = kOpenHeFSStatusUnlocked,
     fDiskFlags_b = 0x50, fVID_b = kOpenHeFSInvalidVID, fStartIN_b = 0x1000, fEndIN_b = 0x2000, fStartBlock_b = 0x2000,
     fEndBlock_b = 0x100000, fJournalLBA_b = 0, fPad_b = replicate 264 0\<rparr>"

lemma sample_boot_ok [simp]: "boot_ok sample_boot"
  by (simp add: boot_ok_def sample_boot_def kOpenHeFSMagic_def)

lemma magic_ok_prefix:
  "fMagic_b b = kOpenHeFSMagic @ [0] \<Longrightarrow> fVersion_b b = kOpenHeFSVersion \<Longrightarrow> magic_ok b"
  by (simp add: magic_ok_def encode_boot_def kOpenHeFSMagic_def)

lemma blank_writable: "drive_writable blank_drive a \<longleftrightarrow> a \<noteq> 0" "fLbaStart blank_drive = 0x400"
  by (simp_all add: blank_drive_def drive_writable_def)

theorem hefs_format_rejects_own_volume_witness:
  "hefs_Format True (write_boot blank_drive (sum_boot sample_boot)) 0x50 [65]
    = Some (Ret (if fChecksum_b (sum_boot sample_boot) \<in> {0, fChecksum_b sample_boot}
        then (set_err kErrorSuccess (write_boot blank_drive (sum_boot sample_boot)), True)
        else (set_err kErrorDiskIsCorrupted (write_boot blank_drive (sum_boot sample_boot)), False)))"
proof (rule hefs_format_rejects_own_volume [OF sample_boot_ok])
  show "read_boot (write_boot blank_drive (sum_boot sample_boot)) = sum_boot sample_boot"
    by (rule read_boot_same) (simp_all add: blank_writable)
  show "magic_ok (sum_boot sample_boot)" by (rule magic_ok_prefix) (simp_all add: sum_boot_def sample_boot_def)
  show "fPacketGood (write_boot blank_drive (sum_boot sample_boot))"
    by (simp add: write_boot_def io_drv_output_def blank_drive_def)
qed

section \<open>The boot node and the first directory\<close>

lemma pio_base_sector:
  assumes "unat a < 2 ^ 37"
  shows "unat (pio_base a) = unat a - unat a mod 512"
proof -
  have d: "unat (a div 512) = unat a div 512" by (simp add: unat_div)
  have "unat a div 512 < 2 ^ 28" using assms by simp
  then have "unat (take_bit 28 (a div 512)) = unat a div 512" by (simp add: unsigned_take_bit_eq d take_bit_nat_eq_self)
  moreover have "unat a div 512 * 512 < 2 ^ 64" using assms by simp
  ultimately have "unat (pio_base a) = unat a div 512 * 512"
    by (simp add: pio_base_def kATASectorSize_def unat_word_ariths)
  then show ?thesis by (simp add: minus_mod_eq_div_mult)
qed

lemma le_word_low16: "take_bit 16 (le_word (x # y # bs)) = ucast x OR push_bit 8 (ucast y)"
proof (rule bit_word_eqI)
  fix n
  assume "n < LENGTH(64)"
  show "bit (take_bit 16 (le_word (x # y # bs))) n = bit (ucast x OR push_bit 8 (ucast y) :: u64) n"
    by (cases "n < 8"; cases "n < 16") (auto simp: bit_simps dest: bit_imp_le_length)
qed

lemma read_bytes_2: "2 \<le> n \<Longrightarrow> read_bytes m a n = m a # m (a + 1) # read_bytes m (a + 2) (n - 2)"
  using read_bytes_Suc [of m a "Suc (n - 2)"] read_bytes_Suc [of m "a + 1" "n - 2"] by (simp add: Suc_diff_Suc numeral_2_eq_2 add.commute)

lemma first_slot_low16:
  assumes w: "drive_writable t (fLbaStart t)" and al: "unat (fLbaStart t) mod 512 = 0"
    and lim: "unat (fLbaStart t) + 1024 \<le> 2 ^ 37" and b: "boot_ok b"
  shows "take_bit 16 (fHashPath_d (read_dir (write_boot t b) (fLbaStart t + kOpenHeFSINDStartOffset))) = ucast (last (fPad_b b))"
proof -
  define L where "L = fLbaStart t"
  have base: "pio_base L = L" using pio_base_sector [of L] al lim by (intro word_unat_eq_iff [THEN iffD2]) (simp add: L_def)
  have u: "unat (L + 513) = unat L + 513" using lim by (simp add: L_def unat_word_ariths)
  have "unat (pio_base (L + 513)) = unat L + 512"
  proof -
    have m: "(unat L + 513) mod 512 = 1" using al mod_add_left_eq [of "unat L" 512 513, symmetric] by (simp add: L_def)
    have "unat (L + 513) < 2 ^ 37" using lim u by (simp add: L_def)
    from pio_base_sector [OF this] show ?thesis unfolding u m by simp
  qed
  moreover have "unat (L + 512) = unat L + 512" using lim by (simp add: L_def unat_word_ariths)
  ultimately have base1: "pio_base (L + 513) = L + 512" by (simp add: word_unat_eq_iff)
  have len: "length (encode_boot b) = 513" using length_encode_boot [OF b] by (simp add: sizeof_boot_def)
  have pad: "encode_boot b ! 512 = last (fPad_b b)"
  proof -
    have "fPad_b b \<noteq> []" using b by (auto simp: boot_ok_def)
    then have "last (encode_boot b) = last (fPad_b b)" by (simp add: encode_boot_def)
    moreover have "encode_boot b \<noteq> []" using len by auto
    ultimately show ?thesis using len by (simp add: last_conv_nth)
  qed
  have dsk: "disk (write_boot t b) = write_bytes (disk t) L (encode_boot b @ [0])"
    using w len by (simp add: write_boot_def disk_io_drv_output L_def [symmetric] base even_pad_def)
  have "disk (write_boot t b) (L + 512) = last (fPad_b b)" "disk (write_boot t b) (L + 512 + 1) = 0"
    unfolding dsk write_bytes_def using len pad by (simp_all add: nth_append)
  then have "io_drv_input (write_boot t b) (L + 513) 512
      = last (fPad_b b) # 0 # read_bytes (disk (write_boot t b)) (L + 512 + 2) 510"
    unfolding io_drv_input_eq base1 by (simp add: read_bytes_2)
  then have "fHashPath_d (read_dir (write_boot t b) (L + 513))
      = le_word (last (fPad_b b) # 0 # take 6 (read_bytes (disk (write_boot t b)) (L + 512 + 2) 510))"
    by (simp add: read_dir_def sizeof_dir_def decode_dir_def dec64_def field_def)
  then show ?thesis unfolding kOpenHeFSINDStartOffset_def L_def [symmetric] by (simp only: le_word_low16) simp
qed

lemma hash_low_bit:
  assumes "p \<noteq> []" and "bit (hefsi_hash_loop p kFnvBaseOffset) 56"
  shows "bit (hefsi_hash_64 p) 0"
proof -
  have "(ucast (hefsi_hash_64 p) :: u8) = ucast (drop_bit 56 (hefsi_hash_loop p kFnvBaseOffset))"
    using assms(1) big_endian_byte [of 0 "hefsi_hash_loop p kFnvBaseOffset"] by (simp add: hefsi_hash_64_def)
  then have "bit (ucast (hefsi_hash_64 p) :: u8) 0" using assms(2) by (simp add: bit_simps)
  then show ?thesis by (simp add: bit_simps)
qed

lemma root_hash_low16: "take_bit 16 (hefsi_hash_64 [47]) \<noteq> 0"
proof -
  have "hefsi_hash_loop [47] kFnvBaseOffset = 0xAF63A24C860189FE"
    by (rule word_uint_eqI) (simp add: kFnvBaseOffset_def kFnvPrimeNumber_def uint_word_ariths)
  then have "bit (take_bit 16 (hefsi_hash_64 [47])) 0" using hash_low_bit [of "[47]"] by (simp add: bit_simps del: hefsi_hash_loop.simps)
  then show ?thesis by auto
qed

lemma file_a_hash: "hefsi_hash_64 [97] \<noteq> 0"
proof -
  have "hefsi_hash_loop [97] kFnvBaseOffset = 0xAF63DC4C8601EC8C"
    by (rule word_uint_eqI) (simp add: kFnvBaseOffset_def kFnvPrimeNumber_def uint_word_ariths)
  then have "bit (hefsi_hash_64 [97]) 0" by (intro hash_low_bit) (simp_all del: hefsi_hash_loop.simps)
  then show ?thesis by auto
qed

lemma set_err_twice [simp]: "set_err e (set_err e' t) = set_err e t"
  by (simp add: set_err_def)

text \<open>
  The root directory is lost as soon as the boot node is written.  The boot node takes 513
  bytes, and drives transfer words, so its write reaches two bytes into the sector of the first
  directory slot: the low 16 bits of the hash there become the last byte of the boot node's
  padding, which is zero on a formatted volume, while the hash of ``/'' has other low bits.  Unless
  another slot holds a directory with this hash, creating or deleting a file in ``/'' therefore
  fails with \<open>kErrorDirectoryNotFound\<close>, and the scan ends.
\<close>

theorem root_directory_lost:
  assumes "drive_writable t0 (fLbaStart t0)" and "unat (fLbaStart t0) mod 512 = 0" and "unat (fLbaStart t0) + 1024 \<le> 2 ^ 37"
    and "boot_ok b" and "magic_ok b" and "fStartIND_b b = fLbaStart t0 + kOpenHeFSINDStartOffset"
    and "unat (fEndIND_b b) + 512 < 2 ^ 64" and "last (fPad_b b) = 0" and "t = write_boot t0 b"
    and "\<forall>k > 0. unat (fStartIND_b b) + 512 * k \<le> unat (fEndIND_b b) \<longrightarrow> fHashPath_d (read_dir t (slot b k)) \<noteq> hefsi_hash_64 [47]"
    and "length nm \<le> kOpenHeFSFileNameLen" and "47 \<notin> set nm"
  shows "INodeCtlManip t flags [47] nm del kind = Some (set_err kErrorDirectoryNotFound t, False)"
proof -
  have "take_bit 16 (fHashPath_d (read_dir t (slot b 0))) = 0"
    using first_slot_low16 [OF assms(1-4)] assms(6,8,9) by simp
  then have "fHashPath_d (read_dir t (slot b 0)) \<noteq> hefsi_hash_64 [47]" using root_hash_low16 by metis
  with assms(10) have miss: "unat (fStartIND_b b) + 512 * k \<le> unat (fEndIND_b b) \<Longrightarrow>
      fHashPath_d (read_dir t (slot b k)) \<noteq> hefsi_hash_64 [47]" for k by (cases "k = 0") auto
  have loop: "unat (fStartIND_b b) \<le> unat (fEndIND_b b) \<Longrightarrow>
      in_loop b t [47] nd del (fStartIND_b b) = Some (set_err kErrorFileNotFound t, b, False)" for nd
    using in_loop_missing [OF miss assms(7), of 0 nd del] by simp
  have "hefsi_update_in_status b t [47] nd del \<in> {Some (t, b, False), Some (set_err kErrorFileNotFound t, b, False)}" for nd
    using loop [of nd] by (auto simp: hefsi_update_in_status_def word_le_nat_alt not_less)
  then have "hefsi_update_in_status b t [47] (make_node flags nm del kind) del = Some (t, b, False)
      \<or> hefsi_update_in_status b t [47] (make_node flags nm del kind) del = Some (set_err kErrorFileNotFound t, b, False)" by blast
  moreover have "read_boot t = b" using read_boot_same [OF assms(1,4)] assms(9) by simp
  ultimately show ?thesis using assms(5,11,12)
    by (auto simp: INodeCtlManip_def kOpenHeFSFileNameLen_def kOpenHeFSSearchAllStr_def)
qed

lemma dir_hash_zero: "io_drv_input t a 512 = replicate 512 0 \<Longrightarrow> fHashPath_d (read_dir t a) = 0"
proof -
  assume "io_drv_input t a 512 = replicate 512 0"
  then have "fHashPath_d (read_dir t a) = le_word (replicate 8 0)"
    by (simp add: read_dir_def sizeof_dir_def decode_dir_def dec64_def field_def)
  then show ?thesis by (simp add: eval_nat_numeral)
qed

lemma blank_input: "io_drv_input blank_drive a n = replicate n 0"
  by (simp add: io_drv_input_eq blank_drive_def read_bytes_def map_replicate_const)

lemma sample_slot_1: "io_drv_input (write_boot blank_drive sample_boot) (slot sample_boot 1) 512 = replicate 512 0"
proof -
  have "drive_apart 0x400 513 0x801 512"
    by (simp add: drive_apart_def pio_base_def kATASectorSize_def take_bit_eq_mod sep_def)
  then show ?thesis using write_boot_apart [of sample_boot blank_drive "0x801" 512]
    by (simp add: slot_def dir_sz_def sample_boot_def [THEN arg_cong, of fStartIND_b] blank_writable blank_input)
qed

theorem root_directory_lost_witness:
  "INodeCtlManip (write_boot blank_drive sample_boot) 0 [47] [65] False 1
    = Some (set_err kErrorDirectoryNotFound (write_boot blank_drive sample_boot), False)"
proof (rule root_directory_lost [of blank_drive sample_boot, OF _ _ _ sample_boot_ok _ _ _ _ refl])
  show "\<forall>k > 0. unat (fStartIND_b sample_boot) + 512 * k \<le> unat (fEndIND_b sample_boot) \<longrightarrow>
      fHashPath_d (read_dir (write_boot blank_drive sample_boot) (slot sample_boot k)) \<noteq> hefsi_hash_64 [47]"
  proof (intro allI impI)
    fix k :: nat
    assume "0 < k" and "unat (fStartIND_b sample_boot) + 512 * k \<le> unat (fEndIND_b sample_boot)"
    then have "k = 1" by (simp add: sample_boot_def)
    then show "fHashPath_d (read_dir (write_boot blank_drive sample_boot) (slot sample_boot k)) \<noteq> hefsi_hash_64 [47]"
      using dir_hash_zero [OF sample_slot_1] root_hash_low16 by auto
  qed
qed (simp_all add: blank_writable sample_boot_def magic_ok_prefix kOpenHeFSINDStartOffset_def kOpenHeFSFileNameLen_def)

section \<open>A directory is a map\<close>

text \<open>The index nodes that the slices of a directory slot lead to, by hash and kind.\<close>

definition dir_map :: "drive \<Rightarrow> boot_node \<Rightarrow> nat \<Rightarrow> u64 \<times> u8 \<Rightarrow> index_node option" where
  "dir_map t b n = (\<lambda>(h, k). scan_slices t h k (fINSlices_d (read_dir t (slot b n))))"

definition node_key :: "index_node \<Rightarrow> u64 \<times> u16" where
  "node_key nd = (fHashPath_n nd, fKind_n nd)"

lemma scan_slices_find:
  "scan_slices t h k ss = find (\<lambda>nd. node_key nd = (h, ucast k)) (map (read_node t) ss)"
  by (induction ss) (auto simp: node_key_def Let_def)

lemma free_slice_Some: "free_slice ss j = Some i \<Longrightarrow> j \<le> i \<and> i - j < length ss \<and> ss ! (i - j) = 0"
proof (induction ss arbitrary: j)
  case (Cons s ss)
  show ?case
  proof (cases "s = 0")
    case False
    then have "Suc j \<le> i \<and> i - Suc j < length ss \<and> ss ! (i - Suc j) = 0" using Cons by simp
    then show ?thesis by (simp add: nth_Cons') linarith
  qed (use Cons in simp)
qed simp

lemma find_replaced:
  assumes "i < length xs" and "\<not> P (xs ! i)" and "\<not> P y"
  shows "find P (xs[i := y]) = find P xs"
proof -
  have "find P xs = find P (take i xs @ xs ! i # drop (Suc i) xs)" using assms(1) by (simp add: id_take_nth_drop [symmetric])
  then show ?thesis using assms by (simp add: upd_conv_take_nth_drop find_append split: option.split)
qed

lemma find_new:
  assumes "i < length xs" and "\<forall>x \<in> set (take i xs). \<not> P x" and "P y"
  shows "find P (xs[i := y]) = Some y"
proof -
  have "find P (take i xs) = None" using assms(2) by (simp add: find_None_iff)
  then show ?thesis using assms by (simp add: upd_conv_take_nth_drop find_append)
qed

text \<open>
  The index node a creation writes, and the conditions under which its writes (the directory, the
  index node and the boot node) do not hit each other or the nodes of the directory's slices.
\<close>

definition placed_node :: "boot_node \<Rightarrow> index_node \<Rightarrow> index_node" where
  "placed_node b nd = sum_node (nd\<lparr>fOffsetSliceLow_n := ucast (fStartBlock_b b),
     fOffsetSliceHigh_n := ucast (drop_bit 32 (fStartBlock_b b))\<rparr>)"

definition create_apart :: "drive \<Rightarrow> boot_node \<Rightarrow> nat \<Rightarrow> bool" where
  "create_apart t b n \<longleftrightarrow> drive_writable t (slot b n) \<and> drive_writable t (fStartIN_b b)
     \<and> drive_apart (fStartIN_b b) 512 (slot b n) 512
     \<and> drive_apart (fLbaStart t) 513 (slot b n) 512 \<and> drive_apart (fLbaStart t) 513 (fStartIN_b b) 512
     \<and> list_all (\<lambda>s. drive_apart (slot b n) 512 s 512 \<and> drive_apart (fStartIN_b b) 512 s 512
          \<and> drive_apart (fLbaStart t) 513 s 512) (fINSlices_d (read_dir t (slot b n)))"

lemma create_commit_state:
  assumes ap: "create_apart t b n" and ok: "node_ok nd" "boot_ok b"
    and d: "d = read_dir t (slot b n)" and i: "i < length (fINSlices_d d)"
    and c: "create_commit b t (slot b n) d i nd = (t', b')"
  shows "read_dir t' (slot b n) = sum_dir (d\<lparr>fINSlices_d := (fINSlices_d d)[i := fStartIN_b b], fEntryCount_d := fEntryCount_d d + 1\<rparr>)"
    and "read_node t' (fStartIN_b b) = placed_node b nd"
    and "s \<in> set (fINSlices_d d) \<Longrightarrow> read_node t' s = read_node t s"
    and "b' = sum_boot (b\<lparr>fStartIN_b := fStartIN_b b + 512, fStartBlock_b := fStartBlock_b b + kOpenHeFSBlockLen\<rparr>)"
    and "err_global t' = err_global t"
proof -
  define d1 where "d1 = sum_dir (d\<lparr>fINSlices_d := (fINSlices_d d)[i := fStartIN_b b], fEntryCount_d := fEntryCount_d d + 1\<rparr>)"
  define t1 where "t1 = write_dir t (slot b n) d1"
  define t2 where "t2 = write_node t1 (fStartIN_b b) (placed_node b nd)"
  have b': "b' = sum_boot (b\<lparr>fStartIN_b := fStartIN_b b + 512, fStartBlock_b := fStartBlock_b b + kOpenHeFSBlockLen\<rparr>)"
    and t': "t' = write_boot t2 b'"
    using c i by (auto simp: create_commit_def Let_def t2_def t1_def d1_def placed_node_def)
  have oks: "dir_ok d1" "node_ok (placed_node b nd)" "boot_ok b'"
    using ok read_ok(1) [of t "slot b n"]
    by (simp_all add: d1_def d placed_node_def b' dir_ok_def node_ok_def boot_ok_def sum_dir_def sum_node_def sum_boot_def)
  have a: "drive_apart (fStartIN_b b) 512 (slot b n) 512" "drive_apart (fLbaStart t2) 513 (slot b n) 512"
    "drive_apart (fLbaStart t2) 513 (fStartIN_b b) 512" "drive_writable t (slot b n)" "drive_writable t1 (fStartIN_b b)"
    using ap by (simp_all add: create_apart_def t2_def t1_def)
  have "read_dir t' (slot b n) = read_dir t1 (slot b n)"
    unfolding t' t2_def by (rule read_cong) (use oks a in \<open>simp add: write_boot_apart write_node_apart t2_def\<close>)
  then show "read_dir t' (slot b n) = sum_dir (d\<lparr>fINSlices_d := (fINSlices_d d)[i := fStartIN_b b], fEntryCount_d := fEntryCount_d d + 1\<rparr>)"
    using read_dir_same [OF a(4) oks(1)] by (simp add: t1_def d1_def)
  have "read_node t' (fStartIN_b b) = read_node t2 (fStartIN_b b)"
    unfolding t' by (rule read_cong) (use oks a in \<open>simp add: write_boot_apart\<close>)
  then show "read_node t' (fStartIN_b b) = placed_node b nd"
    using read_node_same [OF a(5) oks(2)] by (simp add: t2_def)
  show "b' = sum_boot (b\<lparr>fStartIN_b := fStartIN_b b + 512, fStartBlock_b := fStartBlock_b b + kOpenHeFSBlockLen\<rparr>)" by (rule b')
  show "err_global t' = err_global t" by (simp add: t' t2_def t1_def)
  assume "s \<in> set (fINSlices_d d)"
  then have "drive_apart (slot b n) 512 s 512" "drive_apart (fStartIN_b b) 512 s 512" "drive_apart (fLbaStart t2) 513 s 512"
    using ap by (auto simp: create_apart_def d list_all_iff t2_def t1_def)
  then have "io_drv_input t' s 512 = io_drv_input t s 512"
    using oks by (simp add: t' write_boot_apart) (simp add: t2_def t1_def write_node_apart write_dir_apart)
  then show "read_node t' s = read_node t s" by (rule read_cong)
qed

lemma free_slice_exists: "0 \<in> set ss \<Longrightarrow> \<exists>i. free_slice ss j = Some i"
  by (induction ss arbitrary: j) auto

lemma fetch_lookup:
  assumes "dir_slot t b dir n" and "err_global t \<noteq> kErrorDiskIsCorrupted" and "fStartIN_b b \<le> fEndIN_b b"
    and "dir_map t b n (hefsi_hash_64 f, kind) = Some nd"
  shows "hefsi_fetch_in b t dir f kind = Some (t, Some nd)"
proof -
  have "fStartIND_b b \<le> fEndIND_b b" using assms(1) by (simp add: dir_slot_def word_le_nat_alt)
  then show ?thesis using assms(2-4) fetch_loop_at [OF assms(1), of f kind nd 0]
    by (simp add: hefsi_fetch_in_def dir_map_def not_less)
qed

lemma placed_node_key: "node_key (placed_node b nd) = node_key nd"
  by (simp add: node_key_def placed_node_def sum_node_def)

lemma ucast_u8_u16: "(ucast (k :: u8) :: u16) = ucast k' \<longleftrightarrow> k = k'"
proof
  assume a: "(ucast k :: u16) = ucast k'"
  show "k = k'"
  proof (rule bit_word_eqI)
    fix n
    assume "n < LENGTH(8)"
    moreover have "bit (ucast k :: u16) n = bit (ucast k' :: u16) n" by (simp add: a)
    ultimately show "bit k n = bit k' n" by (simp add: bit_simps)
  qed
qed simp

lemma create_dir_map:
  assumes ap: "create_apart t b n" and ok: "node_ok nd" "boot_ok b"
    and i: "free_slice (fINSlices_d (read_dir t (slot b n))) 0 = Some i"
    and c: "create_commit b t (slot b n) (read_dir t (slot b n)) i nd = (t', b')"
    and k: "fKind_n nd = ucast kind" and new: "dir_map t b n (fHashPath_n nd, kind) = None"
  shows "dir_map t' b' n (fHashPath_n nd, kind) = Some (placed_node b nd)"
    and "(h, k) \<noteq> (fHashPath_n nd, kind) \<Longrightarrow> (h, ucast k) \<noteq> node_key (read_node t 0) \<Longrightarrow> dir_map t' b' n (h, k) = dir_map t b n (h, k)"
proof -
  define ss where "ss = fINSlices_d (read_dir t (slot b n))"
  have il: "i < length ss" "ss ! i = 0" using free_slice_Some [OF i] by (simp_all add: ss_def)
  note st = create_commit_state [OF ap ok refl il(1) [unfolded ss_def] c]
  have slots: "slot b' n = slot b n" by (simp add: st(4) slot_def sum_boot_def)
  have dir': "fINSlices_d (read_dir t' (slot b' n)) = ss[i := fStartIN_b b]" by (simp add: slots st(1) sum_dir_def ss_def)
  have nodes: "map (read_node t') (ss[i := fStartIN_b b]) = (map (read_node t) ss)[i := placed_node b nd]"
    using il(1) by (intro nth_equalityI) (auto simp: nth_list_update st(2) st(3) ss_def)
  have map': "dir_map t' b' n (h, k) = find (\<lambda>x. node_key x = (h, ucast k)) ((map (read_node t) ss)[i := placed_node b nd])" for h k
    unfolding dir_map_def by (simp add: dir' scan_slices_find nodes)
  have map0: "dir_map t b n (h, k) = find (\<lambda>x. node_key x = (h, ucast k)) (map (read_node t) ss)" for h k
    by (simp add: dir_map_def scan_slices_find ss_def)
  have key: "node_key (placed_node b nd) = (fHashPath_n nd, ucast kind)" by (simp add: placed_node_key) (simp add: node_key_def k)
  have none: "\<forall>x \<in> set ss. node_key (read_node t x) \<noteq> (fHashPath_n nd, ucast kind)"
    using new unfolding map0 find_None_iff by simp
  show "dir_map t' b' n (fHashPath_n nd, kind) = Some (placed_node b nd)" unfolding map'
    by (rule find_new) (use il none key in \<open>auto simp: take_map dest!: in_set_takeD\<close>)
  show "dir_map t' b' n (h, k) = dir_map t b n (h, k)"
    if "(h, k) \<noteq> (fHashPath_n nd, kind)" "(h, ucast k) \<noteq> node_key (read_node t 0)"
    unfolding map' map0 by (rule find_replaced) (use il that key in \<open>auto simp: ucast_u8_u16\<close>)
qed

text \<open>
  C8. Creating a file updates the directory as a map, and fetching a file looks it up.  Take a
  volume whose cursors are inside their regions, a directory in slot \<open>n\<close> with a free slice that
  has no file with the new node's hash and kind, and transfers that do not overlap.  Then
  \<open>hefsi_update_in_status\<close> succeeds, advances both cursors by one node and one block, and the
  map of the directory becomes the old one with the new node, placed at the old block cursor, added.
  Other files keep their nodes, except one whose key is that of the bytes in sector 0, which every
  free slice leads to.  A file whose node is in the map is what \<open>hefsi_fetch_in\<close> returns.
\<close>

theorem hefs_create_refines_update:
  assumes "dir_slot t b dir n" and "fStartIN_b b \<le> fEndIN_b b" and "fStartBlock_b b \<le> fEndBlock_b b"
    and "create_apart t b n" and "node_ok nd" and "boot_ok b" and "0 \<in> set (fINSlices_d (read_dir t (slot b n)))"
    and "fKind_n nd = ucast kind" and "dir_map t b n (fHashPath_n nd, kind) = None"
  shows "\<exists>t' b'. hefsi_update_in_status b t dir nd False = Some (t', b', True)
    \<and> fStartIN_b b' = fStartIN_b b + 512 \<and> fStartBlock_b b' = fStartBlock_b b + 512
    \<and> dir_map t' b' n (fHashPath_n nd, kind) = Some (placed_node b nd)
    \<and> (\<forall>h k. (h, k) \<noteq> (fHashPath_n nd, kind) \<and> (h, ucast k) \<noteq> node_key (read_node t 0)
          \<longrightarrow> dir_map t' b' n (h, k) = dir_map t b n (h, k))
    \<and> (\<forall>f k nd'. dir_slot t' b' dir n \<and> err_global t \<noteq> kErrorDiskIsCorrupted \<and> fStartIN_b b' \<le> fEndIN_b b'
          \<and> dir_map t' b' n (hefsi_hash_64 f, k) = Some nd' \<longrightarrow> hefsi_fetch_in b' t' dir f k = Some (t', Some nd'))"
proof -
  obtain i where i: "free_slice (fINSlices_d (read_dir t (slot b n))) 0 = Some i"
    using assms(7) free_slice_exists by blast
  obtain t' b' where c: "create_commit b t (slot b n) (read_dir t (slot b n)) i nd = (t', b')" by fastforce
  have "fStartIND_b b \<le> fEndIND_b b" using assms(1) by (simp add: dir_slot_def word_le_nat_alt)
  then have up: "hefsi_update_in_status b t dir nd False = Some (t', b', True)"
    using assms(2,3) in_loop_at [OF assms(1), of nd False i 0] i c
    by (simp add: hefsi_update_in_status_def not_less in_slice_def)
  have il: "i < length (fINSlices_d (read_dir t (slot b n)))" using free_slice_Some [OF i] by simp
  note st = create_commit_state [OF assms(4-6) refl il c]
  note maps = create_dir_map [OF assms(4-6) i c assms(8,9)]
  have cursors: "fStartIN_b b' = fStartIN_b b + 512" "fStartBlock_b b' = fStartBlock_b b + 512"
    by (simp_all add: st(4) sum_boot_def kOpenHeFSBlockLen_def)
  show ?thesis using up cursors maps fetch_lookup [of t' b' dir n] st(5)
    by (intro exI [of _ t'] exI [of _ b']) auto
qed

definition sample_dir :: index_dir where
  "sample_dir = zero_dir\<lparr>fHashPath_d := hefsi_hash_64 [47]\<rparr>"

definition sample_volume :: drive where
  "sample_volume = write_dir blank_drive 0x800 sample_dir"

definition sample_boot2 :: boot_node where
  "sample_boot2 = sample_boot\<lparr>fStartIND_b := 0x800\<rparr>"

lemma zero_dir_slices: "fINSlices_d zero_dir = replicate 16 0"
  by (rule nth_equalityI) (simp_all add: zero_dir_def decode_dir_def dec64_def field_def)

lemma sample_dir_ok: "dir_ok sample_dir"
  using decode_ok(3) [of "replicate 512 0"] by (simp add: sample_dir_def zero_dir_def dir_ok_def sizeof_dir_def)

lemma sample_read_dir: "read_dir sample_volume 0x800 = sample_dir"
  unfolding sample_volume_def by (rule read_dir_same) (simp_all add: blank_writable sample_dir_ok)

lemma sample_sector_0: "fHashPath_n (read_node sample_volume 0) = 0"
proof -
  have "drive_apart 0x800 512 0 512" by (simp add: drive_apart_def pio_base_def kATASectorSize_def take_bit_eq_mod sep_def)
  then have "io_drv_input sample_volume 0 512 = replicate 512 0"
    unfolding sample_volume_def by (simp add: write_dir_apart sample_dir_ok blank_input)
  then show ?thesis by (simp add: read_node_def sizeof_node_def decode_node_def dec64_def field_def)
qed

lemma sample_slots: "fStartIND_b sample_boot2 = 0x800" "fINSlices_d (read_dir sample_volume 0x800) = replicate 16 0"
  by (simp_all add: sample_boot2_def sample_boot_def sample_read_dir) (simp add: sample_dir_def zero_dir_slices)

lemma sample_dir_slot: "dir_slot sample_volume sample_boot2 [47] 0"
proof -
  have "fEndIND_b sample_boot2 = 0x900" by (simp add: sample_boot2_def sample_boot_def)
  then show ?thesis using root_hash_low16 by (auto simp: dir_slot_def sample_slots sample_read_dir) (simp add: sample_dir_def)
qed

lemma sample_apart: "create_apart sample_volume sample_boot2 0"
proof -
  have "fStartIN_b sample_boot2 = 0x1000" by (simp add: sample_boot2_def sample_boot_def)
  moreover have "fLbaStart sample_volume = 0x400" "drive_writable sample_volume a \<longleftrightarrow> a \<noteq> 0" for a
    by (simp_all add: sample_volume_def blank_writable)
  ultimately show ?thesis
    by (simp add: create_apart_def sample_slots list_all_iff drive_apart_def pio_base_def kATASectorSize_def
        take_bit_eq_mod sep_def)
qed

theorem hefs_create_refines_update_witness:
  "\<exists>t' b'. hefsi_update_in_status sample_boot2 sample_volume [47] (make_node 0 [47] False 1) False = Some (t', b', True)
    \<and> dir_map t' b' 0 (hefsi_hash_64 [47], 1) = Some (placed_node sample_boot2 (make_node 0 [47] False 1))"
proof -
  define nd where "nd = make_node 0 [47] False 1"
  have nd: "node_ok nd" "fKind_n nd = ucast (1 :: u8)" "fHashPath_n nd = hefsi_hash_64 [47]"
    by (simp_all add: nd_def make_node_def node_ok_def)
  have b: "boot_ok sample_boot2" using sample_boot_ok by (simp add: sample_boot2_def boot_ok_def)
  have none: "dir_map sample_volume sample_boot2 0 (fHashPath_n nd, 1) = None"
    using root_hash_low16 sample_sector_0
    by (auto simp: dir_map_def sample_slots scan_slices_find find_None_iff node_key_def nd(3))
  have "fStartIN_b sample_boot2 \<le> fEndIN_b sample_boot2" "fStartBlock_b sample_boot2 \<le> fEndBlock_b sample_boot2"
    by (simp_all add: sample_boot2_def sample_boot_def)
  from hefs_create_refines_update [OF sample_dir_slot this sample_apart nd(1) b _ nd(2) none]
  show ?thesis unfolding nd_def [symmetric] nd(3) by (auto simp: sample_slots)
qed

section \<open>The data of a file\<close>

text \<open>A transfer to a file's data keeps off the boot node, the slots up to the directory's and its index nodes.\<close>

definition data_apart :: "drive \<Rightarrow> boot_node \<Rightarrow> nat \<Rightarrow> u64 \<Rightarrow> nat \<Rightarrow> bool" where
  "data_apart t b n a len \<longleftrightarrow> drive_apart a len (fLbaStart t) 513
     \<and> list_all (\<lambda>k. drive_apart a len (slot b k) 512) [0..<Suc n]
     \<and> list_all (\<lambda>s. drive_apart a len s 512) (fINSlices_d (read_dir t (slot b n)))"

lemma data_apart_keeps:
  assumes ap: "data_apart t b n a (length bs)" and len: "length bs \<le> 0x100000"
  shows "read_boot (io_drv_output t a bs) = read_boot t"
    and "k \<le> n \<Longrightarrow> read_dir (io_drv_output t a bs) (slot b k) = read_dir t (slot b k)"
    and "dir_map (io_drv_output t a bs) b n = dir_map t b n"
    and "dir_slot (io_drv_output t a bs) b dir n = dir_slot t b dir n"
proof -
  define t' where "t' = io_drv_output t a bs"
  have in': "drive_apart a (length bs) x m \<Longrightarrow> io_drv_input t' x m = io_drv_input t x m" for x m
    unfolding t'_def by (rule hd.get_put_apart [OF len])
  show "read_boot t' = read_boot t" using ap by (simp add: read_boot_def t'_def sizeof_boot_def data_apart_def)
      (simp add: t'_def [symmetric] in')
  show dirs: "read_dir t' (slot b k) = read_dir t (slot b k)" if "k \<le> n" for k
    by (rule read_cong, rule in') (use ap that in \<open>auto simp: data_apart_def list_all_iff less_Suc_eq_le simp del: upt_Suc\<close>)
  have "map (read_node t') (fINSlices_d (read_dir t (slot b n))) = map (read_node t) (fINSlices_d (read_dir t (slot b n)))"
    by (rule map_cong [OF refl], rule read_cong, rule in') (use ap in \<open>auto simp: data_apart_def list_all_iff\<close>)
  then show "dir_map t' b n = dir_map t b n" by (simp only: dir_map_def scan_slices_find dirs [OF order_refl])
  show "dir_slot t' b dir n = dir_slot t b dir n" by (simp add: dir_slot_def dirs list_all_iff)
qed

lemma INodeManip_found:
  assumes "length dir \<le> kOpenHeFSFileNameLen" and "length f \<le> kOpenHeFSFileNameLen" and "b = read_boot t" and "magic_ok b"
    and "dir_slot t b dir n" and "err_global t \<noteq> kErrorDiskIsCorrupted" and "fStartIN_b b \<le> fEndIN_b b"
    and "dir_map t b n (hefsi_hash_64 f, kind) = Some nd" and "fOffsetSliceLow_n nd \<noteq> 0" and "hefsi_hash_64 f \<noteq> 0"
    and "fFlags_n nd AND kOpenHeFSFlagsReadOnly = 0"
  shows "INodeManip t block dir f kind is_input =
    Some (if is_input then (t, io_drv_input t (node_lba nd) (length block), True)
          else (io_drv_output t (node_lba nd) block, block, True))"
proof -
  have "fHashPath_n nd = hefsi_hash_64 f"
    using assms(8) by (auto simp: dir_map_def scan_slices_find find_Some_iff node_key_def)
  then show ?thesis using assms fetch_lookup [OF assms(5-8)] by (simp add: INodeManip_def)
qed


definition filled_dir :: index_dir where
  "filled_dir = sample_dir\<lparr>fINSlices_d := 0x1000 # replicate 15 0\<rparr>"

definition filled_node :: index_node where
  "filled_node = (make_node 0 [97] False 0)\<lparr>fOffsetSliceLow_n := 0x2000\<rparr>"

definition filled_volume :: drive where
  "filled_volume = write_node (write_dir (write_boot blank_drive sample_boot2) 0x800 filled_dir) 0x1000 filled_node"

lemmas apart_eval = drive_apart_def pio_base_def kATASectorSize_def take_bit_eq_mod sep_def

lemma filled_oks: "dir_ok filled_dir" "node_ok filled_node" "boot_ok sample_boot2" "magic_ok sample_boot2"
  using sample_dir_ok sample_boot_ok
  by (simp_all add: filled_dir_def filled_node_def dir_ok_def node_ok_def boot_ok_def make_node_def sample_boot2_def)
    (rule magic_ok_prefix; simp add: sample_boot_def)

lemma filled_reads:
  "read_boot filled_volume = sample_boot2" "read_dir filled_volume 0x800 = filled_dir" "read_node filled_volume 0x1000 = filled_node"
proof -
  have ap: "drive_apart 0x1000 512 0x800 512" "drive_apart 0x1000 512 0x400 513" "drive_apart 0x800 512 0x400 513"
    by (simp_all add: apart_eval)
  have "io_drv_input filled_volume 0x400 513 = io_drv_input (write_boot blank_drive sample_boot2) 0x400 513"
    by (simp add: filled_volume_def write_node_apart write_dir_apart ap filled_oks)
  then have "read_boot filled_volume = read_boot (write_boot blank_drive sample_boot2)"
    by (simp add: read_boot_def sizeof_boot_def filled_volume_def blank_writable)
  then show "read_boot filled_volume = sample_boot2" by (simp add: read_boot_same filled_oks blank_writable)
  have "read_dir filled_volume 0x800 = read_dir (write_dir (write_boot blank_drive sample_boot2) 0x800 filled_dir) 0x800"
    unfolding filled_volume_def by (rule read_cong) (simp add: write_node_apart ap filled_oks)
  then show "read_dir filled_volume 0x800 = filled_dir" by (simp add: read_dir_same filled_oks blank_writable)
  show "read_node filled_volume 0x1000 = filled_node"
    unfolding filled_volume_def by (rule read_node_same) (simp_all add: filled_oks blank_writable)
qed

lemma filled_dir_slot: "dir_slot filled_volume sample_boot2 [47] 0"
proof -
  have "fEndIND_b sample_boot2 = 0x900" by (simp add: sample_boot2_def sample_boot_def)
  then show ?thesis using root_hash_low16
    by (auto simp: dir_slot_def sample_slots filled_reads) (simp add: filled_dir_def sample_dir_def)
qed

lemma filled_dir_map: "dir_map filled_volume sample_boot2 0 (hefsi_hash_64 [97], 0) = Some filled_node"
proof -
  have "node_key filled_node = (hefsi_hash_64 [97], 0)" by (simp add: node_key_def filled_node_def make_node_def)
  moreover have "fINSlices_d (read_dir filled_volume (slot sample_boot2 0)) = 0x1000 # replicate 15 0"
    by (simp add: sample_slots filled_reads) (simp add: filled_dir_def)
  ultimately show ?thesis by (simp add: dir_map_def scan_slices_find filled_reads)
qed


section \<open>Errors\<close>

text \<open>
  A drive without a valid boot node.  When the magic or the version does not match, creating
  or removing a directory or a file reports success, with \<open>kErrorDisk\<close> in the error number and
  nothing written; reading, writing and looking for a file report failure.  Names that are too
  long are refused by all of them.
\<close>

theorem hefs_invalid_volume:
  assumes "\<not> magic_ok (read_boot t)"
  shows "INodeDirectoryCtlManip debug t flags dir del
      = Some (Ret (set_err kErrorDisk t, length dir \<le> kOpenHeFSFileNameLen))
    \<and> INodeCtlManip t flags dir nm del kind
      = Some (set_err kErrorDisk t, length dir \<le> kOpenHeFSFileNameLen \<and> length nm \<le> kOpenHeFSFileNameLen)
    \<and> INodeManip t block dir nm kind is_input = Some (set_err kErrorDisk t, block, False)
    \<and> (\<exists>t'. INodeExists t dir nm kind = Some (t', False))"
  using assms by (auto simp: INodeDirectoryCtlManip_def INodeCtlManip_def INodeManip_def INodeExists_def)

theorem hefs_invalid_volume_witness:
  "INodeCtlManip blank_drive 0 [47] [65] False 1 = Some (set_err kErrorDisk blank_drive, True)"
proof -
  have "fVersion_b (read_boot blank_drive) = 0"
    by (simp add: read_boot_def decode_boot_def dec32_def field_def blank_input)
  then have "\<not> magic_ok (read_boot blank_drive)" by (simp add: magic_ok_def kOpenHeFSVersion_def)
  from hefs_invalid_volume [OF this] show ?thesis by (simp add: kOpenHeFSFileNameLen_def)
qed

text \<open>
  Path hashes.  The hash of a non-empty path is its 64-bit FNV-1a hash with the bytes
  reversed; the empty path has the hash 0, the value of an empty slot.
\<close>

theorem hefsi_hash_is_fnv1a:
  "hefsi_hash_64 path = (if path = [] then 0 else le_word (rev (le_bytes 8 (fnv1a path))))"
proof -
  have "hefsi_to_big_endian_64 v = le_word (rev (le_bytes 8 v))" for v
    by (metis big_endian_bytes le_word_le_bytes8)
  then show ?thesis by (simp add: hefsi_hash_64_def hash_loop_foldl fnv1a_def)
qed

section \<open>New directories\<close>

lemma ind_loop_create:
  assumes used: "list_all (\<lambda>k. \<not> dir_free (read_dir t (slot b k))) [0..<n]" and free: "dir_free (read_dir t (slot b n))"
    and lim: "unat (fStartIND_b b) + 512 * n \<le> unat (fEndIND_b b)" and start: "fStartIND_b b \<noteq> 0" and "j \<le> n"
    and child: "pick_child t b (read_dir t (slot b n)) (make_dirent b (read_dir t (slot b n)) nm flags False) = Some dirent"
  shows "ind_loop b t nm flags False (slot b j) p
    = (let b' = sum_boot (b\<lparr>fINDCount_b := fINDCount_b b + 1\<rparr>)
       in Some (write_boot (set_err kErrorSuccess (write_dir t (slot b n) (sum_dir dirent))) b', b', True))"
  using \<open>j \<le> n\<close>
proof (induction arbitrary: p rule: inc_induct)
  case base
  have "slot b n \<noteq> 0" using slot_next [of b "n - 1"] lim start by (cases n) simp_all
  then show ?case using free child by (subst ind_loop.simps) (simp add: Let_def)
next
  case (step j)
  have nf: "\<not> dir_free (read_dir t (slot b j))" using used step(2) by (auto simp: list_all_iff)
  have "unat (fStartIND_b b) + 512 * j \<le> unat (fEndIND_b b)" "unat (fStartIND_b b) + 512 * Suc j \<le> unat (fEndIND_b b)"
    using lim step(2) by simp_all
  moreover from this(1) have "slot b j \<noteq> 0" using slot_next [of b "j - 1"] start by (cases j) simp_all
  ultimately show ?case using nf slot_next [of b j] step.IH [of "slot b j"]
    by (subst ind_loop.simps) (simp add: slot_Suc Let_def)
qed

text \<open>In an empty slot the scan for a child stops at once, at the address behind a link of zero.\<close>

lemma pick_child_empty:
  assumes "fHashPath_d d = 0" and "fChild_d d = 0" and "fNext_d d = 0"
  shows "pick_child t b d (make_dirent b d nm flags False)
    = Some ((make_dirent b d nm flags False)\<lparr>fColor_d := kOpenHeFSRed,
        fChild_d := (if dir_sz > fEndIND_b b then fStartIND_b b else dir_sz)\<rparr>)"
  using assms by (simp add: pick_child_def make_dirent_def child_loop.simps)

lemma make_dirent_ok: "dir_ok (make_dirent b d nm flags del)"
  by (simp add: make_dirent_def dir_ok_def kOpenHeFSSliceCount_def)

text \<open>
  A new directory takes the first free slot.  When the slots before \<open>n\<close> are in use and slot
  \<open>n\<close> is empty, \<open>hefsi_update_ind_status\<close> ends with \<open>YES\<close>; the slot then holds a live
  directory with the hash of the name and no files, whose parent and predecessor are the first
  slot, and the boot node counts one more directory.  The child link is the address 512: the
  sector behind the partition table, outside the volume, where balancing the tree later reads and
  writes.
\<close>

theorem hefs_mkdir_first_free:
  assumes "list_all (\<lambda>k. \<not> dir_free (read_dir t (slot b k))) [0..<n]"
    and "fHashPath_d (read_dir t (slot b n)) = 0" and "fChild_d (read_dir t (slot b n)) = 0"
    and "fNext_d (read_dir t (slot b n)) = 0" and "fPrev_d (read_dir t (slot b n)) = 0" and "fParent_d (read_dir t (slot b n)) = 0"
    and "unat (fStartIND_b b) + 512 * n \<le> unat (fEndIND_b b)" and "fStartIND_b b > fLbaStart t" and "512 \<le> fEndIND_b b"
    and "drive_writable t (slot b n)" and "drive_apart (fLbaStart t) 513 (slot b n) 512" and "boot_ok b"
  shows "\<exists>t' b' d. hefsi_update_ind_status debug b t nm flags False = Some (Ret (t', b', True))
    \<and> read_dir t' (slot b n) = d \<and> fHashPath_d d = hefsi_hash_64 nm \<and> fCreated_d d = 1 \<and> fDeleted_d d = 0
    \<and> fINSlices_d d = replicate 16 0 \<and> fParent_d d = fStartIND_b b \<and> fPrev_d d = fStartIND_b b \<and> fChild_d d = 512
    \<and> fINDCount_b b' = fINDCount_b b + 1 \<and> err_global t' = kErrorSuccess"
proof -
  define dn where "dn = (make_dirent b (read_dir t (slot b n)) nm flags False)\<lparr>fColor_d := kOpenHeFSRed, fChild_d := 512\<rparr>"
  define b' where "b' = sum_boot (b\<lparr>fINDCount_b := fINDCount_b b + 1\<rparr>)"
  define t1 where "t1 = set_err kErrorSuccess (write_dir t (slot b n) (sum_dir dn))"
  have "pick_child t b (read_dir t (slot b n)) (make_dirent b (read_dir t (slot b n)) nm flags False) = Some dn"
    using assms(9) by (simp add: pick_child_empty [OF assms(2-4)] dn_def dir_sz_def)
  moreover have "fStartIND_b b \<noteq> 0" using assms(8) by auto
  moreover have "dir_free (read_dir t (slot b n))" by (simp add: dir_free_def assms(2))
  ultimately have "hefsi_update_ind_status debug b t nm flags False = Some (Ret (write_boot t1 b', b', True))"
    using ind_loop_create [OF assms(1) _ assms(7), of 0 nm flags dn "fStartIND_b b"] assms(8)
    by (simp add: hefsi_update_ind_status_def t1_def b'_def Let_def)
  moreover have "read_dir (write_boot t1 b') (slot b n) = sum_dir dn"
  proof -
    have oks: "dir_ok (sum_dir dn)" "boot_ok b'"
      using make_dirent_ok [of b "read_dir t (slot b n)" nm flags False] assms(12)
      by (simp_all add: dn_def b'_def dir_ok_def boot_ok_def sum_dir_def sum_boot_def)
    have "read_dir (write_boot t1 b') (slot b n) = read_dir (write_dir t (slot b n) (sum_dir dn)) (slot b n)"
      by (rule read_cong) (use oks assms(11) in \<open>simp add: write_boot_apart t1_def\<close>)
    then show ?thesis using read_dir_same [OF assms(10) oks(1)] by simp
  qed
  ultimately show ?thesis using assms(5,6)
    by (intro exI [of _ "write_boot t1 b'"] exI [of _ b'] exI [of _ "sum_dir dn"])
      (simp add: sum_dir_def dn_def make_dirent_def b'_def sum_boot_def t1_def kOpenHeFSSliceCount_def set_err_def)
qed

lemma blank_dir:
  "fHashPath_d (read_dir blank_drive a) = 0" "fChild_d (read_dir blank_drive a) = 0" "fNext_d (read_dir blank_drive a) = 0"
  "fPrev_d (read_dir blank_drive a) = 0" "fParent_d (read_dir blank_drive a) = 0"
  by (simp_all add: read_dir_def decode_dir_def dec64_def field_def blank_input)

theorem hefs_mkdir_first_free_witness:
  "\<exists>t' b' d. hefsi_update_ind_status True sample_boot2 blank_drive [65] 0x50 False = Some (Ret (t', b', True))
    \<and> read_dir t' (slot sample_boot2 0) = d \<and> fHashPath_d d = hefsi_hash_64 [65] \<and> fChild_d d = 512"
proof -
  have "fEndIND_b sample_boot2 = 0x900" by (simp add: sample_boot2_def sample_boot_def)
  moreover have "drive_apart 0x400 513 0x800 512" by (simp add: apart_eval)
  ultimately show ?thesis
    using hefs_mkdir_first_free [of blank_drive sample_boot2 0 True "[65]" "0x50"]
    by (auto simp: blank_dir sample_slots blank_writable filled_oks)
qed

end
