(* ===== verification/NeFSLayout.thy ===== *)
theory NeFSLayout
  imports HeFSLayout
begin

text \<open>
  The structures NeFS keeps on disk, \<^verbatim>\<open>FSKit/NeFS.h\<close>: the root partition block, the catalog of
  a file or directory and the fork that describes a piece of its data, as records with their
  packed little-endian encodings of 512, 535 and 512 bytes.  The suffixes \<open>_rt\<close>, \<open>_cat\<close> and
  \<open>_frk\<close> tell the fields apart; the one-bit field \<open>ForkOrCatalog\<close> is the byte that holds it.

  A name in a structure is a C string that starts at the name's offset: without a terminator in
  its array it runs on into the fields that follow, as it does in the code.  A name that meets no
  zero byte in the whole structure is taken to end with the structure.
\<close>

section \<open>Constants\<close>

definition kNeFSCatalogNameLen :: nat where "kNeFSCatalogNameLen = 256"
definition kNeFSSectorSz :: u64 where "kNeFSSectorSz = 512"
definition kNeFSIdent :: "u8 list" where "kNeFSIdent = [32, 32, 78, 101, 70, 83]"
definition kNeFSIdentLen :: nat where "kNeFSIdentLen = 8"
definition kNeFSPartLen :: nat where "kNeFSPartLen = 32"
definition kNeFSVolumeName :: "u8 list" where
  "kNeFSVolumeName = [78, 101, 70, 83, 32, 86, 111, 108, 117, 109, 101]"
definition kNeFSVersionInteger :: u64 where "kNeFSVersionInteger = 0x0129"
definition kNeFSDataFork :: "u8 list" where "kNeFSDataFork = [109, 97, 105, 110, 95, 100, 97, 116, 97]"
definition kNeFSPartitionTypeStandard :: u32 where "kNeFSPartitionTypeStandard = 7"
definition kNeFSCatalogKindFile :: u32 where "kNeFSCatalogKindFile = 1"
definition kNeFSCatalogKindDir :: u32 where "kNeFSCatalogKindDir = 2"
definition kNeFSCatalogKindAlias :: u32 where "kNeFSCatalogKindAlias = 3"
definition kNeFSCatalogKindPage :: u32 where "kNeFSCatalogKindPage = 8"
definition kNeFSSeparator :: u8 where "kNeFSSeparator = 47"
definition kNeFSRoot :: "u8 list" where "kNeFSRoot = [47]"
definition kNeFSUpDir :: "u8 list" where "kNeFSUpDir = [46, 46]"
definition kNeFSMetaFilePrefix :: u8 where "kNeFSMetaFilePrefix = 36"
definition kNeFSRootCatalogStartAddress :: u64 where "kNeFSRootCatalogStartAddress = 1024"
definition kNeFSCatalogStartAddress :: u64 where "kNeFSCatalogStartAddress = 1536"
definition kNeFSFlagDeleted :: u32 where "kNeFSFlagDeleted = 70"
definition kNeFSFlagCreated :: u32 where "kNeFSFlagCreated = 71"
definition kNeFSStatusLocked :: u16 where "kNeFSStatusLocked = 0x19"
definition kNeFSStatusUnlocked :: u16 where "kNeFSStatusUnlocked = 0x18"
definition kNeFSRsrcForkKind :: u32 where "kNeFSRsrcForkKind = 0"
definition kNeFSForkSize :: u64 where "kNeFSForkSize = 512"

section \<open>The structures\<close>

record nefs_catalog =
  ForkOrCatalog_cat :: u8
  Name_cat :: "u8 list"
  Mime_cat :: "u8 list"
  Flags_cat :: u16
  Status_cat :: u16
  CatalogFlags_cat :: u16
  Kind_cat :: u32
  DataForkSize_cat :: u64
  ResourceForkSize_cat :: u64
  DataFork_cat :: u64
  ResourceFork_cat :: u64
  NextSibling_cat :: u64
  PrevSibling_cat :: u64
  NextBestSibling_cat :: u64
  NextPrevSibling_cat :: u64
  Checksum_cat :: u32

record nefs_fork =
  ForkOrCatalog_frk :: u8
  ForkName_frk :: "u8 list"
  CatalogName_frk :: "u8 list"
  Flags_frk :: u32
  Kind_frk :: u32
  ResourceId_frk :: u64
  ResourceKind_frk :: u32
  ResourceFlags_frk :: u32
  DataOffset_frk :: u64
  DataSize_frk :: u64
  NextSibling_frk :: u64
  PreviousSibling_frk :: u64

record nefs_root =
  Ident_rt :: "u8 list"
  PartitionName_rt :: "u8 list"
  Flags_rt :: u32
  Kind_rt :: u32
  StartCatalog_rt :: u64
  CatalogCount_rt :: u64
  DiskSize_rt :: u64
  FreeCatalog_rt :: u64
  FreeSectors_rt :: u64
  SectorCount_rt :: u64
  SectorSize_rt :: u64
  Version_rt :: u64
  EpmBlock_rt :: u64
  Pad_rt :: "u8 list"

section \<open>Encodings\<close>

definition sizeof_cat :: nat where "sizeof_cat = 535"
definition sizeof_frk :: nat where "sizeof_frk = 512"
definition sizeof_rt :: nat where "sizeof_rt = 512"

definition encode_cat :: "nefs_catalog \<Rightarrow> u8 list" where
  "encode_cat c = enc8 (ForkOrCatalog_cat c) @ Name_cat c @ Mime_cat c @ enc16 (Flags_cat c) @ enc16 (Status_cat c)
     @ enc16 (CatalogFlags_cat c) @ enc32 (Kind_cat c) @ le_bytes 8 (DataForkSize_cat c) @ le_bytes 8 (ResourceForkSize_cat c)
     @ le_bytes 8 (DataFork_cat c) @ le_bytes 8 (ResourceFork_cat c) @ le_bytes 8 (NextSibling_cat c)
     @ le_bytes 8 (PrevSibling_cat c) @ le_bytes 8 (NextBestSibling_cat c) @ le_bytes 8 (NextPrevSibling_cat c)
     @ enc32 (Checksum_cat c)"

definition decode_cat :: "u8 list \<Rightarrow> nefs_catalog" where
  "decode_cat bs = \<lparr>ForkOrCatalog_cat = dec8 bs 0, Name_cat = field bs 1 256, Mime_cat = field bs 257 200,
     Flags_cat = dec16 bs 457, Status_cat = dec16 bs 459, CatalogFlags_cat = dec16 bs 461, Kind_cat = dec32 bs 463,
     DataForkSize_cat = dec64 bs 467, ResourceForkSize_cat = dec64 bs 475, DataFork_cat = dec64 bs 483,
     ResourceFork_cat = dec64 bs 491, NextSibling_cat = dec64 bs 499, PrevSibling_cat = dec64 bs 507,
     NextBestSibling_cat = dec64 bs 515, NextPrevSibling_cat = dec64 bs 523, Checksum_cat = dec32 bs 531\<rparr>"

definition encode_frk :: "nefs_fork \<Rightarrow> u8 list" where
  "encode_frk f = enc8 (ForkOrCatalog_frk f) @ ForkName_frk f @ CatalogName_frk f @ enc32 (Flags_frk f) @ enc32 (Kind_frk f)
     @ le_bytes 8 (ResourceId_frk f) @ enc32 (ResourceKind_frk f) @ enc32 (ResourceFlags_frk f)
     @ le_bytes 8 (DataOffset_frk f) @ le_bytes 8 (DataSize_frk f) @ le_bytes 8 (NextSibling_frk f)
     @ le_bytes 8 (PreviousSibling_frk f)"

definition decode_frk :: "u8 list \<Rightarrow> nefs_fork" where
  "decode_frk bs = \<lparr>ForkOrCatalog_frk = dec8 bs 0, ForkName_frk = field bs 1 199, CatalogName_frk = field bs 200 256,
     Flags_frk = dec32 bs 456, Kind_frk = dec32 bs 460, ResourceId_frk = dec64 bs 464, ResourceKind_frk = dec32 bs 472,
     ResourceFlags_frk = dec32 bs 476, DataOffset_frk = dec64 bs 480, DataSize_frk = dec64 bs 488,
     NextSibling_frk = dec64 bs 496, PreviousSibling_frk = dec64 bs 504\<rparr>"

definition encode_rt :: "nefs_root \<Rightarrow> u8 list" where
  "encode_rt r = Ident_rt r @ PartitionName_rt r @ enc32 (Flags_rt r) @ enc32 (Kind_rt r) @ le_bytes 8 (StartCatalog_rt r)
     @ le_bytes 8 (CatalogCount_rt r) @ le_bytes 8 (DiskSize_rt r) @ le_bytes 8 (FreeCatalog_rt r)
     @ le_bytes 8 (FreeSectors_rt r) @ le_bytes 8 (SectorCount_rt r) @ le_bytes 8 (SectorSize_rt r)
     @ le_bytes 8 (Version_rt r) @ le_bytes 8 (EpmBlock_rt r) @ Pad_rt r"

definition decode_rt :: "u8 list \<Rightarrow> nefs_root" where
  "decode_rt bs = \<lparr>Ident_rt = field bs 0 8, PartitionName_rt = field bs 8 32, Flags_rt = dec32 bs 40, Kind_rt = dec32 bs 44,
     StartCatalog_rt = dec64 bs 48, CatalogCount_rt = dec64 bs 56, DiskSize_rt = dec64 bs 64, FreeCatalog_rt = dec64 bs 72,
     FreeSectors_rt = dec64 bs 80, SectorCount_rt = dec64 bs 88, SectorSize_rt = dec64 bs 96, Version_rt = dec64 bs 104,
     EpmBlock_rt = dec64 bs 112, Pad_rt = field bs 120 392\<rparr>"

definition cat_ok :: "nefs_catalog \<Rightarrow> bool" where
  "cat_ok c \<longleftrightarrow> length (Name_cat c) = 256 \<and> length (Mime_cat c) = 200"

definition frk_ok :: "nefs_fork \<Rightarrow> bool" where
  "frk_ok f \<longleftrightarrow> length (ForkName_frk f) = 199 \<and> length (CatalogName_frk f) = 256"

definition rt_ok :: "nefs_root \<Rightarrow> bool" where
  "rt_ok r \<longleftrightarrow> length (Ident_rt r) = 8 \<and> length (PartitionName_rt r) = 32 \<and> length (Pad_rt r) = 392"

text \<open>The values of default initialisation, and the names as C strings.\<close>

definition new_catalog :: nefs_catalog where
  "new_catalog = \<lparr>ForkOrCatalog_cat = 0, Name_cat = replicate 256 0, Mime_cat = replicate 200 0, Flags_cat = 0,
     Status_cat = 0, CatalogFlags_cat = 0, Kind_cat = 0, DataForkSize_cat = 0, ResourceForkSize_cat = 0, DataFork_cat = 0,
     ResourceFork_cat = 0, NextSibling_cat = 0, PrevSibling_cat = 0, NextBestSibling_cat = 0, NextPrevSibling_cat = 0,
     Checksum_cat = 0\<rparr>"

definition new_fork :: nefs_fork where
  "new_fork = \<lparr>ForkOrCatalog_frk = 1, ForkName_frk = replicate 199 0, CatalogName_frk = replicate 256 0, Flags_frk = 0,
     Kind_frk = 0, ResourceId_frk = 0, ResourceKind_frk = 0, ResourceFlags_frk = 0, DataOffset_frk = 0, DataSize_frk = 0,
     NextSibling_frk = 0, PreviousSibling_frk = 0\<rparr>"

definition c_str :: "u8 list \<Rightarrow> u8 list" where
  "c_str bs = takeWhile (\<lambda>b. b \<noteq> 0) bs"

definition cat_name :: "nefs_catalog \<Rightarrow> u8 list" where
  "cat_name c = c_str (drop 1 (encode_cat c))"

definition frk_name :: "nefs_fork \<Rightarrow> u8 list" where
  "frk_name f = c_str (drop 1 (encode_frk f))"

definition frk_catalog :: "nefs_fork \<Rightarrow> u8 list" where
  "frk_catalog f = c_str (drop 200 (encode_frk f))"

text \<open>\<open>rt_copy_memory_safe\<close> of \<open>n\<close> bytes into an array: the array is cleared when they do not fit.\<close>

definition copy_array :: "u8 list \<Rightarrow> u8 list \<Rightarrow> u8 list" where
  "copy_array src dst = (if length src > length dst then replicate (length dst) 0 else src @ drop (length src) dst)"

section \<open>Round trips\<close>

lemma length_encode_cat: "cat_ok c \<Longrightarrow> length (encode_cat c) = sizeof_cat"
  and length_encode_frk: "frk_ok f \<Longrightarrow> length (encode_frk f) = sizeof_frk"
  and length_encode_rt: "rt_ok r \<Longrightarrow> length (encode_rt r) = sizeof_rt"
  by (simp_all add: encode_cat_def encode_frk_def encode_rt_def cat_ok_def frk_ok_def rt_ok_def sizeof_cat_def
      sizeof_frk_def sizeof_rt_def)

lemma dec32_last: "dec32 (enc32 x) 0 = x"
  using dec32_here [of x "[]"] by simp

lemma decode_encode_cat: "cat_ok c \<Longrightarrow> decode_cat (encode_cat c) = c"
  unfolding encode_cat_def decode_cat_def cat_ok_def by (cases c) (simp add: codec_simps dec32_last)

lemma decode_encode_frk: "frk_ok f \<Longrightarrow> decode_frk (encode_frk f) = f"
  unfolding encode_frk_def decode_frk_def frk_ok_def by (cases f) (simp add: codec_simps)

lemma decode_encode_rt: "rt_ok r \<Longrightarrow> decode_rt (encode_rt r) = r"
  unfolding encode_rt_def decode_rt_def rt_ok_def by (cases r) (simp add: codec_simps)

lemma decode_nefs_ok:
  "length bs = sizeof_cat \<Longrightarrow> cat_ok (decode_cat bs)" "length bs = sizeof_frk \<Longrightarrow> frk_ok (decode_frk bs)"
  "length bs = sizeof_rt \<Longrightarrow> rt_ok (decode_rt bs)"
  by (simp_all add: cat_ok_def frk_ok_def rt_ok_def decode_cat_def decode_frk_def decode_rt_def field_def
      sizeof_cat_def sizeof_frk_def sizeof_rt_def)

interpretation cat: packed encode_cat decode_cat cat_ok sizeof_cat
  by unfold_locales (simp_all add: length_encode_cat decode_encode_cat decode_nefs_ok, simp add: sizeof_cat_def)

interpretation frk: packed encode_frk decode_frk frk_ok sizeof_frk
  by unfold_locales (simp_all add: length_encode_frk decode_encode_frk decode_nefs_ok, simp add: sizeof_frk_def)

interpretation rt: packed encode_rt decode_rt rt_ok sizeof_rt
  by unfold_locales (simp_all add: length_encode_rt decode_encode_rt decode_nefs_ok, simp add: sizeof_rt_def)

lemma new_ok [simp]: "cat_ok new_catalog" "frk_ok new_fork"
  by (simp_all add: cat_ok_def frk_ok_def new_catalog_def new_fork_def)

lemma length_copy_array [simp]: "length (copy_array src dst) = length dst"
  by (auto simp: copy_array_def)

end
