(* ===== verification/NeFS.thy ===== *)
theory NeFS
  imports NeFSLayout
begin

text \<open>
  The NeFS file system, \<^verbatim>\<open>src/FS/NeFS+FileSystemParser.cpp\<close>, its manager \<^verbatim>\<open>NeFS+FileMgr.cpp\<close>
  and the journal of \<^verbatim>\<open>FSKit/NeFS.h\<close>.  The operations take the drive A of the mount point and
  return it updated; names are the bytes of the C strings, and where the code treats the null
  pointer and the empty string alike both are the empty list.  Structures the code takes from the
  heap are values, and the heap is taken to have room for them.

  The outer option tells whether the call returns: \<open>None\<close> is a chain of catalogs or forks that
  never ends, a division by a sector size of zero, or (in \<open>FindCatalog\<close>) a path that
  overruns the buffer for its parent.  \<open>before\<close> gives the bytes in memory before the buffer of a
  name, which a lookup reads when a name on the disk is longer than the one it looks for.
\<close>

section \<open>Structures on the drive\<close>

definition read_cat :: "drive \<Rightarrow> u64 \<Rightarrow> nefs_catalog" where
  "read_cat t lba = decode_cat (io_drv_input t lba sizeof_cat)"

definition write_cat :: "drive \<Rightarrow> u64 \<Rightarrow> nefs_catalog \<Rightarrow> drive" where
  "write_cat t lba c = io_drv_output t lba (encode_cat c)"

definition read_frk :: "drive \<Rightarrow> u64 \<Rightarrow> nefs_fork" where
  "read_frk t lba = decode_frk (io_drv_input t lba sizeof_frk)"

definition write_frk :: "drive \<Rightarrow> u64 \<Rightarrow> nefs_fork \<Rightarrow> drive" where
  "write_frk t lba f = io_drv_output t lba (encode_frk f)"

definition read_rt :: "drive \<Rightarrow> nefs_root" where
  "read_rt t = decode_rt (io_drv_input t kNeFSRootCatalogStartAddress sizeof_rt)"

definition write_rt :: "drive \<Rightarrow> nefs_root \<Rightarrow> drive" where
  "write_rt t r = io_drv_output t kNeFSRootCatalogStartAddress (encode_rt r)"

definition cat_created :: "nefs_catalog \<Rightarrow> bool" where
  "cat_created c \<longleftrightarrow> ucast (Flags_cat c) AND kNeFSFlagCreated \<noteq> 0"

definition frk_created :: "nefs_fork \<Rightarrow> bool" where
  "frk_created f \<longleftrightarrow> Flags_frk f AND kNeFSFlagCreated \<noteq> 0"

definition is_valid_size :: "u64 \<Rightarrow> u64 \<Rightarrow> bool" where
  "is_valid_size sz max_size \<longleftrightarrow> sz > 0 \<and> sz \<le> max_size"

definition is_valid_lba :: "drive \<Rightarrow> u64 \<Rightarrow> bool option" where
  "is_valid_lba t lba =
     (let part_block = read_rt t
      in if \<not> fPacketGood t then Some False
         else if fSectorSz t = 0 then None
         else Some (lba \<ge> StartCatalog_rt part_block \<and> lba < DiskSize_rt part_block div fSectorSz t))"

definition catalog_sectors :: "drive \<Rightarrow> u64" where
  "catalog_sectors t = (of_nat sizeof_cat + fSectorSz t - 1) div fSectorSz t"

section \<open>Names\<close>

definition Equals :: "u8 list \<Rightarrow> u8 list \<Rightarrow> bool" where
  "Equals lhs rhs =
     (if length rhs \<noteq> length lhs then False
      else list_all (\<lambda>index. rhs ! index = lhs ! index) [0..<length rhs])"

text \<open>The string at \<open>catalog_name + (rt_string_len(catalog_name) - k)\<close>.\<close>

definition name_tail :: "(u8 list \<Rightarrow> u8 list) \<Rightarrow> u8 list \<Rightarrow> nat \<Rightarrow> u8 list" where
  "name_tail before nm k = c_str (drop (length (before nm) + length nm - k) (before nm @ nm))"

primrec strip_back :: "u8 list \<Rightarrow> nat \<Rightarrow> nat" where
  "strip_back p 0 = 0"
| "strip_back p (Suc i) = (if p ! Suc i \<noteq> kNeFSSeparator then strip_back p i else Suc i)"

definition parent_index :: "u8 list \<Rightarrow> nat" where
  "parent_index nm =
     (let i = length nm - 1 in strip_back nm (if nm ! i = kNeFSSeparator then i - 1 else i))"

definition parent_path :: "u8 list \<Rightarrow> u8 list option" where
  "parent_path nm =
     (let i = parent_index nm
      in if i = 0 \<and> nm ! 0 \<noteq> kNeFSSeparator then None else Some (take (i + 1) nm))"

section \<open>Lookup\<close>

partial_function (option) scan_from ::
  "(u8 list \<Rightarrow> u8 list) \<Rightarrow> u8 list \<Rightarrow> bool \<Rightarrow> u64 \<Rightarrow> drive \<Rightarrow> u64 \<Rightarrow> (drive \<times> (nefs_catalog \<times> u64) option) option" where
  "scan_from before nm allow_hidden start t cursor =
     (if cursor \<ge> start \<and> fPacketGood t then
        let tmp = read_cat t cursor
        in if Equals (cat_name tmp) (name_tail before nm (length (cat_name tmp))) then
             if Status_cat tmp = kNeFSStatusLocked \<and> \<not> allow_hidden then
               Some (t\<lparr>err_global := kErrorFileLocked\<rparr>, None)
             else if \<not> cat_created tmp then Some (t\<lparr>err_global := kErrorFileNotFound\<rparr>, None)
             else Some (t, Some (tmp, cursor))
           else scan_from before nm allow_hidden start t (NextSibling_cat tmp)
      else Some (t, None))"

text \<open>
  \<open>FindCatalog\<close> without \<open>local_search\<close>; the address it returns is the \<open>out_lba\<close> it was given
  unless it finds a catalog.
\<close>

definition find_from ::
  "(u8 list \<Rightarrow> u8 list) \<Rightarrow> drive \<Rightarrow> u8 list \<Rightarrow> u64 \<Rightarrow> bool \<Rightarrow> u64 \<Rightarrow> (drive \<times> u64 \<times> nefs_catalog option) option" where
  "find_from before t nm out_lba search_hidden lba_start =
     (case scan_from before nm search_hidden (StartCatalog_rt (read_rt t)) t lba_start of
        None \<Rightarrow> None
      | Some (t, None) \<Rightarrow> Some (t, out_lba, None)
      | Some (t, Some (c, cursor)) \<Rightarrow> Some (t, cursor, Some c))"

definition find_whole ::
  "(u8 list \<Rightarrow> u8 list) \<Rightarrow> drive \<Rightarrow> u8 list \<Rightarrow> u64 \<Rightarrow> bool \<Rightarrow> (drive \<times> u64 \<times> nefs_catalog option) option" where
  "find_whole before t nm out_lba search_hidden =
     (if nm = [] then Some (t, out_lba, None)
      else find_from before t nm out_lba search_hidden (StartCatalog_rt (read_rt t)))"

definition FindCatalog ::
  "(u8 list \<Rightarrow> u8 list) \<Rightarrow> drive \<Rightarrow> u8 list \<Rightarrow> u64 \<Rightarrow> bool \<Rightarrow> bool \<Rightarrow> (drive \<times> u64 \<times> nefs_catalog option) option" where
  "FindCatalog before t nm out_lba search_hidden local_search =
     (if nm = [] then Some (t, out_lba, None)
      else if \<not> Equals nm kNeFSRoot \<and> local_search then
        if length nm > kNeFSCatalogNameLen then None
        else if length nm = kNeFSCatalogNameLen then Some (t, out_lba, None)
        else case parent_path nm of
          None \<Rightarrow> Some (t, out_lba, None)
        | Some parent_name \<Rightarrow>
            (case find_whole before t parent_name out_lba search_hidden of
               None \<Rightarrow> None
             | Some (t, out_lba, None) \<Rightarrow> find_whole before t nm out_lba search_hidden
             | Some (t, out_lba, Some parent_catalog) \<Rightarrow>
                 (case find_from before t nm out_lba search_hidden (NextSibling_cat parent_catalog) of
                    None \<Rightarrow> None
                  | Some (t, out_lba, Some found) \<Rightarrow> Some (t, out_lba, Some found)
                  | Some (t, out_lba, None) \<Rightarrow> find_whole before t nm out_lba search_hidden))
      else find_whole before t nm out_lba search_hidden)"

definition GetCatalog :: "(u8 list \<Rightarrow> u8 list) \<Rightarrow> drive \<Rightarrow> u8 list \<Rightarrow> (drive \<times> nefs_catalog option) option" where
  "GetCatalog before t nm =
     (case FindCatalog before t nm 0 True True of None \<Rightarrow> None | Some (t, _, c) \<Rightarrow> Some (t, c))"

definition CloseCatalog :: "nefs_catalog option \<Rightarrow> bool" where
  "CloseCatalog catalog = (catalog \<noteq> None)"

section \<open>Catalogs\<close>

definition child_catalog :: "u8 list \<Rightarrow> u32 \<Rightarrow> u32 \<Rightarrow> u64 \<Rightarrow> nefs_catalog" where
  "child_catalog nm flags kind out_lba =
     (let i = strip_back nm (if kind = kNeFSCatalogKindDir then length nm - 2 else length nm - 1)
      in new_catalog\<lparr>NextSibling_cat := out_lba, PrevSibling_cat := out_lba, Kind_cat := kind,
           Flags_cat := ucast kNeFSFlagCreated, CatalogFlags_cat := ucast flags,
           Name_cat := copy_array (drop i nm) (Name_cat new_catalog)\<rparr>)"

text \<open>The catalog goes to the slot \<open>start_free\<close>, and the root block is read again, counted up and written.\<close>

definition place_catalog :: "drive \<Rightarrow> nefs_root \<Rightarrow> nefs_catalog \<Rightarrow> u64 \<Rightarrow> drive" where
  "place_catalog t part_block child start_free =
     (let sectors = catalog_sectors t;
          fork = DiskSize_rt part_block - start_free;
          t = write_cat t start_free new_catalog;
          t = write_cat t start_free
            (child\<lparr>NextSibling_cat := start_free + sectors, DataFork_cat := fork, ResourceFork_cat := fork\<rparr>);
          part_block = read_rt t
      in write_rt t (part_block\<lparr>FreeSectors_rt := FreeSectors_rt part_block - sectors,
           CatalogCount_rt := CatalogCount_rt part_block + 1, FreeCatalog_rt := FreeCatalog_rt part_block - 1\<rparr>))"

partial_function (option) create_loop ::
  "drive \<Rightarrow> nefs_root \<Rightarrow> u8 list \<Rightarrow> nefs_catalog \<Rightarrow> u64 \<Rightarrow> (drive \<times> nefs_catalog option) option" where
  "create_loop t part_block nm child start_free =
     (if start_free < StartCatalog_rt part_block + CatalogCount_rt part_block * catalog_sectors t then
        let temporary_catalog = read_cat t start_free
        in if \<not> cat_created temporary_catalog then
             Some (place_catalog t part_block child start_free, Some temporary_catalog)
           else if Equals (cat_name temporary_catalog) nm then Some (t, Some temporary_catalog)
           else create_loop t part_block nm child (start_free + catalog_sectors t)
      else Some (t, None))"

definition CreateCatalog_kind ::
  "(u8 list \<Rightarrow> u8 list) \<Rightarrow> drive \<Rightarrow> u8 list \<Rightarrow> u32 \<Rightarrow> u32 \<Rightarrow> (drive \<times> nefs_catalog option) option" where
  "CreateCatalog_kind before t nm flags kind =
     (if nm = [] then Some (t, None)
      else if kind = kNeFSCatalogKindDir \<and> last nm \<noteq> kNeFSSeparator then Some (t, None)
      else if kind \<noteq> kNeFSCatalogKindDir \<and> last nm = kNeFSSeparator then Some (t, None)
      else case FindCatalog before t nm 0 True False of
        None \<Rightarrow> None
      | Some (t, _, Some _) \<Rightarrow> Some (t\<lparr>err_global := kErrorFileExists\<rparr>, None)
      | Some (t, out_lba, None) \<Rightarrow>
          if length nm < 2 then Some (t\<lparr>err_global := kErrorFileNotFound\<rparr>, None)
          else case parent_path nm of
            None \<Rightarrow> Some (t\<lparr>err_global := kErrorFileNotFound\<rparr>, None)
          | Some parent_name \<Rightarrow>
              (case FindCatalog before t parent_name out_lba True False of
                 None \<Rightarrow> None
               | Some (t, out_lba, catalog) \<Rightarrow>
                   (if \<exists>c \<in> set_option catalog. Kind_cat c = kNeFSCatalogKindFile then Some (t, None)
                    else
                      let out_lba = (if catalog = None then StartCatalog_rt (read_rt t) else out_lba)
                      in if fPacketReadOnly t then Some (t, None)
                         else if FreeCatalog_rt (read_rt t) < 1 then Some (t, None)
                         else if fSectorSz t = 0 then None
                         else create_loop t (read_rt t) nm (child_catalog nm flags kind out_lba) out_lba)))"

definition CreateCatalog :: "(u8 list \<Rightarrow> u8 list) \<Rightarrow> drive \<Rightarrow> u8 list \<Rightarrow> (drive \<times> nefs_catalog option) option" where
  "CreateCatalog before t nm = CreateCatalog_kind before t nm 0 kNeFSCatalogKindFile"

text \<open>Marking the forks of a chain as deleted.\<close>

partial_function (option) delete_forks :: "drive \<Rightarrow> u64 \<Rightarrow> drive option" where
  "delete_forks t fork_lba =
     (if fork_lba \<ge> kNeFSCatalogStartAddress then
        let fork_buf = read_frk t fork_lba;
            fork_buf = fork_buf\<lparr>Flags_frk := (Flags_frk fork_buf AND NOT kNeFSFlagCreated) OR kNeFSFlagDeleted\<rparr>
        in delete_forks (write_frk t fork_lba fork_buf) (NextSibling_frk fork_buf)
      else Some t)"

definition deleted_catalog :: "nefs_catalog \<Rightarrow> nefs_catalog" where
  "deleted_catalog c =
     c\<lparr>Flags_cat := ucast ((ucast (Flags_cat c) AND NOT kNeFSFlagCreated) OR kNeFSFlagDeleted)\<rparr>"

definition drop_catalog :: "drive \<Rightarrow> u64 \<Rightarrow> nefs_catalog \<Rightarrow> drive" where
  "drop_catalog t out_lba c =
     (let t = write_cat t out_lba (deleted_catalog c);
          part_block = read_rt t
      in write_rt t (part_block\<lparr>CatalogCount_rt := (if CatalogCount_rt part_block > 0 then CatalogCount_rt part_block - 1
                                                  else CatalogCount_rt part_block),
           FreeSectors_rt := FreeSectors_rt part_block + 1\<rparr>))"

definition RemoveCatalog :: "(u8 list \<Rightarrow> u8 list) \<Rightarrow> drive \<Rightarrow> u8 list option \<Rightarrow> (drive \<times> bool) option" where
  "RemoveCatalog before t catalog_name =
     (case catalog_name of
        None \<Rightarrow> Some (t\<lparr>err_global := kErrorInternal\<rparr>, False)
      | Some nm \<Rightarrow>
          if Equals nm kNeFSRoot then Some (t\<lparr>err_global := kErrorInternal\<rparr>, False)
          else case FindCatalog before t nm 0 True True of
            None \<Rightarrow> None
          | Some (t, _, None) \<Rightarrow> Some (t, False)
          | Some (t, out_lba, Some catalog) \<Rightarrow>
              (case delete_forks t (DataFork_cat catalog) of
                 None \<Rightarrow> None
               | Some t \<Rightarrow>
                   (case delete_forks t (ResourceFork_cat catalog) of
                      None \<Rightarrow> None
                    | Some t \<Rightarrow>
                        if out_lba \<ge> kNeFSCatalogStartAddress \<or> cat_created catalog then
                          Some (drop_catalog t out_lba catalog, True)
                        else Some (t, False))))"

section \<open>Forks\<close>

partial_function (option) fork_loop ::
  "drive \<Rightarrow> nefs_fork \<Rightarrow> u64 \<Rightarrow> u64 \<Rightarrow> nefs_fork \<Rightarrow> (drive \<times> (u64 \<times> u64) option) option" where
  "fork_loop t the_fork lba lba_prev prev_fork =
     (if \<not> fPacketGood t then Some (t, None)
      else let cur_fork = read_frk t lba
      in if frk_created cur_fork then
           if Equals (frk_name cur_fork) (frk_name the_fork) \<and> Equals (frk_catalog cur_fork) (frk_catalog the_fork)
           then Some (t, Some (lba, lba_prev))
           else fork_loop t the_fork (NextSibling_frk cur_fork) lba cur_fork
         else
           Some (if lba \<ge> kNeFSCatalogStartAddress then write_frk t lba_prev (prev_fork\<lparr>NextSibling_frk := lba\<rparr>) else t,
             Some (lba, lba_prev)))"

definition CreateFork :: "(u8 list \<Rightarrow> u8 list) \<Rightarrow> drive \<Rightarrow> nefs_fork \<Rightarrow> (drive \<times> nefs_fork \<times> bool) option" where
  "CreateFork before t the_fork =
     (if ForkName_frk the_fork ! 0 = 0 \<or> CatalogName_frk the_fork ! 0 = 0 \<or> DataSize_frk the_fork = 0
      then Some (t, the_fork, False)
      else case GetCatalog before t (frk_catalog the_fork) of
        None \<Rightarrow> None
      | Some (t, None) \<Rightarrow> Some (t, the_fork, False)
      | Some (t, Some catalog) \<Rightarrow>
          if DataFork_cat catalog < kNeFSCatalogStartAddress then Some (t, the_fork, False)
          else case fork_loop t the_fork (DataFork_cat catalog) (DataFork_cat catalog) new_fork of
            None \<Rightarrow> None
          | Some (t, None) \<Rightarrow> Some (t, the_fork, False)
          | Some (t, Some (lba, lba_prev)) \<Rightarrow>
              let sectorCount = (DataSize_frk the_fork + kNeFSSectorSz - 1) div kNeFSSectorSz;
                  the_fork = the_fork\<lparr>DataOffset_frk := lba + 1, PreviousSibling_frk := lba_prev,
                    NextSibling_frk := lba + 1 + sectorCount, Flags_frk := Flags_frk the_fork OR kNeFSFlagCreated\<rparr>;
                  t = write_frk t lba the_fork;
                  t = fst (fs_ifs_write True t 0 lba (encode_frk the_fork))
              in Some (t, the_fork, True))"

partial_function (option) find_fork_loop ::
  "int \<Rightarrow> u8 list \<Rightarrow> u8 list \<Rightarrow> drive \<Rightarrow> u64 \<Rightarrow> (drive \<times> nefs_fork option) option" where
  "find_fork_loop mDriveIndex catalog_name nm t lba =
     (if lba \<ge> kNeFSCatalogStartAddress then
        let (t, res, content) = fs_ifs_read True t mDriveIndex lba sizeof_frk
        in if res \<noteq> 0 then
             Some (if res = 1 then t\<lparr>err_global := kErrorDiskReadOnly\<rparr>
                   else if res = 2 then t\<lparr>err_global := kErrorDiskIsFull\<rparr>
                   else if res = 3 then t\<lparr>err_global := kErrorNoSuchDisk\<rparr> else t, None)
           else let local_buf = decode_frk content
             in if Equals (frk_name local_buf) nm \<and> Equals (frk_catalog local_buf) catalog_name then Some (t, Some local_buf)
                else find_fork_loop mDriveIndex catalog_name nm t (NextSibling_frk local_buf)
      else Some (t, None))"

definition FindFork ::
  "int \<Rightarrow> drive \<Rightarrow> nefs_catalog option \<Rightarrow> u8 list option \<Rightarrow> bool \<Rightarrow> (drive \<times> nefs_fork option) option" where
  "FindFork mDriveIndex t catalog nm is_data =
     (case (catalog, nm) of
        (Some c, Some nm) \<Rightarrow>
          find_fork_loop mDriveIndex (cat_name c) nm t (if is_data then DataFork_cat c else ResourceFork_cat c)
      | _ \<Rightarrow> Some (t, None))"

section \<open>Data\<close>

function write_chunks :: "drive \<Rightarrow> u64 \<Rightarrow> u8 list \<Rightarrow> nat \<Rightarrow> drive" where
  "write_chunks t base_lba buf offset =
     (if offset < length buf then
        let chunk = (if length buf - offset > 512 then 512 else length buf - offset)
        in write_chunks (io_drv_output t (base_lba + of_nat (offset div 512)) (take chunk (drop offset buf)))
             base_lba buf (offset + chunk)
      else t)"
  by pat_completeness auto
termination by (relation "measure (\<lambda>(t, base, buf, offset). length buf - offset)") auto

declare write_chunks.simps [simp del]

partial_function (option) write_loop ::
  "drive \<Rightarrow> u64 \<Rightarrow> u8 list \<Rightarrow> u8 list \<Rightarrow> u8 list \<Rightarrow> u64 \<Rightarrow> (drive \<times> bool) option" where
  "write_loop t start_catalog catalog_name fork_name data startFork =
     (if startFork \<ge> start_catalog \<and> fPacketGood t then
        let f = read_frk t startFork
        in if frk_created f \<and> Equals (frk_name f) fork_name \<and> Equals (frk_catalog f) catalog_name
             \<and> DataSize_frk f = of_nat (length data) then Some (write_chunks t (DataOffset_frk f) data 0, True)
           else write_loop t start_catalog catalog_name fork_name data (NextSibling_frk f)
      else Some (t, False))"

definition WriteCatalog ::
  "(u8 list \<Rightarrow> u8 list) \<Rightarrow> drive \<Rightarrow> u8 list \<Rightarrow> bool \<Rightarrow> u8 list \<Rightarrow> u8 list \<Rightarrow> (drive \<times> bool) option" where
  "WriteCatalog before t catalog_name is_rsrc_fork data fork_name =
     (if length data < 1 then Some (t, False)
      else case GetCatalog before t catalog_name of
        None \<Rightarrow> None
      | Some (t, None) \<Rightarrow> Some (t, False)
      | Some (t, Some catalog) \<Rightarrow>
          if \<not> is_valid_size (of_nat (length data))
               (if is_rsrc_fork then ResourceForkSize_cat catalog else DataForkSize_cat catalog) then Some (t, False)
          else let startFork = (if is_rsrc_fork then ResourceFork_cat catalog else DataFork_cat catalog)
            in case is_valid_lba t startFork of
                 None \<Rightarrow> None
               | Some False \<Rightarrow> Some (t, False)
               | Some True \<Rightarrow> write_loop t (StartCatalog_rt (read_rt t)) catalog_name fork_name data startFork)"

partial_function (option) read_loop :: "drive \<Rightarrow> u8 list \<Rightarrow> u8 list \<Rightarrow> u64 \<Rightarrow> nefs_fork option option" where
  "read_loop t catalog_name forkName dataForkLba =
     (if dataForkLba \<ge> kNeFSCatalogStartAddress then
        let f = read_frk t dataForkLba
        in if Equals forkName (frk_name f) \<and> Equals catalog_name (frk_catalog f) then Some (Some f)
           else read_loop t catalog_name forkName (NextSibling_frk f)
      else Some None)"

text \<open>What \<open>ReadCatalog\<close> returns is the fork's structure.\<close>

definition ReadCatalog ::
  "drive \<Rightarrow> nefs_catalog option \<Rightarrow> bool \<Rightarrow> u64 \<Rightarrow> u8 list \<Rightarrow> (drive \<times> nefs_fork option) option" where
  "ReadCatalog t catalog is_rsrc_fork dataSz forkName =
     (case catalog of
        None \<Rightarrow> Some (t\<lparr>err_global := kErrorInvalidData\<rparr>, None)
      | Some c \<Rightarrow>
          if \<not> is_valid_size dataSz (if is_rsrc_fork then ResourceForkSize_cat c else DataForkSize_cat c) then Some (t, None)
          else let dataForkLba = (if is_rsrc_fork then ResourceFork_cat c else DataFork_cat c)
            in case is_valid_lba t dataForkLba of
                 None \<Rightarrow> None
               | Some False \<Rightarrow> Some (t, None)
               | Some True \<Rightarrow> map_option (\<lambda>f. (t, f)) (read_loop t (cat_name c) forkName dataForkLba))"

definition nefs_Seek :: "drive \<Rightarrow> drive \<times> bool" where
  "nefs_Seek t = (t\<lparr>err_global := kErrorUnimplemented\<rparr>, False)"

definition nefs_Tell :: "drive \<Rightarrow> drive \<times> u64" where
  "nefs_Tell t = (t\<lparr>err_global := kErrorUnimplemented\<rparr>, 0)"

section \<open>Formatting\<close>

text \<open>
  The identifier is compared and copied over eight bytes, one more than the literal with its
  terminator has: \<open>over\<close> is the byte that follows the literal in the kernel's image.
\<close>

definition format_root :: "drive \<Rightarrow> u8 \<Rightarrow> u8 list \<Rightarrow> nefs_root \<Rightarrow> nefs_root" where
  "format_root t over part_name r =
     (let sectorCount = drv_pio_get_sector_count t;
          sectorSize = fSectorSz t;
          totalBytes = sectorCount * sectorSize;
          catalogEntries = totalBytes div of_nat sizeof_cat;
          catalogSectors = catalog_sectors t
      in r\<lparr>Ident_rt := kNeFSIdent @ [0, over], PartitionName_rt := copy_array part_name (PartitionName_rt r),
           Version_rt := kNeFSVersionInteger, Kind_rt := kNeFSPartitionTypeStandard,
           StartCatalog_rt := fLbaStart t + catalogSectors, Flags_rt := 0, CatalogCount_rt := catalogEntries,
           FreeCatalog_rt := catalogEntries - 1, SectorCount_rt := sectorCount, DiskSize_rt := totalBytes,
           SectorSize_rt := sectorSize, FreeSectors_rt := sectorCount - catalogSectors\<rparr>)"

definition nefs_Format :: "drive \<Rightarrow> u8 \<Rightarrow> u8 list \<Rightarrow> (drive \<times> bool) option" where
  "nefs_Format t over part_name =
     (if part_name = [] then Some (t, False)
      else let t = io_drv_unimplemented t in
        if \<not> fPacketGood t then Some (t\<lparr>err_global := kErrorDiskIsCorrupted\<rparr>, False)
        else let part_block = decode_rt (io_drv_input t (fLbaStart t) sizeof_rt) in
          if Ident_rt part_block = kNeFSIdent @ [0, over] then Some (t, True)
          else if fSectorSz t = 0 then None
          else Some (io_drv_output t (fLbaStart t) (encode_rt (format_root t over part_name part_block)), True))"

definition fs_init_nefs :: "bool \<Rightarrow> bool \<Rightarrow> u8 \<Rightarrow> drive \<Rightarrow> (drive \<times> bool) outcome option" where
  "fs_init_nefs primary secondary over t =
     (let t = io_construct_main_drive primary secondary t
      in if fPacketReadOnly t then Some Stop
         else map_option Ret (nefs_Format t over kNeFSVolumeName))"

section \<open>The manager\<close>

definition is_valid_nefs_catalog :: "nefs_catalog option \<Rightarrow> bool" where
  "is_valid_nefs_catalog node =
     (case node of
        None \<Rightarrow> False
      | Some cat \<Rightarrow>
          \<not> bit (ForkOrCatalog_cat cat) 0
          \<and> Kind_cat cat \<in> {kNeFSCatalogKindFile, kNeFSCatalogKindDir, kNeFSCatalogKindAlias, kNeFSCatalogKindPage}
          \<and> 0 \<in> set (take kNeFSCatalogNameLen (Name_cat cat)))"

definition mgr_Remove :: "(u8 list \<Rightarrow> u8 list) \<Rightarrow> drive \<Rightarrow> u8 list \<Rightarrow> (drive \<times> bool) option" where
  "mgr_Remove before t path = (if path = [] then Some (t, False) else RemoveCatalog before t (Some path))"

definition mgr_Create :: "(u8 list \<Rightarrow> u8 list) \<Rightarrow> drive \<Rightarrow> u8 list \<Rightarrow> (drive \<times> nefs_catalog option) option" where
  "mgr_Create before t path = (if path = [] then Some (t, None) else CreateCatalog before t path)"

definition mgr_CreateDirectory :: "(u8 list \<Rightarrow> u8 list) \<Rightarrow> drive \<Rightarrow> u8 list \<Rightarrow> (drive \<times> nefs_catalog option) option" where
  "mgr_CreateDirectory before t path =
     (if path = [] then Some (t, None) else CreateCatalog_kind before t path 0 kNeFSCatalogKindDir)"

definition mgr_CreateAlias :: "(u8 list \<Rightarrow> u8 list) \<Rightarrow> drive \<Rightarrow> u8 list \<Rightarrow> (drive \<times> nefs_catalog option) option" where
  "mgr_CreateAlias before t path =
     (if path = [] then Some (t, None) else CreateCatalog_kind before t path 0 kNeFSCatalogKindAlias)"

definition mgr_CreateSwapFile :: "(u8 list \<Rightarrow> u8 list) \<Rightarrow> drive \<Rightarrow> u8 list \<Rightarrow> (drive \<times> nefs_catalog option) option" where
  "mgr_CreateSwapFile before t path =
     (if path = [] then Some (t, None) else CreateCatalog_kind before t path 0 kNeFSCatalogKindPage)"

definition mgr_Open :: "(u8 list \<Rightarrow> u8 list) \<Rightarrow> drive \<Rightarrow> u8 list \<Rightarrow> u8 list \<Rightarrow> (drive \<times> nefs_catalog option) option" where
  "mgr_Open before t path r =
     (if path = [] then Some (t, None) else if r = [] then Some (t, None) else GetCatalog before t path)"

definition kFileFlagRsrc :: u32 where "kFileFlagRsrc = 104"
definition kFileMgrNPos :: u64 where "kFileMgrNPos = NOT 0"

text \<open>A data pointer is \<open>None\<close> when it is null; its size is the length of the data.\<close>

definition mgr_Write_fork ::
  "(u8 list \<Rightarrow> u8 list) \<Rightarrow> drive \<Rightarrow> u8 list \<Rightarrow> nefs_catalog option \<Rightarrow> u8 list option \<Rightarrow> u32 \<Rightarrow> drive option" where
  "mgr_Write_fork before t nm node data flags =
     (case (node, data) of
        (Some cat, Some bytes) \<Rightarrow>
          if \<not> is_valid_nefs_catalog node \<or> nm = [] then Some t
          else if length bytes = 0 \<or> of_nat (length bytes) > kNeFSForkSize then Some t
          else if Kind_cat cat = kNeFSCatalogKindFile then
            map_option fst (WriteCatalog before t (cat_name cat) (flags AND kFileFlagRsrc \<noteq> 0) bytes nm)
          else Some t
      | _ \<Rightarrow> Some t)"

definition mgr_Write ::
  "(u8 list \<Rightarrow> u8 list) \<Rightarrow> drive \<Rightarrow> nefs_catalog option \<Rightarrow> u8 list option \<Rightarrow> u32 \<Rightarrow> drive option" where
  "mgr_Write before t node data flags =
     (if \<not> is_valid_nefs_catalog node then Some t
      else case data of
        None \<Rightarrow> Some t
      | Some bytes \<Rightarrow>
          if length bytes = 0 \<or> of_nat (length bytes) > kNeFSForkSize then Some t
          else mgr_Write_fork before t kNeFSDataFork node data flags)"

definition mgr_Read_fork ::
  "drive \<Rightarrow> u8 list \<Rightarrow> nefs_catalog option \<Rightarrow> u32 \<Rightarrow> u64 \<Rightarrow> (drive \<times> nefs_fork option) option" where
  "mgr_Read_fork t nm node flags sz =
     (case node of
        None \<Rightarrow> Some (t, None)
      | Some cat \<Rightarrow>
          if \<not> is_valid_nefs_catalog node \<or> nm = [] then Some (t, None)
          else if sz = 0 \<or> sz > kNeFSForkSize then Some (t, None)
          else if Kind_cat cat = kNeFSCatalogKindFile then ReadCatalog t node (flags AND kFileFlagRsrc \<noteq> 0) sz nm
          else Some (t, None))"

definition mgr_Read :: "drive \<Rightarrow> nefs_catalog option \<Rightarrow> u32 \<Rightarrow> u64 \<Rightarrow> (drive \<times> nefs_fork option) option" where
  "mgr_Read t node flags sz =
     (if \<not> is_valid_nefs_catalog node then Some (t, None)
      else if sz = 0 \<or> sz > kNeFSForkSize then Some (t, None)
      else mgr_Read_fork t kNeFSDataFork node flags sz)"

definition mgr_Seek :: "drive \<Rightarrow> nefs_catalog option \<Rightarrow> drive \<times> bool" where
  "mgr_Seek t node = (if \<not> is_valid_nefs_catalog node then (t, False) else nefs_Seek t)"

definition mgr_Tell :: "drive \<Rightarrow> nefs_catalog option \<Rightarrow> drive \<times> u64" where
  "mgr_Tell t node = (if \<not> is_valid_nefs_catalog node then (t, kFileMgrNPos) else nefs_Tell t)"

definition mgr_Rewind :: "drive \<Rightarrow> nefs_catalog option \<Rightarrow> drive \<times> bool" where
  "mgr_Rewind t node = (if \<not> is_valid_nefs_catalog node then (t, False) else mgr_Seek t node)"

section \<open>The journal\<close>

record nefs_journal =
  mNode :: "nefs_catalog option"
  mStamp :: "u8 list"

text \<open>Bytes copied over a buffer from an offset on, whatever field they reach.\<close>

definition overlay :: "u8 list \<Rightarrow> nat \<Rightarrow> u8 list \<Rightarrow> u8 list" where
  "overlay bs off xs = take (length bs) (take off bs @ xs @ drop (off + length xs) bs)"

definition default_stamp :: "u8 list" where
  "default_stamp = [47, 101, 116, 99, 47, 120, 109, 108, 47, 106, 111, 117, 114, 110, 97, 108, 46, 106, 114, 110, 108]
     @ replicate 235 0"

definition journal_dir :: "u8 list" where "journal_dir = [47, 101, 116, 99, 47, 120, 109, 108, 47]"

definition new_journal :: "u8 list option \<Rightarrow> nefs_journal" where
  "new_journal stamp =
     \<lparr>mNode = None, mStamp = (case stamp of None \<Rightarrow> default_stamp | Some s \<Rightarrow> overlay default_stamp 0 s)\<rparr>"

definition CreateJournal ::
  "(u8 list \<Rightarrow> u8 list) \<Rightarrow> drive \<Rightarrow> nefs_journal \<Rightarrow> (drive \<times> nefs_journal \<times> bool) option" where
  "CreateJournal before t j =
     (case CreateCatalog_kind before t journal_dir 0 kNeFSCatalogKindDir of
        None \<Rightarrow> None
      | Some (t, _) \<Rightarrow>
          (case CreateCatalog before t (c_str (mStamp j)) of
             None \<Rightarrow> None
           | Some (t, node) \<Rightarrow> Some (t, j\<lparr>mNode := node\<rparr>, node \<noteq> None)))"

definition GetJournal ::
  "(u8 list \<Rightarrow> u8 list) \<Rightarrow> drive \<Rightarrow> nefs_journal \<Rightarrow> (drive \<times> nefs_journal \<times> bool) option" where
  "GetJournal before t j =
     (case GetCatalog before t (c_str (mStamp j)) of
        None \<Rightarrow> None
      | Some (t, Some node) \<Rightarrow> Some (t, j\<lparr>mNode := Some node\<rparr>, True)
      | Some (t, None) \<Rightarrow> Some (t, j, False))"

definition ReleaseJournal :: "nefs_journal \<Rightarrow> nefs_journal \<times> bool" where
  "ReleaseJournal j = (if mNode j \<noteq> None then (j\<lparr>mNode := None\<rparr>, True) else (j, False))"

definition CommitJournal ::
  "(u8 list \<Rightarrow> u8 list) \<Rightarrow> drive \<Rightarrow> nefs_journal \<Rightarrow> u8 list \<Rightarrow> u8 list \<Rightarrow> (drive \<times> bool) option" where
  "CommitJournal before t j xml_data journal_name =
     (if mNode j = None then Some (t, False)
      else
        let bs = overlay (encode_frk new_fork) 200 (c_str (mStamp j));
            bs = overlay bs 1 journal_name;
            fork = (decode_frk bs)\<lparr>ResourceKind_frk := 0, ResourceId_frk := 0, ResourceFlags_frk := 0,
              DataSize_frk := of_nat (length xml_data), Kind_frk := kNeFSRsrcForkKind\<rparr>
        in case CreateFork before t fork of
             None \<Rightarrow> None
           | Some (t, fork, False) \<Rightarrow> Some (t, False)
           | Some (t, fork, True) \<Rightarrow> WriteCatalog before t (frk_catalog fork) True xml_data (frk_name fork))"

end
