(* ===== verification/NeFSVolume.thy ===== *)
theory NeFSVolume
  imports NeFS "HOL-Library.Sublist"
begin

text \<open>
  What NeFS does to a volume: the lemmas and properties of \<open>NeFS\<close>.  A lookup follows the
  chain of catalogs from the start catalog and takes the first whose name ends the path; formatting
  is idempotent.  The slots of catalogs are counted in bytes and the driver rounds addresses to
  sectors, so the first catalog lands on the root block, long data lands on itself, and a removed
  catalog keeps bits of the flag that says it exists.
\<close>

section \<open>Reading what was written\<close>

lemma read_write_cat [simp]: "drive_writable t a \<Longrightarrow> cat_ok c \<Longrightarrow> read_cat (write_cat t a c) a = c"
  by (simp add: read_cat_def write_cat_def cat.struct_same)

lemma read_write_frk [simp]: "drive_writable t a \<Longrightarrow> frk_ok f \<Longrightarrow> read_frk (write_frk t a f) a = f"
  by (simp add: read_frk_def write_frk_def frk.struct_same)

lemma read_write_rt [simp]: "drive_writable t kNeFSRootCatalogStartAddress \<Longrightarrow> rt_ok r \<Longrightarrow> read_rt (write_rt t r) = r"
  by (simp add: read_rt_def write_rt_def rt.struct_same)

lemma nefs_read_ok [simp]: "cat_ok (read_cat t a)" "frk_ok (read_frk t a)" "rt_ok (read_rt t)"
  by (simp_all add: read_cat_def read_frk_def read_rt_def cat.struct_ok frk.struct_ok rt.struct_ok)

lemma writable_writes [simp]:
  "drive_writable (write_cat t a c) b = drive_writable t b" "drive_writable (write_frk t a f) b = drive_writable t b"
  "drive_writable (write_rt t r) b = drive_writable t b"
  by (simp_all add: write_cat_def write_frk_def write_rt_def hd.writable_put)

lemma read_apart:
  "cat_ok c \<Longrightarrow> drive_apart a sizeof_cat kNeFSRootCatalogStartAddress sizeof_rt \<Longrightarrow> read_rt (write_cat t a c) = read_rt t"
  "rt_ok r \<Longrightarrow> drive_apart kNeFSRootCatalogStartAddress sizeof_rt a sizeof_cat \<Longrightarrow> read_cat (write_rt t r) a = read_cat t a"
  "cat_ok c \<Longrightarrow> drive_apart a sizeof_cat b sizeof_frk \<Longrightarrow> read_frk (write_cat t a c) b = read_frk t b"
  "rt_ok r \<Longrightarrow> drive_apart kNeFSRootCatalogStartAddress sizeof_rt b sizeof_frk \<Longrightarrow> read_frk (write_rt t r) b = read_frk t b"
  by (simp_all add: read_rt_def write_cat_def read_cat_def write_rt_def read_frk_def cat.struct_apart rt.struct_apart)

lemma drive_fields_kept [simp]:
  "fSectorSz (write_cat t a c) = fSectorSz t" "fLbaStart (write_cat t a c) = fLbaStart t"
  "fPacketGood (write_cat t a c) = (fPacketGood t \<and> drive_writable t a)"
  "fPacketGood (write_rt t r) = (fPacketGood t \<and> drive_writable t kNeFSRootCatalogStartAddress)"
  "fPacketGood (write_frk t a f) = (fPacketGood t \<and> drive_writable t a)"
  "fSectorSz (write_rt t r) = fSectorSz t" "fLbaStart (write_rt t r) = fLbaStart t"
  by (auto simp: write_cat_def write_rt_def write_frk_def io_drv_output_def drive_writable_def)

section \<open>Names\<close>

lemma Equals_iff: "Equals lhs rhs \<longleftrightarrow> lhs = rhs"
  by (auto simp: Equals_def list_all_iff intro: nth_equalityI)

text \<open>For a name on the disk that is not longer than the path, the comparison asks for a suffix.\<close>

lemma name_matches_iff:
  assumes "0 \<notin> set nm" and "length x \<le> length nm"
  shows "Equals x (name_tail before nm (length x)) \<longleftrightarrow> suffix x nm"
proof -
  have "name_tail before nm (length x) = drop (length nm - length x) nm"
    using assms in_set_dropD by (fastforce simp: name_tail_def c_str_def takeWhile_eq_all_conv)
  then show ?thesis using assms(2) by (auto simp: Equals_iff suffix_def dest: sym [of x])
      (metis append_take_drop_id)
qed

lemma strip_back_at:
  assumes "i \<le> n" and "p ! i = kNeFSSeparator" and "\<forall>j. i < j \<and> j \<le> n \<longrightarrow> p ! j \<noteq> kNeFSSeparator"
  shows "strip_back p n = i"
  using assms by (induction n) (auto simp: le_Suc_eq)

lemma strip_back_split:
  assumes "kNeFSSeparator \<notin> set x"
  shows "strip_back (d @ [kNeFSSeparator] @ x @ e) (length d + length x) = length d"
proof (rule strip_back_at)
  have "(d @ [kNeFSSeparator] @ x @ e) ! j = x ! (j - length d - 1)" if "length d < j" "j \<le> length d + length x" for j
    using that by (auto simp: nth_append nth_Cons' not_less)
  moreover have "x ! (j - length d - 1) \<noteq> kNeFSSeparator" if "length d < j" "j \<le> length d + length x" for j
    using assms nth_mem [of "j - length d - 1" x] that by fastforce
  ultimately show "\<forall>j. length d < j \<and> j \<le> length d + length x \<longrightarrow> (d @ [kNeFSSeparator] @ x @ e) ! j \<noteq> kNeFSSeparator"
    by metis
qed simp_all

text \<open>The parent of a path is the path up to its last separator, a trailing one not counted.\<close>

lemma parent_path_split:
  assumes "x \<noteq> []" and "kNeFSSeparator \<notin> set x" and "e = [] \<or> e = [kNeFSSeparator]"
  shows "parent_path (d @ [kNeFSSeparator] @ x @ e) = Some (d @ [kNeFSSeparator])"
proof -
  let ?nm = "d @ [kNeFSSeparator] @ x @ e"
  have lst: "?nm ! (length ?nm - 1) = (if e = [] then last x else kNeFSSeparator)"
    using assms(1,3) by (auto simp: last_conv_nth nth_append)
  have "last x \<noteq> kNeFSSeparator" using assms(1,2) last_in_set by fastforce
  then have "parent_index ?nm = strip_back ?nm (length d + length x)"
    using assms(1,3) lst by (auto simp: parent_index_def Let_def)
  then have "parent_index ?nm = length d" using strip_back_split [OF assms(2), of d e] by simp
  then show ?thesis by (simp add: parent_path_def Let_def nth_append)
qed

section \<open>Lookup\<close>

text \<open>The catalog at an address stops a scan for a name.\<close>

definition stops_scan :: "(u8 list \<Rightarrow> u8 list) \<Rightarrow> u8 list \<Rightarrow> drive \<Rightarrow> u64 \<Rightarrow> bool" where
  "stops_scan before nm t a \<longleftrightarrow>
     Equals (cat_name (read_cat t a)) (name_tail before nm (length (cat_name (read_cat t a))))"

text \<open>Consecutive addresses of a list are linked by the catalogs' sibling fields.\<close>

fun linked :: "drive \<Rightarrow> u64 list \<Rightarrow> bool" where
  "linked t (a # b # as) \<longleftrightarrow> NextSibling_cat (read_cat t a) = b \<and> linked t (b # as)"
| "linked t as \<longleftrightarrow> True"

lemma scan_from_bad: "\<not> fPacketGood t \<Longrightarrow> scan_from before nm h start t a = Some (t, None)"
  by (subst scan_from.simps) simp

lemma scan_from_below: "a < start \<Longrightarrow> scan_from before nm h start t a = Some (t, None)"
  by (subst scan_from.simps) (simp only: linorder_not_le [symmetric] simp_thms if_False)

lemma scan_from_hit:
  assumes "a \<ge> start" and "fPacketGood t" and "stops_scan before nm t a" and "cat_created (read_cat t a)"
    and "h \<or> Status_cat (read_cat t a) \<noteq> kNeFSStatusLocked"
  shows "scan_from before nm h start t a = Some (t, Some (read_cat t a, a))"
  using assms by (subst scan_from.simps) (auto simp: Let_def stops_scan_def)

lemma scan_from_miss:
  assumes "a \<ge> start" and "fPacketGood t" and "\<not> stops_scan before nm t a"
  shows "scan_from before nm h start t a = scan_from before nm h start t (NextSibling_cat (read_cat t a))"
  using assms by (subst scan_from.simps) (simp add: Let_def stops_scan_def)

lemma scan_from_chain:
  assumes "linked t (as @ [a])" and "\<forall>x \<in> set as. x \<ge> start \<and> \<not> stops_scan before nm t x" and "fPacketGood t"
  shows "scan_from before nm h start t (hd (as @ [a])) = scan_from before nm h start t a"
  using assms
proof (induction as)
  case (Cons x as)
  then have "scan_from before nm h start t x = scan_from before nm h start t (NextSibling_cat (read_cat t x))"
    by (simp add: scan_from_miss)
  moreover have "NextSibling_cat (read_cat t x) = hd (as @ [a])" "linked t (as @ [a])"
    using Cons.prems(1) by (cases as; simp)+
  ultimately show ?case using Cons by simp
qed simp

text \<open>
  Looking up a name without the local search follows the chain: the catalogs from the start
  catalog on, linked by their sibling fields, up to the first whose name is a suffix of the path.
  If that one is marked created (and not locked, unless hidden catalogs are searched), the lookup
  ends and returns it with its address and leaves the drive as it is.
\<close>

theorem nefs_lookup_first_suffix:
  assumes "fPacketGood t" and "nm \<noteq> []" and "0 \<notin> set nm" and "linked t (as @ [a])" and "hd (as @ [a]) = StartCatalog_rt (read_rt t)"
    and "\<forall>x \<in> set (as @ [a]). x \<ge> StartCatalog_rt (read_rt t) \<and> length (cat_name (read_cat t x)) \<le> length nm"
    and "\<forall>x \<in> set as. \<not> suffix (cat_name (read_cat t x)) nm"
    and "suffix (cat_name (read_cat t a)) nm" and "cat_created (read_cat t a)"
    and "h \<or> Status_cat (read_cat t a) \<noteq> kNeFSStatusLocked"
  shows "FindCatalog before t nm out_lba h False = Some (t, a, Some (read_cat t a))"
proof -
  have "\<forall>x \<in> set as. x \<ge> StartCatalog_rt (read_rt t) \<and> \<not> stops_scan before nm t x"
    using assms by (auto simp: stops_scan_def name_matches_iff)
  then have "scan_from before nm h (StartCatalog_rt (read_rt t)) t (hd (as @ [a]))
      = scan_from before nm h (StartCatalog_rt (read_rt t)) t a"
    by (rule scan_from_chain [OF assms(4) _ assms(1)])
  also have "\<dots> = Some (t, Some (read_cat t a, a))"
    using assms by (intro scan_from_hit) (auto simp: stops_scan_def name_matches_iff)
  finally show ?thesis using assms(2,5) by (simp add: FindCatalog_def find_whole_def find_from_def)
qed

section \<open>Formatting\<close>

lemma format_root_ok: "rt_ok r \<Longrightarrow> rt_ok (format_root t over nm r)"
  by (simp add: format_root_def rt_ok_def Let_def kNeFSIdent_def)

text \<open>
  Formatting an unformatted drive with a good packet, a writable start and a sector size writes
  the root block with the identifier, the counts of the drive and the first catalog behind it; a
  second format, under whatever name, finds the identifier, returns true and changes nothing.
\<close>

theorem nefs_format_idempotent:
  assumes "fPacketGood t" and "drive_writable t (fLbaStart t)" and "fSectorSz t \<noteq> 0" and "nm \<noteq> []" and "nm' \<noteq> []"
    and "r = decode_rt (io_drv_input t (fLbaStart t) sizeof_rt)" and "Ident_rt r \<noteq> kNeFSIdent @ [0, over]"
  shows "\<exists>t'. nefs_Format t over nm = Some (t', True)
    \<and> decode_rt (io_drv_input t' (fLbaStart t) sizeof_rt) = format_root t over nm r
    \<and> nefs_Format t' over nm' = Some (t', True)"
proof -
  define t' where "t' = io_drv_output t (fLbaStart t) (encode_rt (format_root t over nm r))"
  have ok: "rt_ok (format_root t over nm r)" using assms(6) by (simp add: format_root_ok rt.struct_ok)
  have again: "decode_rt (io_drv_input t' (fLbaStart t) sizeof_rt) = format_root t over nm r"
    unfolding t'_def by (rule rt.struct_same [OF assms(2) ok])
  have kept: "fLbaStart t' = fLbaStart t" "fPacketGood t'"
    using assms(1,2) by (simp_all add: t'_def io_drv_output_def drive_writable_def)
  have "nefs_Format t over nm = Some (t', True)"
    using assms by (simp add: nefs_Format_def io_drv_unimplemented_def t'_def Let_def)
  moreover have "nefs_Format t' over nm' = Some (t', True)"
    using assms(5) kept again by (simp add: nefs_Format_def io_drv_unimplemented_def Let_def format_root_def)
  ultimately show ?thesis using again by blast
qed

section \<open>Forks\<close>

lemma fs_ifs_write_not_good: "\<not> fPacketGood (fst (fs_ifs_write True t 0 lba bs))"
  by (simp add: fs_ifs_write_def kDriveIndexInvalid_def Let_def io_drv_output_def)

lemma find_whole_bad: "\<not> fPacketGood t \<Longrightarrow> find_whole before t nm out h = Some (t, out, None)"
  by (simp add: find_whole_def find_from_def scan_from_bad)

lemma FindCatalog_bad:
  assumes "\<not> fPacketGood t" and "length nm \<le> 256"
  shows "FindCatalog before t nm out h l = Some (t, out, None)"
  using assms by (auto simp: FindCatalog_def find_whole_bad kNeFSCatalogNameLen_def split: option.split)

lemma CreateFork_not_good:
  assumes "CreateFork before t f = Some (t', f', True)"
  shows "\<not> fPacketGood t'"
  using assms by (auto simp: CreateFork_def Let_def fs_ifs_write_not_good split: if_splits option.splits prod.splits)

text \<open>
  Creating a fork ends all lookups.  When \<open>CreateFork\<close> succeeds, the write through the mount
  point at its end has cleared the packet's good flag, which only detecting the drive sets again;
  from then on no catalog is found under any path that fits the parser's buffer, no further fork
  is created, nothing is written, the fork just made included, and nothing can be removed.
\<close>

theorem nefs_fork_ends_lookups:
  assumes "CreateFork before t f = Some (t', f', True)" and "length nm \<le> 256"
  shows "FindCatalog before' t' nm out h l = Some (t', out, None)
    \<and> GetCatalog before' t' nm = Some (t', None)
    \<and> WriteCatalog before' t' nm rsrc data fork_name = Some (t', False)
    \<and> (\<exists>t''. RemoveCatalog before' t' (Some nm) = Some (t'', False) \<and> disk t'' = disk t')
    \<and> (length (frk_catalog g) \<le> 256 \<longrightarrow> CreateFork before' t' g = Some (t', g, False))"
proof -
  have bad: "\<not> fPacketGood t'" by (rule CreateFork_not_good [OF assms(1)])
  have get: "GetCatalog before' t' nm = Some (t', None)" if "length nm \<le> 256" for nm
    using FindCatalog_bad [OF bad that] by (simp add: GetCatalog_def)
  show ?thesis
    using FindCatalog_bad [OF bad assms(2)] get assms(2) by (simp add: WriteCatalog_def RemoveCatalog_def CreateFork_def)
qed

section \<open>Removal\<close>

lemma deleted_flag:
  fixes x :: u16
  shows "ucast (ucast ((ucast x AND NOT kNeFSFlagCreated) OR kNeFSFlagDeleted) :: u16) AND kNeFSFlagCreated \<noteq> (0 :: u32)"
proof
  assume "ucast (ucast ((ucast x AND NOT kNeFSFlagCreated) OR kNeFSFlagDeleted) :: u16) AND kNeFSFlagCreated = (0 :: u32)"
  then have "\<not> bit (ucast (ucast ((ucast x AND NOT kNeFSFlagCreated) OR kNeFSFlagDeleted) :: u16) AND kNeFSFlagCreated :: u32) 1"
    by simp
  then show False by (simp add: bit_simps kNeFSFlagCreated_def kNeFSFlagDeleted_def)
qed

lemma cat_created_deleted: "cat_created (deleted_catalog c)"
  using deleted_flag [of "Flags_cat c"] by (simp add: cat_created_def deleted_catalog_def)

lemma read_err [simp]:
  "read_cat (t\<lparr>err_global := e\<rparr>) a = read_cat t a" "read_rt (t\<lparr>err_global := e\<rparr>) = read_rt t"
  "stops_scan before nm (t\<lparr>err_global := e\<rparr>) a = stops_scan before nm t a"
  by (simp_all add: read_cat_def read_rt_def io_drv_input_def stops_scan_def)

text \<open>What a scan returns: the drive with at most another error number, and a catalog that matches.\<close>

definition scan_post ::
  "(u8 list \<Rightarrow> u8 list) \<Rightarrow> u8 list \<Rightarrow> drive \<Rightarrow> drive \<Rightarrow> (nefs_catalog \<times> u64) option \<Rightarrow> bool" where
  "scan_post before nm t t' res \<longleftrightarrow> (\<exists>e. t' = t\<lparr>err_global := e\<rparr>)
     \<and> (\<forall>c a. res = Some (c, a) \<longrightarrow> c = read_cat t a \<and> stops_scan before nm t a \<and> cat_created c \<and> fPacketGood t)"

lemma scan_post_same: "scan_post before nm t t None"
  "stops_scan before nm t a \<Longrightarrow> cat_created (read_cat t a) \<Longrightarrow> fPacketGood t \<Longrightarrow> scan_post before nm t t (Some (read_cat t a, a))"
proof -
  have "\<exists>e. t = t\<lparr>err_global := e\<rparr>" by (rule exI [of _ "err_global t"]) simp
  then show "scan_post before nm t t None"
    "stops_scan before nm t a \<Longrightarrow> cat_created (read_cat t a) \<Longrightarrow> fPacketGood t \<Longrightarrow> scan_post before nm t t (Some (read_cat t a, a))"
    by (simp_all add: scan_post_def)
qed

lemma scan_from_post: "scan_from before nm h start t a = Some r \<Longrightarrow> scan_post before nm t (fst r) (snd r)"
proof (rule scan_from.raw_induct [where P = "\<lambda>before nm h start t a r. scan_post before nm t (fst r) (snd r)"])
  fix scan before nm h start t a and r :: "drive \<times> (nefs_catalog \<times> u64) option"
  assume IH: "\<And>before nm h start t a r. scan before nm h start t a = Some r \<Longrightarrow> scan_post before nm t (fst r) (snd r)"
    and body: "(if start \<le> a \<and> fPacketGood t then
        let tmp = read_cat t a
        in if Equals (cat_name tmp) (name_tail before nm (length (cat_name tmp))) then
             if Status_cat tmp = kNeFSStatusLocked \<and> \<not> h then Some (t\<lparr>err_global := kErrorFileLocked\<rparr>, None)
             else if \<not> cat_created tmp then Some (t\<lparr>err_global := kErrorFileNotFound\<rparr>, None)
             else Some (t, Some (tmp, a))
           else scan before nm h start t (NextSibling_cat tmp)
      else Some (t, None)) = Some r"
  have err: "scan_post before nm t (t\<lparr>err_global := e\<rparr>) None" for e by (auto simp: scan_post_def)
  show "scan_post before nm t (fst r) (snd r)"
    using body unfolding Let_def by (auto simp: err scan_post_same stops_scan_def split: if_splits dest: IH)
qed

lemma find_from_post:
  assumes "find_from before t nm out h s = Some (t', a, res)"
  shows "scan_post before nm t t' (map_option (\<lambda>c. (c, a)) res)"
  using assms scan_from_post [of before nm h "StartCatalog_rt (read_rt t)" t s]
  by (auto simp: find_from_def split: option.splits prod.splits)

lemma find_whole_post:
  "find_whole before t nm out h = Some (t', a, res) \<Longrightarrow> scan_post before nm t t' (map_option (\<lambda>c. (c, a)) res)"
  by (auto simp: find_whole_def scan_post_same split: if_splits dest: find_from_post)

lemma scan_post_trans:
  "scan_post before p t t1 r1 \<Longrightarrow> scan_post before nm t1 t2 r2 \<Longrightarrow> scan_post before nm t t2 r2"
  by (auto simp: scan_post_def)

lemma FindCatalog_post:
  assumes "FindCatalog before t nm out h l = Some (t', a, res)"
  shows "scan_post before nm t t' (map_option (\<lambda>c. (c, a)) res)"
  using assms
  by (auto simp: FindCatalog_def scan_post_same split: if_splits option.splits prod.splits
      dest!: find_whole_post find_from_post intro: scan_post_trans)

lemma deleted_ok [simp]: "cat_ok (deleted_catalog c) = cat_ok c"
  by (simp add: cat_ok_def deleted_catalog_def)

lemma cat_name_deleted: 
  assumes "cat_ok c" and "0 \<in> set (Name_cat c)"
  shows "cat_name (deleted_catalog c) = cat_name c"
  using assms by (simp add: cat_name_def c_str_def encode_cat_def deleted_catalog_def enc8_def takeWhile_append1)

lemma delete_forks_none: "a < kNeFSCatalogStartAddress \<Longrightarrow> delete_forks t a = Some t"
  by (subst delete_forks.simps) (simp only: linorder_not_le [symmetric] if_False)

lemma drop_catalog_reads:
  assumes "cat_ok c" and "drive_writable t a" and "drive_apart a sizeof_cat kNeFSRootCatalogStartAddress sizeof_rt"
    and "drive_apart kNeFSRootCatalogStartAddress sizeof_rt a sizeof_cat"
  shows "read_cat (drop_catalog t a c) a = deleted_catalog c"
    and "StartCatalog_rt (read_rt (drop_catalog t a c)) = StartCatalog_rt (read_rt t)"
    and "fPacketGood (drop_catalog t a c) = fPacketGood t"
proof -
  define t1 where "t1 = write_cat t a (deleted_catalog c)"
  define r where "r = (read_rt t1)\<lparr>CatalogCount_rt := (if CatalogCount_rt (read_rt t1) > 0 then CatalogCount_rt (read_rt t1) - 1
      else CatalogCount_rt (read_rt t1)), FreeSectors_rt := FreeSectors_rt (read_rt t1) + 1\<rparr>"
  have d: "drop_catalog t a c = write_rt t1 r" by (simp add: drop_catalog_def t1_def r_def Let_def)
  have "rt_ok (read_rt t1)" by simp
  then have r: "rt_ok r" by (simp add: r_def rt_ok_def)
  have w: "drive_writable t kNeFSRootCatalogStartAddress"
    using assms(2) by (simp add: drive_writable_def kNeFSRootCatalogStartAddress_def)
  have rt1: "read_rt t1 = read_rt t" using assms by (simp add: t1_def read_apart)
  show "read_cat (drop_catalog t a c) a = deleted_catalog c"
    using assms r unfolding d by (simp add: read_apart) (simp add: t1_def)
  show "StartCatalog_rt (read_rt (drop_catalog t a c)) = StartCatalog_rt (read_rt t)"
    using w r unfolding d by (simp add: t1_def) (simp add: r_def rt1)
  show "fPacketGood (drop_catalog t a c) = fPacketGood t" using w assms(2) by (simp add: d t1_def)
qed

text \<open>
  A removed file is still there.  \<open>kNeFSFlagDeleted\<close> (70) has bits in common with
  \<open>kNeFSFlagCreated\<close> (71), so the flags that \<open>RemoveCatalog\<close> writes pass every test for a created
  catalog.  Removing the catalog that a path leads to succeeds, and afterwards the same path still
  leads to it, at the same address, and creating the file again fails with \<open>kErrorFileExists\<close>.
\<close>

theorem nefs_removed_still_found:
  assumes "FindCatalog before t nm 0 True True = Some (t1, a, Some c)" and "nm \<noteq> kNeFSRoot"
    and "a = StartCatalog_rt (read_rt t)" and "0 \<in> set (Name_cat c)"
    and "DataFork_cat c < kNeFSCatalogStartAddress" and "ResourceFork_cat c < kNeFSCatalogStartAddress"
    and "drive_writable t a" and "drive_apart a sizeof_cat kNeFSRootCatalogStartAddress sizeof_rt"
    and "drive_apart kNeFSRootCatalogStartAddress sizeof_rt a sizeof_cat" and "last nm \<noteq> kNeFSSeparator"
  shows "\<exists>t'. RemoveCatalog before t (Some nm) = Some (t', True)
    \<and> FindCatalog before t' nm 0 True False = Some (t', a, Some (deleted_catalog c))
    \<and> CreateCatalog before t' nm = Some (t'\<lparr>err_global := kErrorFileExists\<rparr>, None)"
proof -
  obtain e where e: "t1 = t\<lparr>err_global := e\<rparr>" and c: "c = read_cat t a" "stops_scan before nm t a" "cat_created c" "fPacketGood t"
    using FindCatalog_post [OF assms(1)] by (auto simp: scan_post_def)
  define t' where "t' = drop_catalog t1 a c"
  have ok: "cat_ok c" by (simp add: c)
  have w: "drive_writable t1 a" using assms(7) by (simp add: e drive_writable_def)
  note reads = drop_catalog_reads [OF ok w assms(8,9), folded t'_def]
  have ne: "nm \<noteq> []" using assms(1) by (auto simp: FindCatalog_def)
  have rem: "RemoveCatalog before t (Some nm) = Some (t', True)"
    using assms(1,2,5,6) c(3) by (simp add: RemoveCatalog_def Equals_iff delete_forks_none t'_def)
  have "stops_scan before nm t' a"
    using c(2) by (simp add: stops_scan_def reads(1) cat_name_deleted [OF ok assms(4)] flip: c(1))
  then have "scan_from before nm True a t' a = Some (t', Some (deleted_catalog c, a))"
    using scan_from_hit [of a a t' before nm True] reads c(4) cat_created_deleted [of c] by (simp add: e)
  moreover have "StartCatalog_rt (read_rt t') = a" using reads(2) assms(3) by (simp add: e)
  ultimately have find: "FindCatalog before t' nm 0 True False = Some (t', a, Some (deleted_catalog c))"
    using ne by (simp add: FindCatalog_def find_whole_def find_from_def)
  then have "CreateCatalog before t' nm = Some (t'\<lparr>err_global := kErrorFileExists\<rparr>, None)"
    using ne assms(10) by (simp add: CreateCatalog_def CreateCatalog_kind_def kNeFSCatalogKindFile_def kNeFSCatalogKindDir_def)
  then show ?thesis using rem find by blast
qed

section \<open>Data\<close>

lemma unat_succ:
  fixes b :: u64
  assumes "unat b mod 512 < 511"
  shows "unat (b + 1) = unat b + 1"
proof -
  have "unat b < 2 ^ 64" using unsigned_less [of b, where ?'a = nat] by simp
  then have "unat b + 1 < 2 ^ 64" using assms by (cases "unat b = 2 ^ 64 - 1") auto
  then show ?thesis by (simp add: unat_word_ariths)
qed

lemma pio_base_succ:
  assumes "unat b mod 512 < 511"
  shows "pio_base (b + 1) = pio_base b"
proof -
  have "(unat b + 1) div 512 = unat b div 512" using assms by (simp add: div_Suc mod_Suc)
  then have "(b + 1) div 512 = b div 512" using unat_succ [OF assms] by (simp add: word_unat_eq_iff unat_div)
  then show ?thesis by (simp add: pio_base_def kATASectorSize_def)
qed

text \<open>
  Data longer than a sector is lost.  The address of each chunk is the data's address plus its
  index, but addresses count bytes: for data of more than one and at most two sectors both chunks
  go to the same sector of the drive, and reading it gives the second chunk.
\<close>

theorem nefs_long_data_lost:
  assumes "drive_writable t b" and "unat b mod 512 < 511" and "512 < length data" and "length data \<le> 1024"
  shows "io_drv_input (write_chunks t b data 0) b (length data - 512) = drop 512 data"
proof -
  define t1 where "t1 = io_drv_output t b (take 512 data)"
  define t2 where "t2 = io_drv_output t1 (b + 1) (drop 512 data)"
  have "write_chunks t b data 0 = write_chunks t1 b data 512"
    using assms(3) by (subst write_chunks.simps) (auto simp: t1_def)
  also have "\<dots> = write_chunks t2 b data (length data)"
    using assms(3,4) by (subst write_chunks.simps) (simp add: t2_def)
  also have "\<dots> = t2" by (subst write_chunks.simps) simp
  finally have "write_chunks t b data 0 = t2" .
  moreover have "b + 1 \<noteq> 0" using unat_succ [OF assms(2)] by force
  then have "drive_writable t1 (b + 1)" using assms(1) by (simp add: t1_def hd.writable_put) (simp add: drive_writable_def)
  then have "io_drv_input t2 (b + 1) (length (drop 512 data)) = drop 512 data"
    unfolding t2_def by (rule hd.get_put_same) (use assms(4) in simp)
  then have "io_drv_input t2 b (length data - 512) = drop 512 data" by (simp add: io_drv_input_eq pio_base_succ [OF assms(2)])
  ultimately show ?thesis by simp
qed

section \<open>The first catalog\<close>

text \<open>
  A volume as formatting leaves it on a drive of 512-byte sectors that starts at 1024, where the
  rest of the block was blank: the first catalog's address is 1026, in the root block's sector.
\<close>

definition fresh_volume :: "drive \<Rightarrow> nefs_root \<Rightarrow> u8 \<Rightarrow> bool" where
  "fresh_volume t r over \<longleftrightarrow> fPacketGood t \<and> \<not> fPacketReadOnly t \<and> fSectorSz t = 512
     \<and> io_drv_input t kNeFSRootCatalogStartAddress sizeof_rt = encode_rt r \<and> rt_ok r
     \<and> Ident_rt r = kNeFSIdent @ [0, over] \<and> StartCatalog_rt r = 1026 \<and> Pad_rt r = replicate 392 0
     \<and> FreeCatalog_rt r \<ge> 1 \<and> 1 \<le> CatalogCount_rt r \<and> CatalogCount_rt r \<le> 2 ^ 32"

definition nefs_label :: "u8 list" where "nefs_label = [32, 78, 101, 70, 83]"

lemma length_label: "length nefs_label = 5"
  by (simp add: nefs_label_def)

lemma sector_of_root: "pio_base 1026 = pio_base kNeFSRootCatalogStartAddress"
  by (simp add: pio_base_def kATASectorSize_def kNeFSRootCatalogStartAddress_def)

text \<open>The root block read as a catalog.\<close>

lemma root_as_catalog:
  assumes "fresh_volume t r over"
  shows "cat_name (read_cat t 1026) = nefs_label" and "Flags_cat (read_cat t 1026) = 0"
    and "NextSibling_cat (read_cat t 1026) = 0"
proof -
  define bs where "bs = io_drv_input t 1026 sizeof_cat"
  define rest where "rest = drop 512 bs"
  have "take 512 bs = encode_rt r"
    using assms by (simp add: bs_def fresh_volume_def io_drv_input_eq sector_of_root take_read_bytes sizeof_cat_def sizeof_rt_def)
  then have bs: "bs = encode_rt r @ rest" by (metis append_take_drop_id rest_def)
  have len: "length bs = 535" by (simp add: bs_def hd.get_length sizeof_cat_def)
  have r: "length (PartitionName_rt r) = 32" "Ident_rt r = [32, 32, 78, 101, 70, 83, 0, over]" "Pad_rt r = replicate 392 0"
    using assms by (auto simp: fresh_volume_def rt_ok_def kNeFSIdent_def)
  have c: "read_cat t 1026 = decode_cat bs" by (simp add: read_cat_def bs_def)
  have "\<exists>y. Name_cat (decode_cat bs) = nefs_label @ 0 # y"
    unfolding bs by (simp add: decode_cat_def encode_rt_def r nefs_label_def field_def)
  then obtain y where "Name_cat (decode_cat bs) = nefs_label @ 0 # y" ..
  then show "cat_name (read_cat t 1026) = nefs_label"
    by (simp add: c cat_name_def c_str_def encode_cat_def enc8_def nefs_label_def)
  have "dec16 bs 457 = 0" "dec64 bs 499 = 0"
    unfolding bs by (simp_all add: encode_rt_def r codec_simps dec16_def dec64_def field_def le_word_zeros)
  then show "Flags_cat (read_cat t 1026) = 0" "NextSibling_cat (read_cat t 1026) = 0"
    by (simp_all add: c decode_cat_def)
qed

lemma fresh_not_found:
  assumes v: "fresh_volume t r over" and "name_tail before nm 5 \<noteq> nefs_label"
  shows "FindCatalog before t nm out True False = Some (t, out, None)"
proof -
  have rt: "read_rt t = r" using v by (simp add: fresh_volume_def read_rt_def decode_encode_rt)
  have "\<not> stops_scan before nm t 1026"
    using assms(2) root_as_catalog(1) [OF v] by (simp add: stops_scan_def Equals_iff length_label)
  then have "scan_from before nm True 1026 t 1026 = scan_from before nm True 1026 t 0"
    using v root_as_catalog(3) [OF v] by (subst scan_from_miss) (simp_all add: fresh_volume_def)
  then show ?thesis using v
    by (simp add: FindCatalog_def find_whole_def find_from_def rt fresh_volume_def scan_from_below)
qed

lemma child_ok: "cat_ok (child_catalog nm flags kind out)"
  by (simp add: child_catalog_def cat_ok_def new_catalog_def Let_def)

text \<open>The root block after a catalog was placed in its sector is the catalog's first bytes.\<close>

lemma place_catalog_root:
  assumes "\<not> fPacketReadOnly t" and "cat_ok c" and "ForkOrCatalog_cat c = 0"
  shows "hd (Ident_rt (read_rt (place_catalog t r c 1026))) = 0"
    and "StartCatalog_rt (read_rt (place_catalog t r c 1026)) = le_word (take 8 (drop 47 (Name_cat c)))"
proof -
  define c' where "c' = c\<lparr>NextSibling_cat := 1026 + catalog_sectors t, DataFork_cat := DiskSize_rt r - 1026,
    ResourceFork_cat := DiskSize_rt r - 1026\<rparr>"
  define t2 where "t2 = write_cat (write_cat t 1026 new_catalog) 1026 c'"
  define r' where "r' = (read_rt t2)\<lparr>FreeSectors_rt := FreeSectors_rt (read_rt t2) - catalog_sectors t,
    CatalogCount_rt := CatalogCount_rt (read_rt t2) + 1, FreeCatalog_rt := FreeCatalog_rt (read_rt t2) - 1\<rparr>"
  have p: "place_catalog t r c 1026 = write_rt t2 r'" by (simp add: place_catalog_def c'_def t2_def r'_def Let_def)
  have ok: "cat_ok c'" using assms(2) by (simp add: cat_ok_def c'_def)
  have w: "drive_writable t 1026" using assms(1) by (simp add: drive_writable_def)
  have "io_drv_input t2 1026 (length (encode_cat c')) = encode_cat c'"
    unfolding t2_def write_cat_def
    by (rule hd.get_put_same) (use w length_encode_cat [OF ok] in \<open>simp_all add: hd.writable_put sizeof_cat_def\<close>)
  then have "take 512 (io_drv_input t2 1026 535) = take 512 (encode_cat c')"
    by (simp add: length_encode_cat [OF ok] sizeof_cat_def)
  then have "io_drv_input t2 kNeFSRootCatalogStartAddress sizeof_rt = take 512 (encode_cat c')"
    by (simp add: io_drv_input_eq sector_of_root take_read_bytes sizeof_rt_def)
  then have rt2: "read_rt t2 = decode_rt (take 512 (encode_cat c'))" by (simp add: read_rt_def)
  have "rt_ok (read_rt t2)" by simp
  then have "rt_ok r'" by (simp add: r'_def rt_ok_def)
  moreover have "drive_writable t2 kNeFSRootCatalogStartAddress"
    using assms(1) by (simp add: t2_def) (simp add: drive_writable_def kNeFSRootCatalogStartAddress_def)
  ultimately have "read_rt (place_catalog t r c 1026) = r'" by (simp add: p)
  moreover have "Ident_rt r' = field (take 512 (encode_cat c')) 0 8" "StartCatalog_rt r' = dec64 (take 512 (encode_cat c')) 48"
    by (simp_all add: r'_def rt2 decode_rt_def)
  moreover have "take 512 (encode_cat c') = 0 # Name_cat c @ take 255 (drop 257 (encode_cat c'))"
    using assms(2,3) by (simp add: encode_cat_def c'_def enc8_def cat_ok_def)
  ultimately show "hd (Ident_rt (read_rt (place_catalog t r c 1026))) = 0"
    "StartCatalog_rt (read_rt (place_catalog t r c 1026)) = le_word (take 8 (drop 47 (Name_cat c)))"
    using assms(2) by (simp_all add: field_def dec64_def cat_ok_def)
qed

lemma child_name:
  assumes "x \<noteq> []" and "kNeFSSeparator \<notin> set x" and "length x \<le> 46" and "kind \<noteq> kNeFSCatalogKindDir"
  shows "Name_cat (child_catalog (d @ [kNeFSSeparator] @ x) flags kind out)
    = (kNeFSSeparator # x) @ replicate (255 - length x) 0"
proof -
  let ?nm = "d @ [kNeFSSeparator] @ x"
  have "strip_back ?nm (length ?nm - 1) = length d"
    using strip_back_split [OF assms(2), of d "[]"] by simp
  then show ?thesis using assms(3,4) by (simp add: child_catalog_def new_catalog_def copy_array_def Let_def)
qed

text \<open>
  The first file destroys the volume.  On a freshly formatted drive, creating a file in any
  directory succeeds and puts its catalog into the sector of the root block, and then reads the
  root block back from there.  Afterwards the block no longer has the identifier of NeFS and its
  start catalog is 0; what the call returns is the old root block read as a catalog.
\<close>

theorem nefs_create_destroys_root:
  assumes "fresh_volume t r over" and "nm = d @ [kNeFSSeparator] @ x" and "x \<noteq> []" and "kNeFSSeparator \<notin> set x"
    and "length x \<le> 46" and "name_tail before nm 5 \<noteq> nefs_label" and "name_tail before (d @ [kNeFSSeparator]) 5 \<noteq> nefs_label"
  shows "\<exists>t' c. CreateCatalog before t nm = Some (t', Some c) \<and> cat_name c = nefs_label
    \<and> Ident_rt (read_rt t') \<noteq> kNeFSIdent @ [0, over] \<and> StartCatalog_rt (read_rt t') = 0"
proof -
  note v = assms(1)
  define c where "c = child_catalog nm 0 kNeFSCatalogKindFile 1026"
  define t' where "t' = place_catalog t r c 1026"
  have rt: "read_rt t = r" using v by (simp add: fresh_volume_def read_rt_def decode_encode_rt)
  have kinds: "kNeFSCatalogKindFile \<noteq> kNeFSCatalogKindDir" by (simp add: kNeFSCatalogKindFile_def kNeFSCatalogKindDir_def)
  have par: "parent_path nm = Some (d @ [kNeFSSeparator])"
    using parent_path_split [OF assms(3,4), of "[]" d] by (simp add: assms(2))
  have lst: "last nm \<noteq> kNeFSSeparator" using assms(2-4) last_in_set by fastforce
  have len: "\<not> length nm < 2" using assms(2,3) by (cases x) auto
  have start: "nm \<noteq> []" "FreeCatalog_rt r \<noteq> 0" "\<not> fPacketReadOnly t" "fSectorSz t \<noteq> 0" "StartCatalog_rt r = 1026"
    using v len by (auto simp: fresh_volume_def)
  have "unat (CatalogCount_rt r) \<le> 2 ^ 32" "1 \<le> unat (CatalogCount_rt r)"
    using v by (simp_all add: fresh_volume_def word_le_nat_alt)
  then have "1026 < StartCatalog_rt r + CatalogCount_rt r * catalog_sectors t"
    using v by (simp add: fresh_volume_def catalog_sectors_def sizeof_cat_def word_less_nat_alt unat_word_ariths)
  moreover have "\<not> cat_created (read_cat t 1026)" using root_as_catalog(2) [OF v] by (simp add: cat_created_def)
  ultimately have loop: "create_loop t r nm c 1026 = Some (t', Some (read_cat t 1026))"
    by (subst create_loop.simps) (simp add: t'_def Let_def)
  have "CreateCatalog before t nm = create_loop t r nm c 1026"
    using len par lst kinds fresh_not_found [OF v assms(6)] fresh_not_found [OF v assms(7)] start
    by (simp add: CreateCatalog_def CreateCatalog_kind_def rt c_def)
  moreover have "\<not> fPacketReadOnly t" "cat_ok c" "ForkOrCatalog_cat c = 0"
    using v by (simp_all add: fresh_volume_def c_def child_ok) (simp add: child_catalog_def new_catalog_def Let_def)
  note root = place_catalog_root [OF this, of r, folded t'_def]
  moreover have "take 8 (drop 47 (Name_cat c)) = replicate 8 0"
    using child_name [OF assms(3-5) kinds, of d 0 1026] assms(5) by (simp add: c_def assms(2))
  then have "StartCatalog_rt (read_rt t') = 0" using root(2) by (simp add: le_word_zeros)
  moreover have "Ident_rt (read_rt t') \<noteq> kNeFSIdent @ [0, over]"
    using root(1) by (auto simp: kNeFSIdent_def)
  ultimately show ?thesis using loop root_as_catalog(1) [OF v] by auto
qed

section \<open>The properties at concrete volumes\<close>

text \<open>
  A drive of 8192 sectors, formatted, and a volume whose start catalog has a sector of its own and
  holds the file \<^verbatim>\<open>/a\<close>, with its forks at the given address.
\<close>

definition disk_4mb :: drive where
  "disk_4mb = blank_drive\<lparr>kATAIdentifyData := (\<lambda>i. if i = 60 then 0x2000 else 0)\<rparr>"

definition blank_root :: nefs_root where "blank_root = decode_rt (replicate 512 0)"
definition sample_root :: nefs_root where "sample_root = format_root disk_4mb 0 kNeFSVolumeName blank_root"
definition fresh_drive :: drive where "fresh_drive = write_rt disk_4mb sample_root"
definition zeros_before :: "u8 list \<Rightarrow> u8 list" where "zeros_before nm = replicate 600 0"
definition file_a :: "u8 list" where "file_a = [47, 97]"

definition catalog_a :: "u64 \<Rightarrow> nefs_catalog" where
  "catalog_a fork = new_catalog\<lparr>Name_cat := file_a @ replicate 254 0, Kind_cat := kNeFSCatalogKindFile, Flags_cat := 71,
     DataFork_cat := fork, ResourceFork_cat := fork\<rparr>"

definition volume_a :: "u64 \<Rightarrow> drive" where
  "volume_a fork = write_cat (write_rt disk_4mb (sample_root\<lparr>StartCatalog_rt := 2048\<rparr>)) 2048 (catalog_a fork)"

lemma blank_root_read: "decode_rt (io_drv_input disk_4mb kNeFSRootCatalogStartAddress sizeof_rt) = blank_root"
proof -
  have "io_drv_input disk_4mb kNeFSRootCatalogStartAddress sizeof_rt = replicate 512 0"
    by (rule nth_equalityI) (simp_all add: io_drv_input_eq read_bytes_def disk_4mb_def blank_drive_def sizeof_rt_def)
  then show ?thesis by (simp add: blank_root_def)
qed

lemma blank_root_facts: "rt_ok blank_root" "Ident_rt blank_root = replicate 8 0" "Pad_rt blank_root = replicate 392 0"
  by (simp_all add: blank_root_def rt_ok_def decode_rt_def field_def)

lemma blank_root_ident: "Ident_rt blank_root \<noteq> kNeFSIdent @ [0, x]"
proof
  assume "Ident_rt blank_root = kNeFSIdent @ [0, x]"
  then have "replicate 8 (0 :: u8) ! 0 = (kNeFSIdent @ [0, x]) ! 0" by (simp only: blank_root_facts)
  then show False by (simp add: kNeFSIdent_def)
qed

lemma disk_4mb_facts: "fPacketGood disk_4mb" "\<not> fPacketReadOnly disk_4mb" "fSectorSz disk_4mb = 512" "fLbaStart disk_4mb = 1024"
  "drive_writable disk_4mb a \<longleftrightarrow> a \<noteq> 0" "drv_pio_get_sector_count disk_4mb = 0x2000"
  by (simp_all add: disk_4mb_def blank_drive_def drive_writable_def drv_pio_get_sector_count_def)

lemma sample_root_facts: "rt_ok sample_root" "Ident_rt sample_root = kNeFSIdent @ [0, 0]" "StartCatalog_rt sample_root = 1026"
  "Pad_rt sample_root = replicate 392 0" "CatalogCount_rt sample_root = 7839" "FreeCatalog_rt sample_root = 7838"
  by (simp_all add: sample_root_def format_root_ok blank_root_facts) (simp_all add: format_root_def disk_4mb_facts
      catalog_sectors_def sizeof_cat_def blank_root_facts)

theorem nefs_format_idempotent_witness:
  "\<exists>t'. nefs_Format disk_4mb 0 kNeFSVolumeName = Some (t', True) \<and> nefs_Format t' 0 [65] = Some (t', True)"
  using nefs_format_idempotent [of disk_4mb kNeFSVolumeName "[65]" blank_root 0] blank_root_read
  by (simp add: disk_4mb_facts blank_root_ident kNeFSVolumeName_def kNeFSRootCatalogStartAddress_def) blast

lemma fresh_drive_volume: "fresh_volume fresh_drive sample_root 0"
proof -
  have "io_drv_input fresh_drive kNeFSRootCatalogStartAddress (length (encode_rt sample_root)) = encode_rt sample_root"
    unfolding fresh_drive_def write_rt_def
    by (rule hd.get_put_same) (simp_all add: disk_4mb_facts kNeFSRootCatalogStartAddress_def length_encode_rt sample_root_facts
        sizeof_rt_def)
  moreover have "fPacketGood fresh_drive" "\<not> fPacketReadOnly fresh_drive" "fSectorSz fresh_drive = 512"
    using disk_4mb_facts by (simp_all add: fresh_drive_def kNeFSRootCatalogStartAddress_def)
      (simp_all add: write_rt_def io_drv_output_def)
  ultimately show ?thesis by (simp add: fresh_volume_def sample_root_facts length_encode_rt)
qed

theorem nefs_create_destroys_root_witness:
  "\<exists>t' c. CreateCatalog zeros_before fresh_drive file_a = Some (t', Some c)
    \<and> Ident_rt (read_rt t') \<noteq> Ident_rt (read_rt fresh_drive)"
proof -
  have "Ident_rt (read_rt fresh_drive) = kNeFSIdent @ [0, 0]"
    using fresh_drive_volume by (simp add: fresh_volume_def read_rt_def decode_encode_rt)
  moreover have "name_tail zeros_before file_a 5 \<noteq> nefs_label" "name_tail zeros_before ([] @ [kNeFSSeparator]) 5 \<noteq> nefs_label"
    by (simp_all add: name_tail_def zeros_before_def file_a_def nefs_label_def c_str_def)
  ultimately show ?thesis
    using nefs_create_destroys_root [OF fresh_drive_volume, where nm = file_a and d = "[]" and x = "[97]" and before = zeros_before]
    by (auto simp: file_a_def kNeFSSeparator_def)
qed

theorem nefs_long_data_lost_witness:
  "io_drv_input (write_chunks blank_drive 0x1000 (replicate 512 1 @ [2, 3]) 0) 0x1000 2 = [2, 3]"
  using nefs_long_data_lost [where t = blank_drive and b = "0x1000" and data = "replicate 512 1 @ [2, 3]"]
  by (simp add: blank_drive_def drive_writable_def)

lemma apart_samples:
  "drive_apart 2048 sizeof_cat kNeFSRootCatalogStartAddress sizeof_rt" "drive_apart kNeFSRootCatalogStartAddress sizeof_rt 2048 sizeof_cat"
  "drive_apart 2048 sizeof_cat 4096 sizeof_frk" "drive_apart kNeFSRootCatalogStartAddress sizeof_rt 4096 sizeof_frk"
  by (simp_all add: drive_apart_def sep_def pio_base_def kATASectorSize_def kNeFSRootCatalogStartAddress_def sizeof_cat_def
      sizeof_rt_def sizeof_frk_def)

lemma catalog_a_facts: "cat_ok (catalog_a fork)" "cat_name (catalog_a fork) = file_a" "cat_created (catalog_a fork)"
  "NextSibling_cat (catalog_a fork) = 0" "DataFork_cat (catalog_a fork) = fork" "ResourceFork_cat (catalog_a fork) = fork"
  "0 \<in> set (Name_cat (catalog_a fork))"
  by (simp_all add: catalog_a_def cat_ok_def file_a_def new_catalog_def cat_created_def kNeFSFlagCreated_def
      cat_name_def c_str_def encode_cat_def enc8_def)

lemma volume_a_facts:
  "read_rt (volume_a fork) = sample_root\<lparr>StartCatalog_rt := 2048\<rparr>" "read_cat (volume_a fork) 2048 = catalog_a fork"
  "fPacketGood (volume_a fork)" "drive_writable (volume_a fork) a \<longleftrightarrow> a \<noteq> 0" "\<not> frk_created (read_frk (volume_a fork) 4096)"
proof -
  have ok: "rt_ok (sample_root\<lparr>StartCatalog_rt := 2048\<rparr>)" using sample_root_facts(1) by (simp add: rt_ok_def)
  have w: "drive_writable disk_4mb kNeFSRootCatalogStartAddress" by (simp add: disk_4mb_facts kNeFSRootCatalogStartAddress_def)
  show "read_rt (volume_a fork) = sample_root\<lparr>StartCatalog_rt := 2048\<rparr>" "read_cat (volume_a fork) 2048 = catalog_a fork"
    using ok w by (simp_all add: volume_a_def read_apart apart_samples catalog_a_facts disk_4mb_facts)
  show "fPacketGood (volume_a fork)" "drive_writable (volume_a fork) a \<longleftrightarrow> a \<noteq> 0"
    by (simp_all add: volume_a_def disk_4mb_facts kNeFSRootCatalogStartAddress_def)
  have "read_frk (volume_a fork) 4096 = read_frk disk_4mb 4096"
    using ok by (simp add: volume_a_def read_apart apart_samples catalog_a_facts)
  moreover have "io_drv_input disk_4mb 4096 sizeof_frk = replicate 512 0"
    by (rule nth_equalityI) (simp_all add: io_drv_input_eq read_bytes_def disk_4mb_def blank_drive_def sizeof_frk_def)
  ultimately show "\<not> frk_created (read_frk (volume_a fork) 4096)"
    by (simp add: frk_created_def read_frk_def decode_frk_def dec32_def field_def le_word_zeros)
qed

theorem nefs_lookup_first_suffix_witness:
  "FindCatalog zeros_before (volume_a 0) file_a 0 False False = Some (volume_a 0, 2048, Some (catalog_a 0))"
proof -
  have st: "Status_cat (catalog_a 0) \<noteq> kNeFSStatusLocked" by (simp add: catalog_a_def new_catalog_def kNeFSStatusLocked_def)
  show ?thesis
    using nefs_lookup_first_suffix [where t = "volume_a 0" and nm = file_a and as = "[]" and a = "2048" and h = False
        and before = zeros_before and out_lba = 0]
    by (simp add: volume_a_facts catalog_a_facts st) (simp add: file_a_def)
qed

lemma volume_a_lookup: "FindCatalog zeros_before (volume_a fork) file_a 0 True True = Some (volume_a fork, 2048, Some (catalog_a fork))"
proof -
  have par: "parent_path file_a = Some [kNeFSSeparator]"
    using parent_path_split [of "[97]" "[]" "[]"] by (simp add: file_a_def kNeFSSeparator_def)
  have "\<not> stops_scan zeros_before [kNeFSSeparator] (volume_a fork) 2048"
    by (simp add: stops_scan_def volume_a_facts catalog_a_facts Equals_iff file_a_def name_tail_def zeros_before_def c_str_def)
  then have "scan_from zeros_before [kNeFSSeparator] True 2048 (volume_a fork) 2048 = Some (volume_a fork, None)"
    by (subst scan_from_miss) (simp_all add: volume_a_facts catalog_a_facts scan_from_below)
  then have miss: "find_whole zeros_before (volume_a fork) [kNeFSSeparator] 0 True = Some (volume_a fork, 0, None)"
    by (simp add: find_whole_def find_from_def volume_a_facts)
  have "name_tail zeros_before file_a (length file_a) = file_a"
    by (simp add: name_tail_def zeros_before_def file_a_def c_str_def)
  then have "stops_scan zeros_before file_a (volume_a fork) 2048"
    by (simp add: stops_scan_def volume_a_facts catalog_a_facts Equals_iff)
  then have "scan_from zeros_before file_a True 2048 (volume_a fork) 2048 = Some (volume_a fork, Some (catalog_a fork, 2048))"
    using scan_from_hit [of 2048 2048 "volume_a fork" zeros_before file_a True] by (simp add: volume_a_facts catalog_a_facts)
  then have hit: "find_whole zeros_before (volume_a fork) file_a 0 True = Some (volume_a fork, 2048, Some (catalog_a fork))"
    by (simp add: find_whole_def find_from_def volume_a_facts) (simp add: file_a_def)
  have "file_a \<noteq> []" "file_a \<noteq> kNeFSRoot" "length file_a < kNeFSCatalogNameLen"
    by (simp_all add: file_a_def kNeFSRoot_def kNeFSCatalogNameLen_def)
  then show ?thesis using par miss hit by (simp add: FindCatalog_def Equals_iff)
qed

theorem nefs_removed_still_found_witness:
  "\<exists>t'. RemoveCatalog zeros_before (volume_a 0) (Some file_a) = Some (t', True)
    \<and> FindCatalog zeros_before t' file_a 0 True False = Some (t', 2048, Some (deleted_catalog (catalog_a 0)))"
proof -
  have "file_a \<noteq> kNeFSRoot" "last file_a \<noteq> kNeFSSeparator" by (simp_all add: file_a_def kNeFSRoot_def kNeFSSeparator_def)
  then show ?thesis
    using nefs_removed_still_found [OF volume_a_lookup [of 0]]
    by (simp add: volume_a_facts catalog_a_facts apart_samples kNeFSCatalogStartAddress_def) blast
qed

definition fork_a :: nefs_fork where
  "fork_a = new_fork\<lparr>ForkName_frk := 100 # replicate 198 0, CatalogName_frk := file_a @ replicate 254 0, DataSize_frk := 3\<rparr>"

theorem nefs_fork_ends_lookups_witness:
  "\<exists>t' f'. CreateFork zeros_before (volume_a 4096) fork_a = Some (t', f', True)
    \<and> GetCatalog zeros_before (volume_a 4096) file_a \<noteq> Some (volume_a 4096, None)
    \<and> GetCatalog zeros_before t' file_a = Some (t', None)"
proof -
  have cat: "frk_catalog fork_a = file_a"
    by (simp add: frk_catalog_def fork_a_def encode_frk_def enc8_def new_fork_def file_a_def c_str_def)
  have get: "GetCatalog zeros_before (volume_a 4096) file_a = Some (volume_a 4096, Some (catalog_a 4096))"
    by (simp add: GetCatalog_def volume_a_lookup)
  obtain t1 where "fork_loop (volume_a 4096) fork_a 4096 4096 new_fork = Some (t1, Some (4096, 4096))"
    by (subst (asm) fork_loop.simps) (simp add: volume_a_facts Let_def)
  moreover have "ForkName_frk fork_a ! 0 \<noteq> 0" "CatalogName_frk fork_a ! 0 \<noteq> 0" "DataSize_frk fork_a \<noteq> 0"
    by (simp_all add: fork_a_def file_a_def)
  ultimately obtain t' f' where made: "CreateFork zeros_before (volume_a 4096) fork_a = Some (t', f', True)"
    by (simp add: CreateFork_def cat get catalog_a_facts kNeFSCatalogStartAddress_def Let_def)
  have "length file_a \<le> 256" by (simp add: file_a_def)
  from nefs_fork_ends_lookups [OF made this, where before' = zeros_before] show ?thesis using made get by auto
qed

end
