(* ===== verification/FileMgr.thy ===== *)
theory FileMgr
  imports HeFSVolume NeFSVolume
begin

text \<open>
  The file manager: the interface \<open>IFilesystemMgr\<close> and the stream class of
  \<^verbatim>\<open>KernelKit/FileMgr.h\<close>, the mounted file system of \<^verbatim>\<open>src/FileMgr.cpp\<close>, the manager of OpenHeFS
  (\<^verbatim>\<open>src/FS/OpenHeFS+FileMgr.cpp\<close>) and the swap disk \<^verbatim>\<open>src/Swap/DiskSwap.cpp\<close> that uses streams.

  The virtual functions that a stream calls are a record \<open>fs_class\<close>, with one value for each
  manager; a node is \<open>None\<close> when the pointer is null and is returned updated by the calls that
  change it.  The locale \<open>fs_manager\<close> states what streams rely on, and is interpreted for
  OpenHeFS and for NeFS.  As in the theories below, \<open>None\<close> is a call that does not return, and
  the heap has room for nodes and buffers.
\<close>

section \<open>The interface\<close>

record ('s, 'n) fs_class =
  fs_Open :: "'s \<Rightarrow> u8 list \<Rightarrow> u8 list \<Rightarrow> ('s \<times> 'n option) option"
  fs_Seek :: "'s \<Rightarrow> 'n option \<Rightarrow> u64 \<Rightarrow> 's \<times> 'n option \<times> bool"
  fs_Write :: "'s \<Rightarrow> 'n option \<Rightarrow> u8 list option \<Rightarrow> u32 \<Rightarrow> ('s \<times> 'n option) option"
  fs_Read :: "'s \<Rightarrow> 'n option \<Rightarrow> u32 \<Rightarrow> u64 \<Rightarrow> ('s \<times> 'n option \<times> u8 list option) option"
  fs_Write_name :: "'s \<Rightarrow> u8 list \<Rightarrow> 'n option \<Rightarrow> u8 list option \<Rightarrow> u32 \<Rightarrow> ('s \<times> 'n option) option"
  fs_Read_name :: "'s \<Rightarrow> u8 list \<Rightarrow> 'n option \<Rightarrow> u32 \<Rightarrow> u64 \<Rightarrow> ('s \<times> 'n option \<times> u8 list option) option"

definition fs_Mount :: "'v option \<Rightarrow> 'v option \<Rightarrow> 'v option \<times> bool" where
  "fs_Mount kMountedFilesystem mount_ptr =
     (if mount_ptr \<noteq> None then (mount_ptr, True) else (kMountedFilesystem, False))"

definition fs_Unmount :: "'v option \<Rightarrow> 'v option \<times> 'v option" where
  "fs_Unmount kMountedFilesystem =
     (if kMountedFilesystem \<noteq> None then (None, kMountedFilesystem) else (kMountedFilesystem, None))"

definition fs_GetMounted :: "bool \<Rightarrow> 'v option \<Rightarrow> 'v option outcome" where
  "fs_GetMounted debug kMountedFilesystem =
     (if debug \<and> kMountedFilesystem = None then Stop else Ret kMountedFilesystem)"

section \<open>The manager of OpenHeFS\<close>

definition kOpenHeFSFileKindRegular :: u8 where "kOpenHeFSFileKindRegular = 0"
definition kOpenHeFSFileKindSymbolicLink :: u8 where "kOpenHeFSFileKindSymbolicLink = 6"

record hefs_node_desc =
  fDir :: "u8 list"
  fName :: "u8 list"
  fCursor :: u64
  fKind_desc :: u8

record hefs_mgr =
  mDriveTrait :: drive
  err_local :: int

definition last_slash :: "u8 list \<Rightarrow> nat" where
  "last_slash path = foldl (\<lambda>cut i. if path ! i = 47 then i else cut) 0 [0..<length path]"

definition hefs_split_path :: "u8 list \<Rightarrow> (u8 list \<times> u8 list) option" where
  "hefs_split_path path =
     (if path = [] \<or> path ! 0 \<noteq> 47 then None
      else if length path < 2 \<or> length path \<ge> kOpenHeFSFileNameLen then None
      else
        let cut = last_slash path;
            name_len = length path - cut - 1
        in if name_len < 1 \<or> name_len \<ge> kOpenHeFSFileNameLen then None
           else Some (take (if cut \<noteq> 0 then cut else 1) path, take name_len (drop (cut + 1) path)))"

definition HeFileSystemMgr :: "bool \<Rightarrow> bool \<Rightarrow> hefs_mgr \<Rightarrow> hefs_mgr" where
  "HeFileSystemMgr primary secondary m = m\<lparr>mDriveTrait := io_construct_main_drive primary secondary (mDriveTrait m)\<rparr>"

definition hefs_Remove :: "hefs_mgr \<Rightarrow> u8 list \<Rightarrow> (hefs_mgr \<times> bool) option" where
  "hefs_Remove m path =
     (if path = [] then Some (m, False)
      else case hefs_split_path path of
        None \<Rightarrow> Some (m\<lparr>err_local := kErrorInvalidData\<rparr>, False)
      | Some (dir, nm) \<Rightarrow>
          (case DeleteINode (mDriveTrait m) kOpenHeFSEncodingFlagsUTF8 dir nm kOpenHeFSFileKindRegular of
             None \<Rightarrow> None
           | Some (t, ok) \<Rightarrow> Some (m\<lparr>err_local := kErrorSuccess, mDriveTrait := t\<rparr>, ok)))"

definition hefs_Open :: "hefs_mgr \<Rightarrow> u8 list \<Rightarrow> u8 list \<Rightarrow> (hefs_mgr \<times> hefs_node_desc option) option" where
  "hefs_Open m path r =
     (if path = [] then Some (m, None)
      else if r = [] then Some (m, None)
      else case hefs_split_path path of
        None \<Rightarrow> Some (m\<lparr>err_local := kErrorInvalidData\<rparr>, None)
      | Some (dir, nm) \<Rightarrow>
          (case INodeExists (mDriveTrait m) dir nm kOpenHeFSFileKindRegular of
             None \<Rightarrow> None
           | Some (t, False) \<Rightarrow> Some (m\<lparr>mDriveTrait := t, err_local := kErrorFileNotFound\<rparr>, None)
           | Some (t, True) \<Rightarrow> Some (m\<lparr>mDriveTrait := t, err_local := kErrorSuccess\<rparr>,
               Some \<lparr>fDir = dir, fName = nm, fCursor = 0, fKind_desc = kOpenHeFSFileKindRegular\<rparr>)))"

definition hefs_Create :: "hefs_mgr \<Rightarrow> u8 list \<Rightarrow> (hefs_mgr \<times> hefs_node_desc option) option" where
  "hefs_Create m path =
     (if path = [] then Some (m, None)
      else case hefs_split_path path of
        None \<Rightarrow> Some (m\<lparr>err_local := kErrorInvalidData\<rparr>, None)
      | Some (dir, nm) \<Rightarrow>
          (case CreateINode (mDriveTrait m) kOpenHeFSEncodingFlagsUTF8 dir nm kOpenHeFSFileKindRegular of
             None \<Rightarrow> None
           | Some (t, False) \<Rightarrow> Some (m\<lparr>mDriveTrait := t, err_local := kErrorDiskIsFull\<rparr>, None)
           | Some (t, True) \<Rightarrow> hefs_Open (m\<lparr>err_local := kErrorSuccess, mDriveTrait := t\<rparr>) path [114, 98]))"

definition hefs_CreateDirectory :: "bool \<Rightarrow> hefs_mgr \<Rightarrow> u8 list \<Rightarrow> (hefs_mgr \<times> hefs_node_desc option) outcome option" where
  "hefs_CreateDirectory debug m path =
     (if path = [] then Some (Ret (m, None))
      else if length path \<ge> kOpenHeFSFileNameLen then Some (Ret (m\<lparr>err_local := kErrorInvalidData\<rparr>, None))
      else case CreateINodeDirectory debug (mDriveTrait m) kOpenHeFSEncodingFlagsUTF8 path of
        None \<Rightarrow> None
      | Some Stop \<Rightarrow> Some Stop
      | Some (Ret (t, ok)) \<Rightarrow>
          Some (Ret (m\<lparr>mDriveTrait := t, err_local := (if ok then kErrorSuccess else kErrorDiskIsFull)\<rparr>, None)))"

definition hefs_CreateAlias :: "hefs_mgr \<Rightarrow> u8 list \<Rightarrow> (hefs_mgr \<times> hefs_node_desc option) option" where
  "hefs_CreateAlias m path =
     (if path = [] then Some (m, None)
      else case hefs_split_path path of
        None \<Rightarrow> Some (m\<lparr>err_local := kErrorInvalidData\<rparr>, None)
      | Some (dir, nm) \<Rightarrow>
          (case CreateINode (mDriveTrait m) kOpenHeFSEncodingFlagsUTF8 dir nm kOpenHeFSFileKindSymbolicLink of
             None \<Rightarrow> None
           | Some (t, ok) \<Rightarrow>
               Some (m\<lparr>mDriveTrait := t, err_local := (if ok then kErrorSuccess else kErrorDiskIsFull)\<rparr>, None)))"

definition hefs_CreateSwapFile :: "hefs_mgr \<Rightarrow> u8 list \<Rightarrow> hefs_mgr \<times> hefs_node_desc option" where
  "hefs_CreateSwapFile m path =
     (if path = [] then (m, None) else (m\<lparr>err_local := kErrorInvalidData\<rparr>, None))"

definition hefs_Write ::
  "hefs_mgr \<Rightarrow> hefs_node_desc option \<Rightarrow> u8 list option \<Rightarrow> u32 \<Rightarrow> (hefs_mgr \<times> hefs_node_desc option) option" where
  "hefs_Write m node data flags =
     (case (node, data) of
        (Some desc, Some bytes) \<Rightarrow>
          if bytes = [] then Some (m, node)
          else if length bytes > unat kOpenHeFSBlockLen then Some (m\<lparr>err_local := kErrorDiskIsFull\<rparr>, node)
          else (case INodeManip (mDriveTrait m) bytes (fDir desc) (fName desc) (fKind_desc desc) False of
                  None \<Rightarrow> None
                | Some (t, _, False) \<Rightarrow> Some (m\<lparr>mDriveTrait := t, err_local := kErrorFileNotFound\<rparr>, node)
                | Some (t, _, True) \<Rightarrow> Some (m\<lparr>mDriveTrait := t, err_local := kErrorSuccess\<rparr>,
                    Some (desc\<lparr>fCursor := of_nat (length bytes)\<rparr>)))
      | _ \<Rightarrow> Some (m, node))"

definition hefs_Read ::
  "hefs_mgr \<Rightarrow> hefs_node_desc option \<Rightarrow> u32 \<Rightarrow> u64 \<Rightarrow> (hefs_mgr \<times> hefs_node_desc option \<times> u8 list option) option" where
  "hefs_Read m node flags sz =
     (case node of
        None \<Rightarrow> Some (m, node, None)
      | Some desc \<Rightarrow>
          if sz = 0 then Some (m, node, None)
          else
            let sz = (if sz > kOpenHeFSBlockLen then kOpenHeFSBlockLen else sz)
            in case INodeManip (mDriveTrait m) (replicate (unat sz) 0) (fDir desc) (fName desc) (fKind_desc desc) True of
                 None \<Rightarrow> None
               | Some (t, _, False) \<Rightarrow> Some (m\<lparr>mDriveTrait := t, err_local := kErrorFileNotFound\<rparr>, node, None)
               | Some (t, blob, True) \<Rightarrow> Some (m\<lparr>mDriveTrait := t, err_local := kErrorSuccess\<rparr>,
                   Some (desc\<lparr>fCursor := sz\<rparr>), Some blob))"

text \<open>
  The named variants work on a mount point of their own, constructed afresh over the same device;
  what they leave on the device and in the global error number is seen by the manager's drive.
\<close>

definition hefs_own_drive :: "bool \<Rightarrow> bool \<Rightarrow> hefs_mgr \<Rightarrow> drive" where
  "hefs_own_drive primary secondary m = io_construct_main_drive primary secondary (mDriveTrait m)"

definition hefs_put_device :: "hefs_mgr \<Rightarrow> drive \<Rightarrow> hefs_mgr" where
  "hefs_put_device m t = m\<lparr>mDriveTrait := (mDriveTrait m)\<lparr>disk := disk t, err_global := err_global t\<rparr>\<rparr>"

definition hefs_Write_name ::
  "bool \<Rightarrow> bool \<Rightarrow> hefs_mgr \<Rightarrow> u8 list \<Rightarrow> hefs_node_desc option \<Rightarrow> u8 list option \<Rightarrow> u32
    \<Rightarrow> (hefs_mgr \<times> hefs_node_desc option) option" where
  "hefs_Write_name primary secondary m nm node data flags =
     (case data of
        None \<Rightarrow> Some (m, node)
      | Some bytes \<Rightarrow>
          if flags = 0 \<or> bytes = [] then Some (m, node)
          else (case INodeManip (hefs_own_drive primary secondary m) bytes [47] nm 0 False of
                  None \<Rightarrow> None
                | Some (t, _, _) \<Rightarrow> Some (hefs_put_device m t, node)))"

definition hefs_Read_name ::
  "bool \<Rightarrow> bool \<Rightarrow> hefs_mgr \<Rightarrow> u8 list \<Rightarrow> hefs_node_desc option \<Rightarrow> u32 \<Rightarrow> u64
    \<Rightarrow> (hefs_mgr \<times> hefs_node_desc option \<times> u8 list option) option" where
  "hefs_Read_name primary secondary m nm node flags sz =
     (case INodeManip (hefs_own_drive primary secondary m) (replicate (unat sz) 0) [47] nm 0 True of
        None \<Rightarrow> None
      | Some (t, blob, _) \<Rightarrow> Some (hefs_put_device m t, node, Some blob))"

definition hefs_Seek :: "hefs_mgr \<Rightarrow> hefs_node_desc option \<Rightarrow> u64 \<Rightarrow> hefs_mgr \<times> hefs_node_desc option \<times> bool" where
  "hefs_Seek m node off =
     (case node of
        None \<Rightarrow> (m, node, False)
      | Some desc \<Rightarrow>
          if off \<ge> kOpenHeFSBlockLen then (m\<lparr>err_local := kErrorInvalidData\<rparr>, node, False)
          else (m, Some (desc\<lparr>fCursor := off\<rparr>), True))"

definition hefs_Tell :: "hefs_node_desc option \<Rightarrow> u64" where
  "hefs_Tell node = (case node of None \<Rightarrow> kFileMgrNPos | Some desc \<Rightarrow> fCursor desc)"

definition hefs_Rewind :: "hefs_mgr \<Rightarrow> hefs_node_desc option \<Rightarrow> hefs_mgr \<times> hefs_node_desc option \<times> bool" where
  "hefs_Rewind m node = (if node = None then (m, node, False) else hefs_Seek m node 0)"

definition hefs_class :: "bool \<Rightarrow> bool \<Rightarrow> (hefs_mgr, hefs_node_desc) fs_class" where
  "hefs_class primary secondary = \<lparr>fs_Open = hefs_Open, fs_Seek = hefs_Seek, fs_Write = hefs_Write, fs_Read = hefs_Read,
     fs_Write_name = hefs_Write_name primary secondary, fs_Read_name = hefs_Read_name primary secondary\<rparr>"

section \<open>The manager of NeFS behind the interface\<close>

definition nefs_blob :: "(drive \<times> nefs_fork option) option \<Rightarrow> nefs_catalog option
  \<Rightarrow> (drive \<times> nefs_catalog option \<times> u8 list option) option" where
  "nefs_blob res node = map_option (\<lambda>(t, f). (t, node, map_option encode_frk f)) res"

definition nefs_class :: "(u8 list \<Rightarrow> u8 list) \<Rightarrow> (drive, nefs_catalog) fs_class" where
  "nefs_class before = \<lparr>fs_Open = mgr_Open before,
     fs_Seek = (\<lambda>t node off. let (t, ok) = mgr_Seek t node in (t, node, ok)),
     fs_Write = (\<lambda>t node data flags. map_option (\<lambda>t. (t, node)) (mgr_Write before t node data flags)),
     fs_Read = (\<lambda>t node flags sz. nefs_blob (mgr_Read t node flags sz) node),
     fs_Write_name = (\<lambda>t nm node data flags. map_option (\<lambda>t. (t, node)) (mgr_Write_fork before t nm node data flags)),
     fs_Read_name = (\<lambda>t nm node flags sz. nefs_blob (mgr_Read_fork t nm node flags sz) node)\<rparr>"

section \<open>Streams\<close>

datatype file_restrict = RestrictRead | RestrictReadBinary | RestrictWrite | RestrictFork | RestrictWriteBinary
  | RestrictReadWrite | RestrictReadWriteFork | RestrictReadWriteBinary | RestrictReadWriteBinaryFork

record 'n file_stream =
  fFile :: "'n option"
  fFileRestrict :: file_restrict

definition kRestrictR :: "u8 list" where "kRestrictR = [114]"
definition kRestrictRB :: "u8 list" where "kRestrictRB = [114, 98]"
definition kRestrictW :: "u8 list" where "kRestrictW = [119]"
definition kRestrictWR :: "u8 list" where "kRestrictWR = [114, 119]"
definition kRestrictWRB :: "u8 list" where "kRestrictWRB = [114, 119, 98]"

definition kRestrictList :: "(u8 list \<times> file_restrict) list" where
  "kRestrictList = [(kRestrictR, RestrictRead), (kRestrictRB, RestrictReadBinary), (kRestrictWRB, RestrictReadWriteBinary),
     (kRestrictW, RestrictWrite), (kRestrictWR, RestrictReadWrite)]"

text \<open>\<open>rt_string_cmp\<close> over the length of the entry; the mode's terminator ends a shorter mode.\<close>

fun restrict_loop :: "u8 list \<Rightarrow> (u8 list \<times> file_restrict) list \<Rightarrow> file_restrict \<Rightarrow> file_restrict" where
  "restrict_loop mode [] deflt = deflt"
| "restrict_loop mode ((entry, mapped) # rest) deflt =
     (if take (length entry) (mode @ [0]) = entry then mapped else restrict_loop mode rest deflt)"

definition FileStream :: "('s, 'n) fs_class \<Rightarrow> 's \<Rightarrow> u8 list \<Rightarrow> u8 list \<Rightarrow> ('s \<times> 'n file_stream) option" where
  "FileStream man s path mode =
     (case fs_Open man s path mode of
        None \<Rightarrow> None
      | Some (s, node) \<Rightarrow>
          Some (s, \<lparr>fFile = node, fFileRestrict = restrict_loop mode kRestrictList RestrictReadBinary\<rparr>))"

definition may_write :: "file_restrict \<Rightarrow> bool" where
  "may_write r \<longleftrightarrow> r \<in> {RestrictReadWrite, RestrictReadWriteBinary, RestrictWrite, RestrictWriteBinary}"

definition may_read :: "file_restrict \<Rightarrow> bool" where
  "may_read r \<longleftrightarrow> r \<in> {RestrictReadWrite, RestrictReadWriteBinary, RestrictRead, RestrictReadBinary}"

definition stream_Write ::
  "('s, 'n) fs_class \<Rightarrow> 's \<Rightarrow> 'n file_stream \<Rightarrow> u64 \<Rightarrow> u8 list option \<Rightarrow> ('s \<times> 'n file_stream \<times> u64) option" where
  "stream_Write man s f offset data =
     (case data of
        None \<Rightarrow> Some (s, f, 0)
      | Some bytes \<Rightarrow>
          if \<not> may_write (fFileRestrict f) then Some (s, f, 0)
          else let (s, node, _) = fs_Seek man s (fFile f) offset
            in case fs_Write man s node data 0 of
                 None \<Rightarrow> None
               | Some (s, node) \<Rightarrow> Some (s, f\<lparr>fFile := node\<rparr>, of_nat (length bytes)))"

definition stream_Write_name ::
  "('s, 'n) fs_class \<Rightarrow> 's \<Rightarrow> 'n file_stream \<Rightarrow> u8 list \<Rightarrow> u8 list option \<Rightarrow> ('s \<times> 'n file_stream \<times> u64) option" where
  "stream_Write_name man s f nm data =
     (case data of
        None \<Rightarrow> Some (s, f, 0)
      | Some bytes \<Rightarrow>
          if \<not> may_write (fFileRestrict f) then Some (s, f, 0)
          else (case fs_Write_name man s nm (fFile f) data 0 of
                  None \<Rightarrow> None
                | Some (s, node) \<Rightarrow> Some (s, f\<lparr>fFile := node\<rparr>, of_nat (length bytes))))"

definition stream_Read ::
  "('s, 'n) fs_class \<Rightarrow> 's \<Rightarrow> 'n file_stream \<Rightarrow> u64 \<Rightarrow> u64 \<Rightarrow> ('s \<times> 'n file_stream \<times> (int + u8 list option)) option" where
  "stream_Read man s f offset sz =
     (if \<not> may_read (fFileRestrict f) then Some (s, f, Inl kErrorInvalidData)
      else let (s, node, _) = fs_Seek man s (fFile f) offset
        in case fs_Read man s node 102 sz of
             None \<Rightarrow> None
           | Some (s, node, blob) \<Rightarrow> Some (s, f\<lparr>fFile := node\<rparr>, Inr blob))"

definition stream_Read_name ::
  "('s, 'n) fs_class \<Rightarrow> 's \<Rightarrow> 'n file_stream \<Rightarrow> u8 list \<Rightarrow> u64 \<Rightarrow> ('s \<times> 'n file_stream \<times> (int + u8 list option)) option" where
  "stream_Read_name man s f nm sz =
     (if \<not> may_read (fFileRestrict f) then Some (s, f, Inl kErrorInvalidData)
      else case fs_Read_name man s nm (fFile f) 101 sz of
             None \<Rightarrow> None
           | Some (s, node, blob) \<Rightarrow> Some (s, f\<lparr>fFile := node\<rparr>, Inr blob))"

section \<open>The swap disk\<close>

definition kSwapDiskHeaderMagic :: u32 where "kSwapDiskHeaderMagic = 0x44535750"

text \<open>A swap header in memory with its blob: its bytes, of which the first four are the magic.\<close>

definition sizeof_swap_hdr :: nat where "sizeof_swap_hdr = 56"
definition swap_magic :: "u8 list \<Rightarrow> u32" where "swap_magic bs = dec32 bs 0"
definition swap_offset :: "u8 list \<Rightarrow> u64" where "swap_offset bs = dec64 bs 28"
definition swap_blob_size :: "u8 list \<Rightarrow> u64" where "swap_blob_size bs = dec64 bs 44"

definition smmi_check_swap_dsk :: "u8 list option \<Rightarrow> bool" where
  "smmi_check_swap_dsk hdr = (case hdr of None \<Rightarrow> False | Some bs \<Rightarrow> swap_blob_size bs > 0)"

definition swap_Write :: "('s, 'n) fs_class \<Rightarrow> 's \<Rightarrow> u8 list option \<Rightarrow> u8 list \<Rightarrow> ('s \<times> u64) option" where
  "swap_Write man s data nm =
     (case data of
        None \<Rightarrow> Some (s, 0)
      | Some bs \<Rightarrow>
          if swap_magic bs \<noteq> kSwapDiskHeaderMagic then Some (s, 0)
          else if nm = [] then Some (s, 0)
          else case FileStream man s nm kRestrictWRB of
            None \<Rightarrow> None
          | Some (s, file) \<Rightarrow>
              if fFile file = None then Some (s, 0)
              else (case stream_Write man s file (swap_offset bs)
                           (Some (take (sizeof_swap_hdr + unat (swap_blob_size bs)) bs)) of
                      None \<Rightarrow> None
                    | Some (s, _, ret) \<Rightarrow> Some (s, ret)))"

definition swap_Read :: "('s, 'n) fs_class \<Rightarrow> 's \<Rightarrow> u64 \<Rightarrow> u64 \<Rightarrow> u8 list \<Rightarrow> ('s \<times> u8 list option) option" where
  "swap_Read man s offset data_len nm =
     (if data_len = 0 then Some (s, None)
      else if nm = [] then Some (s, None)
      else case FileStream man s nm kRestrictRB of
        None \<Rightarrow> None
      | Some (s, file) \<Rightarrow>
          if fFile file = None then Some (s, None)
          else (case stream_Read man s file offset (of_nat sizeof_swap_hdr + data_len) of
                  None \<Rightarrow> None
                | Some (s, _, Inl err) \<Rightarrow> Some (s, None)
                | Some (s, _, Inr None) \<Rightarrow> Some (s, None)
                | Some (s, _, Inr (Some blob)) \<Rightarrow>
                    if swap_magic blob \<noteq> kSwapDiskHeaderMagic then Some (s, None) else Some (s, Some blob)))"

section \<open>Paths\<close>

lemma last_slash_split:
  assumes "47 \<notin> set nm"
  shows "last_slash (d @ 47 # nm) = length d"
proof -
  have "foldl (\<lambda>cut i. if (d @ 47 # nm) ! i = 47 then i else cut) c [0..<Suc (length d)] = length d" for c
    by simp
  moreover have "foldl (\<lambda>cut i. if (d @ 47 # nm) ! i = 47 then i else cut) c [Suc (length d)..<Suc (length d) + k] = c"
    if "k \<le> length nm" for c k
    using that
  proof (induction k)
    case (Suc k)
    then have "nm ! k \<noteq> 47" using assms nth_mem [of k nm] Suc_le_lessD by metis
    then show ?case using Suc by (simp add: nth_append)
  qed simp
  moreover have "[0..<length (d @ 47 # nm)] = [0..<Suc (length d)] @ [Suc (length d)..<Suc (length d) + length nm]"
    by (subst upt_add_eq_append [symmetric]) simp_all
  ultimately show ?thesis by (simp only: last_slash_def foldl_append order_refl)
qed

text \<open>
  Splitting a path cuts it at its last separator.  A path has a directory and a name exactly when it
  starts with the separator, has less than 256 bytes and a non-empty name behind the last
  separator; the directory of a name right below the root is the root.
\<close>

theorem hefs_split_path_correct:
  "hefs_split_path path = Some (dir, nm) \<longleftrightarrow>
    (\<exists>d. path = d @ [47] @ nm \<and> nm \<noteq> [] \<and> 47 \<notin> set nm \<and> hd path = 47 \<and> length path < 256
      \<and> dir = (if d = [] then [47] else d))" (is "?l \<longleftrightarrow> ?r")
proof (cases "path \<noteq> [] \<and> hd path = 47")
  case False
  then show ?thesis by (cases path) (auto simp: hefs_split_path_def)
next
  case True
  then have "47 \<in> set path" by (metis hd_in_set)
  then obtain d0 nm0 where p: "path = d0 @ 47 # nm0" "47 \<notin> set nm0" by (metis split_list_last)
  have split: "hefs_split_path path = (if nm0 = [] \<or> length path \<ge> 256 then None else Some (if d0 = [] then [47] else d0, nm0))"
    using True p last_slash_split [OF p(2), of d0] hd_conv_nth [of path]
    by (auto simp: hefs_split_path_def kOpenHeFSFileNameLen_def Let_def Suc_le_eq)
  show ?thesis
  proof
    assume ?l
    then show ?r using split p True by (auto split: if_splits)
  next
    assume ?r
    then obtain d where d: "path = d @ 47 # nm" "nm \<noteq> []" "47 \<notin> set nm" "length path < 256" "dir = (if d = [] then [47] else d)"
      by auto
    have "last_slash path = length d" unfolding d(1) by (rule last_slash_split [OF d(3)])
    moreover have "last_slash path = length d0" unfolding p(1) by (rule last_slash_split [OF p(2)])
    ultimately have "d = d0" "nm = nm0" using trans [OF sym [OF d(1)] p(1)] by simp_all
    then show ?l using split d by auto
  qed
qed

section \<open>What the managers keep of the device\<close>

definition same_device :: "drive \<Rightarrow> drive \<Rightarrow> bool" where
  "same_device t t' \<longleftrightarrow> (\<exists>e. t' = t\<lparr>err_global := e\<rparr>)"

lemma same_device_refl [simp]: "same_device t t" "same_device t (set_err e t)"
proof -
  have "t = t\<lparr>err_global := err_global t\<rparr>" by simp
  then show "same_device t t" unfolding same_device_def by blast
qed (auto simp: same_device_def set_err_def)

lemma same_device_err [simp]: "same_device t (set_err e t') = same_device t t'"
  by (auto simp: same_device_def set_err_def) (metis drive.surjective drive.update_convs(9))

lemma fetch_loop_device: "fetch_loop b t dir f kind start = Some r \<Longrightarrow> same_device t (fst r)"
  by (rule fetch_loop.raw_induct [where P = "\<lambda>b t dir f kind start r. same_device t (fst r)"])
    (auto simp: Let_def split: if_splits option.splits)

lemma fetch_in_device: "hefsi_fetch_in b t dir f kind = Some (t', nd) \<Longrightarrow> same_device t t'"
  using fetch_loop_device by (fastforce simp: hefsi_fetch_in_def split: if_splits)

lemma INodeExists_device: "INodeExists t dir f kind = Some (t', ok) \<Longrightarrow> same_device t t'"
  by (auto simp: INodeExists_def Let_def split: if_splits option.splits prod.splits dest!: fetch_in_device)

lemma INodeManip_input_device: "INodeManip t blk dir f kind True = Some (t', blob, ok) \<Longrightarrow> same_device t t'"
  by (auto simp: INodeManip_def Let_def split: if_splits option.splits prod.splits dest!: fetch_in_device)

section \<open>The contract of a file system\<close>

lemma mode_r: "restrict_loop (114 # mode) kRestrictList deflt = RestrictRead"
  by (simp add: kRestrictList_def kRestrictR_def)

text \<open>
  Opening a node, moving its cursor and reading it leave the device as it is; writing a null node
  does nothing.
\<close>

locale fs_manager =
  fixes man :: "('s, 'n) fs_class"
    and device :: "'s \<Rightarrow> mem"
  assumes open_keeps: "fs_Open man s path mode = Some (s', node) \<Longrightarrow> device s' = device s"
    and seek_keeps: "fs_Seek man s node off = (s', node', ok) \<Longrightarrow> device s' = device s"
    and read_keeps: "fs_Read man s node flags sz = Some (s', node', blob) \<Longrightarrow> device s' = device s"
    and read_name_keeps: "fs_Read_name man s nm node flags sz = Some (s', node', blob) \<Longrightarrow> device s' = device s"
    and seek_null: "fs_Seek man s None off = (s', node', ok) \<Longrightarrow> node' = None \<and> \<not> ok"
    and write_null: "fs_Write man s None data flags = Some (s, None)"
begin

lemma stream_open:
  assumes "FileStream man s path mode = Some (s', f)"
  shows "device s' = device s" and "fFileRestrict f = restrict_loop mode kRestrictList RestrictReadBinary"
  using assms open_keeps by (auto simp: FileStream_def split: option.splits prod.splits)

lemma stream_read_keeps:
  "stream_Read man s f off sz = Some (s', f', res) \<Longrightarrow> device s' = device s"
  "stream_Read_name man s f nm sz = Some (s', f', res) \<Longrightarrow> device s' = device s"
  by (auto simp: stream_Read_def stream_Read_name_def Let_def split: if_splits option.splits prod.splits
      dest!: seek_keeps read_keeps read_name_keeps)

lemma stream_r_never_writes:
  assumes "FileStream man s path (114 # mode) = Some (s', f)"
  shows "device s' = device s \<and> stream_Write man s' f off data = Some (s', f, 0)
    \<and> stream_Write_name man s' f nm data = Some (s', f, 0)"
  using stream_open [OF assms] mode_r [of mode RestrictReadBinary]
  by (auto simp: stream_Write_def stream_Write_name_def may_write_def split: option.split)

lemma stream_null_write:
  assumes "fFile f = None" and "stream_Write man s f off (Some bytes) = Some (s', f', n)"
  shows "device s' = device s \<and> n \<in> {0, of_nat (length bytes)}"
proof (cases "may_write (fFileRestrict f)")
  case True
  obtain s1 ok where "fs_Seek man s None off = (s1, None, ok)" using seek_null [of s off] by (metis prod.exhaust)
  then show ?thesis using assms True write_null [of s1 "Some bytes" 0] seek_keeps [of s None off s1 None ok]
    by (simp add: stream_Write_def)
qed (use assms in \<open>simp add: stream_Write_def\<close>)

lemma swap_never_written:
  assumes "swap_Write man s data nm = Some (s', n)"
  shows "n = 0 \<and> device s' = device s"
proof (cases "FileStream man s nm kRestrictWRB")
  case None
  then show ?thesis using assms by (auto simp: swap_Write_def split: if_splits option.splits)
next
  case (Some r)
  obtain s1 f where r: "r = (s1, f)" by (cases r)
  have "device s1 = device s" "stream_Write man s1 f off d = Some (s1, f, 0)" for off d
    using stream_r_never_writes [of s nm "[119, 98]" s1 f] Some by (simp_all add: r kRestrictWRB_def)
  then show ?thesis using assms Some by (auto simp: swap_Write_def r split: if_splits option.splits)
qed

lemma swap_read_keeps:
  assumes "swap_Read man s off len nm = Some (s', blob)"
  shows "device s' = device s"
  using assms by (auto simp: swap_Read_def split: if_splits option.splits prod.splits sum.splits
      dest!: stream_open(1) stream_read_keeps(1))

end

lemma same_device_disk: "same_device t t' \<Longrightarrow> disk t' = disk t"
  by (auto simp: same_device_def)

lemma own_drive_disk: "disk (hefs_own_drive p q m) = disk (mDriveTrait m)"
  by (simp add: hefs_own_drive_def io_construct_main_drive_def io_detect_drive_def io_drv_init_def Let_def)

interpretation hefs: fs_manager "hefs_class primary secondary" "\<lambda>m. disk (mDriveTrait m)"
proof unfold_locales
  fix m m' :: hefs_mgr and node node' path mode nm flags sz off blob ok and data :: "u8 list option"
  show "fs_Open (hefs_class primary secondary) m path mode = Some (m', node) \<Longrightarrow> disk (mDriveTrait m') = disk (mDriveTrait m)"
    by (auto simp: hefs_class_def hefs_Open_def split: if_splits option.splits prod.splits bool.splits
        dest!: INodeExists_device same_device_disk)
  show "fs_Seek (hefs_class primary secondary) m node off = (m', node', ok) \<Longrightarrow> disk (mDriveTrait m') = disk (mDriveTrait m)"
    by (auto simp: hefs_class_def hefs_Seek_def split: if_splits option.splits)
  show "fs_Read (hefs_class primary secondary) m node flags sz = Some (m', node', blob) \<Longrightarrow> disk (mDriveTrait m') = disk (mDriveTrait m)"
    by (auto simp: hefs_class_def hefs_Read_def Let_def split: if_splits option.splits prod.splits bool.splits
        dest!: INodeManip_input_device same_device_disk)
  show "fs_Read_name (hefs_class primary secondary) m nm node flags sz = Some (m', node', blob)
      \<Longrightarrow> disk (mDriveTrait m') = disk (mDriveTrait m)"
    by (auto simp: hefs_class_def hefs_Read_name_def hefs_put_device_def own_drive_disk split: option.splits prod.splits
        dest!: INodeManip_input_device same_device_disk)
  show "fs_Seek (hefs_class primary secondary) m None off = (m', node', ok) \<Longrightarrow> node' = None \<and> \<not> ok"
    by (simp add: hefs_class_def hefs_Seek_def)
  show "fs_Write (hefs_class primary secondary) m None data flags = Some (m, None)"
    by (simp add: hefs_class_def hefs_Write_def)
qed

lemma nefs_open_disk: "mgr_Open before t path r = Some (t', node) \<Longrightarrow> disk t' = disk t"
  by (auto simp: mgr_Open_def GetCatalog_def scan_post_def split: if_splits option.splits prod.splits dest!: FindCatalog_post)

lemma nefs_read_disk: "mgr_Read_fork t nm node flags sz = Some (t', f) \<Longrightarrow> disk t' = disk t"
  by (auto simp: mgr_Read_fork_def ReadCatalog_def Let_def split: if_splits option.splits bool.splits)

interpretation nefs: fs_manager "nefs_class before" disk
proof unfold_locales
  fix t t' :: drive and node node' path mode nm flags sz off blob ok and data :: "u8 list option"
  show "fs_Open (nefs_class before) t path mode = Some (t', node) \<Longrightarrow> disk t' = disk t"
    by (simp add: nefs_class_def nefs_open_disk)
  show "fs_Seek (nefs_class before) t node off = (t', node', ok) \<Longrightarrow> disk t' = disk t"
    by (auto simp: nefs_class_def mgr_Seek_def nefs_Seek_def Let_def split: if_splits)
  show "fs_Read (nefs_class before) t node flags sz = Some (t', node', blob) \<Longrightarrow> disk t' = disk t"
    by (auto simp: nefs_class_def nefs_blob_def mgr_Read_def split: if_splits dest!: nefs_read_disk)
  show "fs_Read_name (nefs_class before) t nm node flags sz = Some (t', node', blob) \<Longrightarrow> disk t' = disk t"
    by (auto simp: nefs_class_def nefs_blob_def dest!: nefs_read_disk)
  show "fs_Seek (nefs_class before) t None off = (t', node', ok) \<Longrightarrow> node' = None \<and> \<not> ok"
    by (simp add: nefs_class_def mgr_Seek_def is_valid_nefs_catalog_def)
  show "fs_Write (nefs_class before) t None data flags = Some (t, None)"
    by (simp add: nefs_class_def mgr_Write_def is_valid_nefs_catalog_def)
qed

text \<open>
  Nothing is ever swapped out.  The swap disk opens its file with the mode \<^verbatim>\<open>rwb\<close>, and a stream
  compares a mode with each entry of its table only up to the entry's length, \<^verbatim>\<open>r\<close> first: the stream
  is read-only and its write returns 0.  With either file system mounted, \<open>IDiskSwap::Write\<close>
  reports 0 bytes and leaves the device as it was, whatever the header, the name and the volume.
\<close>

theorem swap_write_does_nothing:
  "(swap_Write (hefs_class primary secondary) m data nm = Some (m', n) \<longrightarrow> n = 0 \<and> disk (mDriveTrait m') = disk (mDriveTrait m))
    \<and> (swap_Write (nefs_class before) t data nm = Some (t', k) \<longrightarrow> k = 0 \<and> disk t' = disk t)"
  using hefs.swap_never_written nefs.swap_never_written by blast

section \<open>Files through streams\<close>

text \<open>
  The file at a path: its directory is in slot \<open>n\<close>, its index node is \<open>nd\<close>, it has a block,
  is not read-only, and a transfer of \<open>len\<close> bytes to the block keeps off the volume's structures.
\<close>

definition file_at :: "drive \<Rightarrow> u8 list \<Rightarrow> boot_node \<Rightarrow> nat \<Rightarrow> index_node \<Rightarrow> nat \<Rightarrow> bool" where
  "file_at t path b n nd len \<longleftrightarrow>
     (case hefs_split_path path of
        None \<Rightarrow> False
      | Some (dir, nm) \<Rightarrow> read_boot t = b \<and> magic_ok b \<and> dir_slot t b dir n \<and> err_global t \<noteq> kErrorDiskIsCorrupted
          \<and> fStartIN_b b \<le> fEndIN_b b \<and> dir_map t b n (hefsi_hash_64 nm, kOpenHeFSFileKindRegular) = Some nd
          \<and> fOffsetSliceLow_n nd \<noteq> 0 \<and> hefsi_hash_64 nm \<noteq> 0 \<and> fFlags_n nd AND kOpenHeFSFlagsReadOnly = 0
          \<and> drive_writable t (node_lba nd) \<and> data_apart t b n (node_lba nd) len)"

definition fresh_desc :: "u8 list \<Rightarrow> u8 list \<Rightarrow> hefs_node_desc" where
  "fresh_desc dir nm = \<lparr>fDir = dir, fName = nm, fCursor = 0, fKind_desc = kOpenHeFSFileKindRegular\<rparr>"

lemma read_set_err [simp]:
  "read_boot (set_err e t) = read_boot t" "read_dir (set_err e t) = read_dir t" "dir_slot (set_err e t) = dir_slot t"
  "dir_map (set_err e t) = dir_map t" "drive_writable (set_err e t) = drive_writable t" "data_apart (set_err e t) = data_apart t"
proof -
  have inp: "io_drv_input (set_err e t) = io_drv_input t" by (intro ext) (simp add: io_drv_input_def set_err_def)
  have start: "fLbaStart (set_err e t) = fLbaStart t" by (simp add: set_err_def)
  have r: "read_dir (set_err e t) = read_dir t" "read_node (set_err e t) = read_node t"
    by (intro ext; simp add: read_dir_def read_node_def inp)+
  show "read_boot (set_err e t) = read_boot t" "read_dir (set_err e t) = read_dir t"
    by (simp_all add: r) (simp add: read_boot_def inp start)
  show "dir_slot (set_err e t) = dir_slot t" "drive_writable (set_err e t) = drive_writable t"
    "data_apart (set_err e t) = data_apart t" "dir_map (set_err e t) = dir_map t"
    by (intro ext; simp add: dir_slot_def r drive_writable_def data_apart_def dir_map_def scan_slices_find; simp add: set_err_def)+
qed

lemma file_at_err: "file_at t path b n nd len \<Longrightarrow> e \<noteq> kErrorDiskIsCorrupted \<Longrightarrow> file_at (set_err e t) path b n nd len"
  by (auto simp: file_at_def split: option.splits) (simp add: set_err_def)

lemma file_at_write:
  assumes "file_at t path b n nd (length bs)" and "length bs \<le> 512"
  shows "file_at (io_drv_output t (node_lba nd) bs) path b n nd (length bs)"
proof -
  obtain dir nm where p: "hefs_split_path path = Some (dir, nm)" using assms(1) by (auto simp: file_at_def split: option.splits)
  have len: "length bs \<le> 0x100000" using assms(2) by simp
  have ap: "data_apart t b n (node_lba nd) (length bs)" using assms(1) p by (simp add: file_at_def)
  note keep = data_apart_keeps [OF ap len]
  have "data_apart (io_drv_output t (node_lba nd) bs) b n (node_lba nd) (length bs)"
    using ap keep(2) [of n] by (simp add: data_apart_def)
  moreover have "err_global (io_drv_output t a bs) = err_global t" for a by (simp add: io_drv_output_def)
  ultimately show ?thesis using assms(1) p keep by (simp add: file_at_def hd.writable_put)
qed

lemma file_at_open:
  assumes "file_at (mDriveTrait m) path b n nd len" and "hefs_split_path path = Some (dir, nm)" and "mode \<noteq> []"
  shows "hefs_Open m path mode
    = Some (m\<lparr>mDriveTrait := set_err kErrorSuccess (mDriveTrait m), err_local := kErrorSuccess\<rparr>, Some (fresh_desc dir nm))"
proof -
  have len: "length dir \<le> kOpenHeFSFileNameLen" "length nm \<le> kOpenHeFSFileNameLen" "path \<noteq> []"
    using assms(2) by (auto simp: hefs_split_path_def Let_def split: if_splits)
  have "hefsi_fetch_in b (mDriveTrait m) dir nm kOpenHeFSFileKindRegular = Some (mDriveTrait m, Some nd)"
    using assms(1,2) by (intro fetch_lookup [where n = n]) (simp_all add: file_at_def)
  then have "INodeExists (mDriveTrait m) dir nm kOpenHeFSFileKindRegular = Some (set_err kErrorSuccess (mDriveTrait m), True)"
    using assms(1,2) len by (simp add: INodeExists_def file_at_def)
  then show ?thesis using assms(2,3) len by (simp add: hefs_Open_def fresh_desc_def)
qed

lemma file_at_manip:
  assumes "file_at t path b n nd len" and "hefs_split_path path = Some (dir, nm)"
  shows "INodeManip t block dir nm kOpenHeFSFileKindRegular is_input =
    Some (if is_input then (t, io_drv_input t (node_lba nd) (length block), True)
          else (io_drv_output t (node_lba nd) block, block, True))"
proof -
  have "length dir \<le> kOpenHeFSFileNameLen" "length nm \<le> kOpenHeFSFileNameLen"
    using assms(2) by (auto simp: hefs_split_path_def Let_def split: if_splits)
  then show ?thesis using assms by (intro INodeManip_found [where b = b and n = n]) (simp_all add: file_at_def)
qed

lemma hefs_Seek_any:
  obtains m' d' ok where "hefs_Seek m (Some d) off = (m', Some d', ok)" and "mDriveTrait m' = mDriveTrait m"
    and "fDir d' = fDir d" and "fName d' = fName d" and "fKind_desc d' = fKind_desc d"
  by (cases "off \<ge> kOpenHeFSBlockLen") (auto simp: hefs_Seek_def)

lemma stream_open_at:
  assumes "file_at (mDriveTrait m) path b n nd len" and "hefs_split_path path = Some (dir, nm)" and "mode \<noteq> []"
  shows "FileStream (hefs_class primary secondary) m path mode
    = Some (m\<lparr>mDriveTrait := set_err kErrorSuccess (mDriveTrait m), err_local := kErrorSuccess\<rparr>,
        \<lparr>fFile = Some (fresh_desc dir nm), fFileRestrict = restrict_loop mode kRestrictList RestrictReadBinary\<rparr>)"
  using file_at_open [OF assms] by (simp add: FileStream_def hefs_class_def)

lemma fresh_desc_fields [simp]:
  "fDir (fresh_desc dir nm) = dir" "fName (fresh_desc dir nm) = nm" "fKind_desc (fresh_desc dir nm) = kOpenHeFSFileKindRegular"
  by (simp_all add: fresh_desc_def)

lemma stream_write_at:
  assumes "file_at (mDriveTrait m) path b n nd (length data)" and "hefs_split_path path = Some (dir, nm)" and "data \<noteq> []"
    and "length data \<le> 512" and "fFile f = Some (fresh_desc dir nm)" and "may_write (fFileRestrict f)"
  shows "\<exists>m' f'. stream_Write (hefs_class primary secondary) m f off (Some data) = Some (m', f', of_nat (length data))
    \<and> mDriveTrait m' = io_drv_output (mDriveTrait m) (node_lba nd) data"
proof -
  obtain s d1 ok where s: "hefs_Seek m (Some (fresh_desc dir nm)) off = (s, Some d1, ok)" "mDriveTrait s = mDriveTrait m"
    "fDir d1 = dir" "fName d1 = nm" "fKind_desc d1 = kOpenHeFSFileKindRegular"
    by (rule hefs_Seek_any [of m "fresh_desc dir nm" off]) simp
  then show ?thesis using assms(3-) file_at_manip [OF assms(1,2), of data False]
    by (simp add: stream_Write_def hefs_class_def hefs_Write_def kOpenHeFSBlockLen_def)
qed

lemma stream_read_at:
  assumes "file_at (mDriveTrait m) path b n nd len" and "hefs_split_path path = Some (dir, nm)" and "0 < len" and "len \<le> 512"
    and "fFile f = Some (fresh_desc dir nm)" and "may_read (fFileRestrict f)"
  shows "\<exists>m' f'. stream_Read (hefs_class primary secondary) m f off (of_nat len)
      = Some (m', f', Inr (Some (io_drv_input (mDriveTrait m) (node_lba nd) len)))"
proof -
  obtain s d1 ok where s: "hefs_Seek m (Some (fresh_desc dir nm)) off = (s, Some d1, ok)" "mDriveTrait s = mDriveTrait m"
    "fDir d1 = dir" "fName d1 = nm" "fKind_desc d1 = kOpenHeFSFileKindRegular"
    by (rule hefs_Seek_any [of m "fresh_desc dir nm" off]) simp
  have u: "unat (of_nat len :: u64) = len" using assms(4) by simp
  then have "(of_nat len :: u64) \<noteq> 0" "\<not> of_nat len > kOpenHeFSBlockLen"
    using assms(3,4) unat_eq_0 [of "of_nat len :: u64"] by (simp_all add: kOpenHeFSBlockLen_def word_less_nat_alt)
  then show ?thesis using s assms(5,6) u file_at_manip [OF assms(1,2), of "replicate len 0" True]
    by (simp add: stream_Read_def hefs_class_def hefs_Read_def)
qed

text \<open>
  C21. What one stream writes another reads, whatever offsets they are given.  For a file of an OpenHeFS
  volume, a stream opened for writing stores up to a block of data and reports its length, and a
  stream opened afterwards for reading, at any offset, returns the same bytes: OpenHeFS keeps the
  cursor that \<open>Seek\<close> sets but every transfer starts at the file's first byte.
\<close>

theorem stream_write_read:
  assumes "file_at (mDriveTrait m) path b n nd (length data)" and "data \<noteq> []" and "length data \<le> 512"
    and "man = hefs_class primary secondary"
  shows "\<exists>m1 f m2 f2 m3 g m4 g2. FileStream man m path kRestrictW = Some (m1, f)
    \<and> stream_Write man m1 f off (Some data) = Some (m2, f2, of_nat (length data))
    \<and> FileStream man m2 path kRestrictR = Some (m3, g)
    \<and> stream_Read man m3 g off' (of_nat (length data)) = Some (m4, g2, Inr (Some data))"
proof -
  obtain dir nm where p: "hefs_split_path path = Some (dir, nm)" using assms(1) by (auto simp: file_at_def split: option.splits)
  have modes: "kRestrictW \<noteq> []" "kRestrictR \<noteq> []" "may_write (restrict_loop kRestrictW kRestrictList RestrictReadBinary)"
    "may_read (restrict_loop kRestrictR kRestrictList RestrictReadBinary)"
    by (simp_all add: kRestrictList_def kRestrictW_def kRestrictR_def kRestrictRB_def kRestrictWRB_def may_write_def may_read_def)
  have ok: "kErrorSuccess \<noteq> kErrorDiskIsCorrupted" by (simp add: kerror_defs)
  define m1 where "m1 = m\<lparr>mDriveTrait := set_err kErrorSuccess (mDriveTrait m), err_local := kErrorSuccess\<rparr>"
  note open1 = stream_open_at [OF assms(1) p modes(1), of primary secondary, folded m1_def assms(4)]
  have at1: "file_at (mDriveTrait m1) path b n nd (length data)" using file_at_err [OF assms(1) ok] by (simp add: m1_def)
  obtain m2 f2 where wr: "stream_Write man m1 \<lparr>fFile = Some (fresh_desc dir nm),
      fFileRestrict = restrict_loop kRestrictW kRestrictList RestrictReadBinary\<rparr> off (Some data) = Some (m2, f2, of_nat (length data))"
    and t2: "mDriveTrait m2 = io_drv_output (mDriveTrait m1) (node_lba nd) data"
    using stream_write_at [OF at1 p assms(2,3), of _ primary secondary off] modes(3) unfolding assms(4) by force
  have at2: "file_at (mDriveTrait m2) path b n nd (length data)" unfolding t2 by (rule file_at_write [OF at1 assms(3)])
  define m3 where "m3 = m2\<lparr>mDriveTrait := set_err kErrorSuccess (mDriveTrait m2), err_local := kErrorSuccess\<rparr>"
  note open2 = stream_open_at [OF at2 p modes(2), of primary secondary, folded m3_def assms(4)]
  have at3: "file_at (mDriveTrait m3) path b n nd (length data)" using file_at_err [OF at2 ok] by (simp add: m3_def)
  have "drive_writable (mDriveTrait m1) (node_lba nd)" using at1 p by (simp add: file_at_def)
  then have "io_drv_input (mDriveTrait m2) (node_lba nd) (length data) = data"
    unfolding t2 by (rule hd.get_put_same) (use assms(3) in simp)
  then have "io_drv_input (mDriveTrait m3) (node_lba nd) (length data) = data" by (simp add: m3_def io_drv_input_def set_err_def)
  then have "\<exists>m4 g2. stream_Read man m3 \<lparr>fFile = Some (fresh_desc dir nm),
      fFileRestrict = restrict_loop kRestrictR kRestrictList RestrictReadBinary\<rparr> off' (of_nat (length data)) = Some (m4, g2, Inr (Some data))"
    using stream_read_at [OF at3 p, of _ primary secondary off'] assms(2,3) modes(4) unfolding assms(4) by force
  then show ?thesis using open1 open2 wr by blast
qed

section \<open>The properties at concrete inputs\<close>

definition filled_mgr :: hefs_mgr where "filled_mgr = \<lparr>mDriveTrait = filled_volume, err_local = 0\<rparr>"

lemma filled_path: "hefs_split_path [47, 97] = Some ([47], [97])"
  by (simp add: hefs_split_path_def last_slash_def kOpenHeFSFileNameLen_def)

lemma filled_file: "file_at filled_volume [47, 97] sample_boot2 0 filled_node 3"
proof -
  have lba: "node_lba filled_node = 0x2000" by (simp add: node_lba_def filled_node_def make_node_def)
  have v: "fLbaStart filled_volume = 0x400" "err_global filled_volume = 0" "drive_writable filled_volume a \<longleftrightarrow> a \<noteq> 0" for a
    by (simp_all add: filled_volume_def blank_writable) (simp add: blank_drive_def)
  moreover have "data_apart filled_volume sample_boot2 0 0x2000 3"
    using v(1) unfolding data_apart_def by (simp add: sample_slots filled_reads) (simp add: filled_dir_def apart_eval list_all_iff)
  moreover have "fStartIN_b sample_boot2 \<le> fEndIN_b sample_boot2" "fOffsetSliceLow_n filled_node \<noteq> 0" "fFlags_n filled_node = 0"
    by (simp_all add: sample_boot2_def sample_boot_def filled_node_def make_node_def)
  ultimately show ?thesis using filled_dir_slot filled_dir_map file_a_hash
    by (simp add: file_at_def filled_path filled_reads filled_oks lba kOpenHeFSFileKindRegular_def kerror_defs)
qed

theorem stream_write_read_witness:
  "\<exists>m1 f m2 f2 m3 g m4 g2. FileStream (hefs_class True False) filled_mgr [47, 97] kRestrictW = Some (m1, f)
    \<and> stream_Write (hefs_class True False) m1 f 7 (Some [1, 2, 3]) = Some (m2, f2, 3)
    \<and> FileStream (hefs_class True False) m2 [47, 97] kRestrictR = Some (m3, g)
    \<and> stream_Read (hefs_class True False) m3 g 0 3 = Some (m4, g2, Inr (Some [1, 2, 3]))"
  using stream_write_read [of filled_mgr "[47, 97]" sample_boot2 0 filled_node "[1, 2, 3]" "hefs_class True False" True False 7 0]
    filled_file by (simp add: filled_mgr_def numeral_3_eq_3)

theorem swap_write_does_nothing_witness:
  "\<exists>m'. swap_Write (hefs_class True False) filled_mgr (Some (enc32 kSwapDiskHeaderMagic @ replicate 52 0)) [47, 97] = Some (m', 0)
    \<and> disk (mDriveTrait m') = disk filled_volume"
proof -
  let ?man = "hefs_class True False"
  have at: "file_at (mDriveTrait filled_mgr) [47, 97] sample_boot2 0 filled_node 3" using filled_file by (simp add: filled_mgr_def)
  have "kRestrictWRB \<noteq> []" by (simp add: kRestrictWRB_def)
  from stream_open_at [OF at filled_path this, of True False]
  obtain m1 f where f: "FileStream ?man filled_mgr [47, 97] kRestrictWRB = Some (m1, f)" "fFile f \<noteq> None" by auto
  have "stream_Write ?man m1 f off d = Some (m1, f, 0)" for off d
    using f(1) hefs.stream_r_never_writes [of True False filled_mgr "[47, 97]" "[119, 98]" m1 f off d] by (simp add: kRestrictWRB_def)
  then have "swap_Write ?man filled_mgr (Some (enc32 kSwapDiskHeaderMagic @ replicate 52 0)) [47, 97] = Some (m1, 0)"
    using f by (auto simp: swap_Write_def swap_magic_def dec32_here)
  then show ?thesis using swap_write_does_nothing [of True False filled_mgr _ "[47, 97]" m1 0] by (auto simp: filled_mgr_def)
qed

end
