(* ===== verification/PEFLoader.thy ===== *)
theory PEFLoader
  imports Paging HeFSLayout
begin

text \<open>
  The loader of PEF executables, \<^verbatim>\<open>src/PEFCodeMgr.cpp\<close> and \<^verbatim>\<open>KernelKit/PEF.h\<close>: the checks of an
  untrusted container that lies in memory, the search for a section, and its instantiation in
  fresh frames at its virtual address.  A container is the list of its bytes; C strings are lists
  without the terminator.  Structures are packed and padded to a multiple of 8 bytes.

  Copying the content of a section goes through the page tables: \<open>virt_write\<close> stores each byte
  at the translated address, and \<open>None\<close> is a page fault.  The part of \<open>FindSymbol\<close> that
  reads sections through the file manager is not modelled.
\<close>

section \<open>The format\<close>

definition kPefMagic :: "u8 list" where "kPefMagic = [79, 112, 101, 110]"
definition kPefMagicFat :: "u8 list" where "kPefMagicFat = [110, 101, 112, 79]"
definition kPefMagicLen :: nat where "kPefMagicLen = 5"
definition kPefNameLen :: nat where "kPefNameLen = 256"
definition kPefAbi :: u32 where "kPefAbi = 0x5046"
definition kPefBaseOrigin :: u64 where "kPefBaseOrigin = 0x40000000"
definition kPefMaxSections :: u64 where "kPefMaxSections = 64"
definition kPefMaxImageSz :: u64 where "kPefMaxImageSz = 0x4000000"
definition kPefStart :: "u8 list" where "kPefStart = [95, 95, 73, 109, 97, 103, 101, 83, 116, 97, 114, 116]"
definition kPefArchAMD64 :: u32 where "kPefArchAMD64 = 1"
definition kPefInvalid :: int where "kPefInvalid = 0"
definition kPefCode :: int where "kPefCode = 0xC"
definition kPefData :: int where "kPefData = 0xD"
definition kPefZero :: int where "kPefZero = 0xE"

record pef_container =
  Magic_c :: "u8 list"
  Linker_c :: u32
  Version_c :: u32
  Kind_c :: u32
  Abi_c :: u32
  Cpu_c :: u32
  SubCpu_c :: u32
  Start_c :: u64
  HdrSz_c :: u64
  Count_c :: u64
  Checksum_c :: u32

record pef_command =
  Name_h :: "u8 list"
  Cpu_h :: u32
  SubCpu_h :: u32
  Flags_h :: u32
  Kind_h :: u16
  Offset_h :: u64
  OffsetSize_h :: u64
  VMAddress_h :: u64
  VMSize_h :: u64

definition sizeof_container :: nat where "sizeof_container = 64"
definition sizeof_command :: nat where "sizeof_command = 304"

definition decode_container :: "u8 list \<Rightarrow> pef_container" where
  "decode_container bs = \<lparr>Magic_c = field bs 0 5, Linker_c = dec32 bs 5, Version_c = dec32 bs 9, Kind_c = dec32 bs 13,
     Abi_c = dec32 bs 17, Cpu_c = dec32 bs 21, SubCpu_c = dec32 bs 25, Start_c = dec64 bs 29, HdrSz_c = dec64 bs 37,
     Count_c = dec64 bs 45, Checksum_c = dec32 bs 53\<rparr>"

definition decode_command :: "u8 list \<Rightarrow> pef_command" where
  "decode_command bs = \<lparr>Name_h = field bs 0 256, Cpu_h = dec32 bs 256, SubCpu_h = dec32 bs 260, Flags_h = dec32 bs 264,
     Kind_h = dec16 bs 268, Offset_h = dec64 bs 270, OffsetSize_h = dec64 bs 278, VMAddress_h = dec64 bs 286,
     VMSize_h = dec64 bs 294\<rparr>"

section \<open>Names and headers\<close>

definition ldr_get_platform :: u32 where "ldr_get_platform = kPefArchAMD64"

definition pef_magic_eq :: "u8 list \<Rightarrow> u8 list \<Rightarrow> bool" where
  "pef_magic_eq magic want \<longleftrightarrow> take (kPefMagicLen - 1) magic = take (kPefMagicLen - 1) want"

text \<open>\<open>rt_string_len\<close> with a bound.\<close>

definition len_max :: "u8 list \<Rightarrow> nat \<Rightarrow> nat" where
  "len_max s n = length (takeWhile (\<lambda>c. c \<noteq> 0) (take n s))"

definition pef_name_eq :: "u8 list \<Rightarrow> u8 list \<Rightarrow> bool" where
  "pef_name_eq fld want =
     (let field_len = len_max fld kPefNameLen
      in if field_len \<ge> kPefNameLen then False
         else if len_max want kPefNameLen \<noteq> field_len then False
         else take field_len fld = take field_len want)"

definition pef_prefix :: "int \<Rightarrow> u8 list option" where
  "pef_prefix kind =
     (if kind = kPefCode then Some [46, 99, 111, 100, 101, 54, 52]
      else if kind = kPefData then Some [46, 100, 97, 116, 97, 54, 52]
      else if kind = kPefZero then Some [46, 122, 101, 114, 111, 54, 52] else None)"

definition pef_make_name :: "nat \<Rightarrow> int \<Rightarrow> u8 list \<Rightarrow> u8 list option" where
  "pef_make_name dst_sz kind nm =
     (if dst_sz = 0 \<or> kind = kPefInvalid then None
      else case pef_prefix kind of
             None \<Rightarrow> None
           | Some prefix \<Rightarrow>
               let prefix_len = len_max prefix dst_sz; name_len = len_max nm dst_sz
               in if name_len \<ge> dst_sz - prefix_len then None
                  else Some (take prefix_len prefix
                    @ map (\<lambda>c. if rt_is_space (sint c) then 36 else c) (take name_len nm)))"

definition pef_read_container :: "u8 list \<Rightarrow> pef_container option" where
  "pef_read_container blob =
     (let len = length blob in
      if len < sizeof_container then None
      else let out = decode_container (take sizeof_container blob) in
        if \<not> pef_magic_eq (Magic_c out) kPefMagic \<and> \<not> pef_magic_eq (Magic_c out) kPefMagicFat then None
        else if Abi_c out \<noteq> kPefAbi then None
        else if Count_c out < 1 \<or> Count_c out > kPefMaxSections then None
        else if unat (Count_c out) > (len - sizeof_container) div sizeof_command then None
        else Some out)"

text \<open>Command header \<open>i\<close> of a container, and what a header with the right name and kind must satisfy.\<close>

definition pef_command_at :: "u8 list \<Rightarrow> nat \<Rightarrow> pef_command" where
  "pef_command_at blob i = decode_command (take sizeof_command (drop (sizeof_container + i * sizeof_command) blob))"

definition section_ok :: "nat \<Rightarrow> bool \<Rightarrow> u64 \<Rightarrow> pef_command \<Rightarrow> bool" where
  "section_ok len is_fat table_sz out =
     (if Cpu_h out \<noteq> ldr_get_platform \<and> \<not> is_fat then False
      else if VMSize_h out < 1 \<or> VMSize_h out > kPefMaxImageSz then False
      else if VMAddress_h out < kPefBaseOrigin then False
      else if VMAddress_h out - kPefBaseOrigin > kPefMaxImageSz - VMSize_h out then False
      else if OffsetSize_h out > VMSize_h out then False
      else if OffsetSize_h out > 0 then
        if Offset_h out > of_nat len then False
        else if OffsetSize_h out > of_nat len - Offset_h out then False
        else \<not> Offset_h out < of_nat sizeof_container + table_sz
      else True)"

function find_section_loop :: "u8 list \<Rightarrow> pef_container \<Rightarrow> u8 list \<Rightarrow> int \<Rightarrow> nat \<Rightarrow> pef_command option" where
  "find_section_loop blob container nm kind i =
     (if i < unat (Count_c container) then
        let out = pef_command_at blob i
        in if uint (Kind_h out) \<noteq> kind \<or> \<not> pef_name_eq (Name_h out) nm then
             find_section_loop blob container nm kind (i + 1)
           else if section_ok (length blob) (pef_magic_eq (Magic_c container) kPefMagicFat)
                     (Count_c container * of_nat sizeof_command) out then Some out
           else None
      else None)"
  by pat_completeness auto
termination by (relation "measure (\<lambda>(blob, container, nm, kind, i). unat (Count_c container) - i)") auto

declare find_section_loop.simps [simp del]

definition pef_find_section :: "u8 list \<Rightarrow> u8 list \<Rightarrow> int \<Rightarrow> pef_command option" where
  "pef_find_section blob nm kind =
     (case pef_read_container blob of
        None \<Rightarrow> None
      | Some container \<Rightarrow> find_section_loop blob container nm kind 0)"

section \<open>Instantiating a section\<close>

primrec ldr_unmap_pages :: "'a hw_scheme \<Rightarrow> u64 \<Rightarrow> nat \<Rightarrow> 'a hw_scheme" where
  "ldr_unmap_pages s base 0 = s"
| "ldr_unmap_pages s base (Suc n) =
     (let (s1, frame) = mm_unmap_page s (base + of_nat n * kPageSize)
      in ldr_unmap_pages (pmmi_free_frame s1 frame) base n)"

text \<open>The loop over the pages from page \<open>i\<close> on, with \<open>n\<close> pages to go.\<close>

primrec load_pages :: "'a hw_scheme \<Rightarrow> u64 \<Rightarrow> nat \<Rightarrow> nat \<Rightarrow> 'a hw_scheme \<times> bool" where
  "load_pages s base i 0 = (s, True)"
| "load_pages s base i (Suc n) =
     (let (s1, frame) = pmmi_alloc_frame s;
          (s2, r) = (if frame = 0 then (s1, kErrorInvalidData)
                     else mm_map_page s1 (base + of_nat i * kPageSize) frame
                            (kMMFlagsPresent OR kMMFlagsWr OR kMMFlagsUser) 0)
      in if frame = 0 \<or> r \<noteq> kErrorSuccess then (ldr_unmap_pages (pmmi_free_frame s2 frame) base i, False)
         else load_pages s2 base (Suc i) n)"

fun virt_write :: "'a hw_scheme \<Rightarrow> u64 \<Rightarrow> u8 list \<Rightarrow> 'a hw_scheme option" where
  "virt_write s va [] = Some s"
| "virt_write s va (b # bs) =
     (let pa = mm_get_page_addr s va
      in if pa = 0 then None else virt_write (s\<lparr>ram := (ram s)(pa := b)\<rparr>) (va + 1) bs)"

definition section_pages :: "pef_command \<Rightarrow> nat" where
  "section_pages hdr = unat (VMSize_h hdr div kPageSize + (if VMSize_h hdr mod kPageSize \<noteq> 0 then 1 else 0))"

text \<open>\<open>src\<close> is the section's content in the container, \<open>None\<close> the null pointer.\<close>

definition pef_load_section :: "'a hw_scheme \<Rightarrow> pef_command \<Rightarrow> u8 list option \<Rightarrow> ('a hw_scheme \<times> (int + u64)) option" where
  "pef_load_section s hdr src =
     (case src of
        None \<Rightarrow> Some (s, Inl kErrorInvalidData)
      | Some content \<Rightarrow>
          let (s1, ok) = load_pages s (VMAddress_h hdr) 0 (section_pages hdr)
          in if \<not> ok then Some (s1, Inl kErrorHeapOutOfMemory)
             else if OffsetSize_h hdr > 0 then
               map_option (\<lambda>s2. (s2, Inr (VMAddress_h hdr)))
                 (virt_write s1 (VMAddress_h hdr)
                   (if OffsetSize_h hdr > VMSize_h hdr then replicate (unat (VMSize_h hdr)) 0
                    else take (unat (OffsetSize_h hdr)) content))
             else Some (s1, Inr (VMAddress_h hdr)))"

section \<open>The loader\<close>

record pef_loader =
  fCachedBlob :: u64
  fCachedBlobSz :: u64
  fFatBinary :: bool
  fBad :: bool

text \<open>The constructor from a blob in memory.  It reads the container whatever the length is.\<close>

definition PEFLoader_blob :: "mem \<Rightarrow> u64 \<Rightarrow> u64 \<Rightarrow> pef_loader" where
  "PEFLoader_blob m blob len =
     (let l = \<lparr>fCachedBlob = blob, fCachedBlobSz = len, fFatBinary = False, fBad = False\<rparr>
      in if blob = 0 then l\<lparr>fBad := True\<rparr>
         else
           let container = decode_container (read_bytes m blob sizeof_container)
           in if Abi_c container = kPefAbi \<and> Count_c container \<ge> 3 then
                if Cpu_c container = ldr_get_platform \<and> Magic_c container = kPefMagic @ [0] then l
                else if Magic_c container = kPefMagicFat @ [0] then l\<lparr>fFatBinary := True\<rparr>
                else l\<lparr>fBad := True, fCachedBlob := 0\<rparr>
              else l\<lparr>fBad := True, fCachedBlob := 0\<rparr>)"

text \<open>\<open>FindSymbol\<close> of a loader made from a blob; such a loader has no file to fall back to.\<close>

definition FindSymbol_blob ::
  "'a hw_scheme \<Rightarrow> pef_loader \<Rightarrow> u8 list \<Rightarrow> int \<Rightarrow> ('a hw_scheme \<times> (int + u64)) option" where
  "FindSymbol_blob s l nm kind =
     (if fCachedBlob l = 0 \<or> fBad l then Some (s, Inl kErrorInvalidData)
      else case pef_make_name kPefNameLen kind nm of
             None \<Rightarrow> Some (s, Inl kErrorInvalidData)
           | Some sect_name \<Rightarrow>
               let blob = read_bytes (ram s) (fCachedBlob l) (unat (fCachedBlobSz l))
               in case pef_find_section blob sect_name kind of
                    None \<Rightarrow> Some (s, Inl kErrorInvalidData)
                  | Some hdr \<Rightarrow> pef_load_section s hdr
                      (if OffsetSize_h hdr > 0 then Some (drop (unat (Offset_h hdr)) blob) else None))"

definition FindStart_blob :: "'a hw_scheme \<Rightarrow> pef_loader \<Rightarrow> ('a hw_scheme \<times> (int + u64)) option" where
  "FindStart_blob s l =
     (case FindSymbol_blob s l kPefStart kPefCode of
        None \<Rightarrow> None
      | Some (s1, Inr start) \<Rightarrow> if start \<noteq> 0 then Some (s1, Inr start) else Some (s1, Inl kErrorExecutable)
      | Some (s1, Inl _) \<Rightarrow> Some (s1, Inl kErrorExecutable))"

definition IsLoaded :: "pef_loader \<Rightarrow> bool" where
  "IsLoaded l \<longleftrightarrow> \<not> fBad l"

section \<open>What a section header is trusted with\<close>

definition names_section :: "u8 list \<Rightarrow> int \<Rightarrow> pef_command \<Rightarrow> bool" where
  "names_section nm kind hdr \<longleftrightarrow> uint (Kind_h hdr) = kind \<and> pef_name_eq (Name_h hdr) nm"

lemma find_section_loop_iff:
  "find_section_loop blob c nm kind i = Some hdr \<longleftrightarrow>
    (\<exists>k. i \<le> k \<and> k < unat (Count_c c) \<and> pef_command_at blob k = hdr \<and> names_section nm kind hdr
      \<and> (\<forall>j. i \<le> j \<and> j < k \<longrightarrow> \<not> names_section nm kind (pef_command_at blob j))
      \<and> section_ok (length blob) (pef_magic_eq (Magic_c c) kPefMagicFat) (Count_c c * of_nat sizeof_command) hdr)"
proof (induction blob c nm kind i rule: find_section_loop.induct)
  case (1 blob c nm kind i)
  show ?case
  proof (cases "i < unat (Count_c c)")
    case False
    then show ?thesis by (subst find_section_loop.simps) auto
  next
    case True
    show ?thesis
    proof (cases "names_section nm kind (pef_command_at blob i)")
      case named: True
      then have "find_section_loop blob c nm kind i = (if section_ok (length blob) (pef_magic_eq (Magic_c c) kPefMagicFat)
          (Count_c c * of_nat sizeof_command) (pef_command_at blob i) then Some (pef_command_at blob i) else None)"
        using True by (subst find_section_loop.simps) (simp add: names_section_def)
      then show ?thesis using named True by (auto simp: le_less)
    next
      case other: False
      then have "find_section_loop blob c nm kind i = find_section_loop blob c nm kind (i + 1)"
        using True by (subst find_section_loop.simps) (auto simp: names_section_def)
      moreover have "uint (Kind_h (pef_command_at blob i)) \<noteq> kind \<or> \<not> pef_name_eq (Name_h (pef_command_at blob i)) nm"
        using other by (auto simp: names_section_def)
      note IH = 1 [OF True refl this]
      have "(\<forall>j. Suc i \<le> j \<and> j < k \<longrightarrow> \<not> names_section nm kind (pef_command_at blob j))
          \<longleftrightarrow> (\<forall>j. i \<le> j \<and> j < k \<longrightarrow> \<not> names_section nm kind (pef_command_at blob j))" for k
        using other by (metis Suc_leI Suc_leD le_less)
      moreover have "i \<le> k \<and> names_section nm kind (pef_command_at blob k) \<longleftrightarrow> Suc i \<le> k \<and> names_section nm kind (pef_command_at blob k)" for k
        using other by (metis Suc_leI Suc_leD le_less)
      ultimately show ?thesis using IH by auto
    qed
  qed
qed

lemma section_ok_bounds:
  assumes "section_ok len fat tbl hdr" and "len < 2 ^ 64"
  shows "1 \<le> unat (VMSize_h hdr)" and "unat kPefBaseOrigin \<le> unat (VMAddress_h hdr)"
    and "unat (VMAddress_h hdr) + unat (VMSize_h hdr) \<le> unat kPefBaseOrigin + unat kPefMaxImageSz"
    and "unat (OffsetSize_h hdr) \<le> unat (VMSize_h hdr)"
    and "OffsetSize_h hdr > 0 \<Longrightarrow> unat (Offset_h hdr) + unat (OffsetSize_h hdr) \<le> len
      \<and> unat (of_nat sizeof_container + tbl) \<le> unat (Offset_h hdr)"
proof -
  note ok = assms(1) [unfolded section_ok_def]
  have size: "VMSize_h hdr \<noteq> 0" "VMSize_h hdr \<le> kPefMaxImageSz" "kPefBaseOrigin \<le> VMAddress_h hdr"
    "VMAddress_h hdr - kPefBaseOrigin \<le> kPefMaxImageSz - VMSize_h hdr" "OffsetSize_h hdr \<le> VMSize_h hdr"
    using ok by (auto simp: not_less split: if_splits)
  show "1 \<le> unat (VMSize_h hdr)" using size(1) unat_eq_zero [of "VMSize_h hdr"] by linarith
  show "unat kPefBaseOrigin \<le> unat (VMAddress_h hdr)" "unat (OffsetSize_h hdr) \<le> unat (VMSize_h hdr)"
    using size by (simp_all add: word_le_nat_alt)
  have "unat (VMAddress_h hdr) - unat kPefBaseOrigin \<le> unat kPefMaxImageSz - unat (VMSize_h hdr)"
    using size by (simp add: word_le_nat_alt unat_sub_if')
  then show "unat (VMAddress_h hdr) + unat (VMSize_h hdr) \<le> unat kPefBaseOrigin + unat kPefMaxImageSz"
    using size(2,3) by (simp add: word_le_nat_alt)
  assume pos: "OffsetSize_h hdr > 0"
  then have c: "Offset_h hdr \<le> of_nat len" "OffsetSize_h hdr \<le> of_nat len - Offset_h hdr"
    "of_nat sizeof_container + tbl \<le> Offset_h hdr"
    using ok by (auto simp: not_less split: if_splits)
  have "unat (of_nat len :: u64) = len" using assms(2) by simp
  then show "unat (Offset_h hdr) + unat (OffsetSize_h hdr) \<le> len \<and> unat (of_nat sizeof_container + tbl) \<le> unat (Offset_h hdr)"
    using c by (simp add: word_le_nat_alt unat_sub_if')
qed

lemma read_container_bounds:
  assumes "pef_read_container blob = Some c"
  shows "1 \<le> unat (Count_c c)" and "unat (Count_c c) \<le> 64"
    and "sizeof_container + unat (Count_c c) * sizeof_command \<le> length blob"
    and "unat (of_nat sizeof_container + Count_c c * of_nat sizeof_command) = sizeof_container + unat (Count_c c) * sizeof_command"
proof -
  have c: "Count_c c \<noteq> 0" "Count_c c \<le> kPefMaxSections" "unat (Count_c c) \<le> (length blob - sizeof_container) div sizeof_command"
    "sizeof_container \<le> length blob"
    using assms by (auto simp: pef_read_container_def Let_def not_less split: if_splits)
  show n1: "1 \<le> unat (Count_c c)" using c(1) unat_eq_zero [of "Count_c c"] by linarith
  show n: "unat (Count_c c) \<le> 64" using c(2) by (simp add: word_le_nat_alt kPefMaxSections_def)
  have "unat (Count_c c) * sizeof_command \<le> length blob - sizeof_container"
    using c(3) div_times_less_eq_dividend [of "length blob - sizeof_container" sizeof_command]
    by (meson le_trans mult_le_mono1)
  then show "sizeof_container + unat (Count_c c) * sizeof_command \<le> length blob" using c(4) by linarith
  have "unat (Count_c c * of_nat sizeof_command) = unat (Count_c c) * 304"
    using n by (simp add: unat_word_ariths sizeof_command_def)
  then show "unat (of_nat sizeof_container + Count_c c * of_nat sizeof_command) = sizeof_container + unat (Count_c c) * sizeof_command"
    using n by (simp add: unat_word_ariths sizeof_container_def sizeof_command_def)
qed

lemma pef_section_window:
  assumes "length blob < 2 ^ 64" and "pef_find_section blob nm kind = Some hdr"
  shows "0x40000000 \<le> unat (VMAddress_h hdr)" and "unat (VMAddress_h hdr) + unat (VMSize_h hdr) \<le> 0x44000000"
proof -
  obtain c where c: "pef_read_container blob = Some c" "find_section_loop blob c nm kind 0 = Some hdr"
    using assms(2) by (auto simp: pef_find_section_def split: option.splits)
  then have "section_ok (length blob) (pef_magic_eq (Magic_c c) kPefMagicFat) (Count_c c * of_nat sizeof_command) hdr"
    unfolding find_section_loop_iff by auto
  from section_ok_bounds [OF this assms(1)]
  show "0x40000000 \<le> unat (VMAddress_h hdr)" "unat (VMAddress_h hdr) + unat (VMSize_h hdr) \<le> 0x44000000"
    by (simp_all add: kPefBaseOrigin_def kPefMaxImageSz_def)
qed

section \<open>Properties\<close>

text \<open>
  C10. An untrusted container is used only within its bounds.  Whatever the bytes are, when
  \<open>pef_find_section\<close> returns a header, it is the first one in the table with the name and
  kind asked for, the whole table lies in the container, the section lies inside the window of
  64 MiB at \<open>kPefBaseOrigin\<close> without wrapping around, its content is not larger than the
  section, and a non-empty content lies inside the container and behind the table.
\<close>

theorem pef_find_section_safe:
  assumes "length blob < 2 ^ 64" and "pef_find_section blob nm kind = Some hdr"
  shows "\<exists>c k. pef_read_container blob = Some c \<and> k < unat (Count_c c) \<and> hdr = pef_command_at blob k
    \<and> names_section nm kind hdr \<and> (\<forall>j < k. \<not> names_section nm kind (pef_command_at blob j))
    \<and> sizeof_container + unat (Count_c c) * sizeof_command \<le> length blob
    \<and> 1 \<le> unat (VMSize_h hdr) \<and> 0x40000000 \<le> unat (VMAddress_h hdr)
    \<and> unat (VMAddress_h hdr) + unat (VMSize_h hdr) \<le> 0x44000000
    \<and> unat (OffsetSize_h hdr) \<le> unat (VMSize_h hdr)
    \<and> (OffsetSize_h hdr \<noteq> 0 \<longrightarrow> sizeof_container + unat (Count_c c) * sizeof_command \<le> unat (Offset_h hdr)
         \<and> unat (Offset_h hdr) + unat (OffsetSize_h hdr) \<le> length blob)"
proof -
  obtain c where c: "pef_read_container blob = Some c" "find_section_loop blob c nm kind 0 = Some hdr"
    using assms(2) by (auto simp: pef_find_section_def split: option.splits)
  then obtain k where k: "k < unat (Count_c c)" "pef_command_at blob k = hdr" "names_section nm kind hdr"
    "\<forall>j < k. \<not> names_section nm kind (pef_command_at blob j)"
    "section_ok (length blob) (pef_magic_eq (Magic_c c) kPefMagicFat) (Count_c c * of_nat sizeof_command) hdr"
    unfolding find_section_loop_iff by auto
  note b = section_ok_bounds [OF k(5) assms(1)]
  note r = read_container_bounds [OF c(1)]
  show ?thesis using c(1) k(1-4) b r(3,4)
    by (intro exI [of _ c] exI [of _ k]) (simp add: kPefBaseOrigin_def kPefMaxImageSz_def word_gt_0)
qed

text \<open>A container with one section of a page: its name, kind and content size are given.\<close>

definition sample_header :: "u8 list \<Rightarrow> u16 \<Rightarrow> u64 \<Rightarrow> u8 list" where
  "sample_header nm kind osz = (nm @ replicate (256 - length nm) 0) @ enc32 1 @ enc32 0 @ enc32 0 @ enc16 kind @ le_bytes 8 368
     @ le_bytes 8 osz @ le_bytes 8 0x40000000 @ le_bytes 8 0x1000 @ [0, 0]"

definition sample_pef :: "u8 list \<Rightarrow> u16 \<Rightarrow> u64 \<Rightarrow> u8 list" where
  "sample_pef nm kind osz = ((kPefMagic @ [0]) @ enc32 0 @ enc32 0 @ enc32 1 @ enc32 kPefAbi @ enc32 1 @ enc32 0 @ le_bytes 8 0
     @ le_bytes 8 0 @ le_bytes 8 1 @ enc32 0 @ replicate 7 0) @ sample_header nm kind osz @ [1, 2, 3]"

definition code_name :: "u8 list" where "code_name = [46, 99, 111, 100, 101, 54, 52, 97]"
definition zero_name :: "u8 list" where "zero_name = [46, 122, 101, 114, 111, 54, 52, 97]"

lemma length_sample: "length kPefMagic = 4" "length code_name = 8" "length zero_name = 8"
  "length nm = 8 \<Longrightarrow> length (sample_header nm kind osz) = 304" "length nm = 8 \<Longrightarrow> length (sample_pef nm kind osz) = 371"
  by (simp_all add: code_name_def zero_name_def sample_header_def kPefMagic_def sample_pef_def)

lemma sample_container:
  assumes "length nm = 8"
  shows "pef_read_container (sample_pef nm kind osz) = Some \<lparr>Magic_c = kPefMagic @ [0], Linker_c = 0, Version_c = 0, Kind_c = 1,
     Abi_c = kPefAbi, Cpu_c = 1, SubCpu_c = 0, Start_c = 0, HdrSz_c = 0, Count_c = 1, Checksum_c = 0\<rparr>"
proof -
  have "decode_container (take sizeof_container (sample_pef nm kind osz)) = \<lparr>Magic_c = kPefMagic @ [0], Linker_c = 0, Version_c = 0,
     Kind_c = 1, Abi_c = kPefAbi, Cpu_c = 1, SubCpu_c = 0, Start_c = 0, HdrSz_c = 0, Count_c = 1, Checksum_c = 0\<rparr>"
    by (simp add: sample_pef_def sizeof_container_def length_sample decode_container_def codec_simps del: append_assoc)
  then show ?thesis using assms
    by (simp add: pef_read_container_def length_sample pef_magic_eq_def kPefMaxSections_def Let_def kPefMagicLen_def)
      (simp add: sizeof_container_def sizeof_command_def)
qed

lemma sample_command:
  assumes "length nm = 8"
  shows "pef_command_at (sample_pef nm kind osz) 0 = \<lparr>Name_h = nm @ replicate 248 0, Cpu_h = 1, SubCpu_h = 0, Flags_h = 0,
     Kind_h = kind, Offset_h = 368, OffsetSize_h = osz, VMAddress_h = 0x40000000, VMSize_h = 0x1000\<rparr>"
proof -
  have "take sizeof_command (drop (sizeof_container + 0 * sizeof_command) (sample_pef nm kind osz)) = sample_header nm kind osz"
    using assms by (simp add: sample_pef_def sizeof_container_def sizeof_command_def length_sample)
  then have "pef_command_at (sample_pef nm kind osz) 0 = decode_command (sample_header nm kind osz)" by (simp add: pef_command_at_def)
  then show ?thesis
    using assms by (simp add: sample_header_def length_sample decode_command_def codec_simps del: append_assoc)
qed

lemma sample_section:
  assumes "length nm = 8" and "0 \<notin> set nm" and "osz \<le> 3"
  shows "pef_find_section (sample_pef nm kind osz) nm (uint kind) = Some (pef_command_at (sample_pef nm kind osz) 0)"
proof -
  have "takeWhile (\<lambda>c. c \<noteq> 0) (nm @ 0 # replicate 247 0) = nm" "takeWhile (\<lambda>c. c \<noteq> 0) nm = nm"
    using assms(2) takeWhile_tail [of "\<lambda>c. c \<noteq> 0" 0 nm] by (auto simp: takeWhile_eq_all_conv)
  moreover have "replicate 248 0 = 0 # replicate 247 (0 :: u8)" using replicate_Suc [of 247 "0 :: u8"] by simp
  ultimately have "len_max (nm @ replicate 248 0) 256 = 8" "len_max nm 256 = 8"
    using assms(1) by (simp_all add: len_max_def del: takeWhile_eq_all_conv)
  then have named: "names_section nm (uint kind) (pef_command_at (sample_pef nm kind osz) 0)"
    using assms(1) by (simp add: names_section_def sample_command pef_name_eq_def kPefNameLen_def)
  have "osz \<le> 0x1000" using assms(3) by (rule order_trans) simp
  then have "\<not> 0x1000 < osz" "\<not> 3 < osz" using assms(3) by simp_all
  then have "section_ok 371 False 304 (pef_command_at (sample_pef nm kind osz) 0)"
    using assms(1) by (simp add: section_ok_def sample_command ldr_get_platform_def kPefArchAMD64_def kPefMaxImageSz_def
        kPefBaseOrigin_def sizeof_container_def)
  moreover have "\<not> pef_magic_eq (kPefMagic @ [0]) kPefMagicFat"
    by (simp add: pef_magic_eq_def kPefMagicLen_def kPefMagic_def kPefMagicFat_def)
  ultimately show ?thesis using named assms(1)
    by (simp add: pef_find_section_def sample_container find_section_loop_iff length_sample sizeof_command_def)
qed

theorem pef_find_section_safe_witness:
  "\<exists>hdr. pef_find_section (sample_pef code_name 0xC 3) code_name kPefCode = Some hdr
    \<and> unat (Offset_h hdr) + unat (OffsetSize_h hdr) \<le> length (sample_pef code_name 0xC 3)"
proof -
  have sect: "pef_find_section (sample_pef code_name 0xC 3) code_name kPefCode = Some (pef_command_at (sample_pef code_name 0xC 3) 0)"
    using sample_section [of code_name 3 "0xC"] by (simp add: length_sample kPefCode_def) (simp add: code_name_def)
  have "length (sample_pef code_name 0xC 3) < 2 ^ 64" by (simp add: length_sample)
  from pef_find_section_safe [OF this sect] show ?thesis using sect by (auto simp: sample_command length_sample)
qed

text \<open>
  A section without content in the file is never loaded.  \<open>FindSymbol\<close> passes a null
  pointer for it, and \<open>pef_load_section\<close> refuses a null pointer: the section that
  \<open>kPefZero\<close> stands for, zero-initialised data, gives \<open>kErrorInvalidData\<close> and nothing is
  mapped.
\<close>

theorem pef_empty_section_refused:
  assumes "fCachedBlob l \<noteq> 0" and "\<not> fBad l" and "pef_make_name kPefNameLen kind nm = Some sect_name"
    and "pef_find_section (read_bytes (ram s) (fCachedBlob l) (unat (fCachedBlobSz l))) sect_name kind = Some hdr"
    and "OffsetSize_h hdr = 0"
  shows "FindSymbol_blob s l nm kind = Some (s, Inl kErrorInvalidData)"
  using assms by (simp add: FindSymbol_blob_def pef_load_section_def)

definition sample_hw :: hw where
  "sample_hw = small_hw\<lparr>ram := write_bytes (ram small_hw) 0x100000 (sample_pef zero_name 0xE 0)\<rparr>"

theorem pef_empty_section_refused_witness:
  "FindSymbol_blob sample_hw \<lparr>fCachedBlob = 0x100000, fCachedBlobSz = 371, fFatBinary = False, fBad = False\<rparr> [97] kPefZero
    = Some (sample_hw, Inl kErrorInvalidData)"
proof (rule pef_empty_section_refused)
  have "rt_is_space (sint (97 :: u8)) = False" by (simp add: rt_is_space_def)
  then show "pef_make_name kPefNameLen kPefZero [97] = Some zero_name"
    by (simp add: pef_make_name_def pef_prefix_def kPefNameLen_def len_max_def kPefZero_def kPefInvalid_def kPefCode_def
        kPefData_def zero_name_def)
  have "read_bytes (ram sample_hw) 0x100000 371 = sample_pef zero_name 0xE 0"
    unfolding sample_hw_def by (simp add: read_write_same length_sample)
  then show "pef_find_section (read_bytes (ram sample_hw)
      (fCachedBlob \<lparr>fCachedBlob = 0x100000, fCachedBlobSz = 371, fFatBinary = False, fBad = False\<rparr>)
      (unat (fCachedBlobSz \<lparr>fCachedBlob = 0x100000, fCachedBlobSz = 371, fFatBinary = False, fBad = False\<rparr>)))
      zero_name kPefZero = Some (pef_command_at (sample_pef zero_name 0xE 0) 0)"
    using sample_section [of zero_name 0 "0xE"] by (simp add: length_sample kPefZero_def) (simp add: zero_name_def)
qed (simp_all add: sample_command length_sample)

section \<open>Mapping a section\<close>

lemma alloc_keeps_tables:
  assumes inv: "pt_inv s (cr3 s AND NOT kPageOffsetMask) U" and alloc: "pmmi_alloc_frame s = (s1, f)" "f \<noteq> 0"
  shows "pt_inv s1 (cr3 s1 AND NOT kPageOffsetMask) (insert f U)" and "mm_get_page_addr s1 va = mm_get_page_addr s va"
proof -
  have cr3: "cr3 s1 = cr3 s" using alloc(1) pmmi_alloc_frame_cr3 [of s] by simp
  note i = pt_invD [OF inv]
  note fresh = pmm.alloc_fresh [OF i(1) alloc]
  have f: "f \<notin> U" "page_aligned f" using fresh pmm.owned_frame by blast+
  note out = pmm.alloc_page_write [OF i(1) alloc] f(2) i(3,2) f(1)
  have t1: "tables_ok (ram s1) (cr3 s1 AND NOT kPageOffsetMask) U" unfolding cr3 by (rule tables_ok_outside [OF out])
  then have "tables_ok (ram s1) (cr3 s1 AND NOT kPageOffsetMask) (insert f U)" unfolding tables_ok_def by blast
  then show "pt_inv s1 (cr3 s1 AND NOT kPageOffsetMask) (insert f U)" using fresh by (simp add: pt_inv_def)
  show "mm_get_page_addr s1 va = mm_get_page_addr s va"
    using mm_get_page_addr_descend [OF t1] mm_get_page_addr_descend [OF i(2)] descend_outside [OF out] cr3 by simp
qed

lemma pef_flags_present: "(kMMFlagsPresent OR kMMFlagsWr OR kMMFlagsUser) AND kMMFlagsPresent \<noteq> 0"
  by (simp add: kMMFlagsPresent_def kMMFlagsWr_def kMMFlagsUser_def)

lemma load_pages_maps:
  assumes "pt_inv s (cr3 s AND NOT kPageOffsetMask) U" and "load_pages s base i n = (s', True)"
  shows "\<exists>U'. U \<subseteq> U' \<and> pt_inv s' (cr3 s' AND NOT kPageOffsetMask) U'
    \<and> (\<forall>va. (\<exists>j. i \<le> j \<and> j < i + n \<and> same_path (base + of_nat j * kPageSize) va 4) \<longrightarrow>
          (\<exists>f \<in> U'. mm_get_page_addr s' va = (f AND kAddrMask) OR (va AND kPageOffsetMask)))
    \<and> (\<forall>va. (\<forall>j. i \<le> j \<and> j < i + n \<longrightarrow> \<not> same_path (base + of_nat j * kPageSize) va 4) \<longrightarrow>
          mm_get_page_addr s' va = mm_get_page_addr s va)"
  using assms
proof (induction n arbitrary: s U i)
  case 0
  then show ?case by auto
next
  case (Suc n)
  obtain s1 f where alloc: "pmmi_alloc_frame s = (s1, f)" by fastforce
  have f: "f \<noteq> 0" using Suc.prems(2) alloc by (auto simp: Let_def)
  obtain s2 r where map: "mm_map_page_in s1 (cr3 s1) (base + of_nat i * kPageSize) f (kMMFlagsPresent OR kMMFlagsWr OR kMMFlagsUser) = (s2, r)"
    by fastforce
  have r: "r = kErrorSuccess" and rest: "load_pages s2 base (Suc i) n = (s', True)"
    using Suc.prems(2) alloc f map by (auto simp: mm_map_page_def Let_def split: if_splits)
  note a = alloc_keeps_tables [OF Suc.prems(1) alloc f]
  note m = mm_map_page_in_post [OF a(1) map]
  obtain V where V: "insert f U \<subseteq> V" "pt_inv s2 (cr3 s2 AND NOT kPageOffsetMask) V" using m by blast
  have step: "mm_get_page_addr s2 va = (if same_path (base + of_nat i * kPageSize) va 4
      then (f AND kAddrMask) OR (va AND kPageOffsetMask) else mm_get_page_addr s va)" for va
    using m r pef_flags_present a(2) by simp
  obtain U' where U': "V \<subseteq> U'" "pt_inv s' (cr3 s' AND NOT kPageOffsetMask) U'"
    and hit: "\<And>va j. Suc i \<le> j \<Longrightarrow> j < Suc i + n \<Longrightarrow> same_path (base + of_nat j * kPageSize) va 4 \<Longrightarrow>
        \<exists>f \<in> U'. mm_get_page_addr s' va = (f AND kAddrMask) OR (va AND kPageOffsetMask)"
    and miss: "\<And>va. (\<forall>j. Suc i \<le> j \<and> j < Suc i + n \<longrightarrow> \<not> same_path (base + of_nat j * kPageSize) va 4) \<Longrightarrow>
        mm_get_page_addr s' va = mm_get_page_addr s2 va"
    using Suc.IH [OF V(2) rest] by blast
  have sub: "U \<subseteq> U'" "f \<in> U'" using V(1) U'(1) by auto
  have "\<exists>f \<in> U'. mm_get_page_addr s' va = (f AND kAddrMask) OR (va AND kPageOffsetMask)"
    if j: "i \<le> j" "j < i + Suc n" "same_path (base + of_nat j * kPageSize) va 4" for va j
  proof (cases "\<exists>j. Suc i \<le> j \<and> j < Suc i + n \<and> same_path (base + of_nat j * kPageSize) va 4")
    case False
    then have "j = i" using j by (metis Suc_leI add_Suc add_Suc_right le_neq_implies_less)
    then show ?thesis using miss [of va] False step [of va] j(3) sub(2) by auto
  qed (use hit in blast)
  moreover have "mm_get_page_addr s' va = mm_get_page_addr s va"
    if no: "\<forall>j. i \<le> j \<and> j < i + Suc n \<longrightarrow> \<not> same_path (base + of_nat j * kPageSize) va 4" for va
  proof -
    have "\<not> same_path (base + of_nat i * kPageSize) va 4" using no by simp
    moreover have "\<forall>j. Suc i \<le> j \<and> j < Suc i + n \<longrightarrow> \<not> same_path (base + of_nat j * kPageSize) va 4" using no by auto
    ultimately show ?thesis using miss [of va] step [of va] by simp
  qed
  ultimately show ?case using sub(1) U'(2) by blast
qed

text \<open>Below \<open>2^48\<close> two addresses take the same path exactly when they are in the same page.\<close>

lemma same_path_pages:
  assumes "unat va < 2 ^ 48" and "unat va' < 2 ^ 48"
  shows "same_path va va' 4 \<longleftrightarrow> unat va div 4096 = unat va' div 4096"
proof
  assume "unat va div 4096 = unat va' div 4096"
  then have "unat (drop_bit 12 va) = unat (drop_bit 12 va')" by (simp add: drop_bit_eq_div unat_div)
  then show "same_path va va' 4" by (intro same_page_path) (simp add: word_unat_eq_iff)
next
  assume p: "same_path va va' 4"
  have bits: "bit va n = bit va' n" if "12 \<le> n" "n < 48" for n
  proof -
    define d where "d = (47 - n) div 9"
    have d: "d < 4" "39 - 9 * d \<le> n" "n - (39 - 9 * d) < 9" using that by (simp_all add: d_def)
    have "idx va d = idx va' d" using p d(1) by (simp add: same_path_def)
    then have "bit (idx va d) (n - (39 - 9 * d)) = bit (idx va' d) (n - (39 - 9 * d))" by simp
    moreover have "bit kMask9Bits (n - (39 - 9 * d))"
    proof -
      have m: "kMask9Bits = mask 9" by (simp add: kMask9Bits_def mask_eq_exp_minus_1)
      show ?thesis unfolding m bit_mask_iff using d(3) by simp
    qed
    ultimately show ?thesis using d(2) by (simp add: idx_def bit_simps)
  qed
  have high: "\<not> bit x n" if "unat x < 2 ^ 48" "48 \<le> n" for x :: u64 and n
  proof -
    have "unat (take_bit 48 x) = unat x" using that(1) by (simp only: unsigned_take_bit_eq take_bit_nat_eq_self)
    then have "take_bit 48 x = x" by (simp only: word_unat_eq_iff)
    then show ?thesis using that(2) by (metis bit_take_bit_iff leD)
  qed
  have "drop_bit 12 va = drop_bit 12 va'"
    by (rule bit_word_eqI) (metis assms bit_drop_bit_eq bits comp_apply high le_add1 linorder_not_less)
  then have "unat (drop_bit 12 va) = unat (drop_bit 12 va')" by simp
  then show "unat va div 4096 = unat va' div 4096" by (simp add: drop_bit_eq_div unat_div)
qed

lemma pages_round_up: "(x + 4095) div 4096 = x div 4096 + (if x mod 4096 = 0 then 0 else 1 :: nat)"
proof -
  have "x mod 4096 < 4096" by simp
  then have "x mod 4096 \<noteq> 0 \<Longrightarrow> (x mod 4096 + 4095) div 4096 = 1" by (intro div_nat_eqI) simp_all
  then show ?thesis using div_add1_eq [of x 4095 4096] by auto
qed

lemma section_pages_eq: "unat (VMSize_h hdr) \<le> 0x44000000 \<Longrightarrow> section_pages hdr = (unat (VMSize_h hdr) + 4095) div 4096"
proof -
  assume a: "unat (VMSize_h hdr) \<le> 0x44000000"
  have d: "unat (VMSize_h hdr div kPageSize) = unat (VMSize_h hdr) div 4096" "unat (VMSize_h hdr mod kPageSize) = unat (VMSize_h hdr) mod 4096"
    by (simp_all add: kPageSize_def unat_div unat_mod)
  have "unat (VMSize_h hdr div kPageSize + 1) = unat (VMSize_h hdr) div 4096 + 1" using a d(1) by (simp add: unat_word_ariths)
  moreover have "VMSize_h hdr mod kPageSize = 0 \<longleftrightarrow> unat (VMSize_h hdr) mod 4096 = 0" using d(2) by (metis unat_eq_zero)
  ultimately have "section_pages hdr = unat (VMSize_h hdr) div 4096 + (if unat (VMSize_h hdr) mod 4096 = 0 then 0 else 1)"
    using d(1) by (simp add: section_pages_def)
  then show ?thesis by (simp only: pages_round_up)
qed

lemma page_in_window:
  assumes "unat v + 4096 * n \<le> 2 ^ 48" and "j < n"
  shows "unat (v + of_nat j * kPageSize) = unat v + 4096 * j"
proof -
  have "4096 * j < 2 ^ 48" using assms by linarith
  then have "unat (of_nat j * kPageSize :: u64) = 4096 * j" by (simp add: kPageSize_def unat_word_ariths)
  then show ?thesis using assms by (simp add: unat_word_ariths)
qed

lemma pages_path:
  assumes lim: "unat v + 4096 * n \<le> 2 ^ 48" and va: "unat va < 2 ^ 48"
  shows "(\<exists>j < n. same_path (v + of_nat j * kPageSize) va 4)
    \<longleftrightarrow> unat v div 4096 \<le> unat va div 4096 \<and> unat va div 4096 < unat v div 4096 + n"
proof -
  have "same_path (v + of_nat j * kPageSize) va 4 \<longleftrightarrow> unat v div 4096 + j = unat va div 4096" if j: "j < n" for j
  proof -
    have "unat v + 4096 * j < 2 ^ 48" using lim j by linarith
    then show ?thesis using same_path_pages [of "v + of_nat j * kPageSize" va] page_in_window [OF lim j] va
      by (simp add: add.commute)
  qed
  then have "(\<exists>j < n. same_path (v + of_nat j * kPageSize) va 4) \<longleftrightarrow> (\<exists>j < n. unat v div 4096 + j = unat va div 4096)" by blast
  also have "\<dots> \<longleftrightarrow> unat v div 4096 \<le> unat va div 4096 \<and> unat va div 4096 < unat v div 4096 + n"
    by (auto intro: exI [of _ "unat va div 4096 - unat v div 4096"])
  finally show ?thesis .
qed

lemma covers_iff:
  fixes v n s p :: nat
  assumes "1 \<le> s"
  shows "(\<forall>x. v \<le> x \<and> x < v + s \<longrightarrow> x div 4096 < v div 4096 + p) \<longleftrightarrow> v mod 4096 + s \<le> 4096 * p"
proof
  assume "\<forall>x. v \<le> x \<and> x < v + s \<longrightarrow> x div 4096 < v div 4096 + p"
  then have "(v + s - 1) div 4096 < v div 4096 + p" using assms by simp
  then have "(v + s - 1) div 4096 + 1 \<le> v div 4096 + p" by simp
  moreover have "v + s - 1 < 4096 * ((v + s - 1) div 4096 + 1)" by simp
  ultimately have "v + s - 1 < 4096 * (v div 4096 + p)" by (meson less_le_trans mult_le_mono2)
  moreover have "4096 * (v div 4096 + p) = 4096 * (v div 4096) + 4096 * p" by (rule distrib_left)
  moreover have "v = 4096 * (v div 4096) + v mod 4096" by simp
  ultimately show "v mod 4096 + s \<le> 4096 * p" using assms by linarith
next
  assume a: "v mod 4096 + s \<le> 4096 * p"
  show "\<forall>x. v \<le> x \<and> x < v + s \<longrightarrow> x div 4096 < v div 4096 + p"
  proof (intro allI impI)
    fix x
    assume "v \<le> x \<and> x < v + s"
    moreover have "4096 * (v div 4096 + p) = 4096 * (v div 4096) + 4096 * p" by (rule distrib_left)
    moreover have "v = 4096 * (v div 4096) + v mod 4096" by simp
    ultimately have "x < 4096 * (v div 4096 + p)" using a by linarith
    then show "x div 4096 < v div 4096 + p" by (simp add: less_mult_imp_div_less mult.commute)
  qed
qed

text \<open>
  The pages of a section.  When \<open>pef_load_section\<close> gets its frames, the page tables keep
  their invariant, the section's \<open>(VMSize + 4095) / 4096\<close> pages from the page of its address
  on are mapped to frames the kernel owns, and no other page changes its translation.  These pages
  cover the section exactly when the offset of its address in its page plus its size fits them:
  always for a page-aligned section, but not in general for one that is not aligned, whose end is
  then left unmapped although \<open>pef_find_section\<close> accepts it.
\<close>

theorem pef_section_pages_exact:
  assumes "pt_inv s (cr3 s AND NOT kPageOffsetMask) U" and "load_pages s (VMAddress_h hdr) 0 (section_pages hdr) = (s', True)"
    and "1 \<le> unat (VMSize_h hdr)" and "unat (VMAddress_h hdr) + unat (VMSize_h hdr) \<le> 0x44000000"
  shows "\<exists>U'. U \<subseteq> U' \<and> pt_inv s' (cr3 s' AND NOT kPageOffsetMask) U'
    \<and> (\<forall>va. unat va < 2 ^ 48 \<longrightarrow>
          (if unat (VMAddress_h hdr) div 4096 \<le> unat va div 4096
              \<and> unat va div 4096 < unat (VMAddress_h hdr) div 4096 + section_pages hdr
           then \<exists>f \<in> U'. mm_get_page_addr s' va = (f AND kAddrMask) OR (va AND kPageOffsetMask)
           else mm_get_page_addr s' va = mm_get_page_addr s va))
    \<and> section_pages hdr = (unat (VMSize_h hdr) + 4095) div 4096
    \<and> ((\<forall>x. unat (VMAddress_h hdr) \<le> x \<and> x < unat (VMAddress_h hdr) + unat (VMSize_h hdr) \<longrightarrow>
            x div 4096 < unat (VMAddress_h hdr) div 4096 + section_pages hdr)
        \<longleftrightarrow> unat (VMAddress_h hdr) mod 4096 + unat (VMSize_h hdr) \<le> 4096 * section_pages hdr)"
proof -
  define v n where "v = unat (VMAddress_h hdr)" and "n = section_pages hdr"
  have n: "n = (unat (VMSize_h hdr) + 4095) div 4096" unfolding n_def using assms(4) by (intro section_pages_eq) simp
  have lim: "v + 4096 * n \<le> 2 ^ 48" unfolding n v_def using assms(4) mult_div_mod_eq [of 4096 "unat (VMSize_h hdr) + 4095"] by simp
  have path: "(\<exists>j < n. same_path (VMAddress_h hdr + of_nat j * kPageSize) va 4)
      \<longleftrightarrow> v div 4096 \<le> unat va div 4096 \<and> unat va div 4096 < v div 4096 + n" if "unat va < 2 ^ 48" for va
    using pages_path [of "VMAddress_h hdr" n va] lim that by (simp add: v_def)
  obtain U' where U': "U \<subseteq> U'" "pt_inv s' (cr3 s' AND NOT kPageOffsetMask) U'"
    and hit: "\<And>va. (\<exists>j < n. same_path (VMAddress_h hdr + of_nat j * kPageSize) va 4) \<Longrightarrow>
        \<exists>f \<in> U'. mm_get_page_addr s' va = (f AND kAddrMask) OR (va AND kPageOffsetMask)"
    and miss: "\<And>va. \<not> (\<exists>j < n. same_path (VMAddress_h hdr + of_nat j * kPageSize) va 4) \<Longrightarrow>
        mm_get_page_addr s' va = mm_get_page_addr s va"
    using load_pages_maps [OF assms(1,2)] unfolding n_def [symmetric] by auto
  have "if v div 4096 \<le> unat va div 4096 \<and> unat va div 4096 < v div 4096 + n
      then \<exists>f \<in> U'. mm_get_page_addr s' va = (f AND kAddrMask) OR (va AND kPageOffsetMask)
      else mm_get_page_addr s' va = mm_get_page_addr s va" if "unat va < 2 ^ 48" for va
    unfolding path [OF that, symmetric] if_bool_eq_conj using hit [of va] miss [of va] by blast
  then have "\<forall>va. unat va < 2 ^ 48 \<longrightarrow> (if v div 4096 \<le> unat va div 4096 \<and> unat va div 4096 < v div 4096 + n
      then \<exists>f \<in> U'. mm_get_page_addr s' va = (f AND kAddrMask) OR (va AND kPageOffsetMask)
      else mm_get_page_addr s' va = mm_get_page_addr s va)" by blast
  with U' n covers_iff [OF assms(3), of v n] show ?thesis
    unfolding v_def [symmetric] n_def [symmetric] by (intro exI [of _ U'] conjI)
qed

lemma small_load: "\<exists>s'. load_pages small_hw 0x40000000 0 1 = (s', True)"
proof -
  obtain s1 f where alloc: "pmmi_alloc_frame small_hw = (s1, f)" by fastforce
  note inv = small_hw_facts(1)
  have f: "f \<noteq> 0" using pmmi_alloc_frame_zero_iff [OF pt_invD(1) [OF inv]] alloc small_hw_facts by auto
  note a = alloc_keeps_tables [OF inv alloc f]
  have al: "f AND (kPageSize - 1) = 0"
    using pmm.owned_frame [OF pt_invD(1) [OF a(1)], of f] by (simp add: page_aligned_def kPmmAlign_def)
  have "3 \<le> unat (kPmmFree s1)"
    using pmmi_alloc_frame_free_count [OF pt_invD(1) [OF inv] alloc] small_hw_facts by simp
  note ok = mm_map_page_in_success [OF a(1) f al this, of "0x40000000" "kMMFlagsPresent OR kMMFlagsWr OR kMMFlagsUser"]
  obtain s2 r where "mm_map_page_in s1 (cr3 s1) 0x40000000 f (kMMFlagsPresent OR kMMFlagsWr OR kMMFlagsUser) = (s2, r)" by fastforce
  then show ?thesis using alloc f ok by (simp add: mm_map_page_def Let_def)
qed

theorem pef_section_pages_exact_witness:
  "\<exists>s'. load_pages small_hw 0x40000000 0 1 = (s', True)
    \<and> (\<exists>f. mm_get_page_addr s' 0x40000123 = (f AND kAddrMask) OR 0x123)"
proof -
  obtain s' where s': "load_pages small_hw 0x40000000 0 1 = (s', True)" using small_load by blast
  define hdr where "hdr = pef_command_at (sample_pef code_name 0xC 3) 0"
  have hdr: "VMAddress_h hdr = 0x40000000" "VMSize_h hdr = 0x1000" by (simp_all add: hdr_def sample_command length_sample)
  have "section_pages hdr = 1" by (simp add: section_pages_def hdr kPageSize_def)
  then show ?thesis using pef_section_pages_exact [OF small_hw_facts(1), of hdr s'] s'
    by (auto simp: hdr kPageOffsetMask_def dest!: spec [of _ "0x40000123"])
qed

end
