(* ===== verification/PE32Loader.thy ===== *)
theory PE32Loader
  imports PEFLoader "HOL-Library.Monad_Syntax"
begin

text \<open>
  The loader of PE32+ executables, \<^verbatim>\<open>src/PE32CodeMgr.cpp\<close>, with the structures of
  \<^verbatim>\<open>KernelKit/PE.h\<close> and \<^verbatim>\<open>KernelKit/MSDOS.h\<close> and the header search of
  \<^verbatim>\<open>CFKit/Utils.h\<close>.  The loader reads the file in memory through virtual addresses, and mapping
  the image may change what it reads next: a reader gives the byte at an address or a page fault,
  and every field is read again where the code reads it again.  \<open>None\<close> is a page fault, or an
  unterminated string.  Addresses use 0 for null.

  The image is backed by frames as a PEF section is (\<open>ldr_unmap_pages\<close> is shared).  The
  constructor from a path and \<open>rtl_create_user_process\<close> are not modelled.
\<close>

section \<open>Reading through the page tables\<close>

type_synonym reader = "u64 \<Rightarrow> u8 option"

definition vbyte :: "'a hw_scheme \<Rightarrow> reader" where
  "vbyte s va = (let pa = mm_get_page_addr s va in if pa = 0 then None else Some (ram s pa))"

primrec rd_bytes :: "reader \<Rightarrow> u64 \<Rightarrow> nat \<Rightarrow> u8 list option" where
  "rd_bytes r a 0 = Some []"
| "rd_bytes r a (Suc n) = do { b \<leftarrow> r a; bs \<leftarrow> rd_bytes r (a + 1) n; Some (b # bs) }"

definition rd :: "reader \<Rightarrow> nat \<Rightarrow> u64 \<Rightarrow> u64 option" where
  "rd r n a = map_option le_word (rd_bytes r a n)"

partial_function (option) rd_string :: "reader \<Rightarrow> u64 \<Rightarrow> u8 list option" where
  "rd_string r a = do { c \<leftarrow> r a; if c = 0 then Some [] else do { cs \<leftarrow> rd_string r (a + 1); Some (c # cs) } }"

section \<open>The format\<close>

definition kPeSignature :: u64 where "kPeSignature = 0x00004550"
definition kPeMachineAMD64 :: u64 where "kPeMachineAMD64 = 0x8664"
definition kNeKernelPESubsystem :: u64 where "kNeKernelPESubsystem = 0x11"
definition kPeMaxImageSz :: u64 where "kPeMaxImageSz = 0x4000000"
definition sizeof_DosHeader :: u64 where "sizeof_DosHeader = 128"
definition sizeof_EXEC_HEADER :: u64 where "sizeof_EXEC_HEADER = 24"
definition sizeof_OPTIONAL_HEADER :: u64 where "sizeof_OPTIONAL_HEADER = 96"
definition sizeof_SECTION_HEADER :: u64 where "sizeof_SECTION_HEADER = 40"

definition pe_Signature :: "reader \<Rightarrow> u64 \<Rightarrow> u64 option" where "pe_Signature r h = rd r 4 h"
definition pe_Machine :: "reader \<Rightarrow> u64 \<Rightarrow> u64 option" where "pe_Machine r h = rd r 2 (h + 4)"
definition pe_NumberOfSections :: "reader \<Rightarrow> u64 \<Rightarrow> u64 option" where "pe_NumberOfSections r h = rd r 2 (h + 6)"
definition pe_SizeOfOptionalHeader :: "reader \<Rightarrow> u64 \<Rightarrow> u64 option" where "pe_SizeOfOptionalHeader r h = rd r 2 (h + 20)"

definition pe_AddressOfEntryPoint :: "reader \<Rightarrow> u64 \<Rightarrow> u64 option" where "pe_AddressOfEntryPoint r opt = rd r 4 (opt + 16)"
definition pe_ImageBase :: "reader \<Rightarrow> u64 \<Rightarrow> u64 option" where "pe_ImageBase r opt = rd r 8 (opt + 24)"
definition pe_SizeOfImage :: "reader \<Rightarrow> u64 \<Rightarrow> u64 option" where "pe_SizeOfImage r opt = rd r 4 (opt + 56)"
definition pe_Subsystem :: "reader \<Rightarrow> u64 \<Rightarrow> u64 option" where "pe_Subsystem r opt = rd r 2 (opt + 68)"

definition sec_VirtualAddress :: "reader \<Rightarrow> u64 \<Rightarrow> u64 option" where "sec_VirtualAddress r sec = rd r 4 (sec + 12)"
definition sec_SizeOfRawData :: "reader \<Rightarrow> u64 \<Rightarrow> u64 option" where "sec_SizeOfRawData r sec = rd r 4 (sec + 16)"
definition sec_PointerToRawData :: "reader \<Rightarrow> u64 \<Rightarrow> u64 option" where "sec_PointerToRawData r sec = rd r 4 (sec + 20)"

definition ldr_find_exec_header :: "reader \<Rightarrow> u64 \<Rightarrow> u64 option" where
  "ldr_find_exec_header r dos =
     (if dos = 0 then Some 0
      else do {
        m0 \<leftarrow> r dos;
        if m0 \<noteq> 0x4D then Some 0
        else do {
          m1 \<leftarrow> r (dos + 1);
          if m1 \<noteq> 0x5A then Some 0 else Some (dos + sizeof_DosHeader)
        }
      })"

definition ldr_find_opt_exec_header :: "reader \<Rightarrow> u64 \<Rightarrow> u64 option" where
  "ldr_find_opt_exec_header r dos =
     (if dos = 0 then Some 0
      else do {
        exec \<leftarrow> ldr_find_exec_header r dos;
        if exec = 0 then Some 0 else Some (exec + sizeof_EXEC_HEADER)
      })"

section \<open>The loader\<close>

record pe_loader =
  fBlob_pe :: u64
  fBlobSz_pe :: u64
  fImage_pe :: u64
  fBad_pe :: bool

definition PE32Loader_blob :: "reader \<Rightarrow> u64 \<Rightarrow> u64 \<Rightarrow> pe_loader option" where
  "PE32Loader_blob r blob len =
     (let l = \<lparr>fBlob_pe = blob, fBlobSz_pe = len, fImage_pe = 0, fBad_pe = False\<rparr>;
          bad = Some (l\<lparr>fBad_pe := True\<rparr>)
      in if blob = 0 \<or> len < sizeof_DosHeader + sizeof_EXEC_HEADER + sizeof_OPTIONAL_HEADER then bad
         else do {
           header \<leftarrow> ldr_find_exec_header r blob;
           opt \<leftarrow> ldr_find_opt_exec_header r blob;
           if header = 0 \<or> opt = 0 then bad
           else do {
             machine \<leftarrow> pe_Machine r header;
             if machine \<noteq> kPeMachineAMD64 then bad
             else do {
               subsystem \<leftarrow> pe_Subsystem r opt;
               if subsystem \<noteq> kNeKernelPESubsystem then bad
               else do {
                 img_sz \<leftarrow> pe_SizeOfImage r opt;
                 if img_sz < 1 \<or> img_sz > kPeMaxImageSz then bad else Some l
               }
             }
           }
         })"

text \<open>The search of a section; \<open>i\<close> is the index, \<open>n\<close> the sections to go.\<close>

primrec pe_find_loop :: "reader \<Rightarrow> u8 list \<Rightarrow> u64 \<Rightarrow> u64 \<Rightarrow> nat \<Rightarrow> (int + u64) option" where
  "pe_find_loop r nm secs i 0 = Some (Inl kErrorInvalidData)"
| "pe_find_loop r nm secs i (Suc n) =
     do {
       sect_name \<leftarrow> rd_string r (secs + i * sizeof_SECTION_HEADER);
       if nm = sect_name then Some (Inr (secs + i * sizeof_SECTION_HEADER)) else pe_find_loop r nm secs (i + 1) n
     }"

definition FindSectionByName :: "reader \<Rightarrow> pe_loader \<Rightarrow> u8 list \<Rightarrow> (int + u64) option" where
  "FindSectionByName r l nm =
     (let bad = Some (Inl kErrorInvalidData)
      in if fBlob_pe l = 0 \<or> fBad_pe l then bad
         else do {
           header_ptr \<leftarrow> ldr_find_exec_header r (fBlob_pe l);
           opt_header_ptr \<leftarrow> ldr_find_opt_exec_header r (fBlob_pe l);
           if header_ptr = 0 \<or> opt_header_ptr = 0 then bad
           else do {
             machine \<leftarrow> pe_Machine r header_ptr;
             signature \<leftarrow> (if machine \<noteq> kPeMachineAMD64 then Some 0 else pe_Signature r header_ptr);
             if machine \<noteq> kPeMachineAMD64 \<or> signature \<noteq> kPeSignature then bad
             else do {
               count \<leftarrow> pe_NumberOfSections r header_ptr;
               if count < 1 then bad
               else do {
                 subsystem \<leftarrow> pe_Subsystem r opt_header_ptr;
                 if subsystem \<noteq> kNeKernelPESubsystem then bad
                 else do {
                   opt_sz \<leftarrow> pe_SizeOfOptionalHeader r header_ptr;
                   pe_find_loop r nm (opt_header_ptr + opt_sz) 0 (unat count)
                 }
               }
             }
           }
         })"

definition kPETypeText :: int where "kPETypeText = 100"
definition kPETypeData :: int where "kPETypeData = 101"
definition kPETypeBSS :: int where "kPETypeBSS = 102"

definition pe_section_name :: "int \<Rightarrow> u8 list option" where
  "pe_section_name kind =
     (if kind = kPETypeData then Some [46, 100, 97, 116, 97]
      else if kind = kPETypeBSS then Some [46, 98, 115, 115]
      else if kind = kPETypeText then Some [46, 116, 101, 120, 116] else None)"

text \<open>The search in the export directory: the three tables and the names from \<open>i\<close> on, \<open>n\<close> to go.\<close>

primrec export_loop :: "reader \<Rightarrow> u64 \<Rightarrow> u8 list \<Rightarrow> u64 \<Rightarrow> u64 \<Rightarrow> u64 \<Rightarrow> u64 \<Rightarrow> nat \<Rightarrow> (int + u64) option" where
  "export_loop r blob nm name_table ordinal_table function_table i 0 = Some (Inl kErrorInvalidData)"
| "export_loop r blob nm name_table ordinal_table function_table i (Suc n) =
     do {
       off \<leftarrow> rd r 4 (name_table + 4 * i);
       exported_name \<leftarrow> rd_string r (blob + off);
       if exported_name = nm then do {
         ordinal \<leftarrow> rd r 2 (ordinal_table + 2 * i);
         rva \<leftarrow> rd r 4 (function_table + 4 * ordinal);
         Some (Inr (blob + rva))
       }
       else export_loop r blob nm name_table ordinal_table function_table (i + 1) n
     }"

definition pe_FindSymbol :: "reader \<Rightarrow> pe_loader \<Rightarrow> u8 list \<Rightarrow> int \<Rightarrow> (int + u64) option" where
  "pe_FindSymbol r l nm kind =
     (let bad = Some (Inl kErrorInvalidData); blob = fBlob_pe l
      in if blob = 0 \<or> fBad_pe l then bad
         else case pe_section_name kind of
                None \<Rightarrow> bad
              | Some section_name \<Rightarrow>
                  do {
                    sec \<leftarrow> FindSectionByName r l section_name;
                    case sec of
                      Inl _ \<Rightarrow> bad
                    | Inr sec_ptr \<Rightarrow>
                        do {
                          first \<leftarrow> (if sec_ptr = 0 then Some 0 else rd r 8 sec_ptr);
                          if sec_ptr = 0 \<or> first = 0 then bad
                          else do {
                            opt \<leftarrow> ldr_find_opt_exec_header r blob;
                            if opt = 0 then bad
                            else do {
                              va \<leftarrow> rd r 4 (opt + sizeof_OPTIONAL_HEADER);
                              img_sz \<leftarrow> (if va = 0 then Some 0 else rd r 4 (opt + sizeof_OPTIONAL_HEADER + 4));
                              if va = 0 \<or> img_sz = 0 then bad
                              else do {
                                names \<leftarrow> rd r 4 (blob + va + 32);
                                ordinals \<leftarrow> rd r 4 (blob + va + 36);
                                functions \<leftarrow> rd r 4 (blob + va + 28);
                                count \<leftarrow> rd r 4 (blob + va + 24);
                                export_loop r blob nm (blob + names) (blob + ordinals) (blob + functions) 0 (unat count)
                              }
                            }
                          }
                        }
                  })"

section \<open>Loading the image\<close>

definition kPeFlags :: u32 where "kPeFlags = kMMFlagsPresent OR kMMFlagsWr OR kMMFlagsUser"

primrec pe_load_pages :: "'a hw_scheme \<Rightarrow> u64 \<Rightarrow> nat \<Rightarrow> nat \<Rightarrow> ('a hw_scheme \<times> bool) option" where
  "pe_load_pages s opt i 0 = Some (s, True)"
| "pe_load_pages s opt i (Suc n) =
     (let (s1, frame) = pmmi_alloc_frame s
      in do {
        (s2, r) \<leftarrow> (if frame = 0 then Some (s1, kErrorInvalidData)
          else do { base \<leftarrow> pe_ImageBase (vbyte s1) opt; Some (mm_map_page s1 (base + of_nat i * kPageSize) frame kPeFlags 2) });
        if frame = 0 \<or> r \<noteq> kErrorSuccess then
          let s3 = pmmi_free_frame s2 frame
          in do { base \<leftarrow> pe_ImageBase (vbyte s3) opt; Some (ldr_unmap_pages s3 base i, False) }
        else pe_load_pages s2 opt (Suc i) n
      })"

text \<open>\<open>rt_copy_memory_safe\<close> through the page tables.\<close>

primrec virt_copy :: "'a hw_scheme \<Rightarrow> u64 \<Rightarrow> u64 \<Rightarrow> nat \<Rightarrow> 'a hw_scheme option" where
  "virt_copy s src dst 0 = Some s"
| "virt_copy s src dst (Suc n) =
     do {
       b \<leftarrow> vbyte s src;
       if mm_get_page_addr s dst = 0 then None
       else virt_copy (s\<lparr>ram := (ram s)(mm_get_page_addr s dst := b)\<rparr>) (src + 1) (dst + 1) n
     }"

definition virt_copy_safe :: "'a hw_scheme \<Rightarrow> u64 \<Rightarrow> u64 \<Rightarrow> u64 \<Rightarrow> u64 \<Rightarrow> 'a hw_scheme option" where
  "virt_copy_safe s src dst len dst_size =
     (if src = 0 \<or> dst = 0 \<or> len > dst_size then
        if dst \<noteq> 0 \<and> dst_size \<noteq> 0 then virt_write s dst (replicate (unat dst_size) 0) else Some s
      else virt_copy s src dst (unat len))"

definition pe_section_bad :: "u64 \<Rightarrow> u64 \<Rightarrow> u64 \<Rightarrow> u64 \<Rightarrow> u64 \<Rightarrow> bool" where
  "pe_section_bad va raw ptr img_sz blob_sz =
     (va > img_sz \<or> raw > img_sz - va \<or> ptr > blob_sz \<or> raw > blob_sz - ptr)"

text \<open>The loop over the sections; the flag says that none was refused.\<close>

partial_function (option) pe_section_loop ::
  "'a hw_scheme \<Rightarrow> u64 \<Rightarrow> u64 \<Rightarrow> u64 \<Rightarrow> u64 \<Rightarrow> u64 \<Rightarrow> nat \<Rightarrow> u64 \<Rightarrow> ('a hw_scheme \<times> bool) option" where
  "pe_section_loop s blob blob_sz header opt sect pages i =
     do {
       count \<leftarrow> pe_NumberOfSections (vbyte s) header;
       if \<not> i < count then Some (s, True)
       else do {
         raw \<leftarrow> sec_SizeOfRawData (vbyte s) (sect + i * sizeof_SECTION_HEADER);
         if raw = 0 then pe_section_loop s blob blob_sz header opt sect pages (i + 1)
         else do {
           va \<leftarrow> sec_VirtualAddress (vbyte s) (sect + i * sizeof_SECTION_HEADER);
           ptr \<leftarrow> sec_PointerToRawData (vbyte s) (sect + i * sizeof_SECTION_HEADER);
           img_sz \<leftarrow> pe_SizeOfImage (vbyte s) opt;
           base \<leftarrow> pe_ImageBase (vbyte s) opt;
           if pe_section_bad va raw ptr img_sz blob_sz then Some (ldr_unmap_pages s base pages, False)
           else do {
             s1 \<leftarrow> virt_copy_safe s (blob + ptr) (base + va) raw (img_sz - va);
             pe_section_loop s1 blob blob_sz header opt sect pages (i + 1)
           }
         }
       }
     }"

text \<open>The table of section headers lies in the blob.\<close>

definition pe_table_bad :: "u64 \<Rightarrow> u64 \<Rightarrow> u64 \<Rightarrow> bool" where
  "pe_table_bad sect_off count blob_sz =
     (sect_off > blob_sz \<or> count > (blob_sz - sect_off) div sizeof_SECTION_HEADER)"

definition LoadImage :: "'a hw_scheme \<Rightarrow> pe_loader \<Rightarrow> ('a hw_scheme \<times> pe_loader \<times> (int + u64)) option" where
  "LoadImage s l =
     (let bad = Some (s, l, Inl kErrorInvalidData); blob = fBlob_pe l
      in if fImage_pe l \<noteq> 0 then Some (s, l, Inr (fImage_pe l))
         else if fBad_pe l \<or> blob = 0 \<or> fBlobSz_pe l = 0 then bad
         else do {
           header \<leftarrow> ldr_find_exec_header (vbyte s) blob;
           opt \<leftarrow> ldr_find_opt_exec_header (vbyte s) blob;
           count \<leftarrow> (if header = 0 \<or> opt = 0 then Some 0 else pe_NumberOfSections (vbyte s) header);
           if header = 0 \<or> opt = 0 \<or> count < 1 then bad
           else do {
             opt_sz \<leftarrow> pe_SizeOfOptionalHeader (vbyte s) header;
             if pe_table_bad ((opt - blob) + opt_sz) count (fBlobSz_pe l) then bad
             else do {
               img_sz \<leftarrow> pe_SizeOfImage (vbyte s) opt;
               let pages = unat (img_sz div kPageSize + (if img_sz mod kPageSize \<noteq> 0 then 1 else 0));
               (s1, ok) \<leftarrow> pe_load_pages s opt 0 pages;
               if \<not> ok then Some (s1, l, Inl kErrorHeapOutOfMemory)
               else do {
                 opt_sz1 \<leftarrow> pe_SizeOfOptionalHeader (vbyte s1) header;
                 (s2, ok2) \<leftarrow> pe_section_loop s1 blob (fBlobSz_pe l) header opt (opt + opt_sz1) pages 0;
                 if \<not> ok2 then Some (s2, l, Inl kErrorInvalidData)
                 else do {
                   base \<leftarrow> pe_ImageBase (vbyte s2) opt;
                   Some (s2, l\<lparr>fImage_pe := base\<rparr>, Inr base)
                 }
               }
             }
           }
         })"

definition pe_FindStart :: "'a hw_scheme \<Rightarrow> pe_loader \<Rightarrow> ('a hw_scheme \<times> pe_loader \<times> (int + u64)) option" where
  "pe_FindStart s l =
     do {
       (s1, l1, image) \<leftarrow> LoadImage s l;
       (case image of
          Inl _ \<Rightarrow> Some (s1, l1, Inl kErrorExecutable)
        | Inr p \<Rightarrow>
            if p = 0 then Some (s1, l1, Inl kErrorExecutable)
            else do {
              opt \<leftarrow> ldr_find_opt_exec_header (vbyte s1) (fBlob_pe l1);
              ep \<leftarrow> (if opt = 0 then Some 0 else pe_AddressOfEntryPoint (vbyte s1) opt);
              if opt = 0 \<or> ep = 0 then Some (s1, l1, Inl kErrorExecutable)
              else do { base \<leftarrow> pe_ImageBase (vbyte s1) opt; Some (s1, l1, Inr (base + ep)) }
            })
     }"

definition pe_IsLoaded :: "pe_loader \<Rightarrow> bool" where
  "pe_IsLoaded l \<longleftrightarrow> \<not> fBad_pe l"

definition pe_GetBlob :: "pe_loader \<Rightarrow> u64" where
  "pe_GetBlob l = fBlob_pe l"

section \<open>Bounds of an untrusted image\<close>

text \<open>
  The checks of \<open>LoadImage\<close> are free of wrap-around.  A section table that passes lies in the
  blob with all its headers; a section that passes reads inside the blob and writes inside the
  image, whatever the 64-bit values are.
\<close>

theorem pe_checks_no_wrap:
  "(pe_table_bad off count blob_sz \<longleftrightarrow> \<not> (unat off + unat count * 40 \<le> unat blob_sz))
   \<and> (pe_section_bad va raw ptr img_sz blob_sz \<longleftrightarrow>
        \<not> (unat va + unat raw \<le> unat img_sz \<and> unat ptr + unat raw \<le> unat blob_sz))"
proof
  have "unat count \<le> unat ((blob_sz - off) div sizeof_SECTION_HEADER) \<longleftrightarrow> unat off + unat count * 40 \<le> unat blob_sz"
    if "unat off \<le> unat blob_sz"
    using that by (auto simp: unat_div sizeof_SECTION_HEADER_def unat_sub_if' less_eq_div_iff_mult_less_eq)
  then show "pe_table_bad off count blob_sz \<longleftrightarrow> \<not> (unat off + unat count * 40 \<le> unat blob_sz)"
    unfolding pe_table_bad_def word_less_nat_alt by (metis add_leD1 linorder_not_le)
  show "pe_section_bad va raw ptr img_sz blob_sz \<longleftrightarrow>
      \<not> (unat va + unat raw \<le> unat img_sz \<and> unat ptr + unat raw \<le> unat blob_sz)"
    unfolding pe_section_bad_def word_less_nat_alt by (auto simp: unat_sub_if')
qed

text \<open>Replacing the eight bytes of a field.\<close>

definition put64 :: "reader \<Rightarrow> u64 \<Rightarrow> u64 \<Rightarrow> reader" where
  "put64 r a v = (\<lambda>x. if unat (x - a) < 8 then Some (le_bytes 8 v ! unat (x - a)) else r x)"

lemma rd_bytes_cong: "(\<And>i. i < n \<Longrightarrow> r (a + of_nat i) = r' (a + of_nat i)) \<Longrightarrow> rd_bytes r a n = rd_bytes r' a n"
proof (induction n arbitrary: a)
  case (Suc n)
  have "r a = r' a" using Suc.prems [of 0] by simp
  moreover have "rd_bytes r (a + 1) n = rd_bytes r' (a + 1) n"
  proof (rule Suc.IH)
    fix i assume "i < n"
    then show "r (a + 1 + of_nat i) = r' (a + 1 + of_nat i)" using Suc.prems [of "Suc i"] by (simp add: algebra_simps)
  qed
  ultimately show ?case by simp
qed simp

lemma rd_put64_apart:
  assumes "sep a n b 8"
  shows "rd (put64 r b v) n a = rd r n a"
proof -
  have "put64 r b v (a + of_nat i) = r (a + of_nat i)" if "i < n" for i
    using sep_offset [OF sep_sym [OF assms] that] by (simp add: put64_def)
  then show ?thesis unfolding rd_def by (metis rd_bytes_cong)
qed

lemma rd_put64: "rd (put64 r a v) 8 a = Some v"
proof -
  have "rd_bytes (put64 r a v) (a + of_nat k) n = Some (drop k (le_bytes 8 v))" if "k + n = 8" for k n
    using that
  proof (induction n arbitrary: k)
    case (Suc n)
    have "k < 8" using Suc.prems by simp
    then have "drop k (le_bytes 8 v) = le_bytes 8 v ! k # drop (Suc k) (le_bytes 8 v)" by (simp add: Cons_nth_drop_Suc)
    moreover have "put64 r a v (a + of_nat k) = Some (le_bytes 8 v ! k)" using \<open>k < 8\<close> by (simp add: put64_def unat_of_nat)
    moreover have "rd_bytes (put64 r a v) (a + of_nat k + 1) n = Some (drop (Suc k) (le_bytes 8 v))"
      using Suc.IH [of "Suc k"] Suc.prems by (simp add: algebra_simps)
    ultimately show ?case by simp
  qed simp
  from this [of 0 8] show ?thesis by (simp add: rd_def le_word_le_bytes8)
qed

lemma exec_header_found:
  "ldr_find_exec_header r blob = Some h \<and> h \<noteq> 0 \<longleftrightarrow>
    blob \<noteq> 0 \<and> r blob = Some 0x4D \<and> r (blob + 1) = Some 0x5A \<and> h = blob + 128 \<and> h \<noteq> 0"
  by (auto simp: ldr_find_exec_header_def sizeof_DosHeader_def Option.bind_eq_Some_conv split: if_splits)

lemma opt_header_found:
  assumes "ldr_find_exec_header r blob = Some h" and "h \<noteq> 0"
  shows "ldr_find_opt_exec_header r blob = Some (blob + 152)"
  using assms exec_header_found [of r blob h]
  by (simp add: ldr_find_opt_exec_header_def sizeof_EXEC_HEADER_def)

lemma PE32Loader_accepts:
  "PE32Loader_blob r blob len = Some l \<and> \<not> fBad_pe l \<longleftrightarrow>
    \<not> len < 248 \<and> ldr_find_exec_header r blob = Some (blob + 128) \<and> blob \<noteq> 0 \<and> blob + 128 \<noteq> 0 \<and> blob + 152 \<noteq> 0
    \<and> rd r 2 (blob + 132) = Some kPeMachineAMD64 \<and> rd r 2 (blob + 220) = Some kNeKernelPESubsystem
    \<and> (\<exists>sz. rd r 4 (blob + 208) = Some sz \<and> \<not> sz < 1 \<and> \<not> kPeMaxImageSz < sz)
    \<and> l = \<lparr>fBlob_pe = blob, fBlobSz_pe = len, fImage_pe = 0, fBad_pe = False\<rparr>" (is "?L \<longleftrightarrow> ?R")
proof
  assume L: ?L
  then obtain h opt where h: "ldr_find_exec_header r blob = Some h" "ldr_find_opt_exec_header r blob = Some opt" "h \<noteq> 0"
    unfolding PE32Loader_blob_def Let_def by (auto simp: Option.bind_eq_Some_conv split: if_splits)
  then have "h = blob + 128" "opt = blob + 152" using exec_header_found [of r blob h] opt_header_found by auto
  then show ?R using L h
    by (auto simp: PE32Loader_blob_def Let_def Option.bind_eq_Some_conv pe_Machine_def pe_Subsystem_def pe_SizeOfImage_def
        sizeof_DosHeader_def sizeof_EXEC_HEADER_def sizeof_OPTIONAL_HEADER_def add.commute [of blob] split: if_splits)
next
  assume ?R
  then show ?L using opt_header_found [of r blob "blob + 128"]
    by (auto simp: PE32Loader_blob_def Let_def pe_Machine_def pe_Subsystem_def pe_SizeOfImage_def
        sizeof_DosHeader_def sizeof_EXEC_HEADER_def sizeof_OPTIONAL_HEADER_def add.commute [of blob])
qed

text \<open>
  The preferred base of an image is not checked.  When the constructor accepts a blob, it
  accepts it just the same with any other \<open>ImageBase\<close> in its header; \<open>LoadImage\<close> then maps the
  image there.  Unlike a PEF section, a PE image can be placed over the memory of the kernel.
\<close>

theorem pe_image_base_unchecked:
  assumes "PE32Loader_blob r blob len = Some l" and "\<not> fBad_pe l"
  shows "PE32Loader_blob (put64 r (blob + 176) base) blob len = Some l
    \<and> ldr_find_opt_exec_header (put64 r (blob + 176) base) blob = Some (blob + 152)
    \<and> pe_ImageBase (put64 r (blob + 176) base) (blob + 152) = Some base"
proof -
  let ?r = "put64 r (blob + 176) base"
  note ok = PE32Loader_accepts [of r blob len l, THEN iffD1, OF conjI [OF assms]]
  have "rd ?r 2 (blob + 132) = rd r 2 (blob + 132)" "rd ?r 2 (blob + 220) = rd r 2 (blob + 220)"
    "rd ?r 4 (blob + 208) = rd r 4 (blob + 208)"
    by (rule rd_put64_apart, rule sep_num, simp_all)+
  moreover have magic: "?r blob = r blob" "?r (blob + 1) = r (blob + 1)" by (simp_all add: put64_def)
  have head: "ldr_find_exec_header ?r blob = Some (blob + 128)"
    using ok exec_header_found [of r blob "blob + 128"] exec_header_found [of ?r blob "blob + 128"] magic by simp
  ultimately have "PE32Loader_blob ?r blob len = Some l \<and> \<not> fBad_pe l" using ok unfolding PE32Loader_accepts by simp
  moreover have "ldr_find_opt_exec_header ?r blob = Some (blob + 152)" using ok opt_header_found [OF head] by simp
  moreover have "pe_ImageBase ?r (blob + 152) = Some base" using rd_put64 [of r "blob + 176" base] by (simp add: pe_ImageBase_def add.assoc)
  ultimately show ?thesis by blast
qed

text \<open>A header of an AMD64 image of one page, at address \<open>0x100000\<close>; all other bytes are 0.\<close>

definition pe_sample :: reader where
  "pe_sample = (\<lambda>a. Some (if a = 0x100000 then 0x4D else if a = 0x100001 then 0x5A
     else if a = 0x100084 then 0x64 else if a = 0x100085 then 0x86
     else if a = 0x1000DC then 0x11 else if a = 0x1000D1 then 0x10 else 0))"

theorem pe_image_base_unchecked_witness:
  "\<exists>l. PE32Loader_blob pe_sample 0x100000 248 = Some l \<and> PE32Loader_blob (put64 pe_sample 0x1000B0 0x200000) 0x100000 248 = Some l
     \<and> pe_ImageBase (put64 pe_sample 0x1000B0 0x200000) 0x100098 = Some 0x200000"
proof -
  have "PE32Loader_blob pe_sample 0x100000 248 = Some \<lparr>fBlob_pe = 0x100000, fBlobSz_pe = 248, fImage_pe = 0, fBad_pe = False\<rparr>
      \<and> \<not> fBad_pe \<lparr>fBlob_pe = 0x100000, fBlobSz_pe = 248, fImage_pe = 0, fBad_pe = False\<rparr>"
    by code_simp
  then obtain l where l: "PE32Loader_blob pe_sample 0x100000 248 = Some l" "\<not> fBad_pe l" by blast
  from pe_image_base_unchecked [OF l, of "0x200000"] l(1) show ?thesis by simp
qed

end
