(* ===== verification/KernelBoot.thy ===== *)
theory KernelBoot
  imports PagingBoot PEFLoader
begin

text \<open>
  The memory part of the kernel's entry point, \<^verbatim>\<open>HALKit/AMD64/HalKernelMain.cpp\<close>: the memory the
  boot loader hands over is cut so that it keeps off the window where images are mapped, one half
  becomes the kernel heap and the other the frames, and the identity map is built up to a limit
  that covers it.
\<close>

definition kImgWinStart :: u64 where "kImgWinStart = kPefBaseOrigin"
definition kImgWinEnd :: u64 where "kImgWinEnd = kPefBaseOrigin + kPefMaxImageSz"

definition boot_region :: "u64 \<Rightarrow> u64 \<Rightarrow> u64 \<times> u64" where
  "boot_region region_base region_sz =
     (if region_base < kImgWinEnd \<and> region_base + region_sz > kImgWinStart then
        let below = (if region_base < kImgWinStart then kImgWinStart - region_base else 0);
            above = (if region_base + region_sz > kImgWinEnd then region_base + region_sz - kImgWinEnd else 0)
        in if below \<ge> above then (region_base, below) else (kImgWinEnd, above)
      else (region_base, region_sz))"

record boot_memory =
  kBitMapCursor_boot :: u64
  kKernelBitMpStart_boot :: u64
  kKernelBitMpSize_boot :: u64
  machine :: hw

definition hal_init_memory :: "u64 \<Rightarrow> u64 \<Rightarrow> hw \<Rightarrow> boot_memory" where
  "hal_init_memory f_BitMapStart f_BitMapSize s =
     (let (region_base, region_sz) = boot_region f_BitMapStart f_BitMapSize;
          usable_sz = region_sz div 2
      in \<lparr>kBitMapCursor_boot = 0, kKernelBitMpStart_boot = region_base, kKernelBitMpSize_boot = usable_sz,
          machine = pmmi_init (region_base + usable_sz) (region_sz - usable_sz) s\<rparr>)"

definition kMinMapLimit :: u64 where "kMinMapLimit = 0x100000000"
definition kGiBMask :: u64 where "kGiBMask = 0x3FFFFFFF"

definition boot_map_limit :: "u64 \<Rightarrow> u64 \<Rightarrow> u64" where
  "boot_map_limit f_BitMapStart f_BitMapSize =
     (let ram_end = f_BitMapStart + f_BitMapSize
      in if ram_end > kMinMapLimit then (ram_end + kGiBMask) AND NOT kGiBMask else kMinMapLimit)"

definition hal_init_tables :: "u64 \<Rightarrow> u64 \<Rightarrow> hw \<Rightarrow> hw outcome option" where
  "hal_init_tables f_BitMapStart f_BitMapSize s =
     (case mm_init_kernel_tables s (boot_map_limit f_BitMapStart f_BitMapSize) of
        None \<Rightarrow> None
      | Some (s1, kernel_pml4) \<Rightarrow>
          Some (if kernel_pml4 = 0 then Stop else Ret (s1\<lparr>cr3 := kernel_pml4\<rparr>)))"

section \<open>The regions\<close>

lemma window_unat: "unat kImgWinStart = 0x40000000" "unat kImgWinEnd = 0x44000000"
  by (simp_all add: kImgWinStart_def kImgWinEnd_def kPefBaseOrigin_def kPefMaxImageSz_def)

lemma boot_region_clear:
  assumes nowrap: "unat base + unat sz < 2 ^ 64" and r: "boot_region base sz = (rb, rs)"
  shows "unat base \<le> unat rb" and "unat rb + unat rs \<le> unat base + unat sz"
    and "unat rb + unat rs \<le> 0x40000000 \<or> 0x44000000 \<le> unat rb \<or> rs = 0"
proof -
  have sum: "unat (base + sz) = unat base + unat sz" using nowrap by (simp add: unat_word_ariths)
  have "(unat base \<le> unat rb) \<and> (unat rb + unat rs \<le> unat base + unat sz)
      \<and> (unat rb + unat rs \<le> 0x40000000 \<or> 0x44000000 \<le> unat rb \<or> rs = 0)"
  proof (cases "base < kImgWinEnd \<and> base + sz > kImgWinStart")
    case False
    then have "rb = base" "rs = sz" using r by (auto simp: boot_region_def)
    then show ?thesis using False sum by (auto simp: word_less_nat_alt window_unat)
  next
    case True
    define below where "below = (if base < kImgWinStart then kImgWinStart - base else 0)"
    define above where "above = (if base + sz > kImgWinEnd then base + sz - kImgWinEnd else 0)"
    have u: "unat below = 0x40000000 - unat base" "unat above = unat base + unat sz - 0x44000000"
      using sum by (simp_all add: below_def above_def word_less_nat_alt window_unat unat_sub_if')
    have "boot_region base sz = (if below \<ge> above then (base, below) else (kImgWinEnd, above))"
      using True by (simp only: boot_region_def below_def above_def Let_def if_True conj_absorb)
    with r have "(rb, rs) = (if below \<ge> above then (base, below) else (kImgWinEnd, above))" by simp
    then consider "rb = base" "rs = below" | "rb = kImgWinEnd" "rs = above" "unat below < unat above"
      by (auto simp: word_le_nat_alt split: if_splits)
    then show ?thesis
    proof cases
      case 1
      then show ?thesis using u True sum by (auto simp: word_less_nat_alt window_unat unat_eq_zero [symmetric])
    next
      case 2
      then show ?thesis using u True by (auto simp: word_less_nat_alt window_unat)
    qed
  qed
  then show "unat base \<le> unat rb" "unat rb + unat rs \<le> unat base + unat sz"
    "unat rb + unat rs \<le> 0x40000000 \<or> 0x44000000 \<le> unat rb \<or> rs = 0" by blast+
qed

lemma unat_clear_low: "unat (x AND NOT kGiBMask) = unat x div 2 ^ 30 * 2 ^ 30"
proof -
  have "kGiBMask = mask 30" by (simp add: kGiBMask_def mask_eq_exp_minus_1)
  then show ?thesis using unat_clear_mask [of 30 x] by simp
qed

lemma unat_clear_page: "unat (x AND NOT kPmmAlign) = unat x div 4096 * 4096"
proof -
  have "kPmmAlign = mask 12" by (simp add: kPmmAlign_def kPageSize_def mask_eq_exp_minus_1)
  then show ?thesis using unat_clear_mask [of 12 x] by simp
qed

text \<open>The frames that \<open>pmmi_init\<close> hands out lie inside the range it gets.\<close>

lemma pmmi_init_range:
  fixes s :: "'a phys_scheme"
  assumes "unat b + unat n \<le> 2 ^ 48" and "kPmmCursor (pmmi_init b n s) \<noteq> 0"
  shows "unat b \<le> unat (kPmmBase (pmmi_init b n s))" and "unat (kPmmEnd (pmmi_init b n s)) \<le> unat b + unat n"
    and "kPmmCursor (pmmi_init b n s) = kPmmBase (pmmi_init b n s)"
proof -
  have u: "unat (b + kPmmAlign) = unat b + 4095" "unat (b + n) = unat b + unat n"
    using assms(1) by (simp_all add: kPmmAlign_def kPageSize_def unat_word_ariths)
  have f: "kPmmBase (pmmi_init b n s) = (b + kPmmAlign) AND NOT kPmmAlign" "kPmmEnd (pmmi_init b n s) = (b + n) AND NOT kPmmAlign"
    "kPmmCursor (pmmi_init b n s) = (b + kPmmAlign) AND NOT kPmmAlign"
    using assms(2) by (auto simp: pmmi_init_def Let_def split: if_splits)
  have "unat b \<le> (unat b + 4095) div 4096 * 4096" using mult_div_mod_eq [of 4096 "unat b + 4095"] by simp
  then show "unat b \<le> unat (kPmmBase (pmmi_init b n s))" unfolding f(1) unat_clear_page u .
  show "unat (kPmmEnd (pmmi_init b n s)) \<le> unat b + unat n" unfolding f(2) unat_clear_page u by simp
  show "kPmmCursor (pmmi_init b n s) = kPmmBase (pmmi_init b n s)" by (simp add: f)
qed

lemma pmmi_init_zero:
  fixes s :: "'a phys_scheme"
  assumes "unat b \<le> 2 ^ 48"
  shows "kPmmCursor (pmmi_init b 0 s) = 0"
proof -
  have "unat (b AND NOT kPmmAlign) \<le> unat ((b + kPmmAlign) AND NOT kPmmAlign)"
    using assms by (simp only: unat_clear_page) (simp add: kPmmAlign_def kPageSize_def unat_word_ariths div_le_mono)
  then show ?thesis by (simp add: pmmi_init_def word_le_nat_alt)
qed

lemma boot_map_limit_covers:
  assumes "unat base + unat sz \<le> 2 ^ 48"
  shows "unat base + unat sz \<le> unat (boot_map_limit base sz)" and "unat (boot_map_limit base sz) \<le> 2 ^ 48"
    and "unat (boot_map_limit base sz) mod 2 ^ 30 = 0"
proof -
  define e where "e = base + sz"
  have e: "unat e = unat base + unat sz" using assms by (simp add: e_def unat_word_ariths)
  have "unat (e + kGiBMask) = unat e + (2 ^ 30 - 1)" using e assms by (simp add: kGiBMask_def unat_word_ariths)
  then have up: "unat ((e + kGiBMask) AND NOT kGiBMask) = (unat e + (2 ^ 30 - 1)) div 2 ^ 30 * 2 ^ 30"
    by (simp only: unat_clear_low)
  have lim: "unat (boot_map_limit base sz) = (if 2 ^ 32 < unat e then (unat e + (2 ^ 30 - 1)) div 2 ^ 30 * 2 ^ 30 else 2 ^ 32)"
    using up by (simp add: boot_map_limit_def Let_def e_def [symmetric] kMinMapLimit_def word_less_nat_alt)
  have le: "unat e \<le> (unat e + (2 ^ 30 - 1)) div 2 ^ 30 * 2 ^ 30" "(unat e + (2 ^ 30 - 1)) div 2 ^ 30 \<le> 2 ^ 18"
    using e assms by auto
  show "unat base + unat sz \<le> unat (boot_map_limit base sz)" unfolding lim using le(1) e by simp
  have "(unat e + (2 ^ 30 - 1)) div 2 ^ 30 * 2 ^ 30 \<le> 2 ^ 18 * 2 ^ 30" using le(2) by (rule mult_le_mono1)
  then show "unat (boot_map_limit base sz) \<le> 2 ^ 48" unfolding lim by simp
  show "unat (boot_map_limit base sz) mod 2 ^ 30 = 0" unfolding lim by simp
qed

end
