(* ===== verification/BootLoader.thy ===== *)
theory BootLoader
  imports KernelBoot PE32Loader
begin

text \<open>
  The boot loader \<^verbatim>\<open>private/minloader\<close> on AMD64: its string and memory helpers
  (\<^verbatim>\<open>src/BootString.cpp\<close>, \<^verbatim>\<open>src/BootSupport.cpp\<close>), the choice of the memory that is handed to the
  kernel (\<open>boot_scan_memory\<close> of \<^verbatim>\<open>src/HEL/AMD64/BootEFI.cpp\<close>), reading a file
  (\<^verbatim>\<open>src/BootFileReader.cpp\<close>) and placing an image (\<^verbatim>\<open>src/BootThread.cpp\<close>).  What the firmware answers
  is an argument; messages on the console are left out.
\<close>

section \<open>Strings and memory\<close>

text \<open>Copy and fill of 16-bit characters; addresses advance by two.\<close>

primrec bcopy_loop :: "mem \<Rightarrow> u64 \<Rightarrow> u64 \<Rightarrow> u64 \<Rightarrow> nat \<Rightarrow> mem" where
  "bcopy_loop m dest src index 0 = m"
| "bcopy_loop m dest src index (Suc n) =
     bcopy_loop (store_le 2 m (dest + 2 * index) (load_le 2 m (src + 2 * index))) dest src (index + 1) n"

definition BCopyMem :: "mem \<Rightarrow> u64 \<Rightarrow> u64 \<Rightarrow> u64 \<Rightarrow> mem \<times> u64" where
  "BCopyMem m dest src len =
     (if dest = 0 \<or> src = 0 then (m, 0) else (bcopy_loop m dest src 0 (unat len), len))"

partial_function (option) bstr_len_loop :: "mem \<Rightarrow> u64 \<Rightarrow> u64 \<Rightarrow> u64 option" where
  "bstr_len_loop m p cnt = (if load_le 2 m p \<noteq> 0 then bstr_len_loop m (p + 2) (cnt + 1) else Some cnt)"

definition BStrLen :: "mem \<Rightarrow> u64 \<Rightarrow> u64 option" where
  "BStrLen m p = (if p = 0 then Some 0 else bstr_len_loop m p 0)"

text \<open>The fill stops at the first zero that it finds and otherwise after \<open>len + 1\<close> bytes.\<close>

function bset_loop :: "mem \<Rightarrow> u64 \<Rightarrow> u8 \<Rightarrow> nat \<Rightarrow> nat \<Rightarrow> mem \<times> nat" where
  "bset_loop m src byte len cnt =
     (if m src = 0 then (m, cnt)
      else if cnt > len then (m, cnt)
      else bset_loop (m(src := byte)) (src + 1) byte len (Suc cnt))"
  by pat_completeness auto
termination by (relation "measure (\<lambda>(m, src, byte, len, cnt). Suc len - cnt)") auto

declare bset_loop.simps [simp del]

definition BSetMem :: "mem \<Rightarrow> u64 \<Rightarrow> u8 \<Rightarrow> u64 \<Rightarrow> mem \<times> nat" where
  "BSetMem m src byte len = (if src = 0 then (m, 0) else bset_loop m src byte (unat len) 0)"

text \<open>The routines of the standalone build.  The checked ones work on bytes, the others on \<open>int\<close>.\<close>

definition memnset :: "mem \<Rightarrow> u64 \<Rightarrow> u32 \<Rightarrow> u64 \<Rightarrow> u64 \<Rightarrow> mem \<times> u64" where
  "memnset m dst byte len dst_size =
     (if dst = 0 \<or> len > dst_size then (m, 0) else (set_loop m dst (ucast byte) 0 (unat len), dst))"

definition memncpy :: "mem \<Rightarrow> u64 \<Rightarrow> u64 \<Rightarrow> u64 \<Rightarrow> u64 \<Rightarrow> mem \<times> u64" where
  "memncpy m dst src len dst_size =
     (if dst = 0 \<or> src = 0 \<or> len > dst_size then (m, 0) else (copy_loop m src dst 0 (unat len), dst))"

definition strnlen :: "mem \<Rightarrow> u64 \<Rightarrow> u64 \<Rightarrow> u64" where
  "strnlen m whatToCheck max_len = string_len_max_loop m whatToCheck 0 (unat max_len)"

primrec strncmp_loop :: "mem \<Rightarrow> u64 \<Rightarrow> u64 \<Rightarrow> u64 \<Rightarrow> nat \<Rightarrow> int" where
  "strncmp_loop m a b i 0 = 0"
| "strncmp_loop m a b i (Suc n) =
     (if m (a + i) = m (b + i) then if m (a + i) = 0 then 0 else strncmp_loop m a b (i + 1) n
      else uint (m (a + i)) - uint (m (b + i)))"

definition strncmp :: "mem \<Rightarrow> u64 \<Rightarrow> u64 \<Rightarrow> u64 \<Rightarrow> int" where
  "strncmp m whatToCheck whatToCheckRight max_len =
     strncmp_loop m whatToCheck whatToCheckRight 0 (unat max_len)"

primrec memset_loop :: "mem \<Rightarrow> u64 \<Rightarrow> u64 \<Rightarrow> u64 \<Rightarrow> nat \<Rightarrow> mem" where
  "memset_loop m dst byte i 0 = m"
| "memset_loop m dst byte i (Suc n) = memset_loop (store_le 4 m (dst + 4 * i) byte) dst byte (i + 1) n"

definition memset_ints :: "mem \<Rightarrow> u64 \<Rightarrow> u32 \<Rightarrow> u64 \<Rightarrow> mem" where
  "memset_ints m dst byte len = memset_loop m dst (ucast byte) 0 (unat len)"

primrec memcpy_loop :: "mem \<Rightarrow> u64 \<Rightarrow> u64 \<Rightarrow> u64 \<Rightarrow> nat \<Rightarrow> mem" where
  "memcpy_loop m dst src i 0 = m"
| "memcpy_loop m dst src i (Suc n) =
     memcpy_loop (store_le 4 m (dst + 4 * i) (load_le 4 m (src + 4 * i))) dst src (i + 1) n"

definition memcpy_ints :: "mem \<Rightarrow> u64 \<Rightarrow> u64 \<Rightarrow> u64 \<Rightarrow> mem" where
  "memcpy_ints m dst src len = memcpy_loop m dst src 0 (unat len)"

definition strlen_boot :: "mem \<Rightarrow> u64 \<Rightarrow> u64 option" where
  "strlen_boot m whatToCheck = string_len_loop m whatToCheck 0"

partial_function (option) strcmp_loop :: "mem \<Rightarrow> u64 \<Rightarrow> u64 \<Rightarrow> u64 \<Rightarrow> u64 option" where
  "strcmp_loop m a b len =
     (if m (a + len) = m (b + len) then if m (a + len) = 0 then Some 0 else strcmp_loop m a b (len + 1)
      else Some len)"

definition strcmp_index :: "mem \<Rightarrow> u64 \<Rightarrow> u64 \<Rightarrow> int option" where
  "strcmp_index m whatToCheck whatToCheckRight = map_option to_int32 (strcmp_loop m whatToCheck whatToCheckRight 0)"

definition kAtExitMaxDestructors :: nat where "kAtExitMaxDestructors = 128"

definition atexit :: "u64 list \<Rightarrow> u64 \<Rightarrow> u64 list \<times> int" where
  "atexit funcs f = (if length funcs \<ge> kAtExitMaxDestructors then (funcs, 1) else (funcs @ [f], 0))"

section \<open>The memory handed to the kernel\<close>

text \<open>
  The firmware's memory services: the sizes that the first call of \<open>GetMemoryMap\<close> reports, the pool, and
  the second call, which fills a buffer and returns the size used, the key and the size of a
  descriptor (\<open>None\<close> for a status other than success).
\<close>

record efi_memory =
  efi_map_size :: "u64 \<times> u64"
  efi_pool :: "u64 \<Rightarrow> u64 option"
  efi_get_map :: "u64 \<Rightarrow> u64 \<Rightarrow> mem \<Rightarrow> (u64 \<times> u64 \<times> u64 \<times> mem) option"

record boot_info =
  f_Magic :: u64
  f_Version :: u64
  f_BitMapStart :: u64
  f_BitMapSize :: u64
  f_StackTop :: u64
  f_StackSz :: u64
  f_VendorPtr :: u64
  f_MultiProcessingEnabled :: bool
  f_ImageKey :: u64
  f_NumberOfProcessors :: u64

definition kHandoverMagic :: u64 where "kHandoverMagic = 0xBADAA"
definition kHandoverVersion :: u64 where "kHandoverVersion = 0x0119"
definition EfiConventionalMemory :: u64 where "EfiConventionalMemory = 7"
definition kBootLowMemEnd :: u64 where "kBootLowMemEnd = 0x100000"

text \<open>The fields of a descriptor.\<close>

definition desc_Kind :: "mem \<Rightarrow> u64 \<Rightarrow> u64" where "desc_Kind m desc = load_le 4 m desc"
definition desc_PhysicalStart :: "mem \<Rightarrow> u64 \<Rightarrow> u64" where "desc_PhysicalStart m desc = load64 m (desc + 8)"
definition desc_NumberOfPages :: "mem \<Rightarrow> u64 \<Rightarrow> u64" where "desc_NumberOfPages m desc = load64 m (desc + 24)"

primrec scan_loop :: "mem \<Rightarrow> u64 \<Rightarrow> u64 \<Rightarrow> u64 \<Rightarrow> nat \<Rightarrow> u64 \<times> u64 \<Rightarrow> u64 \<times> u64" where
  "scan_loop m struct_ptr sz_desc i 0 best = best"
| "scan_loop m struct_ptr sz_desc i (Suc n) best =
     (let desc = struct_ptr + i * sz_desc
      in scan_loop m struct_ptr sz_desc (i + 1) n
           (if desc_Kind m desc \<noteq> EfiConventionalMemory then best
            else if desc_PhysicalStart m desc < kBootLowMemEnd then best
            else if desc_NumberOfPages m desc > fst best
            then (desc_NumberOfPages m desc, desc_PhysicalStart m desc) else best))"

definition boot_scan_memory :: "efi_memory \<Rightarrow> mem \<Rightarrow> boot_info \<Rightarrow> (mem \<times> boot_info \<times> u64) outcome" where
  "boot_scan_memory fw m handover_hdr =
     (let (size, sz_desc) = efi_map_size fw;
          size_struct_ptr = size + sz_desc * 8
      in case efi_pool fw size_struct_ptr of
           None \<Rightarrow> Stop
         | Some struct_ptr \<Rightarrow>
             if struct_ptr = 0 then Stop
             else case efi_get_map fw size_struct_ptr struct_ptr m of
               None \<Rightarrow> Stop
             | Some (size_struct_ptr, map_key, sz_desc, m) \<Rightarrow>
                 let (free_pages, first_free_page) =
                       scan_loop m struct_ptr sz_desc 0 (unat (size_struct_ptr div sz_desc)) (0, 0)
                 in if first_free_page = 0 \<or> free_pages < 1 then Stop
                    else Ret (m, handover_hdr\<lparr>f_BitMapStart := first_free_page + 0x800000,
                              f_BitMapSize := free_pages * 4096\<rparr>, map_key))"

section \<open>Tables, processors and stack\<close>

text \<open>The table that starts with \<open>RSD PTR\<close>, among the vendor tables of the firmware.\<close>

fun find_acpi :: "mem \<Rightarrow> u64 list \<Rightarrow> u64 option" where
  "find_acpi m [] = None"
| "find_acpi m (vendor_table # tables) =
     (if read_bytes m vendor_table 8 = [82, 83, 68, 32, 80, 84, 82, 32] then Some vendor_table
      else find_acpi m tables)"

text \<open>
  The processors: the firmware's service is called with the counters in the order of the call, so the
  first result is the total number and the second the enabled one.
\<close>

definition boot_processors :: "(u32 \<times> u32) option \<Rightarrow> boot_info \<Rightarrow> boot_info" where
  "boot_processors mp handover_hdr =
     (case mp of
        Some (cnt_disabled, cnt_enabled) \<Rightarrow>
          handover_hdr\<lparr>f_NumberOfProcessors := ucast cnt_enabled, f_MultiProcessingEnabled := True\<rparr>
      | None \<Rightarrow> handover_hdr\<lparr>f_NumberOfProcessors := 1, f_MultiProcessingEnabled := False\<rparr>)"

definition boot_smp_max :: "u64 \<Rightarrow> boot_info \<Rightarrow> boot_info" where
  "boot_smp_max smp_max handover_hdr =
     (if smp_max > 0 \<and> smp_max < f_NumberOfProcessors handover_hdr
      then handover_hdr\<lparr>f_NumberOfProcessors := smp_max\<rparr> else handover_hdr)"

definition kBootStackSz :: u64 where "kBootStackSz = 0x40000"

definition boot_stack :: "(u64 \<Rightarrow> u64 option) \<Rightarrow> mem \<Rightarrow> boot_info \<Rightarrow> (mem \<times> boot_info) outcome" where
  "boot_stack pool m handover_hdr =
     (case pool kBootStackSz of
        None \<Rightarrow> Stop
      | Some stack_base \<Rightarrow>
          if stack_base = 0 then Stop
          else Ret (fst (BSetMem m stack_base 0 kBootStackSz),
                    handover_hdr\<lparr>f_StackSz := kBootStackSz,
                      f_StackTop := (stack_base + kBootStackSz) AND NOT 0xF\<rparr>))"

section \<open>Reading a file\<close>

text \<open>
  An open file of the firmware: the size that \<open>GetInfo\<close> reports, and \<open>Read\<close> from a position with the
  size of the buffer, which returns the status, the new value of that size and the bytes it stores.
  \<open>BadPointer\<close> is a call through a null pointer.
\<close>

record efi_file =
  file_info :: "u64 option"
  file_read :: "nat \<Rightarrow> u64 \<Rightarrow> u64 \<times> u64 \<times> u8 list"

datatype 'a boot_outcome = Done 'a | Halted | BadPointer

record file_reader =
  mErrorCode :: nat
  mBlob :: u64
  mFile :: "efi_file option"
  mSizeFile :: u64

definition kOperationOkay :: nat where "kOperationOkay = 0"
definition kNotSupported :: nat where "kNotSupported = 1"
definition kBufferTooSmall :: u64 where "kBufferTooSmall = 5"

text \<open>
  The constructor: \<open>img\<close>, \<open>efp\<close> and \<open>volume\<close> say whether the two protocols and the volume were found, \<open>file\<close> is
  the answer to the request to open the path.
\<close>

definition BootFileReader :: "bool \<Rightarrow> bool \<Rightarrow> bool \<Rightarrow> efi_file option \<Rightarrow> file_reader boot_outcome" where
  "BootFileReader img efp volume file =
     (let failed = \<lparr>mErrorCode = kNotSupported, mBlob = 0, mFile = None, mSizeFile = 0\<rparr>
      in if \<not> img then BadPointer
         else if \<not> efp \<or> \<not> volume then Done failed
         else case file of
           None \<Rightarrow> Done failed
         | Some f \<Rightarrow> Done \<lparr>mErrorCode = kOperationOkay, mBlob = 0, mFile = Some f, mSizeFile = 0\<rparr>)"

partial_function (option) file_read_loop :: "efi_file \<Rightarrow> mem \<Rightarrow> u64 \<Rightarrow> u64 \<Rightarrow> u64 \<Rightarrow> nat \<Rightarrow> u64 \<Rightarrow> u64 \<Rightarrow> (mem \<times> u64) option" where
  "file_read_loop f m blob readUntil chunkToRead pos bufSize szCnt =
     (if szCnt < readUntil then
        let (res, bufSize, bytes) = file_read f pos bufSize;
            m = write_bytes m (blob + szCnt) bytes;
            szCnt = szCnt + bufSize;
            bufSize = (if res = kBufferTooSmall then chunkToRead else bufSize)
        in file_read_loop f m blob readUntil chunkToRead (pos + length bytes) bufSize szCnt
      else Some (m, szCnt))"

definition ReadAll ::
    "(u64 \<Rightarrow> u64 option) \<Rightarrow> mem \<Rightarrow> file_reader \<Rightarrow> u64 \<Rightarrow> u64 \<Rightarrow> u64 \<Rightarrow> (mem \<times> file_reader) boot_outcome option" where
  "ReadAll pool m rdr readUntil chunkToRead out_address =
     (case mFile rdr of
        None \<Rightarrow> Some BadPointer
      | Some f \<Rightarrow>
          let readUntil = (case file_info f of Some fsz \<Rightarrow> fsz | None \<Rightarrow> readUntil)
          in if readUntil = 0 then Some (Done (m, rdr\<lparr>mErrorCode := kNotSupported\<rparr>))
             else let blob = (if mBlob rdr \<noteq> 0 then Some (mBlob rdr)
                              else if out_address = 0 then pool readUntil else Some out_address)
                  in case blob of
                       None \<Rightarrow> Some Halted
                     | Some blob \<Rightarrow>
                         map_option
                           (\<lambda>(m, szCnt). Done (m, rdr\<lparr>mBlob := blob, mSizeFile := szCnt, mErrorCode := kOperationOkay\<rparr>))
                           (file_read_loop f m blob readUntil chunkToRead 0 chunkToRead 0))"

section \<open>Placing an image\<close>

record boot_thread =
  fStartAddress :: u64
  fBlob_bt :: u64

text \<open>\<open>StrCmp\<close> of a literal with the name of a section: equal up to the terminator of the literal.\<close>

definition name_is :: "mem \<Rightarrow> u64 \<Rightarrow> u8 list \<Rightarrow> bool" where
  "name_is m name s \<longleftrightarrow> read_bytes m name (length s + 1) = s @ [0]"

definition sectionForCode :: "u8 list" where "sectionForCode = [46, 116, 101, 120, 116]"
definition sectionForBootZ :: "u8 list" where "sectionForBootZ = [46, 108, 100, 114]"
definition sectionForBootZAlt :: "u8 list" where "sectionForBootZAlt = [46, 98, 111, 116, 122]"

text \<open>The bytes of one section: cleared, then copied from the blob.\<close>

definition place_section :: "mem \<Rightarrow> u64 \<Rightarrow> u64 \<Rightarrow> u64 \<Rightarrow> mem" where
  "place_section m fBlob loadStartAddress sect =
     (let VirtualSize = load_le 4 m (sect + 8); VirtualAddress = load_le 4 m (sect + 12);
          SizeOfRawData = load_le 4 m (sect + 16); PointerToRawData = load_le 4 m (sect + 20);
          sz = (if SizeOfRawData > 0 then SizeOfRawData else VirtualSize);
          m = set_loop m (loadStartAddress + VirtualAddress) 0 0 (unat sz)
      in if SizeOfRawData > 0
         then copy_loop m (fBlob + PointerToRawData) (loadStartAddress + VirtualAddress) 0 (unat SizeOfRawData)
         else m)"

definition copy_section :: "mem \<Rightarrow> u64 \<Rightarrow> u64 \<Rightarrow> u64 \<Rightarrow> mem" where
  "copy_section m fBlob loadStartAddress sect =
     copy_loop m (fBlob + load_le 4 m (sect + 20)) (loadStartAddress + load_le 4 m (sect + 12)) 0
       (unat (load_le 4 m (sect + 16)))"

primrec load_sections ::
    "mem \<Rightarrow> u64 \<Rightarrow> u64 \<Rightarrow> u64 \<Rightarrow> u64 \<Rightarrow> u64 \<Rightarrow> nat \<Rightarrow> u64 \<Rightarrow> (mem \<times> u64) outcome" where
  "load_sections m fBlob loadStartAddress opt_header_ptr sectPtr sectIndex 0 start = Ret (m, start)"
| "load_sections m fBlob loadStartAddress opt_header_ptr sectPtr sectIndex (Suc n) start =
     (let sect = sectPtr + sizeof_SECTION_HEADER * sectIndex;
          m = place_section m fBlob loadStartAddress sect
      in if name_is m sect sectionForCode then
           load_sections (copy_section m fBlob loadStartAddress sect) fBlob loadStartAddress opt_header_ptr sectPtr
             (sectIndex + 1) n (loadStartAddress + load_le 4 m (opt_header_ptr + 16))
         else if (name_is m sect sectionForBootZ \<or> name_is m sect sectionForBootZAlt)
                 \<and> load64 m (fBlob + load_le 4 m (sect + 20)) \<noteq> kHandoverMagic then Stop
         else load_sections (copy_section m fBlob loadStartAddress sect) fBlob loadStartAddress opt_header_ptr sectPtr
                (sectIndex + 1) n start)"

text \<open>
  The constructor.  A null blob, another format, a foreign machine or subsystem leave the start
  address null.  The claim of the pages is a call whose failure is only reported.
\<close>

definition BootThread :: "mem \<Rightarrow> u64 \<Rightarrow> (mem \<times> boot_thread) outcome" where
  "BootThread m blob =
     (let rejected = Ret (m, \<lparr>fStartAddress = 0, fBlob_bt = blob\<rparr>)
      in if blob = 0 then rejected
         else if m blob = 0x4D \<and> m (blob + 1) = 0x5A then
           let header_ptr = blob + sizeof_DosHeader;
               opt_header_ptr = header_ptr + sizeof_EXEC_HEADER
           in if load_le 2 m (header_ptr + 4) \<noteq> kPeMachineAMD64 \<or> load_le 4 m header_ptr \<noteq> kPeSignature
              then rejected
              else if load_le 2 m (opt_header_ptr + 68) \<noteq> kNeKernelPESubsystem then rejected
              else let numSecs = load_le 2 m (header_ptr + 6);
                       loadStartAddress = load64 m (opt_header_ptr + 24);
                       sectPtr = opt_header_ptr + load_le 2 m (header_ptr + 20)
                   in (case load_sections m blob loadStartAddress opt_header_ptr sectPtr 0 (unat numSecs) 0 of
                         Stop \<Rightarrow> Stop
                       | Ret (m, start) \<Rightarrow> Ret (m, \<lparr>fStartAddress = start, fBlob_bt = blob\<rparr>))
         else rejected)"

definition IsValid_bt :: "boot_thread \<Rightarrow> bool" where
  "IsValid_bt t \<longleftrightarrow> fStartAddress t \<noteq> 0"

text \<open>What \<open>Start\<close> does: return a code, enter the image on its own stack, or call it.\<close>

datatype start_action = ReturnCode int | JumpTo u64 u64 | CallEntry u64

definition kEfiFail :: int where "kEfiFail = -1"

definition Start_bt :: "boot_thread \<Rightarrow> boot_info option \<Rightarrow> bool \<Rightarrow> start_action" where
  "Start_bt t handover own_stack =
     (if fStartAddress t = 0 then ReturnCode kEfiFail
      else case handover of
        None \<Rightarrow> ReturnCode kEfiFail
      | Some h \<Rightarrow>
          if own_stack \<and> f_StackTop h \<noteq> 0 then JumpTo (fStartAddress t) (f_StackTop h - 8)
          else CallEntry (fStartAddress t))"

text \<open>The end of \<open>BootloaderMain\<close>, once the kernel's file is read: place it, then choose the memory.\<close>

definition boot_kernel :: "efi_memory \<Rightarrow> mem \<Rightarrow> u64 \<Rightarrow> boot_info \<Rightarrow> (mem \<times> boot_info \<times> start_action) outcome" where
  "boot_kernel fw m blob handover_hdr =
     (case BootThread m blob of
        Stop \<Rightarrow> Stop
      | Ret (m, kernel_thread) \<Rightarrow>
          (case boot_scan_memory fw m handover_hdr of
             Stop \<Rightarrow> Stop
           | Ret (m, handover_hdr, map_key) \<Rightarrow>
               let handover_hdr = handover_hdr\<lparr>f_ImageKey := map_key\<rparr>
               in Ret (m, handover_hdr, Start_bt kernel_thread (Some handover_hdr) True)))"

end
