(* ===== verification/BootHandover.thy ===== *)
theory BootHandover
  imports BootLoader
begin

text \<open>
  What the boot loader hands to the kernel: the region that \<open>boot_scan_memory\<close> chooses and where the
  kernel's frames then lie, the contents of a file that is read, where the bytes of an image go,
  and the behaviour of the loader's own string and memory routines.
\<close>

section \<open>The memory map\<close>

definition desc_free :: "mem \<Rightarrow> u64 \<Rightarrow> bool" where
  "desc_free m desc \<longleftrightarrow> desc_Kind m desc = EfiConventionalMemory \<and> kBootLowMemEnd \<le> desc_PhysicalStart m desc"

text \<open>The best region so far stays or is replaced by a descriptor with more pages than all before.\<close>

lemma scan_loop_spec:
  fixes p sz :: u64
  defines "d \<equiv> \<lambda>i. p + of_nat i * sz"
  assumes "scan_loop m p sz (of_nat k) n best = (pages, start)"
  shows "fst best \<le> pages
    \<and> (\<forall>i. k \<le> i \<and> i < k + n \<and> desc_free m (d i) \<longrightarrow> desc_NumberOfPages m (d i) \<le> pages)
    \<and> ((pages, start) = best \<or> (\<exists>i. k \<le> i \<and> i < k + n \<and> desc_free m (d i)
           \<and> pages = desc_NumberOfPages m (d i) \<and> start = desc_PhysicalStart m (d i) \<and> fst best < pages))"
  using assms(2)
proof (induction n arbitrary: k best)
  case 0
  then show ?case by auto
next
  case (Suc n)
  define b where "b = (if desc_free m (d k) \<and> desc_NumberOfPages m (d k) > fst best
    then (desc_NumberOfPages m (d k), desc_PhysicalStart m (d k)) else best)"
  have "scan_loop m p sz (of_nat k) (Suc n) best = scan_loop m p sz (of_nat (Suc k)) n b"
    by (auto simp: b_def d_def desc_free_def Let_def not_le add.commute)
  with Suc.prems have "scan_loop m p sz (of_nat (Suc k)) n b = (pages, start)" by metis
  note IH = Suc.IH [OF this]
  have here: "desc_free m (d k) \<Longrightarrow> desc_NumberOfPages m (d k) \<le> fst b" "fst best \<le> fst b" by (auto simp: b_def)
  have new: "b = best \<or> desc_free m (d k) \<and> b = (desc_NumberOfPages m (d k), desc_PhysicalStart m (d k)) \<and> fst best < fst b"
    by (cases "desc_free m (d k) \<and> desc_NumberOfPages m (d k) > fst best") (auto simp: b_def)
  from IH consider "(pages, start) = b" | i where "Suc k \<le> i" "i < Suc k + n" "desc_free m (d i)"
      "pages = desc_NumberOfPages m (d i)" "start = desc_PhysicalStart m (d i)" "fst b < pages"
    by auto
  then have "(pages, start) = best \<or> (\<exists>i. k \<le> i \<and> i < k + Suc n \<and> desc_free m (d i)
      \<and> pages = desc_NumberOfPages m (d i) \<and> start = desc_PhysicalStart m (d i) \<and> fst best < pages)"
  proof cases
    case 1
    then show ?thesis using new by (auto intro!: exI [of _ k])
  next
    case 2
    then show ?thesis using here(2) by (intro disjI2 exI [of _ i]) auto
  qed
  moreover have "desc_NumberOfPages m (d i) \<le> pages" if "k \<le> i" "i < k + Suc n" "desc_free m (d i)" for i
  proof (cases "i = k")
    case True
    then show ?thesis using here(1) that(3) IH by auto
  next
    case False
    then show ?thesis using IH that by auto
  qed
  moreover have "fst best \<le> pages" using here(2) IH by auto
  ultimately show ?case by blast
qed



text \<open>A machine with two free regions above the first megabyte, of 256 and of 65536 pages.\<close>

definition demo_map :: "u8 list" where
  "demo_map = le_bytes 8 7 @ le_bytes 8 0x100000 @ le_bytes 8 0 @ le_bytes 8 256 @ le_bytes 8 0
     @ le_bytes 8 7 @ le_bytes 8 0x80000000 @ le_bytes 8 0 @ le_bytes 8 0x10000 @ le_bytes 8 0"

definition demo_fw :: efi_memory where
  "demo_fw = \<lparr>efi_map_size = (80, 40), efi_pool = (\<lambda>_. Some 0x90000),
     efi_get_map = (\<lambda>_ p m. Some (80, 42, 40, write_bytes m p demo_map))\<rparr>"

definition demo_info :: boot_info where
  "demo_info = \<lparr>f_Magic = kHandoverMagic, f_Version = kHandoverVersion, f_BitMapStart = 0, f_BitMapSize = 0, f_StackTop = 0x2000,
     f_StackSz = 0, f_VendorPtr = 0, f_MultiProcessingEnabled = False, f_ImageKey = 0, f_NumberOfProcessors = 1\<rparr>"

lemma demo_scan: "boot_scan_memory demo_fw (\<lambda>_. 0) demo_info =
    Ret (write_bytes (\<lambda>_. 0) 0x90000 demo_map, demo_info\<lparr>f_BitMapStart := 0x80800000, f_BitMapSize := 0x10000000\<rparr>, 42)"
  by code_simp



section \<open>The kernel's frames\<close>

lemma pmmi_init_fields:
  fixes s :: "'a phys_scheme"
  assumes "unat b + unat n \<le> 2 ^ 48" and "8192 \<le> unat n"
  shows "kPmmEnd (pmmi_init b n s) = (b + n) AND NOT kPmmAlign" and "kPmmCursor (pmmi_init b n s) = (b + kPmmAlign) AND NOT kPmmAlign"
    and "kPmmFreeHead (pmmi_init b n s) = 0"
proof -
  have u: "unat (b + kPmmAlign) = unat b + 4095" "unat (b + n) = unat b + unat n"
    using assms(1) by (simp_all add: kPmmAlign_def kPageSize_def unat_word_ariths)
  have "unat ((b + kPmmAlign) AND NOT kPmmAlign) < unat ((b + n) AND NOT kPmmAlign)"
    unfolding unat_clear_page u using assms(2) by simp
  then have "\<not> (b + n) AND NOT kPmmAlign \<le> (b + kPmmAlign) AND NOT kPmmAlign" by (simp add: word_le_nat_alt)
  then show "kPmmEnd (pmmi_init b n s) = (b + n) AND NOT kPmmAlign" "kPmmCursor (pmmi_init b n s) = (b + kPmmAlign) AND NOT kPmmAlign"
    "kPmmFreeHead (pmmi_init b n s) = 0"
    by (simp_all add: pmmi_init_def Let_def)
qed


text \<open>The state after a number of allocations.\<close>

primrec after_allocs :: "nat \<Rightarrow> 'a phys_scheme \<Rightarrow> 'a phys_scheme" where
  "after_allocs 0 s = s"
| "after_allocs (Suc k) s = fst (pmmi_alloc_frame (after_allocs k s))"

text \<open>Allocations from an empty free list hand out the frames one after another.\<close>

lemma alloc_frame_iter:
  fixes s :: "'a phys_scheme"
  assumes "kPmmFreeHead s = 0" and "0 < unat (kPmmCursor s)" and "unat (kPmmCursor s) + 4096 * k < unat (kPmmEnd s)"
  shows "snd (pmmi_alloc_frame (after_allocs k s)) = kPmmCursor s + of_nat (4096 * k)"
proof -
  have u: "unat (kPmmCursor s + of_nat (4096 * j)) = unat (kPmmCursor s) + 4096 * j" if "j \<le> k" for j
  proof -
    have "unat (kPmmCursor s) + 4096 * j < 2 ^ 64" using assms(3) that unsigned_less [of "kPmmEnd s", where 'a = nat] by simp
    then show ?thesis by (rule unat_add_of_nat)
  qed
  have step: "pmmi_alloc_frame t = (fst (pmmi_alloc_frame t), kPmmCursor t) \<and> kPmmFreeHead (fst (pmmi_alloc_frame t)) = 0
      \<and> kPmmCursor (fst (pmmi_alloc_frame t)) = kPmmCursor t + 4096 \<and> kPmmEnd (fst (pmmi_alloc_frame t)) = kPmmEnd t"
    if "kPmmFreeHead t = 0" "0 < unat (kPmmCursor t)" "unat (kPmmCursor t) < unat (kPmmEnd t)" for t :: "'a phys_scheme"
    using that by (auto simp: pmmi_alloc_frame_def Let_def word_less_nat_alt kPageSize_def)
  have inv: "kPmmFreeHead (after_allocs j s) = 0 \<and> kPmmEnd (after_allocs j s) = kPmmEnd s
      \<and> kPmmCursor (after_allocs j s) = kPmmCursor s + of_nat (4096 * j)" if "j \<le> k" for j
    using that
  proof (induction j)
    case 0
    then show ?case using assms(1) by simp
  next
    case (Suc j)
    then have IH: "kPmmFreeHead (after_allocs j s) = 0" "kPmmEnd (after_allocs j s) = kPmmEnd s"
      "kPmmCursor (after_allocs j s) = kPmmCursor s + of_nat (4096 * j)" by simp_all
    show ?case using step [of "after_allocs j s"] IH u [of j] assms(2,3) Suc.prems by (simp add: algebra_simps)
  qed
  show ?thesis using step [of "after_allocs k s"] inv [of k] u [of k] assms(2,3) by (metis add_gr_0 le_refl snd_conv)
qed

text \<open>
  C5. The kernel hands out memory behind the region.  Take a free region of at least four pages behind
  the window of the images, and give the kernel what \<open>boot_scan_memory\<close> makes of it (the start
  moved by 8 MiB, the size kept).  Then the allocator's end is 8 MiB behind the end of the region,
  and after enough allocations it returns a frame there, which the firmware never reported as free.
\<close>

theorem boot_frames_overrun:
  fixes s :: hw
  assumes "unat start mod 4096 = 0" and "4 \<le> unat pages" and "unat start + 4096 * unat pages + 0x800000 \<le> 2 ^ 48"
    and "0x44000000 \<le> unat start + 0x800000"
  defines "m \<equiv> hal_init_memory (start + 0x800000) (pages * 4096) s"
  shows "unat (kPmmEnd (machine m)) = unat start + 4096 * unat pages + 0x800000
    \<and> (\<exists>k. unat start + 4096 * unat pages \<le> unat (snd (pmmi_alloc_frame (after_allocs k (machine m)))))"
proof -
  define b where "b = start + 0x800000"
  define n where "n = pages * 4096"
  define u where "u = n div 2"
  have un: "unat n = 4096 * unat pages" "unat b = unat start + 0x800000" "unat (b + n) = unat b + unat n"
    using assms(3) by (simp_all add: n_def b_def unat_word_ariths)
  have uu: "unat u = 2048 * unat pages" using un by (simp add: u_def unat_div)
  have sums: "unat (b + u) = unat b + unat u" "unat (n - u) = 2048 * unat pages"
    using un uu assms(3) by (simp_all add: unat_word_ariths unat_sub_if')
  have "boot_region b n = (b, n)" using assms(4) un by (simp add: boot_region_def word_less_nat_alt window_unat)
  then have m: "machine m = pmmi_init (b + u) (n - u) s" by (simp add: m_def hal_init_memory_def b_def n_def u_def Let_def)
  have lim: "unat (b + u) + unat (n - u) \<le> 2 ^ 48" "8192 \<le> unat (n - u)" using sums uu un assms(2,3) by simp_all
  note f = pmmi_init_fields [OF lim, of s, folded m]
  obtain q where q: "unat start = 4096 * q" using assms(1) by (auto simp: mod_eq_0_iff_dvd)
  have e: "unat (kPmmEnd (machine m)) = 4096 * (q + unat pages + 2048)"
    unfolding f(1) unat_clear_page using un q sums by (simp add: algebra_simps)
  define c where "c = (unat (b + u) + 4095) div 4096"
  have "unat (b + u + kPmmAlign) = unat (b + u) + 4095"
    using lim(1) by (simp add: kPmmAlign_def kPageSize_def unat_word_ariths)
  then have cu: "unat (kPmmCursor (machine m)) = 4096 * c" unfolding f(2) unat_clear_page by (simp add: c_def)
  have c: "c < q + unat pages + 2048" "0 < c" using sums uu un q assms(2) by (simp_all add: c_def)
  define k where "k = q + unat pages + 2047 - c"
  have k: "4096 * c + 4096 * k = 4096 * (q + unat pages + 2047)" using c by (simp add: k_def)
  have last: "snd (pmmi_alloc_frame (after_allocs k (machine m))) = kPmmCursor (machine m) + of_nat (4096 * k)"
    using f(3) cu e k c by (intro alloc_frame_iter) simp_all
  have "4096 * (q + unat pages + 2047) < 2 ^ 64" using q assms(3) by simp
  then have "unat (kPmmCursor (machine m) + of_nat (4096 * k)) = 4096 * (q + unat pages + 2047)"
    using cu k by (simp only: unat_add_of_nat)
  then have "unat start + 4096 * unat pages \<le> unat (snd (pmmi_alloc_frame (after_allocs k (machine m))))"
    using last q by simp
  then show ?thesis using e q by (intro conjI) (simp, blast)
qed

theorem boot_frames_overrun_witness:
  "unat (kPmmEnd (machine (hal_init_memory (0x80000000 + 0x800000) (0x10000 * 4096) small_hw))) = 0x90800000"
  using boot_frames_overrun [of "0x80000000" "0x10000" small_hw] by simp


section \<open>Reading a file\<close>

text \<open>
  A file of the firmware with given contents, as its interface describes it: \<open>GetInfo\<close> reports the
  size, and \<open>Read\<close> stores the bytes from the current position, as many as the buffer holds and the file
  still has, and sets the size to their number.
\<close>

definition file_of :: "efi_file \<Rightarrow> u8 list \<Rightarrow> bool" where
  "file_of f c \<longleftrightarrow> file_info f = Some (of_nat (length c))
     \<and> (\<forall>pos n. file_read f pos n = (0, of_nat (min (unat n) (length c - pos)), take (unat n) (drop pos c)))"

lemma file_read_loop_spec:
  assumes "file_of f c" and "0 < chunk" and "length c < 2 ^ 63" and "unat chunk < 2 ^ 63" and "pos \<le> length c"
  shows "file_read_loop f m blob (of_nat (length c)) chunk pos chunk (of_nat pos)
    = Some (write_bytes m (blob + of_nat pos) (drop pos c), of_nat (length c))"
  using assms(5)
proof (induction "length c - pos" arbitrary: pos m rule: less_induct)
  case less
  have lt: "(of_nat pos :: u64) < of_nat (length c) \<longleftrightarrow> pos < length c"
    using less.prems assms(3) by (simp add: word_less_nat_alt)
  show ?case
  proof (cases "pos < length c")
    case False
    then show ?thesis using lt less.prems by (simp add: file_read_loop.simps)
  next
    case True
    define k where "k = min (unat chunk) (length c - pos)"
    have k: "0 < k" "pos + k \<le> length c" "k = unat chunk \<or> pos + k = length c"
      using True assms(2) by (auto simp: k_def word_less_nat_alt)
    have rd: "file_read f pos chunk = (0, of_nat k, take k (drop pos c))"
      using assms(1) by (cases "unat chunk \<le> length c - pos") (simp_all add: file_of_def k_def min_def)
    have mk: "min (length c - pos) k = k" by (simp add: k_def)
    have tk: "length (take k (drop pos c)) = k" using k(2) by simp
    have step: "file_read_loop f m blob (of_nat (length c)) chunk pos chunk (of_nat pos)
      = file_read_loop f (write_bytes m (blob + of_nat pos) (take k (drop pos c))) blob (of_nat (length c)) chunk (pos + k) (of_nat k) (of_nat (pos + k))"
      by (subst file_read_loop.simps) (simp add: lt True rd mk kBufferTooSmall_def)
    have app: "write_bytes (write_bytes m (blob + of_nat pos) (take k (drop pos c))) (blob + of_nat (pos + k)) (drop (pos + k) c)
      = write_bytes m (blob + of_nat pos) (drop pos c)"
      using write_bytes_append [of "take k (drop pos c)" "drop (pos + k) c" m "blob + of_nat pos"] tk k(2) assms(3)
      by (simp add: add.assoc) (metis add.commute append_take_drop_id drop_drop)
    show ?thesis
    proof (cases "pos + k = length c")
      case True
      then show ?thesis using step app by (simp add: file_read_loop.simps)
    next
      case False
      then have "of_nat k = chunk" using k(3) by auto
      then show ?thesis using step app less.hyps [of "pos + k"] k(1,2) False by (simp only:)
    qed
  qed
qed


definition demo_file :: efi_file where
  "demo_file = \<lparr>file_info = Some 5, file_read = (\<lambda>pos n. (0, of_nat (min (unat n) (5 - pos)), take (unat n) (drop pos [1, 2, 3, 4, 5])))\<rparr>"


text \<open>A file that cannot be opened leaves a reader whose \<open>ReadAll\<close> calls through a null pointer.\<close>

lemma missing_file_bad_pointer:
  assumes "BootFileReader True efp volume None = Done r"
  shows "ReadAll pool m r until chunk addr = Some BadPointer"
  using assms by (auto simp: BootFileReader_def ReadAll_def Let_def split: if_splits)


section \<open>Placing an image\<close>

text \<open>The bytes that the code puts at the target of a section, from a memory that holds the blob.\<close>

definition sec_data :: "mem \<Rightarrow> u64 \<Rightarrow> u64 \<Rightarrow> u8 list" where
  "sec_data m blob sect =
     (if load_le 4 m (sect + 16) > 0 then read_bytes m (blob + load_le 4 m (sect + 20)) (unat (load_le 4 m (sect + 16)))
      else replicate (unat (load_le 4 m (sect + 8))) 0)"

definition sec_target :: "mem \<Rightarrow> u64 \<Rightarrow> u64 \<Rightarrow> u64" where
  "sec_target m base sect = base + load_le 4 m (sect + 12)"

text \<open>A range at an address lies inside the range of \<open>k\<close> bytes at \<open>b\<close>.\<close>

definition inside :: "u64 \<Rightarrow> nat \<Rightarrow> u64 \<Rightarrow> nat \<Rightarrow> bool" where
  "inside a n b k \<longleftrightarrow> unat (a - b) + n \<le> k"

text \<open>The headers and the raw data of a section lie in the blob and its target in the window.\<close>

definition sect_fits :: "mem \<Rightarrow> u64 \<Rightarrow> nat \<Rightarrow> u64 \<Rightarrow> nat \<Rightarrow> u64 \<Rightarrow> bool" where
  "sect_fits m blob bn base wn sect \<longleftrightarrow> inside sect 40 blob bn
     \<and> unat (load_le 4 m (sect + 20)) + max 8 (unat (load_le 4 m (sect + 16))) \<le> bn
     \<and> unat (load_le 4 m (sect + 12)) + length (sec_data m blob sect) \<le> wn"

definition agrees :: "mem \<Rightarrow> mem \<Rightarrow> u64 \<Rightarrow> nat \<Rightarrow> bool" where
  "agrees m m0 b n \<longleftrightarrow> read_bytes m b n = read_bytes m0 b n"

lemma agrees_refl [simp]: "agrees m m b n" by (simp add: agrees_def)

lemma agrees_read:
  assumes "agrees m m0 b k" and "inside a n b k"
  shows "read_bytes m a n = read_bytes m0 a n"
proof (rule nth_equalityI)
  fix i
  assume i: "i < length (read_bytes m a n)"
  have "a + of_nat i = b + of_nat (unat (a - b) + i)" by simp
  then show "read_bytes m a n ! i = read_bytes m0 a n ! i"
    using assms i by (simp only: agrees_def inside_def length_read_bytes nth_read_bytes) (metis add_less_le_mono le_eq_less_or_eq nat_add_left_cancel_less nth_read_bytes order_less_le_trans)
qed simp

lemma agrees_load:
  "agrees m m0 b k \<Longrightarrow> inside a n b k \<Longrightarrow> load_le n m a = load_le n m0 a"
  by (simp add: load_le_def agrees_read)

lemma inside_add: "inside a n b k \<Longrightarrow> i + j \<le> n \<Longrightarrow> k < 2 ^ 64 \<Longrightarrow> inside (a + of_nat i) j b k"
proof -
  assume a: "inside a n b k" "i + j \<le> n" "k < 2 ^ 64"
  have "a + of_nat i - b = (a - b) + of_nat i" by simp
  then have "unat (a + of_nat i - b) = unat (a - b) + i" using a by (simp only: unat_add_of_nat inside_def)
  then show ?thesis using a by (simp add: inside_def)
qed

lemma sep_inside:
  assumes "sep b k c l" and "inside a n b k" and "inside d j c l" and "0 < n" and "0 < j"
  shows "sep a n d j"
proof -
  have "sep (b + of_nat (unat (a - b))) n c l" using assms(1,2,4) by (intro sep_sub) (auto simp: inside_def)
  then have "sep c l a n" by (simp add: sep_sym)
  then have "sep (c + of_nat (unat (d - c))) j a n" using assms(3,5) by (intro sep_sub) (auto simp: inside_def)
  then show ?thesis by (simp add: sep_sym)
qed

lemma agrees_write:
  assumes "agrees m m0 b k" and "inside d (length xs) c l" and "sep c l b k"
  shows "agrees (write_bytes m d xs) m0 b k"
proof (cases "k = 0 \<or> xs = []")
  case True
  then show ?thesis using assms(1) by (auto simp: agrees_def)
next
  case False
  then have "sep d (length xs) b k" using assms(2,3) by (intro sep_inside [OF assms(3,2)]) (auto simp: inside_def)
  then show ?thesis using assms(1) by (simp add: agrees_def read_write_sep)
qed

text \<open>One section: the net effect of clearing and copying, and copying again.\<close>

lemma section_step:
  assumes "agrees m m0 blob bn" and "sect_fits m0 blob bn base wn sect" and "sep base wn blob bn" and "bn < 2 ^ 63" and "wn < 2 ^ 63"
  defines "m' \<equiv> write_bytes m (sec_target m0 base sect) (sec_data m0 blob sect)"
  shows "place_section m blob base sect = m'" and "copy_section m' blob base sect = m'" and "agrees m' m0 blob bn"
proof -
  have fits: "inside sect 40 blob bn" "unat (load_le 4 m0 (sect + 20)) + unat (load_le 4 m0 (sect + 16)) \<le> bn"
    "unat (load_le 4 m0 (sect + 12)) + length (sec_data m0 blob sect) \<le> wn"
    using assms(2) by (auto simp: sect_fits_def)
  have ld: "load_le 4 x (sect + 8) = load_le 4 m0 (sect + 8)" "load_le 4 x (sect + 12) = load_le 4 m0 (sect + 12)"
    "load_le 4 x (sect + 16) = load_le 4 m0 (sect + 16)" "load_le 4 x (sect + 20) = load_le 4 m0 (sect + 20)"
    if "agrees x m0 blob bn" for x
    using assms(4) agrees_load [OF that inside_add [OF fits(1), of 8 4]] agrees_load [OF that inside_add [OF fits(1), of 12 4]]
      agrees_load [OF that inside_add [OF fits(1), of 16 4]] agrees_load [OF that inside_add [OF fits(1), of 20 4]] by simp_all
  define va pr raw vs where "va = load_le 4 m0 (sect + 12)" and "pr = load_le 4 m0 (sect + 20)"
    and "raw = unat (load_le 4 m0 (sect + 16))" and "vs = unat (load_le 4 m0 (sect + 8))"
  have data: "sec_data m0 blob sect = (if raw > 0 then read_bytes m0 (blob + pr) raw else replicate vs 0)"
    by (simp add: sec_data_def pr_def raw_def vs_def word_less_nat_alt)
  have src: "inside (blob + pr) raw blob bn" using fits(2) by (simp add: inside_def pr_def raw_def)
  have dst: "inside (base + va) (length (sec_data m0 blob sect)) base wn" using fits(3) by (simp add: inside_def va_def)
  have t: "sec_target m0 base sect = base + va" by (simp add: sec_target_def va_def)
  show ag: "agrees m' m0 blob bn" unfolding m'_def t using agrees_write [OF assms(1) dst assms(3)] .
  have len: "length (sec_data m0 blob sect) < 2 ^ 64" using fits(3) assms(5) by simp
  have copy: "copy_loop x (blob + pr) (base + va) 0 raw = write_bytes x (base + va) (read_bytes m0 (blob + pr) raw)"
    if "agrees x m0 blob bn" "0 < raw" for x
  proof -
    have "sep (blob + pr) raw (base + va) raw"
      using sep_inside [OF sep_sym [OF assms(3)] src dst] that(2) data by simp
    then show ?thesis using copy_loop_eq [of raw "blob + pr" 0 "base + va" x] agrees_read [OF that(1) src] len data that(2) by simp
  qed
  have set: "set_loop m (base + va) 0 0 (length (sec_data m0 blob sect)) = write_bytes m (base + va) (replicate (length (sec_data m0 blob sect)) 0)"
    using set_loop_eq [OF len, of m "base + va" 0 0] by simp
  have cleared: "agrees (write_bytes m (base + va) (replicate (length (sec_data m0 blob sect)) 0)) m0 blob bn"
    using dst by (intro agrees_write [OF assms(1) _ assms(3)]) simp
  show "place_section m blob base sect = m'"
  proof (cases "raw > 0")
    case True
    then show ?thesis using ld [OF assms(1)] set copy [OF cleared True] data
      by (simp add: place_section_def m'_def t Let_def va_def pr_def raw_def vs_def word_less_nat_alt write_bytes_twice)
  next
    case False
    then show ?thesis using ld [OF assms(1)] set data
      by (simp add: place_section_def m'_def t Let_def va_def pr_def raw_def vs_def word_less_nat_alt)
  qed
  show "copy_section m' blob base sect = m'"
  proof (cases "raw > 0")
    case True
    then show ?thesis using ld [OF ag] copy [OF ag True] data
      by (simp add: copy_section_def va_def pr_def raw_def) (simp add: m'_def t va_def pr_def raw_def write_bytes_twice)
  next
    case False
    then show ?thesis using ld [OF ag] by (simp add: copy_section_def raw_def)
  qed
qed


text \<open>The image that the sections of a blob describe, placed one after another.\<close>

definition sect_at :: "u64 \<Rightarrow> nat \<Rightarrow> u64" where
  "sect_at sp i = sp + sizeof_SECTION_HEADER * of_nat i"

definition place_image :: "mem \<Rightarrow> u64 \<Rightarrow> u64 \<Rightarrow> u64 \<Rightarrow> nat list \<Rightarrow> mem \<Rightarrow> mem" where
  "place_image m0 blob base sp is m =
     foldl (\<lambda>m i. write_bytes m (sec_target m0 base (sect_at sp i)) (sec_data m0 blob (sect_at sp i))) m is"

text \<open>The section named for the loader carries the magic of the handover.\<close>

definition loader_ok :: "mem \<Rightarrow> u64 \<Rightarrow> u64 \<Rightarrow> bool" where
  "loader_ok m blob sect \<longleftrightarrow> (name_is m sect sectionForBootZ \<or> name_is m sect sectionForBootZAlt) \<and> \<not> name_is m sect sectionForCode
     \<longrightarrow> load64 m (blob + load_le 4 m (sect + 20)) = kHandoverMagic"

lemma load_sections_spec:
  assumes "agrees m m0 blob bn" and "sep base wn blob bn" and "bn < 2 ^ 63" and "wn < 2 ^ 63" and "inside opt 20 blob bn"
    and "\<forall>i. k \<le> i \<and> i < k + n \<longrightarrow> sect_fits m0 blob bn base wn (sect_at sp i) \<and> loader_ok m0 blob (sect_at sp i)"
  shows "load_sections m blob base opt sp (of_nat k) n start = Ret (place_image m0 blob base sp [k..<k + n] m,
    if \<exists>i. k \<le> i \<and> i < k + n \<and> name_is m0 (sect_at sp i) sectionForCode then base + load_le 4 m0 (opt + 16) else start)"
  using assms(1,6)
proof (induction n arbitrary: k m start)
  case 0
  then show ?case by (auto simp: place_image_def)
next
  case (Suc n)
  define s where "s = sect_at sp k"
  define m' where "m' = write_bytes m (sec_target m0 base s) (sec_data m0 blob s)"
  have fits: "sect_fits m0 blob bn base wn s" and ok: "loader_ok m0 blob s" using Suc.prems(2) by (auto simp: s_def)
  note step = section_step [OF Suc.prems(1) fits assms(2-4), folded m'_def]
  have ins: "inside s 40 blob bn" using fits by (simp add: sect_fits_def)
  have name: "name_is m' s x = name_is m0 s x" if "length x \<le> 5" for x
    using agrees_read [OF step(3), of s "length x + 1"] ins that by (simp add: name_is_def inside_def)
  have entry: "load_le 4 m' (opt + 16) = load_le 4 m0 (opt + 16)" "load_le 4 m' (s + 20) = load_le 4 m0 (s + 20)"
    using agrees_load [OF step(3) inside_add [OF assms(5), of 16 4]] agrees_load [OF step(3) inside_add [OF ins, of 20 4]] assms(3) by simp_all
  have "inside (blob + load_le 4 m0 (s + 20)) 8 blob bn" using fits by (auto simp: sect_fits_def inside_def max_def split: if_splits)
  then have magic: "load64 m' (blob + load_le 4 m0 (s + 20)) = load64 m0 (blob + load_le 4 m0 (s + 20))"
    using agrees_load [OF step(3)] by (simp add: load64_le)
  have idx: "sp + sizeof_SECTION_HEADER * of_nat k = s" by (simp add: s_def sect_at_def)
  have lens: "length sectionForCode \<le> 5" "length sectionForBootZ \<le> 5" "length sectionForBootZAlt \<le> 5"
    by (simp_all add: sectionForCode_def sectionForBootZ_def sectionForBootZAlt_def)
  define start' where "start' = (if name_is m0 s sectionForCode then base + load_le 4 m0 (opt + 16) else start)"
  have one: "load_sections m blob base opt sp (of_nat k) (Suc n) start = load_sections m' blob base opt sp (of_nat (Suc k)) n start'"
    using ok step(1,2) by (auto simp: idx Let_def name lens entry magic loader_ok_def start'_def add.commute)
  have img: "place_image m0 blob base sp [k..<k + Suc n] m = place_image m0 blob base sp [Suc k..<Suc k + n] m'"
    by (simp add: place_image_def m'_def s_def upt_conv_Cons del: upt_Suc)
  have code: "(\<exists>i. k \<le> i \<and> i < k + Suc n \<and> name_is m0 (sect_at sp i) sectionForCode)
      \<longleftrightarrow> name_is m0 s sectionForCode \<or> (\<exists>i. Suc k \<le> i \<and> i < Suc k + n \<and> name_is m0 (sect_at sp i) sectionForCode)"
    by (metis Suc_leD Suc_leI add_Suc_right add_Suc_shift le_eq_less_or_eq less_add_Suc1 s_def)
  show ?case unfolding one img code using Suc.IH [OF step(3), of "Suc k" start'] Suc.prems(2) by (auto simp: start'_def)
qed

text \<open>Sections with targets apart from each other are all there in the end.\<close>

lemma place_image_other:
  assumes "\<forall>j \<in> set is. sep (sec_target m0 base (sect_at sp j)) (length (sec_data m0 blob (sect_at sp j))) a n"
  shows "read_bytes (place_image m0 blob base sp is m) a n = read_bytes m a n"
  using assms by (induction "is" arbitrary: m) (simp_all add: place_image_def read_write_sep)

lemma place_image_reads:
  assumes "i \<in> set is" and "distinct is" and "length (sec_data m0 blob (sect_at sp i)) < 2 ^ 64"
    and "\<forall>j \<in> set is. j \<noteq> i \<longrightarrow> sep (sec_target m0 base (sect_at sp j)) (length (sec_data m0 blob (sect_at sp j)))
      (sec_target m0 base (sect_at sp i)) (length (sec_data m0 blob (sect_at sp i)))"
  shows "read_bytes (place_image m0 blob base sp is m) (sec_target m0 base (sect_at sp i)) (length (sec_data m0 blob (sect_at sp i)))
    = sec_data m0 blob (sect_at sp i)"
proof -
  obtain xs ys where "is": "is = xs @ i # ys" using assms(1) split_list by metis
  then have "i \<notin> set ys" using assms(2) by simp
  then have "\<forall>j \<in> set ys. sep (sec_target m0 base (sect_at sp j)) (length (sec_data m0 blob (sect_at sp j)))
      (sec_target m0 base (sect_at sp i)) (length (sec_data m0 blob (sect_at sp i)))"
    using assms(4) "is" by auto
  from place_image_other [OF this] show ?thesis
    using assms(3) "is" by (simp add: place_image_def) (simp add: place_image_def [symmetric] read_write_same)
qed


text \<open>An image with one section of code.\<close>

definition demo_pe :: mem where
  "demo_pe = write_bytes (\<lambda>_. 0) 0x9000 ([0x4D, 0x5A] @ replicate 126 0 @ le_bytes 4 0x4550 @ le_bytes 2 0x8664 @ le_bytes 2 1
     @ replicate 12 0 @ le_bytes 2 96 @ le_bytes 2 0 @ replicate 16 0 @ le_bytes 4 0x1002 @ replicate 4 0 @ le_bytes 8 0x40000000
     @ replicate 36 0 @ le_bytes 2 0x11 @ replicate 26 0 @ [46, 116, 101, 120, 116, 0, 0, 0] @ le_bytes 4 4 @ le_bytes 4 0x1000
     @ le_bytes 4 4 @ le_bytes 4 288 @ replicate 16 0 @ [0x90, 0x90, 0xC3, 0x90])"

lemma demo_pe_fields:
  "demo_pe 0x9000 = 0x4D" "demo_pe 0x9001 = 0x5A" "load_le 4 demo_pe 0x9080 = kPeSignature" "load_le 2 demo_pe 0x9084 = kPeMachineAMD64"
  "load_le 2 demo_pe 0x90DC = kNeKernelPESubsystem" "load_le 2 demo_pe 0x9086 = 1" "load64 demo_pe 0x90B0 = 0x40000000"
  "load_le 2 demo_pe 0x9094 = 96" "load_le 4 demo_pe 0x90A8 = 0x1002" "load_le 4 demo_pe 0x9104 = 0x1000"
  "load_le 4 demo_pe 0x9108 = 4" "load_le 4 demo_pe 0x910C = 288" "read_bytes demo_pe 0x9120 4 = [0x90, 0x90, 0xC3, 0x90]"
  by code_simp+

lemma demo_pe_names:
  "name_is demo_pe 0x90F8 sectionForCode" "\<not> name_is demo_pe 0x90F8 sectionForBootZ" "\<not> name_is demo_pe 0x90F8 sectionForBootZAlt"
  by code_simp+


section \<open>The loader's string and memory routines\<close>

text \<open>The fill clears only the run of nonzero bytes at the start, and at most one byte more than asked.\<close>

lemma bset_loop_run:
  assumes "\<forall>i<k. m (src + of_nat i) \<noteq> 0" and "k = Suc len - cnt \<or> m (src + of_nat k) = 0" and "k \<le> Suc len - cnt"
    and "k < 2 ^ 64"
  shows "bset_loop m src byte len cnt = (write_bytes m src (replicate k byte), cnt + k)"
  using assms
proof (induction k arbitrary: m src cnt)
  case 0
  then show ?case by (subst bset_loop.simps) auto
next
  case (Suc k)
  have ne: "src + (1 + of_nat i) \<noteq> src" if "i \<le> k" for i
  proof
    assume "src + (1 + of_nat i) = src"
    then have "(of_nat (Suc i) :: u64) = of_nat 0" by simp
    then show False using that Suc.prems(4) of_nat_inj64 [of "Suc i" 0] by simp
  qed
  have "m src \<noteq> 0" using Suc.prems(1) [rule_format, of 0] by simp
  moreover have "\<not> cnt > len" using Suc.prems(3) by simp
  ultimately have "bset_loop m src byte len cnt = bset_loop (m(src := byte)) (src + 1) byte len (Suc cnt)"
    by (subst bset_loop.simps) simp
  also have "\<dots> = (write_bytes (m(src := byte)) (src + 1) (replicate k byte), Suc cnt + k)"
  proof (rule Suc.IH)
    show "\<forall>i<k. (m(src := byte)) (src + 1 + of_nat i) \<noteq> 0"
    proof (intro allI impI)
      fix i assume "i < k"
      then show "(m(src := byte)) (src + 1 + of_nat i) \<noteq> 0"
        using Suc.prems(1) [rule_format, of "Suc i"] ne [of i] by (simp add: add.assoc)
    qed
    show "k = Suc len - Suc cnt \<or> (m(src := byte)) (src + 1 + of_nat k) = 0"
      using Suc.prems(2) ne [of k] by (auto simp: add.assoc)
  qed (use Suc.prems in auto)
  finally show ?case using Suc.prems(4) by (simp add: write_bytes_Cons)
qed

text \<open>
  The stack that the loader "clears" for the kernel keeps all its bytes when the first one is zero,
  whatever follows.
\<close>

lemma stack_not_cleared:
  assumes "pool kBootStackSz = Some b" and "b \<noteq> 0" and "m b = 0"
  shows "\<exists>h'. boot_stack pool m h = Ret (m, h') \<and> f_StackSz h' = kBootStackSz \<and> f_StackTop h' = (b + kBootStackSz) AND NOT 0xF"
  using assms bset_loop_run [of 0 m b "unat kBootStackSz" 0 0] by (simp add: boot_stack_def BSetMem_def)

text \<open>
  The comparison of the standalone build returns the place of the first difference, so strings that
  differ in their first character compare as equal.
\<close>

lemma strcmp_index_first: "m a \<noteq> m b \<Longrightarrow> strcmp_index m a b = Some 0"
  by (simp add: strcmp_index_def strcmp_loop.simps to_int32_def)

end
