(* ===== verification/MkfsHefs.thy ===== *)
theory MkfsHefs
  imports OpenHeFS "HOL-Library.Sublist"
begin

text \<open>
  The host tools for OpenHeFS volumes, \<^verbatim>\<open>src/tools/mkfs.hefs.cpp\<close> and \<^verbatim>\<open>src/tools/chk.hefs.cpp\<close> over
  \<^verbatim>\<open>libmkfs\<close>: reading the options, the checks on them, the boot node that is written and the check of a
  volume.  The numbers are read by \<open>strtoull\<close> and \<open>strtol\<close> of the C library; whether the device can be opened, moved in
  and written is an argument.  Messages are the constructors of the error type.
\<close>

section \<open>Options\<close>

definition build_args :: "string list \<Rightarrow> string" where
  "build_args argv = concat (map (\<lambda>a. a @ '' '') (tl argv))"

fun find_sub :: "string \<Rightarrow> string \<Rightarrow> nat option" where
  "find_sub pat [] = (if pat = [] then Some 0 else None)"
| "find_sub pat (c # cs) = (if prefix pat (c # cs) then Some 0 else map_option Suc (find_sub pat cs))"

definition get_option :: "string \<Rightarrow> string \<Rightarrow> string" where
  "get_option args opt =
     (case find_sub (''-'' @ opt @ ''='') args of
        None \<Rightarrow> []
      | Some pos \<Rightarrow>
          let rest = drop (pos + length opt + 2) args
          in if CHR '' '' \<in> set rest then takeWhile (\<lambda>c. c \<noteq> CHR '' '') rest else [])"

section \<open>Numbers\<close>

definition is_white :: "char \<Rightarrow> bool" where
  "is_white c \<longleftrightarrow> c = CHR '' '' \<or> (9 \<le> (of_char c :: nat) \<and> (of_char c :: nat) \<le> 13)"

definition is_dec :: "char \<Rightarrow> bool" where
  "is_dec c \<longleftrightarrow> 48 \<le> (of_char c :: nat) \<and> (of_char c :: nat) \<le> 57"

definition dec_value :: "string \<Rightarrow> nat" where
  "dec_value ds = foldl (\<lambda>v c. 10 * v + (of_char c - 48)) 0 ds"

text \<open>White space, a sign, digits: the sign, the number and what follows, or \<open>None\<close> without a digit.\<close>

definition scan_number :: "string \<Rightarrow> (bool \<times> nat \<times> string) option" where
  "scan_number s =
     (let s = dropWhile is_white s;
          (neg, s) = (case s of c # cs \<Rightarrow> if c = CHR ''-'' then (True, cs) else if c = CHR ''+'' then (False, cs) else (False, s)
                      | [] \<Rightarrow> (False, s));
          ds = takeWhile is_dec s
      in if ds = [] then None else Some (neg, dec_value ds, dropWhile is_dec s))"

definition strtoull :: "string \<Rightarrow> (u64 \<times> string) option" where
  "strtoull s =
     (case scan_number s of
        None \<Rightarrow> None
      | Some (neg, v, rest) \<Rightarrow>
          Some (if v \<ge> 2 ^ 64 then - 1 else if neg then - of_nat v else of_nat v, rest))"

text \<open>\<open>strtol\<close>: the last component says whether the number is out of range.\<close>

definition strtol :: "string \<Rightarrow> (int \<times> string \<times> bool) option" where
  "strtol s =
     (case scan_number s of
        None \<Rightarrow> None
      | Some (neg, v, rest) \<Rightarrow>
          if neg then (if v > 2 ^ 63 then Some (- (2 ^ 63), rest, True) else Some (- int v, rest, False))
          else (if v \<ge> 2 ^ 63 then Some (2 ^ 63 - 1, rest, True) else Some (int v, rest, False)))"

definition parse_decimal :: "string \<Rightarrow> u64 option" where
  "parse_decimal opt =
     (if opt = [] then None
      else case strtoull opt of None \<Rightarrow> None | Some (val, rest) \<Rightarrow> if rest \<noteq> [] then None else Some val)"

definition parse_signed :: "string \<Rightarrow> u64 option" where
  "parse_signed opt =
     (if opt = [] then Some 0
      else case strtol opt of
        None \<Rightarrow> None
      | Some (val, rest, erange) \<Rightarrow> if erange then None else if rest \<noteq> [] then None else Some (of_int val))"

section \<open>The boot node of the tool\<close>

record mkfs_boot =
  magic_m :: "u8 list"
  volumeName_m :: "u8 list"
  version_m :: u32
  badSectors_m :: u64
  sectorCount_m :: u64
  sectorSize_m :: u64
  checksum_m :: u32
  diskKind_m :: u8
  encoding_m :: u8
  startIND_m :: u64
  endIND_m :: u64
  indCount_m :: u64
  diskSize_m :: u64
  diskStatus_m :: u16
  diskFlags_m :: u16
  vid_m :: u16
  startIN_m :: u64
  endIN_m :: u64
  startBlock_m :: u64
  endBlock_m :: u64
  pad_m :: "u8 list"

definition mkfs_bytes :: "mkfs_boot \<Rightarrow> u8 list" where
  "mkfs_bytes b = magic_m b @ volumeName_m b @ le_bytes 4 (ucast (version_m b)) @ le_bytes 8 (badSectors_m b)
     @ le_bytes 8 (sectorCount_m b) @ le_bytes 8 (sectorSize_m b) @ le_bytes 4 (ucast (checksum_m b))
     @ [diskKind_m b] @ [encoding_m b] @ le_bytes 8 (startIND_m b) @ le_bytes 8 (endIND_m b) @ le_bytes 8 (indCount_m b)
     @ le_bytes 8 (diskSize_m b) @ le_bytes 2 (ucast (diskStatus_m b)) @ le_bytes 2 (ucast (diskFlags_m b))
     @ le_bytes 2 (ucast (vid_m b)) @ le_bytes 8 (startIN_m b) @ le_bytes 8 (endIN_m b) @ le_bytes 8 (startBlock_m b)
     @ le_bytes 8 (endBlock_m b) @ pad_m b"

definition sizeof_BootNode :: u64 where "sizeof_BootNode = 513"
definition mkfs_version :: u32 where "mkfs_version = 0x0101"
definition mkfs_magic :: "u8 list" where "mkfs_magic = [79, 112, 101, 110, 72, 101, 70, 83]"
definition mkfs_default_label :: string where "mkfs_default_label = ''OpenHeFS Volume''"

section \<open>Making a volume\<close>

datatype mkfs_error = Usage | MissingOutput | InvalidSectorSize | SectorNotPowerOfTwo | InvalidDiskSize | DiskTooLarge
  | InvalidStartInd | InvalidEndInd | InvalidStartBlock | InvalidEndBlock | InvalidStartIn | InvalidEndIn
  | RangeTooLarge | CannotOpen | SeekFailed | WriteFailed

text \<open>The device: opening it empties it; then positions and the first write may be refused.\<close>

record host_device =
  dev_opens :: "string \<Rightarrow> bool"
  dev_seeks :: "u64 \<Rightarrow> bool"
  dev_writes :: bool

text \<open>The numbers of the options, after their checks.\<close>

record mkfs_options =
  o_path :: string
  o_label :: string
  o_sector :: u64
  o_size :: u64
  o_start_ind :: u64
  o_end_ind :: u64
  o_start_block :: u64
  o_end_block :: u64
  o_start_in :: u64
  o_end_in :: u64

definition read_range :: "string \<Rightarrow> string \<Rightarrow> string \<Rightarrow> mkfs_error \<Rightarrow> mkfs_error \<Rightarrow> mkfs_error + u64 \<times> u64" where
  "read_range args b e err_b err_e =
     (case parse_signed (get_option args b) of
        None \<Rightarrow> Inl err_b
      | Some start \<Rightarrow>
          (case parse_signed (get_option args e) of
             None \<Rightarrow> Inl err_e
           | Some end_v \<Rightarrow> if end_v \<le> start then Inl err_e else Inr (start, end_v)))"

definition kGiB :: u64 where "kGiB = 1024 * 1024 * 1024"

definition mkfs_parse :: "string list \<Rightarrow> mkfs_error + mkfs_options" where
  "mkfs_parse argv =
     (if length argv \<noteq> 10 then Inl Usage
      else let args = build_args argv; output_path = get_option args ''o''
      in if output_path = [] then Inl MissingOutput
      else case parse_signed (get_option args ''s'') of
        None \<Rightarrow> Inl InvalidSectorSize
      | Some parsed_s \<Rightarrow>
          if parsed_s = 0 then Inl InvalidSectorSize
          else if parsed_s AND (parsed_s - 1) \<noteq> 0 then Inl SectorNotPowerOfTwo
          else let opt_L = get_option args ''L'';
                   label = (if opt_L \<noteq> [] then opt_L else mkfs_default_label)
          in case parse_decimal (get_option args ''S'') of
            None \<Rightarrow> Inl InvalidDiskSize
          | Some gb \<Rightarrow>
              if gb = 0 then Inl InvalidDiskSize
              else if gb > (- 1) div kGiB then Inl DiskTooLarge
              else let kDiskSize = gb * 1024 * 1024 * 1024
              in case read_range args ''b'' ''e'' InvalidStartInd InvalidEndInd of
                Inl err \<Rightarrow> Inl err
              | Inr (start_ind, end_ind) \<Rightarrow>
                  case read_range args ''bs'' ''be'' InvalidStartBlock InvalidEndBlock of
                    Inl err \<Rightarrow> Inl err
                  | Inr (start_block, end_block) \<Rightarrow>
                      case read_range args ''is'' ''ie'' InvalidStartIn InvalidEndIn of
                        Inl err \<Rightarrow> Inl err
                      | Inr (start_in, end_in) \<Rightarrow>
                          if end_block * parsed_s > kDiskSize \<or> end_ind > kDiskSize \<or> end_in > kDiskSize
                          then Inl RangeTooLarge
                          else Inr \<lparr>o_path = output_path, o_label = label, o_sector = parsed_s, o_size = kDiskSize,
                                 o_start_ind = start_ind, o_end_ind = end_ind, o_start_block = start_block,
                                 o_end_block = end_block, o_start_in = start_in, o_end_in = end_in\<rparr>)"

definition label_bytes :: "string \<Rightarrow> u8 list" where
  "label_bytes l = (let units = min (length l) 127
     in map (\<lambda>c. of_nat (of_char c)) (take units l) @ replicate (128 - units) 0)"

definition mkfs_node :: "mkfs_options \<Rightarrow> mkfs_boot" where
  "mkfs_node opts =
     \<lparr>magic_m = mkfs_magic @ [0], volumeName_m = label_bytes (o_label opts), version_m = mkfs_version, badSectors_m = 0,
      sectorCount_m = o_size opts div o_sector opts, sectorSize_m = o_sector opts, checksum_m = 0, diskKind_m = 0xC0,
      encoding_m = 0x50, startIND_m = o_start_ind opts + sizeof_BootNode, endIND_m = o_end_ind opts, indCount_m = 0,
      diskSize_m = o_size opts, diskStatus_m = 0x18, diskFlags_m = 0, vid_m = 0, startIN_m = o_start_in opts,
      endIN_m = o_end_in opts, startBlock_m = o_start_block opts, endBlock_m = o_end_block opts, pad_m = replicate 272 0\<rparr>"

text \<open>The contents of the device after the run: zeros but for the boot node, up to the last byte.\<close>

definition mkfs_main :: "host_device \<Rightarrow> string list \<Rightarrow> mkfs_error + mem" where
  "mkfs_main dev argv =
     (case mkfs_parse argv of
        Inl err \<Rightarrow> Inl err
      | Inr opts \<Rightarrow>
          if \<not> dev_opens dev (o_path opts) then Inl CannotOpen
          else if \<not> dev_seeks dev (o_start_ind opts) then Inl SeekFailed
          else if \<not> dev_writes dev then Inl WriteFailed
          else let dsk = write_bytes (\<lambda>_. 0) (o_start_ind opts) (mkfs_bytes (mkfs_node opts))
          in if \<not> dev_seeks dev (o_size opts - 1) then Inl SeekFailed
             else Inr (dsk(o_size opts - 1 := 0)))"

section \<open>Checking a volume\<close>

datatype chk_result = ChkUsage | ChkNoDevice | ChkBadOrigin | ChkCannotOpen | ChkSeekFailed | ChkNotHeFS | ChkBadSectors | Healthy

definition chk_boot :: "u8 list \<Rightarrow> mkfs_boot" where
  "chk_boot bs = (let b = decode_boot bs in
     \<lparr>magic_m = fMagic_b b, volumeName_m = fVolName_b b, version_m = fVersion_b b, badSectors_m = fBadSectors_b b,
      sectorCount_m = fSectorCount_b b, sectorSize_m = fSectorSize_b b, checksum_m = fChecksum_b b, diskKind_m = fDiskKind_b b,
      encoding_m = fEncoding_b b, startIND_m = fStartIND_b b, endIND_m = fEndIND_b b, indCount_m = fINDCount_b b,
      diskSize_m = fDiskSize_b b, diskStatus_m = fDiskStatus_b b, diskFlags_m = fDiskFlags_b b, vid_m = fVID_b b,
      startIN_m = fStartIN_b b, endIN_m = fEndIN_b b, startBlock_m = fStartBlock_b b, endBlock_m = fEndBlock_b b,
      pad_m = field bs 241 272\<rparr>)"

definition kMkFsSectorSz :: u64 where "kMkFsSectorSz = 512"
definition kMkFsMaxBadSectors :: u64 where "kMkFsMaxBadSectors = 128"

text \<open>\<open>strncmp\<close> of the magic over its nine bytes, the terminator included.\<close>

definition chk_main :: "host_device \<Rightarrow> mem \<Rightarrow> string list \<Rightarrow> chk_result" where
  "chk_main dev dsk argv =
     (if length argv < 2 then ChkUsage
      else let args = build_args argv; opt_disk = get_option args ''in''; origin = get_option args ''b''
      in if opt_disk = [] then ChkNoDevice
      else case parse_signed origin of
        None \<Rightarrow> ChkBadOrigin
      | Some out_origin \<Rightarrow>
          if \<not> dev_opens dev opt_disk then ChkCannotOpen
          else if \<not> dev_seeks dev out_origin then ChkSeekFailed
          else let boot_node = chk_boot (read_bytes dsk out_origin 513)
          in if take 9 (magic_m boot_node) \<noteq> mkfs_magic @ [0] \<or> sectorCount_m boot_node < 1 \<or> sectorSize_m boot_node < kMkFsSectorSz
             then ChkNotHeFS
             else if badSectors_m boot_node > kMkFsMaxBadSectors then ChkBadSectors else Healthy)"


section \<open>The options that come back\<close>

lemma find_sub_skip: "CHR ''-'' \<notin> set xs \<Longrightarrow> find_sub (CHR ''-'' # p) (xs @ ys) = map_option ((+) (length xs)) (find_sub (CHR ''-'' # p) ys)"
proof (induction xs)
  case Nil
  then show ?case by (cases "find_sub (CHR ''-'' # p) ys") simp_all
next
  case (Cons x xs)
  then show ?case by (cases "find_sub (CHR ''-'' # p) ys") auto
qed

text \<open>An argument as the tools expect it: name and value without blanks and dashes, the name without an equals sign.\<close>

definition option_arg :: "string \<times> string \<Rightarrow> string" where
  "option_arg p = ''-'' @ fst p @ ''='' @ snd p"

definition plain_option :: "string \<times> string \<Rightarrow> bool" where
  "plain_option p \<longleftrightarrow> set (fst p) \<inter> {CHR ''-'', CHR '' '', CHR ''=''} = {} \<and> set (snd p) \<inter> {CHR ''-'', CHR '' ''} = {}"

lemma prefix_name:
  assumes "CHR ''='' \<notin> set a" and "CHR ''='' \<notin> set b"
  shows "prefix (a @ ''='') (b @ ''='' @ xs) \<longleftrightarrow> a = b"
  using assms
proof (induction a arbitrary: b)
  case Nil
  then show ?case by (cases b) auto
next
  case (Cons x a)
  then show ?case by (cases b) auto
qed

lemma find_sub_args:
  assumes "\<forall>p \<in> set opts. plain_option p" and "set n \<inter> {CHR ''-'', CHR '' '', CHR ''=''} = {}"
  shows "case map_of opts n of
      None \<Rightarrow> find_sub (''-'' @ n @ ''='') (concat (map (\<lambda>p. option_arg p @ '' '') opts)) = None
    | Some v \<Rightarrow> (\<exists>pos rest. find_sub (''-'' @ n @ ''='') (concat (map (\<lambda>p. option_arg p @ '' '') opts)) = Some pos
        \<and> drop (pos + length n + 2) (concat (map (\<lambda>p. option_arg p @ '' '') opts)) = v @ '' '' @ rest)"
  using assms(1)
proof (induction opts)
  case Nil
  then show ?case by simp
next
  case (Cons p opts)
  obtain k v where p: "p = (k, v)" by fastforce
  define tail where "tail = concat (map (\<lambda>p. option_arg p @ '' '') opts)"
  have plain: "plain_option (k, v)" using Cons.prems p by simp
  have here: "prefix (''-'' @ n @ ''='') (''-'' @ k @ ''='' @ v @ '' '' @ tail) \<longleftrightarrow> n = k"
    using prefix_name [of n k "v @ '' '' @ tail"] plain assms(2) by (auto simp: plain_option_def)
  show ?case
  proof (cases "n = k")
    case True
    then show ?thesis using here by (simp add: p option_arg_def tail_def)
  next
    case False
    have nodash: "CHR ''-'' \<notin> set (k @ ''='' @ v @ '' '')" using plain by (auto simp: plain_option_def)
    have skip: "find_sub (''-'' @ n @ ''='') (''-'' @ (k @ ''='' @ v @ '' '') @ tail)
      = map_option ((+) (length (option_arg (k, v) @ '' ''))) (find_sub (''-'' @ n @ ''='') tail)"
      using find_sub_skip [OF nodash, of "n @ ''=''" tail] here False
      by (cases "find_sub (''-'' @ n @ ''='') tail") (simp_all add: option_arg_def)
    have whole: "concat (map (\<lambda>p. option_arg p @ '' '') (p # opts)) = ''-'' @ (k @ ''='' @ v @ '' '') @ tail"
      by (simp add: p option_arg_def tail_def)
    have IH: "case map_of opts n of None \<Rightarrow> find_sub (''-'' @ n @ ''='') tail = None
      | Some v \<Rightarrow> \<exists>pos rest. find_sub (''-'' @ n @ ''='') tail = Some pos \<and> drop (pos + length n + 2) tail = v @ '' '' @ rest"
      unfolding tail_def using Cons by simp
    show ?thesis
    proof (cases "map_of opts n")
      case None
      then show ?thesis using IH skip False unfolding whole by (simp add: p)
    next
      case (Some w)
      then obtain pos rest where r: "find_sub (''-'' @ n @ ''='') tail = Some pos" "drop (pos + length n + 2) tail = w @ '' '' @ rest"
        using IH by auto
      define A where "A = option_arg (k, v) @ '' ''"
      have A: "''-'' @ (k @ ''='' @ v @ '' '') @ tail = A @ tail" by (simp add: A_def option_arg_def)
      have "drop (length A + pos + length n + 2) (A @ tail) = w @ '' '' @ rest"
        using r(2) by (simp add: add.assoc)
      then show ?thesis using Some False skip [folded A_def, unfolded A] r(1) unfolding whole A by (auto simp: p intro!: exI [of _ rest])
    qed
  qed
qed

text \<open>
  C40. Options come back.  For arguments of the form name and value, with no blanks or dashes in them and no equals sign in
  a name, whatever their order, \<open>get_option\<close> on the combined line returns the value of the first argument with that
  name, and the empty string for a name that is not there.  In particular a name that ends another one
  is not mistaken for it.
\<close>

theorem get_option_exact:
  assumes "\<forall>p \<in> set opts. plain_option p" and "set n \<inter> {CHR ''-'', CHR '' '', CHR ''=''} = {}"
  shows "get_option (build_args (prog # map option_arg opts)) n = (case map_of opts n of None \<Rightarrow> [] | Some v \<Rightarrow> v)"
proof -
  have line: "build_args (prog # map option_arg opts) = concat (map (\<lambda>p. option_arg p @ '' '') opts)"
    by (simp add: build_args_def comp_def)
  note find = find_sub_args [OF assms, folded line]
  show ?thesis
  proof (cases "map_of opts n")
    case None
    then show ?thesis using find by (simp add: get_option_def)
  next
    case (Some v)
    then obtain pos rest where r: "find_sub (''-'' @ n @ ''='') (build_args (prog # map option_arg opts)) = Some pos"
      "drop (pos + length n + 2) (build_args (prog # map option_arg opts)) = v @ '' '' @ rest"
      using find by auto
    have "plain_option (n, v)" using Some assms(1) by (meson map_of_SomeD)
    then have "takeWhile (\<lambda>c. c \<noteq> CHR '' '') (v @ '' '' @ rest) = v"
      by (subst takeWhile_append2) (auto simp: plain_option_def)
    then show ?thesis using r Some by (simp add: get_option_def)
  qed
qed

definition demo_opts :: "(string \<times> string) list" where
  "demo_opts = [(''is'', ''8''), (''s'', ''512''), (''bs'', ''64'')]"

theorem get_option_exact_witness:
  "get_option (build_args (''mkfs.hefs'' # map option_arg demo_opts)) ''s'' = ''512''"
proof -
  have "\<forall>p \<in> set demo_opts. plain_option p" by (simp add: demo_opts_def plain_option_def)
  from get_option_exact [OF this, of "''s''" "''mkfs.hefs''"] show ?thesis by (simp add: demo_opts_def)
qed

section \<open>The volume that is made\<close>

lemma read_range_Inr:
  "read_range args b e eb ee = Inr (x, y) \<Longrightarrow> parse_signed (get_option args b) = Some x \<and> parse_signed (get_option args e) = Some y \<and> x < y"
  by (auto simp: read_range_def not_le split: option.splits if_splits)

lemma mkfs_parse_Inr:
  assumes "mkfs_parse argv = Inr opts"
  shows "parse_signed (get_option (build_args argv) ''b'') = Some (o_start_ind opts)" and "o_start_ind opts < o_end_ind opts"
    and "o_end_ind opts \<le> o_size opts" and "o_start_block opts < o_end_block opts" and "o_end_block opts * o_sector opts \<le> o_size opts"
    and "o_sector opts \<noteq> 0" and "o_sector opts AND (o_sector opts - 1) = 0" and "o_path opts = get_option (build_args argv) ''o''"
    and "o_start_in opts < o_end_in opts" and "o_end_in opts \<le> o_size opts"
  using assms
  by (auto simp: mkfs_parse_def Let_def not_less split: if_splits option.splits sum.splits prod.splits dest!: read_range_Inr)

text \<open>The kernel's view of the node: the journal's address is the first word of the tool's padding.\<close>

definition kernel_view :: "mkfs_options \<Rightarrow> boot_node" where
  "kernel_view opts =
     \<lparr>fMagic_b = mkfs_magic @ [0], fVolName_b = label_bytes (o_label opts), fVersion_b = mkfs_version, fBadSectors_b = 0,
      fSectorCount_b = o_size opts div o_sector opts, fSectorSize_b = o_sector opts, fChecksum_b = 0, fDiskKind_b = kOpenHeFSHardDrive,
      fEncoding_b = ucast kOpenHeFSEncodingFlagsUTF8, fStartIND_b = o_start_ind opts + sizeof_BootNode, fEndIND_b = o_end_ind opts,
      fINDCount_b = 0, fDiskSize_b = o_size opts, fDiskStatus_b = kOpenHeFSStatusUnlocked, fDiskFlags_b = 0, fVID_b = 0,
      fStartIN_b = o_start_in opts, fEndIN_b = o_end_in opts, fStartBlock_b = o_start_block opts, fEndBlock_b = o_end_block opts,
      fJournalLBA_b = 0, fPad_b = replicate 264 0\<rparr>"

lemma le_bytes_zero: "le_bytes n 0 = replicate n 0"
  by (simp add: le_bytes_def map_replicate_const)

lemma mkfs_layout: "mkfs_bytes (mkfs_node opts) = encode_boot (kernel_view opts)"
proof -
  have "replicate 272 (0 :: u8) = replicate 8 0 @ replicate 264 0" by (simp add: replicate_add [symmetric])
  then show ?thesis
    by (simp add: mkfs_bytes_def mkfs_node_def encode_boot_def kernel_view_def enc32_def enc16_def enc8_def le_bytes_zero
        kOpenHeFSHardDrive_def kOpenHeFSEncodingFlagsUTF8_def kOpenHeFSStatusUnlocked_def)
qed

lemma kernel_view_ok: "boot_ok (kernel_view opts)"
  by (simp add: boot_ok_def kernel_view_def label_bytes_def mkfs_magic_def Let_def)

text \<open>
  C24. Making and checking a volume.  When \<open>mkfs\<close> succeeds, with sectors of at least 512 bytes, blocks whose byte
  range does not wrap around and room for the boot node before the last byte, the node on the device decodes to
  the options in the kernel's layout, its sector count is positive, and \<open>chk\<close> run on the device with the same
  origin finds the volume healthy.
\<close>

theorem mkfs_chk_healthy:
  assumes "mkfs_main dev argv = Inr dsk" and "mkfs_parse argv = Inr opts" and "512 \<le> o_sector opts"
    and "unat (o_end_block opts) * unat (o_sector opts) < 2 ^ 64" and "unat (o_start_ind opts) + 513 < unat (o_size opts)"
    and "2 \<le> length argv'" and "get_option (build_args argv') ''in'' \<noteq> []" and "dev_opens dev (get_option (build_args argv') ''in'')"
    and "get_option (build_args argv') ''b'' = get_option (build_args argv) ''b''"
  shows "decode_boot (read_bytes dsk (o_start_ind opts) 513) = kernel_view opts \<and> 0 < fSectorCount_b (kernel_view opts)
    \<and> chk_main dev dsk argv' = Healthy"
proof -
  note p = mkfs_parse_Inr [OF assms(2)]
  have dsk: "dsk = (write_bytes (\<lambda>_. 0) (o_start_ind opts) (encode_boot (kernel_view opts)))(o_size opts - 1 := 0)"
    and seek: "dev_seeks dev (o_start_ind opts)"
    using assms(1,2) by (auto simp: mkfs_main_def Let_def mkfs_layout split: if_splits)
  have len: "length (encode_boot (kernel_view opts)) = 513" using length_encode_boot [OF kernel_view_ok] by (simp add: sizeof_boot_def)
  have far: "o_size opts - 1 \<noteq> o_start_ind opts + of_nat i" if "i < 513" for i
  proof
    assume "o_size opts - 1 = o_start_ind opts + of_nat i"
    then have "unat (o_size opts - 1) = unat (o_start_ind opts) + i"
      using that assms(5) unsigned_less [of "o_size opts", where ?'a = nat] by (simp add: unat_add_of_nat)
    moreover have "unat (o_size opts - 1) = unat (o_size opts) - 1" using assms(5) by (intro unat_minus_one) auto
    ultimately show False using that assms(5) by simp
  qed
  have "read_bytes dsk (o_start_ind opts) 513 = read_bytes (write_bytes (\<lambda>_. 0) (o_start_ind opts) (encode_boot (kernel_view opts))) (o_start_ind opts) 513"
    unfolding dsk read_bytes_def by (intro map_cong refl fun_upd_other) (auto intro!: far [THEN not_sym])
  also have "\<dots> = encode_boot (kernel_view opts)" using len by (simp add: read_write_same)
  finally have rd: "read_bytes dsk (o_start_ind opts) 513 = encode_boot (kernel_view opts)" .
  have dec: "decode_boot (encode_boot (kernel_view opts)) = kernel_view opts" by (rule decode_encode_boot [OF kernel_view_ok])
  have "1 \<le> unat (o_end_block opts)" using p(4) by (simp add: word_less_nat_alt)
  then have "unat (o_sector opts) \<le> unat (o_end_block opts) * unat (o_sector opts)" by simp
  also have "\<dots> = unat (o_end_block opts * o_sector opts)" using assms(4) by (simp add: unat_word_ariths)
  also have "\<dots> \<le> unat (o_size opts)" using p(5) by (simp add: word_le_nat_alt)
  finally have "0 < unat (o_size opts) div unat (o_sector opts)" using p(6) by (simp add: div_greater_zero_iff unat_gt_0)
  then have cnt: "0 < o_size opts div o_sector opts" by (simp add: word_less_nat_alt unat_div)
  then have "\<not> o_size opts div o_sector opts < 1" by (simp add: word_less_nat_alt unat_div)
  then show ?thesis using assms(3,6-9) p(1) seek rd dec cnt
    by (simp add: chk_main_def Let_def chk_boot_def kernel_view_def mkfs_magic_def kMkFsSectorSz_def kMkFsMaxBadSectors_def)
qed

text \<open>
  C32. The kernel rejects the volume.  Whatever options \<open>mkfs\<close> is given, the boot node that it writes fails the kernel's
  test of magic and version, because the tool writes version 0x0101 and the kernel asks for 0x0104.
\<close>

theorem mkfs_kernel_rejects: "\<not> magic_ok (kernel_view opts) \<and> encode_boot (kernel_view opts) = mkfs_bytes (mkfs_node opts)"
  by (simp add: mkfs_layout magic_ok_def) (simp add: kernel_view_def mkfs_version_def kOpenHeFSVersion_def)

definition demo_mkfs :: "string list" where
  "demo_mkfs = [''mkfs.hefs'', ''-s=512'', ''-b=1024'', ''-e=4096'', ''-bs=16'', ''-be=64'', ''-is=4096'', ''-ie=8192'', ''-S=1'', ''-o=d'']"

definition demo_host :: host_device where
  "demo_host = \<lparr>dev_opens = (\<lambda>_. True), dev_seeks = (\<lambda>_. True), dev_writes = True\<rparr>"

lemma demo_options:
  "get_option (build_args demo_mkfs) ''o'' = ''d''" "get_option (build_args demo_mkfs) ''s'' = ''512''"
  "get_option (build_args demo_mkfs) ''L'' = []" "get_option (build_args demo_mkfs) ''S'' = ''1''"
  "get_option (build_args demo_mkfs) ''b'' = ''1024''" "get_option (build_args demo_mkfs) ''e'' = ''4096''"
  "get_option (build_args demo_mkfs) ''bs'' = ''16''" "get_option (build_args demo_mkfs) ''be'' = ''64''"
  "get_option (build_args demo_mkfs) ''is'' = ''4096''" "get_option (build_args demo_mkfs) ''ie'' = ''8192''"
  by code_simp+

lemma demo_numbers:
  "parse_signed ''512'' = Some 512" "parse_signed ''1024'' = Some 1024" "parse_signed ''4096'' = Some 4096" "parse_signed ''16'' = Some 16"
  "parse_signed ''64'' = Some 64" "parse_signed ''8192'' = Some 8192" "parse_decimal ''1'' = Some 1"
  by (simp_all add: parse_signed_def parse_decimal_def strtol_def strtoull_def scan_number_def is_white_def is_dec_def dec_value_def)

lemma demo_mkfs_parse:
  "mkfs_parse demo_mkfs = Inr \<lparr>o_path = ''d'', o_label = ''OpenHeFS Volume'', o_sector = 512, o_size = 0x40000000, o_start_ind = 1024,
     o_end_ind = 4096, o_start_block = 16, o_end_block = 64, o_start_in = 4096, o_end_in = 8192\<rparr>"
proof -
  have "length demo_mkfs = 10" by (simp add: demo_mkfs_def)
  then show ?thesis
    by (simp add: mkfs_parse_def read_range_def demo_options demo_numbers Let_def kGiB_def mkfs_default_label_def)
qed

lemma demo_chk_args:
  "get_option (build_args [''chk.hefs'', ''-in=d'', ''-b=1024'']) ''in'' = ''d''"
  "get_option (build_args [''chk.hefs'', ''-in=d'', ''-b=1024'']) ''b'' = ''1024''" "get_option (build_args demo_mkfs) ''b'' = ''1024''"
  by code_simp+

theorem mkfs_chk_healthy_witness:
  "\<exists>dsk. mkfs_main demo_host demo_mkfs = Inr dsk \<and> chk_main demo_host dsk [''chk.hefs'', ''-in=d'', ''-b=1024''] = Healthy"
proof -
  obtain dsk where dsk: "mkfs_main demo_host demo_mkfs = Inr dsk"
    by (simp add: mkfs_main_def demo_mkfs_parse demo_host_def Let_def)
  show ?thesis
    using mkfs_chk_healthy [OF dsk demo_mkfs_parse, of "[''chk.hefs'', ''-in=d'', ''-b=1024'']"] dsk
    by (simp add: demo_chk_args) (simp add: demo_host_def)
qed

end
