(* ===== verification/PciBus.thy ===== *)
theory PciBus
  imports NePrelude
begin

text \<open>
  The PCI devices, \<^verbatim>\<open>HALKit/AMD64/PCI/Device.cpp\<close> and \<^verbatim>\<open>Iterator.cpp\<close>: reads and writes of the configuration
  space through the two ports, the identity of a device, its base addresses, and the search for the
  devices of a class.  The ports are an argument; \<open>config_mechanism\<close> states how the hardware behind them
  answers.
\<close>

section \<open>The ports\<close>

record 'h pci_ports =
  rt_out32 :: "u16 \<Rightarrow> u32 \<Rightarrow> 'h \<Rightarrow> 'h"
  rt_in32 :: "u16 \<Rightarrow> 'h \<Rightarrow> u32 \<times> 'h"

definition ConfigAddress :: u16 where "ConfigAddress = 0xCF8"
definition ConfigData :: u16 where "ConfigData = 0xCFC"
definition PciInvalid :: u16 where "PciInvalid = 0xFFFF"
definition PCI_BAR_IO :: u32 where "PCI_BAR_IO = 0x01"
definition PCI_BAR_64 :: u32 where "PCI_BAR_64 = 0x04"
definition PCI_ENABLE_BIT :: u32 where "PCI_ENABLE_BIT = 0x80000000"

definition pci_target :: "u32 \<Rightarrow> u16 \<Rightarrow> u16 \<Rightarrow> u16 \<Rightarrow> u32" where
  "pci_target bar bus dev fn =
     PCI_ENABLE_BIT OR push_bit 16 (ucast bus) OR push_bit 11 (ucast dev) OR push_bit 8 (ucast fn) OR (bar AND 0xFC)"

definition NE_PCIReadRaw :: "'h pci_ports \<Rightarrow> u32 \<Rightarrow> u16 \<Rightarrow> u16 \<Rightarrow> u16 \<Rightarrow> 'h \<Rightarrow> u32 \<times> 'h" where
  "NE_PCIReadRaw P bar bus dev fn h = rt_in32 P ConfigData (rt_out32 P ConfigAddress (pci_target bar bus dev fn) h)"

definition NE_PCISetCfgTarget :: "'h pci_ports \<Rightarrow> u32 \<Rightarrow> u16 \<Rightarrow> u16 \<Rightarrow> u16 \<Rightarrow> 'h \<Rightarrow> 'h" where
  "NE_PCISetCfgTarget P bar bus dev fn h = rt_out32 P ConfigAddress (pci_target bar bus dev fn) h"

section \<open>Devices\<close>

record pci_device =
  fBus :: u16
  fDevice :: u16
  fFunction :: u16
  fBar :: u32

definition Device_pci :: "u16 \<Rightarrow> u16 \<Rightarrow> u16 \<Rightarrow> u32 \<Rightarrow> pci_device" where
  "Device_pci bus device func bar = \<lparr>fBus = bus, fDevice = device, fFunction = func, fBar = bar\<rparr>"

definition Read_pci :: "'h pci_ports \<Rightarrow> pci_device \<Rightarrow> u32 \<Rightarrow> u64 \<Rightarrow> 'h \<Rightarrow> u32 \<times> 'h" where
  "Read_pci P d bar sz h =
     (let h = NE_PCISetCfgTarget P (bar AND 0xFC) (fBus d) (fDevice d) (fFunction d) h;
          (data, h) = rt_in32 P ConfigData h
      in (if sz = 4 then data
          else if sz = 2 then drop_bit (unat ((bar AND 2) * 8)) data AND 0xFFFF
          else if sz = 1 then drop_bit (unat ((bar AND 3) * 8)) data AND 0xFF
          else ucast PciInvalid, h))"

definition Write_pci :: "'h pci_ports \<Rightarrow> pci_device \<Rightarrow> u32 \<Rightarrow> u64 \<Rightarrow> u64 \<Rightarrow> 'h \<Rightarrow> 'h" where
  "Write_pci P d bar data sz h =
     (let h = NE_PCISetCfgTarget P (bar AND 0xFC) (fBus d) (fDevice d) (fFunction d) h
      in if sz = 4 then rt_out32 P ConfigAddress (ucast data) h
         else if sz = 2 then
           let (temp, h) = rt_in32 P ConfigData h; sh = unat ((bar AND 2) * 8);
               temp = temp AND NOT (push_bit sh 0xFFFF);
               temp = temp OR ucast (push_bit sh (data AND 0xFFFF))
           in rt_out32 P ConfigAddress temp h
         else if sz = 1 then
           let (temp, h) = rt_in32 P ConfigData h; sh = unat ((bar AND 3) * 8);
               temp = temp AND NOT (push_bit sh 0xFF);
               temp = temp OR ucast (push_bit sh (data AND 0xFF))
           in rt_out32 P ConfigAddress temp h
         else h)"

text \<open>The identity of a device: parts of the first registers.\<close>

definition raw_of :: "'h pci_ports \<Rightarrow> pci_device \<Rightarrow> u32 \<Rightarrow> 'h \<Rightarrow> u32 \<times> 'h" where
  "raw_of P d bar h = NE_PCIReadRaw P bar (fBus d) (fDevice d) (fFunction d) h"

definition DeviceId :: "'h pci_ports \<Rightarrow> pci_device \<Rightarrow> 'h \<Rightarrow> u16 \<times> 'h" where
  "DeviceId P d h = (let (v, h) = raw_of P d 0x0 h in (ucast (drop_bit 16 v), h))"

definition VendorId :: "'h pci_ports \<Rightarrow> pci_device \<Rightarrow> 'h \<Rightarrow> u16 \<times> 'h" where
  "VendorId P d h = (let (v, h) = raw_of P d 0x0 h in (ucast (v AND 0xFFFF), h))"

definition InterfaceId :: "'h pci_ports \<Rightarrow> pci_device \<Rightarrow> 'h \<Rightarrow> u16 \<times> 'h" where
  "InterfaceId P d h = (let (v, h) = raw_of P d 0x09 h in (ucast (drop_bit 16 v), h))"

definition Class_pci :: "'h pci_ports \<Rightarrow> pci_device \<Rightarrow> 'h \<Rightarrow> u8 \<times> 'h" where
  "Class_pci P d h = (let (v, h) = raw_of P d 0x08 h in (ucast (drop_bit 24 v), h))"

definition Subclass :: "'h pci_ports \<Rightarrow> pci_device \<Rightarrow> 'h \<Rightarrow> u8 \<times> 'h" where
  "Subclass P d h = (let (v, h) = raw_of P d 0x08 h in (ucast (drop_bit 16 v), h))"

definition ProgIf :: "'h pci_ports \<Rightarrow> pci_device \<Rightarrow> 'h \<Rightarrow> u8 \<times> 'h" where
  "ProgIf P d h = (let (v, h) = raw_of P d 0x08 h in (ucast (drop_bit 8 v), h))"

definition HeaderType :: "'h pci_ports \<Rightarrow> pci_device \<Rightarrow> 'h \<Rightarrow> u8 \<times> 'h" where
  "HeaderType P d h = (let (v, h) = raw_of P d 0xC h in (ucast (drop_bit 16 v), h))"

definition Vendor :: "'h pci_ports \<Rightarrow> pci_device \<Rightarrow> 'h \<Rightarrow> u16 \<times> 'h" where
  "Vendor P d h = VendorId P d h"

definition Device_bool :: "'h pci_ports \<Rightarrow> pci_device \<Rightarrow> 'h \<Rightarrow> bool \<times> 'h" where
  "Device_bool P d h = (let (v, h) = VendorId P d h in (v \<noteq> PciInvalid, h))"

definition EnableMmio :: "'h pci_ports \<Rightarrow> pci_device \<Rightarrow> 'h \<Rightarrow> 'h" where
  "EnableMmio P d h = (let (command, h) = Read_pci P d 0x04 4 h in Write_pci P d 0x04 (ucast (command OR push_bit 1 1)) 4 h)"

definition BecomeBusMaster :: "'h pci_ports \<Rightarrow> pci_device \<Rightarrow> 'h \<Rightarrow> 'h" where
  "BecomeBusMaster P d h = (let (command, h) = Read_pci P d 0x04 4 h in Write_pci P d 0x04 (ucast (command OR push_bit 2 1)) 4 h)"

definition Bar :: "'h pci_ports \<Rightarrow> pci_device \<Rightarrow> u32 \<Rightarrow> 'h \<Rightarrow> u64 \<times> 'h" where
  "Bar P d bar_in h =
     (let (bar, h) = raw_of P d bar_in h
      in if bar AND PCI_BAR_IO \<noteq> 0 then (ucast (bar AND NOT 0x03), h)
         else if bar AND PCI_BAR_64 \<noteq> 0 then
           let (high, h) = raw_of P d ((bar_in + 4) AND NOT 0x03) h
           in (push_bit 32 (ucast high) OR ucast (bar AND NOT 0x0F), h)
         else (ucast (bar AND NOT 0x0F), h))"

section \<open>The search\<close>

definition NE_BUS_COUNT :: nat where "NE_BUS_COUNT = 256"
definition NE_DEVICE_COUNT :: nat where "NE_DEVICE_COUNT = 33"
definition NE_FUNCTION_COUNT :: nat where "NE_FUNCTION_COUNT = 8"

text \<open>The devices found, by bus; a bus without a match keeps the uninitialised entry, \<open>None\<close>.\<close>

definition probe :: "'h pci_ports \<Rightarrow> u8 \<Rightarrow> u32 \<Rightarrow> nat \<times> nat \<times> nat \<Rightarrow> (nat \<Rightarrow> pci_device option) \<times> 'h \<Rightarrow> (nat \<Rightarrow> pci_device option) \<times> 'h" where
  "probe P type bar = (\<lambda>(bus, device, function) (fDevices, h).
     let dev = Device_pci (of_nat bus) (of_nat device) (of_nat function) bar; (c, h) = Class_pci P dev h
     in (if c = type then fDevices(bus := Some dev) else fDevices, h))"

definition probe_order :: "(nat \<times> nat \<times> nat) list" where
  "probe_order = List.product [0..<NE_BUS_COUNT] (List.product [0..<NE_DEVICE_COUNT] [0..<NE_FUNCTION_COUNT])"

definition Iterator :: "'h pci_ports \<Rightarrow> u8 \<Rightarrow> u32 \<Rightarrow> 'h \<Rightarrow> (nat \<Rightarrow> pci_device option) \<times> 'h" where
  "Iterator P type bar h = fold (probe P type bar) probe_order (\<lambda>_. None, h)"

section \<open>The hardware\<close>

text \<open>
  The configuration mechanism: the address port latches the address, the data port reads the register that the
  latched address names, and only a write to the data port changes a register.
\<close>

definition config_mechanism :: "'h pci_ports \<Rightarrow> ('h \<Rightarrow> u32) \<Rightarrow> ('h \<Rightarrow> u32 \<Rightarrow> u32) \<Rightarrow> bool" where
  "config_mechanism P latch regs \<longleftrightarrow>
     (\<forall>h v. latch (rt_out32 P ConfigAddress v h) = v \<and> regs (rt_out32 P ConfigAddress v h) = regs h)
     \<and> (\<forall>h. fst (rt_in32 P ConfigData h) = regs h (latch h) \<and> latch (snd (rt_in32 P ConfigData h)) = latch h
           \<and> regs (snd (rt_in32 P ConfigData h)) = regs h)"


section \<open>Addresses\<close>

lemma small_bits:
  fixes x :: u16
  assumes "unat x < 2 ^ n" and "n \<le> i"
  shows "\<not> bit x i"
proof
  assume b: "bit x i"
  have "unat x < 2 ^ i" using assms power_increasing [of n i "2 :: nat"] by linarith
  then have "\<not> bit (unat x) i" by (simp add: bit_iff_odd)
  moreover have "bit (unat x) i" using b bit_imp_le_length [OF b] by (simp add: bit_unsigned_iff)
  ultimately show False by contradiction
qed

lemma pci_target_bits:
  "i < 32 \<Longrightarrow> bit (pci_target bar bus dev fn) i \<longleftrightarrow> i = 31 \<or> 16 \<le> i \<and> bit bus (i - 16) \<or> 11 \<le> i \<and> bit dev (i - 11)
     \<or> 8 \<le> i \<and> bit fn (i - 8) \<or> 2 \<le> i \<and> i < 8 \<and> bit bar i"
proof -
  assume "i < 32"
  have m: "(0xFC :: u32) = push_bit 2 (mask 6)" "PCI_ENABLE_BIT = push_bit 31 1"
    by (simp_all add: PCI_ENABLE_BIT_def mask_eq_exp_minus_1)
  have le: "31 \<le> i \<longleftrightarrow> i = 31" "i - 16 < 32" "i - 11 < 32" "i - 8 < 32" "2 \<le> i \<and> i - 2 < 32 \<and> i - 2 < 6 \<longleftrightarrow> 2 \<le> i \<and> i < 8"
    using \<open>i < 32\<close> by auto
  have "bit (pci_target bar bus dev fn) i \<longleftrightarrow> 31 \<le> i \<or> 16 \<le> i \<and> i - 16 < 32 \<and> bit bus (i - 16) \<or> 11 \<le> i \<and> i - 11 < 32 \<and> bit dev (i - 11)
      \<or> 8 \<le> i \<and> i - 8 < 32 \<and> bit fn (i - 8) \<or> bit bar i \<and> 2 \<le> i \<and> i - 2 < 32 \<and> i - 2 < 6"
    using \<open>i < 32\<close> unfolding pci_target_def m
    by (simp only: bit_or_iff bit_and_iff bit_push_bit_iff bit_mask_iff bit_unsigned_iff bit_1_iff) simp
  then show ?thesis using le by blast
qed

text \<open>The fields of an address come back, so different registers have different addresses.\<close>

lemma pci_target_fields:
  assumes "unat bus < 256" and "unat dev < 32" and "unat fn < 8"
  shows "bit (pci_target bar bus dev fn) 31"
    and "\<And>i. i < 8 \<Longrightarrow> bit (pci_target bar bus dev fn) (16 + i) \<longleftrightarrow> bit bus i"
    and "\<And>i. i < 5 \<Longrightarrow> bit (pci_target bar bus dev fn) (11 + i) \<longleftrightarrow> bit dev i"
    and "\<And>i. i < 3 \<Longrightarrow> bit (pci_target bar bus dev fn) (8 + i) \<longleftrightarrow> bit fn i"
    and "\<And>i. 2 \<le> i \<Longrightarrow> i < 8 \<Longrightarrow> bit (pci_target bar bus dev fn) i \<longleftrightarrow> bit bar i"
proof -
  note hi = small_bits [of bus 8] small_bits [of dev 5] small_bits [of fn 3]
  show "bit (pci_target bar bus dev fn) 31" by (simp add: pci_target_bits)
  show "bit (pci_target bar bus dev fn) (16 + i) \<longleftrightarrow> bit bus i" if "i < 8" for i
    using hi assms that by (simp add: pci_target_bits)
  show "bit (pci_target bar bus dev fn) (11 + i) \<longleftrightarrow> bit dev i" if "i < 5" for i
    using hi assms that by (simp add: pci_target_bits)
  show "bit (pci_target bar bus dev fn) (8 + i) \<longleftrightarrow> bit fn i" if "i < 3" for i
    using hi assms that by (simp add: pci_target_bits)
  show "bit (pci_target bar bus dev fn) i \<longleftrightarrow> bit bar i" if "2 \<le> i" "i < 8" for i
    using that by (simp add: pci_target_bits)
qed

lemma small_eq:
  fixes x y :: u16
  assumes "unat x < 2 ^ n" and "unat y < 2 ^ n" and "\<And>i. i < n \<Longrightarrow> bit x i \<longleftrightarrow> bit y i"
  shows "x = y"
  by (rule bit_word_eqI) (metis assms not_le small_bits)

lemma pci_target_ghost: "pci_target bar bus 32 fn = pci_target bar (bus OR 1) 0 fn"
proof (rule bit_word_eqI)
  fix i
  assume i: "i < LENGTH(32)"
  have "(32 :: u16) = push_bit 5 1" by simp
  then have b32: "bit (32 :: u16) j \<longleftrightarrow> j = 5" for j by (simp only: bit_push_bit_iff bit_1_iff) auto
  have b1: "bit (bus OR 1) j \<longleftrightarrow> bit bus j \<or> j = 0" for j by (simp add: bit_or_iff bit_1_iff)
  have at: "11 \<le> i \<and> i - 11 = 5 \<longleftrightarrow> i = 16" "16 \<le> i \<and> (bit bus (i - 16) \<or> i - 16 = 0) \<longleftrightarrow> 16 \<le> i \<and> bit bus (i - 16) \<or> i = 16" by auto
  have "i < 32" using i by simp
  then show "bit (pci_target bar bus 32 fn) i = bit (pci_target bar (bus OR 1) 0 fn) i"
    unfolding pci_target_bits [OF \<open>i < 32\<close>] b32 b1 bit_0_eq by (simp only: at bot_apply bot_bool_def simp_thms) blast
qed

text \<open>
  C29. Addresses of registers.  For a bus, device and function in range and any register, the address is unique: two of
  them are equal only when bus, device, function and the register's word are equal.  But the search also asks for
  device 32, whose address on an even bus is that of device 0 on the next bus.
\<close>

theorem pci_target_unique:
  assumes "unat bus < 256" and "unat dev < 32" and "unat fn < 8" and "unat bus' < 256" and "unat dev' < 32" and "unat fn' < 8"
  shows "(pci_target bar bus dev fn = pci_target bar' bus' dev' fn' \<longleftrightarrow>
      bus = bus' \<and> dev = dev' \<and> fn = fn' \<and> bar AND 0xFC = bar' AND 0xFC)
    \<and> pci_target bar bus 32 fn = pci_target bar (bus OR 1) 0 fn"
proof
  note f = pci_target_fields [OF assms(1-3), where bar = bar] and f' = pci_target_fields [OF assms(4-6), where bar = bar']
  have m: "(0xFC :: u32) = push_bit 2 (mask 6)" by (simp add: mask_eq_exp_minus_1)
  show "pci_target bar bus dev fn = pci_target bar' bus' dev' fn' \<longleftrightarrow>
      bus = bus' \<and> dev = dev' \<and> fn = fn' \<and> bar AND 0xFC = bar' AND 0xFC"
  proof
    assume eq: "pci_target bar bus dev fn = pci_target bar' bus' dev' fn'"
    have "bus = bus'" using assms(1,4) f(2) f'(2) eq by (intro small_eq [of _ 8]) simp_all
    moreover have "dev = dev'" using assms(2,5) f(3) f'(3) eq by (intro small_eq [of _ 5]) simp_all
    moreover have "fn = fn'" using assms(3,6) f(4) f'(4) eq by (intro small_eq [of _ 3]) simp_all
    moreover have "bar AND 0xFC = bar' AND 0xFC"
    proof (rule bit_word_eqI)
      fix i
      assume "i < LENGTH(32)"
      have r: "bit (0xFC :: u32) i \<longleftrightarrow> 2 \<le> i \<and> i < 8" using \<open>i < LENGTH(32)\<close> unfolding m by (auto simp: bit_push_bit_iff bit_mask_iff)
      show "bit (bar AND 0xFC) i = bit (bar' AND 0xFC) i" unfolding bit_and_iff r using f(5) [of i] f'(5) [of i] eq by auto
    qed
    ultimately show "bus = bus' \<and> dev = dev' \<and> fn = fn' \<and> bar AND 0xFC = bar' AND 0xFC" by blast
  qed (auto simp: pci_target_def)
  show "pci_target bar bus 32 fn = pci_target bar (bus OR 1) 0 fn" by (rule pci_target_ghost)
qed

theorem pci_target_unique_witness:
  "pci_target 8 3 4 0 \<noteq> pci_target 8 3 5 0 \<and> pci_target 8 2 32 0 = pci_target 8 3 0 0"
  using pci_target_unique [of 3 4 0 3 5 0 8 8] pci_target_unique [of 2 4 0 2 4 0 8 8] by simp


section \<open>Writes\<close>

lemma mechanism_simps:
  assumes "config_mechanism P latch regs"
  shows "latch (rt_out32 P ConfigAddress v h) = v" and "regs (rt_out32 P ConfigAddress v h) = regs h"
    and "fst (rt_in32 P ConfigData h) = regs h (latch h)" and "latch (snd (rt_in32 P ConfigData h)) = latch h"
    and "regs (snd (rt_in32 P ConfigData h)) = regs h"
  using assms by (simp_all add: config_mechanism_def)

text \<open>Ports over a latch and the registers; a write to the data port stores.\<close>

definition demo_ports :: "(u32 \<times> (u32 \<Rightarrow> u32)) pci_ports" where
  "demo_ports = \<lparr>rt_out32 = (\<lambda>port v (l, r). if port = ConfigAddress then (v, r) else if port = ConfigData then (l, r(l := v)) else (l, r)),
     rt_in32 = (\<lambda>port (l, r). (if port = ConfigData then r l else l, (l, r)))\<rparr>"

lemma demo_mechanism: "config_mechanism demo_ports fst snd"
  by (auto simp: config_mechanism_def demo_ports_def ConfigAddress_def ConfigData_def split_def)

text \<open>
  C17. Writes never store.  Behind the configuration mechanism, a write of any size to any register of any device
  leaves every register as it was, and so do enabling memory access and bus mastering: the data goes to
  the address port, where \<open>EnableMmio\<close> and \<open>BecomeBusMaster\<close> leave the new command as the latched address.
\<close>

theorem pci_write_never_stores:
  assumes "config_mechanism P latch regs"
  shows "regs (Write_pci P d bar data sz h) = regs h \<and> regs (EnableMmio P d h) = regs h \<and> regs (BecomeBusMaster P d h) = regs h
    \<and> latch (EnableMmio P d h) = regs h (pci_target 4 (fBus d) (fDevice d) (fFunction d)) OR 2
    \<and> latch (BecomeBusMaster P d h) = regs h (pci_target 4 (fBus d) (fDevice d) (fFunction d)) OR 4"
proof -
  have w: "regs (Write_pci P d bar data sz h) = regs h" for bar data sz h
    by (simp add: Write_pci_def Let_def split_def NE_PCISetCfgTarget_def mechanism_simps [OF assms])
  have r: "regs (snd (Read_pci P d 4 4 h)) = regs h" "fst (Read_pci P d 4 4 h) = regs h (pci_target 4 (fBus d) (fDevice d) (fFunction d))"
    by (simp_all add: Read_pci_def Let_def split_def NE_PCISetCfgTarget_def mechanism_simps [OF assms])
  have l: "latch (Write_pci P d bar data 4 h) = ucast data" for bar data h
    by (simp add: Write_pci_def Let_def NE_PCISetCfgTarget_def mechanism_simps [OF assms])
  have uc: "ucast (ucast x :: u64) = x" for x :: u32 by (rule bit_word_eqI) (simp add: bit_unsigned_iff)
  show ?thesis by (simp add: w EnableMmio_def BecomeBusMaster_def split_def l r uc)
qed

theorem pci_write_never_stores_witness:
  "snd (BecomeBusMaster demo_ports (Device_pci 0 31 2 0) (0, \<lambda>_. 7)) = (\<lambda>_. 7)"
  using pci_write_never_stores [OF demo_mechanism, of "Device_pci 0 31 2 0" 0 0 0 "(0, \<lambda>_. 7)"] by simp

section \<open>What the search finds\<close>

definition class_at :: "(u32 \<Rightarrow> u32) \<Rightarrow> nat \<times> nat \<times> nat \<Rightarrow> u8" where
  "class_at r = (\<lambda>(bus, device, function). ucast (drop_bit 24 (r (pci_target 8 (of_nat bus) (of_nat device) (of_nat function)))))"

lemma probe_step:
  assumes "config_mechanism P latch regs"
  shows "\<exists>h'. probe P ty bar (b, d, f) (D, h) =
      (if class_at (regs h) (b, d, f) = ty then D(b := Some (Device_pci (of_nat b) (of_nat d) (of_nat f) bar)) else D, h') \<and> regs h' = regs h"
  by (simp add: probe_def Let_def split_def Class_pci_def raw_of_def NE_PCIReadRaw_def Device_pci_def class_at_def mechanism_simps [OF assms])

lemma probe_fold:
  assumes "config_mechanism P latch regs"
  shows "\<exists>h'. fold (probe P ty bar) xs (D, h) =
      (\<lambda>b. case find (\<lambda>x. fst x = b \<and> class_at (regs h) x = ty) (rev xs) of
         None \<Rightarrow> D b | Some (b', d, f) \<Rightarrow> Some (Device_pci (of_nat b') (of_nat d) (of_nat f) bar), h') \<and> regs h' = regs h"
proof (induction xs rule: rev_induct)
  case Nil
  then show ?case by simp
next
  case (snoc x xs)
  obtain b d f where x: "x = (b, d, f)" by (metis prod_cases3)
  from snoc obtain h' where IH: "fold (probe P ty bar) xs (D, h) =
      (\<lambda>b. case find (\<lambda>x. fst x = b \<and> class_at (regs h) x = ty) (rev xs) of
         None \<Rightarrow> D b | Some (b', d, f) \<Rightarrow> Some (Device_pci (of_nat b') (of_nat d) (of_nat f) bar), h')" "regs h' = regs h" by auto
  show ?case
    using probe_step [OF assms, of ty bar b d f "fst (fold (probe P ty bar) xs (D, h))" h'] IH(2)
    by (auto simp: IH(1) x fun_eq_iff)
qed

lemma product_append: "List.product (xs @ ys) zs = List.product xs zs @ List.product ys zs"
  by (induction xs) simp_all

text \<open>The last probe of a bus is the functions of device 32.\<close>

lemma probe_order_split:
  assumes "b < 256"
  shows "\<exists>A C. probe_order = A @ map (\<lambda>f. (b, 32, f)) [0..<8] @ C \<and> (\<forall>x \<in> set C. fst x \<noteq> b)"
proof -
  have "[0..<256] = [0..<b] @ [b] @ [Suc b..<256]" using assms upt_add_eq_append [of 0 b "256 - b"] by (simp add: upt_conv_Cons)
  moreover have "[0..<33 :: nat] = [0..<32] @ [32]" by (simp add: upt_Suc_append [of 0 32, simplified])
  ultimately have "probe_order = (List.product [0..<b] (List.product [0..<33] [0..<8]) @ map (Pair b) (List.product [0..<32] [0..<8]))
      @ map (\<lambda>f. (b, 32, f)) [0..<8] @ List.product [Suc b..<256] (List.product [0..<33] [0..<8])"
    unfolding probe_order_def NE_BUS_COUNT_def NE_DEVICE_COUNT_def NE_FUNCTION_COUNT_def
    by (simp only: product_append) (simp add: product_append comp_def del: upt_Suc upt.simps)
  then show ?thesis by (intro exI conjI) (assumption, auto)
qed

lemma find_ghost:
  assumes "b < 256" and "f < 8" and "Q (b, 32, f)" and "\<And>x. Q x \<Longrightarrow> fst x = b"
  shows "\<exists>f'<8. find Q (rev probe_order) = Some (b, 32, f')"
proof -
  obtain A C where s: "probe_order = A @ map (\<lambda>f. (b, 32, f)) [0..<8] @ C" "\<forall>x \<in> set C. fst x \<noteq> b"
    using probe_order_split [OF assms(1)] by metis
  have "find Q (rev C) = None" using s(2) assms(4) by (auto simp: find_None_iff)
  moreover have "find Q (rev (map (\<lambda>f. (b, 32, f)) [0..<8])) \<noteq> None" using assms(2,3) by (auto simp: find_None_iff simp del: upt_Suc)
  then obtain y where y: "find Q (rev (map (\<lambda>f. (b, 32, f)) [0..<8])) = Some y" by blast
  moreover have "y \<in> set (rev (map (\<lambda>f. (b, 32, f)) [0..<8]))" using y by (metis find_Some_iff nth_mem)
  ultimately show ?thesis unfolding s(1) rev_append find_append by (auto simp del: upt_Suc)
qed

text \<open>
  C25. The search.  For every bus the search keeps one device, the last one in the order of probing whose class is the
  wanted one, and none when there is no such device.  Because it probes a device 32 that does not exist, the
  entry of an even bus is that ghost whenever a function of device 0 on the next bus has the class,
  whatever devices the bus itself has.
\<close>

theorem pci_search_exact:
  assumes "config_mechanism P latch regs"
  shows "fst (Iterator P ty bar h) b = map_option (\<lambda>(b, d, f). Device_pci (of_nat b) (of_nat d) (of_nat f) bar)
      (find (\<lambda>x. fst x = b \<and> class_at (regs h) x = ty) (rev probe_order))
    \<and> (even b \<and> b < 255 \<and> f < 8 \<and> class_at (regs h) (b + 1, 0, f) = ty \<longrightarrow>
        (\<exists>f'<8. fst (Iterator P ty bar h) b = Some (Device_pci (of_nat b) 32 (of_nat f') bar)))"
proof -
  have it: "fst (Iterator P ty bar h) b = map_option (\<lambda>(b, d, f). Device_pci (of_nat b) (of_nat d) (of_nat f) bar)
      (find (\<lambda>x. fst x = b \<and> class_at (regs h) x = ty) (rev probe_order))"
    using probe_fold [OF assms, of ty bar probe_order "\<lambda>_. None" h]
    by (auto simp: Iterator_def split: option.splits)
  have "\<exists>f'<8. fst (Iterator P ty bar h) b = Some (Device_pci (of_nat b) 32 (of_nat f') bar)"
    if g: "even b" "b < 255" "f < 8" "class_at (regs h) (b + 1, 0, f) = ty"
  proof -
    have "(of_nat b :: u16) OR 1 = of_nat (b + 1)" using g(1) by (simp add: or_one_eq)
    then have "class_at (regs h) (b, 32, f) = ty" using g(4) by (simp add: class_at_def pci_target_ghost)
    then have "\<exists>f'<8. find (\<lambda>x. fst x = b \<and> class_at (regs h) x = ty) (rev probe_order) = Some (b, 32, f')"
      using g(2,3) by (intro find_ghost) auto
    then show ?thesis by (auto simp: it)
  qed
  then show ?thesis using it by blast
qed

text \<open>A machine whose only device of class 1 is device 0 of bus 1.\<close>

theorem pci_search_exact_witness:
  "\<exists>f'<8. fst (Iterator demo_ports 1 0 (0, \<lambda>a. if a = pci_target 8 1 0 0 then 0x01060100 else 0xFFFFFFFF)) 0
     = Some (Device_pci 0 32 (of_nat f') 0)"
proof -
  have "class_at (\<lambda>a. if a = pci_target 8 1 0 0 then 0x01060100 else 0xFFFFFFFF) (1, 0, 0) = 1"
    by (simp add: class_at_def)
  then show ?thesis
    using pci_search_exact [OF demo_mechanism, of 1 0 "(0, \<lambda>a. if a = pci_target 8 1 0 0 then 0x01060100 else 0xFFFFFFFF)" 0 0, THEN conjunct2] by simp
qed


end
