(* ===== verification/KernelContainers.thy ===== *)
theory KernelContainers
  imports AsciiUtils KPC
begin

text \<open>
  The kernel's container classes: strings (\<^verbatim>\<open>NeKit/KString.h\<close>, \<^verbatim>\<open>KString.inl\<close>), their builder, the objects of
  \<^verbatim>\<open>NeKit/Json.h\<close>, the list array of \<^verbatim>\<open>NeKit/MutableArray.h\<close>, variants and indexed files.  Buffers live in a
  store, where a freed buffer is gone; an access outside a buffer or to a freed one has the result
  \<open>None\<close>.  Copies of a string share its buffer and every destructor frees it, as the defaulted copies do.
\<close>

section \<open>Buffers\<close>

record kheap =
  bufs :: "nat \<Rightarrow> u8 list option"
  brk :: nat
  room :: nat

text \<open>\<open>new\<close> with the fill by zeros that every constructor does next; the null pointer is 0.\<close>

definition heap_new :: "nat \<Rightarrow> kheap \<Rightarrow> nat \<times> kheap" where
  "heap_new n h =
     (if room h = 0 then (0, h)
      else (Suc (brk h), h\<lparr>bufs := (bufs h)(Suc (brk h) := Some (replicate n 0)), brk := Suc (brk h), room := room h - 1\<rparr>))"

definition heap_delete :: "nat \<Rightarrow> kheap \<Rightarrow> kheap" where
  "heap_delete p h = (if p = 0 then h else h\<lparr>bufs := (bufs h)(p := None)\<rparr>)"

definition put_at :: "u8 list \<Rightarrow> nat \<Rightarrow> u8 list \<Rightarrow> u8 list" where
  "put_at b off s = take off b @ s @ drop (off + length s) b"

definition buf_write :: "kheap \<Rightarrow> nat \<Rightarrow> nat \<Rightarrow> u8 list \<Rightarrow> kheap option" where
  "buf_write h p off s =
     (if s = [] then Some h
      else case bufs h p of
        None \<Rightarrow> None
      | Some b \<Rightarrow> if off + length s > length b then None else Some (h\<lparr>bufs := (bufs h)(p \<mapsto> put_at b off s)\<rparr>))"

text \<open>\<open>oe_string_len\<close>: the bytes before the first zero of the buffer.\<close>

definition cstr_in :: "kheap \<Rightarrow> nat \<Rightarrow> u8 list option" where
  "cstr_in h p =
     (if p = 0 then Some []
      else case bufs h p of None \<Rightarrow> None | Some b \<Rightarrow> if 0 \<in> set b then Some (takeWhile (\<lambda>c. c \<noteq> 0) b) else None)"

section \<open>Strings\<close>

record kstring =
  fData :: nat
  fDataSz :: nat
  fCur :: nat

definition kMinimumStringSize :: nat where "kMinimumStringSize = 8196"

definition append_cstr :: "kheap \<Rightarrow> kstring \<Rightarrow> u8 list \<Rightarrow> (kstring \<times> kheap) option" where
  "append_cstr h k rhs =
     (case buf_write h (fData k) (fCur k) rhs of
        None \<Rightarrow> None
      | Some h \<Rightarrow> Some (k\<lparr>fCur := fCur k + length rhs\<rparr>, h))"

definition append_str :: "kheap \<Rightarrow> kstring \<Rightarrow> kstring \<Rightarrow> (kstring \<times> kheap) option" where
  "append_str h k rhs =
     (case cstr_in h (fData rhs) of
        None \<Rightarrow> None
      | Some s \<Rightarrow> if length s > fDataSz k then Some (k, h) else append_cstr h k s)"

definition KString_default :: "kheap \<Rightarrow> kstring \<times> kheap" where
  "KString_default h = (let (p, h) = heap_new kMinimumStringSize h in (\<lparr>fData = p, fDataSz = kMinimumStringSize, fCur = 0\<rparr>, h))"

definition KString_cstr :: "kheap \<Rightarrow> u8 list \<Rightarrow> (kstring \<times> kheap) option" where
  "KString_cstr h s =
     (let (p, h) = heap_new (length s) h; k = \<lparr>fData = p, fDataSz = length s, fCur = 0\<rparr>
      in if p = 0 then Some (k, h) else append_cstr h k s)"

definition KString_sized :: "bool \<Rightarrow> kheap \<Rightarrow> nat \<Rightarrow> (kstring \<times> kheap) outcome" where
  "KString_sized debug h sz =
     (if debug \<and> \<not> sz > 1 then Stop
      else let (p, h) = heap_new sz h in Ret (\<lparr>fData = p, fDataSz = sz, fCur = 0\<rparr>, h))"

definition KString_destroy :: "kheap \<Rightarrow> kstring \<Rightarrow> kheap" where
  "KString_destroy h k = heap_delete (fData k) h"

text \<open>The first bytes of the data; no access when none are asked for.\<close>

definition data_bytes :: "kheap \<Rightarrow> kstring \<Rightarrow> nat \<Rightarrow> u8 list option" where
  "data_bytes h k n =
     (if n = 0 then Some []
      else case bufs h (fData k) of None \<Rightarrow> None | Some b \<Rightarrow> if length b < n then None else Some (take n b))"

definition eq_cstr :: "kheap \<Rightarrow> kstring \<Rightarrow> u8 list \<Rightarrow> bool option" where
  "eq_cstr h k rhs =
     (if length rhs \<noteq> fDataSz k then Some False
      else map_option (\<lambda>b. rhs = b) (data_bytes h k (length rhs)))"

definition ne_cstr :: "kheap \<Rightarrow> kstring \<Rightarrow> u8 list \<Rightarrow> bool option" where
  "ne_cstr h k rhs =
     (if length rhs \<noteq> fDataSz k then Some False
      else map_option (\<lambda>b. list_all2 (\<noteq>) rhs b) (data_bytes h k (length rhs)))"

definition eq_str :: "kheap \<Rightarrow> kstring \<Rightarrow> kstring \<Rightarrow> bool option" where
  "eq_str h k rhs =
     (if fDataSz rhs \<noteq> fDataSz k then Some False
      else case (data_bytes h rhs (fDataSz k), data_bytes h k (fDataSz k)) of
        (Some a, Some b) \<Rightarrow> Some (a = b) | _ \<Rightarrow> None)"

definition ne_str :: "kheap \<Rightarrow> kstring \<Rightarrow> kstring \<Rightarrow> bool option" where
  "ne_str h k rhs =
     (if fDataSz rhs \<noteq> fDataSz k then Some False
      else case (data_bytes h rhs (fDataSz k), data_bytes h k (fDataSz k)) of
        (Some a, Some b) \<Rightarrow> Some (list_all2 (\<noteq>) a b) | _ \<Rightarrow> None)"

definition not_str :: "kstring \<Rightarrow> bool" where "not_str k \<longleftrightarrow> fData k \<noteq> 0"
definition bool_str :: "kstring \<Rightarrow> bool" where "bool_str k \<longleftrightarrow> fData k \<noteq> 0"

section \<open>The builder\<close>

text \<open>
  \<open>Construct\<close>: the string is passed by value to the error wrapper and from there to the reference, and each
  parameter is destroyed at its end.
\<close>

definition Construct :: "bool \<Rightarrow> kheap \<Rightarrow> u8 list option \<Rightarrow> (kstring option \<times> kheap) option outcome" where
  "Construct debug h data =
     (case data of
        None \<Rightarrow> Ret (Some (None, h))
      | Some data \<Rightarrow>
          if data = [] then Ret (Some (None, h))
          else case KString_sized debug h (length data) of
            Stop \<Rightarrow> Stop
          | Ret (view, h) \<Rightarrow>
              Ret (case append_cstr h view data of
                     None \<Rightarrow> None
                   | Some (view, h) \<Rightarrow>
                       let klass = view; cls = klass; fClass = cls;
                           h = KString_destroy h cls; h = KString_destroy h klass
                       in Some (Some fClass, h)))"

definition Equals_str :: "u8 list \<Rightarrow> u8 list \<Rightarrow> bool" where
  "Equals_str lhs rhs \<longleftrightarrow> length rhs = length lhs \<and> (\<forall>i<length rhs. rhs ! i = lhs ! i)"

text \<open>\<open>Format\<close> over a buffer on the stack with any contents.\<close>

primrec format_loop :: "u8 list \<Rightarrow> u8 list \<Rightarrow> u8 list \<Rightarrow> nat \<Rightarrow> nat \<Rightarrow> u8 list" where
  "format_loop fmt fmt2 ret idx 0 = ret"
| "format_loop fmt fmt2 ret idx (Suc n) =
     (let ret = (if fmt ! idx = 37 \<and> idx < length fmt \<and> fmt ! idx = 115 then put_at ret idx fmt2 else ret)
      in format_loop fmt fmt2 (ret[idx := fmt ! idx]) (idx + 1) n)"

definition Format :: "u8 list \<Rightarrow> u8 list \<Rightarrow> u8 list \<Rightarrow> u8 list" where
  "Format stack fmt fmt2 = format_loop fmt fmt2 (take (length fmt2 + length fmt) stack) 0 (length fmt)"

primrec bool_loop :: "u8 list \<Rightarrow> u8 list \<Rightarrow> u8 list \<Rightarrow> nat \<Rightarrow> nat \<Rightarrow> u8 list" where
  "bool_loop fmt expr ret idx 0 = ret"
| "bool_loop fmt expr ret idx (Suc n) =
     (if fmt ! idx = 37 then put_at ret idx (drop idx expr)
      else bool_loop fmt expr (ret[idx := fmt ! idx]) (idx + 1) n)"

definition FromBool :: "u8 list \<Rightarrow> u8 list \<Rightarrow> bool \<Rightarrow> u8 list" where
  "FromBool stack fmt i =
     (let boolean_expr = (if i then [89, 69, 83] else [78, 79])
      in bool_loop fmt boolean_expr (take (length boolean_expr + length fmt) stack) 0 (length fmt))"

section \<open>Objects\<close>

record json_object =
  fUndefined :: bool
  fKey :: kstring
  fValue :: kstring

text \<open>The members are built, then overwritten by locals that are destroyed in reverse order.\<close>

definition JsonObject_sized :: "bool \<Rightarrow> kheap \<Rightarrow> nat \<Rightarrow> nat \<Rightarrow> (json_object \<times> kheap) outcome" where
  "JsonObject_sized debug h lhsLen rhsLen =
     (case KString_sized debug h lhsLen of
        Stop \<Rightarrow> Stop
      | Ret (_, h) \<Rightarrow>
     (case KString_sized debug h rhsLen of
        Stop \<Rightarrow> Stop
      | Ret (_, h) \<Rightarrow>
     (case KString_sized debug h lhsLen of
        Stop \<Rightarrow> Stop
      | Ret (key, h) \<Rightarrow>
     (case KString_sized debug h rhsLen of
        Stop \<Rightarrow> Stop
      | Ret (value, h) \<Rightarrow>
          let h = KString_destroy h value; h = KString_destroy h key
          in Ret (\<lparr>fUndefined = False, fKey = key, fValue = value\<rparr>, h)))))"

section \<open>The list array\<close>

record 'a list_node =
  fVal :: 'a
  fIndex :: nat
  fUsed :: bool

text \<open>The nodes that are linked, first to last; \<open>fNext\<close> is never set, and \<open>fLastNode\<close> stays null.\<close>

record 'a mutable_array =
  nodes :: "'a list_node list"
  fNodeCount :: nat

fun add_loop :: "'a \<Rightarrow> 'a list_node list \<Rightarrow> 'a list_node list option" where
  "add_loop v [] = None"
| "add_loop v (n # ns) =
     (if \<not> fUsed n then Some (n\<lparr>fVal := v, fIndex := 0, fUsed := True\<rparr> # ns) else map_option ((#) n) (add_loop v ns))"

text \<open>\<open>MutableArray::Add\<close>, which makes the first node when there is none, with any value.\<close>

definition Add_ma :: "'a \<Rightarrow> 'a mutable_array \<Rightarrow> 'a \<Rightarrow> 'a mutable_array \<times> bool" where
  "Add_ma fresh a v =
     (let ns = (if nodes a = [] then [\<lparr>fVal = fresh, fIndex = 0, fUsed = False\<rparr>] else nodes a)
      in case add_loop v ns of
           Some ns \<Rightarrow> (a\<lparr>nodes := ns, fNodeCount := fNodeCount a + 1\<rparr>, True)
         | None \<Rightarrow> (a\<lparr>nodes := ns\<rparr>, False))"

fun get_loop :: "'a list_node list \<Rightarrow> nat \<Rightarrow> 'a option" where
  "get_loop [] i = None"
| "get_loop (n # ns) i = (if fIndex n = i then Some (fVal n) else get_loop ns i)"

definition Get_ma :: "'a mutable_array \<Rightarrow> nat \<Rightarrow> 'a option" where
  "Get_ma a i = get_loop (nodes a) i"

definition Contains_ma :: "'a mutable_array \<Rightarrow> 'a \<Rightarrow> bool" where
  "Contains_ma a v \<longleftrightarrow> (\<exists>n \<in> set (nodes a). fVal n = v \<and> fUsed n)"

definition Count_ma :: "'a mutable_array \<Rightarrow> nat" where "Count_ma a = fNodeCount a"

text \<open>\<open>Remove\<close> of the base class works on the base's own first node, which \<open>Add\<close> of \<open>MutableArray\<close> never uses.\<close>

definition Remove_node :: "'a list_node \<Rightarrow> nat \<Rightarrow> 'a list_node \<times> bool" where
  "Remove_node n i = (if fIndex n = i then (n\<lparr>fUsed := False, fIndex := 0\<rparr>, True) else (n, False))"

section \<open>Variants and indexed files\<close>

datatype VariantKind = kInvalid | kString | kBlob | kNull | kJson | kTOML | kSwap

fun Variant_ToString :: "VariantKind \<Rightarrow> string" where
  "Variant_ToString kTOML = ''Class:{TOML}''"
| "Variant_ToString kJson = ''Class:{Json}''"
| "Variant_ToString kString = ''Class:{String}''"
| "Variant_ToString kBlob = ''Memory:{Blob}''"
| "Variant_ToString kNull = ''Memory:{Null}''"
| "Variant_ToString kSwap = ''Memory:{Swap}''"
| "Variant_ToString kInvalid = ''Memory:{Unknown}''"

definition kIndexerClaimed :: u16 where "kIndexerClaimed = 0xCF"
definition kIndexerUnclaimed :: u16 where "kIndexerUnclaimed = 0xCA"
definition kIndexerCatalogNameLength :: u64 where "kIndexerCatalogNameLength = 256"

definition AddFlag :: "u16 \<Rightarrow> u32 \<Rightarrow> u32" where "AddFlag flag fFlags = fFlags OR ucast flag"
definition RemoveFlag :: "u16 \<Rightarrow> u32 \<Rightarrow> u32" where "RemoveFlag flag fFlags = fFlags AND NOT (ucast flag)"
definition HasFlag :: "u16 \<Rightarrow> u32 \<Rightarrow> u16" where "HasFlag flag fFlags = ucast (fFlags AND ucast flag)"

definition fs_index_file :: "mem \<Rightarrow> u64 \<Rightarrow> u64 \<Rightarrow> u64 \<Rightarrow> u32 \<Rightarrow> mem \<times> u32" where
  "fs_index_file m path filename filenameLen fFlags =
     (if HasFlag kIndexerClaimed fFlags = 0 then
        (fst (rt_copy_memory_safe m filename path filenameLen kIndexerCatalogNameLength),
         AddFlag kIndexerClaimed (RemoveFlag kIndexerUnclaimed fFlags))
      else (m, fFlags))"

definition fs_unindex_file :: "u32 \<Rightarrow> u32" where
  "fs_unindex_file fFlags =
     (if HasFlag kIndexerClaimed fFlags \<noteq> 0 then AddFlag kIndexerUnclaimed (RemoveFlag kIndexerClaimed fFlags) else fFlags)"


section \<open>Strings made from text\<close>

lemma append_fresh:
  assumes "bufs h p = Some (replicate n 0)" and "length s = n" and "s \<noteq> []"
  shows "append_cstr h \<lparr>fData = p, fDataSz = n, fCur = 0\<rparr> s
    = Some (\<lparr>fData = p, fDataSz = n, fCur = n\<rparr>, h\<lparr>bufs := (bufs h)(p \<mapsto> s)\<rparr>)"
  using assms by (simp add: append_cstr_def buf_write_def put_at_def)

text \<open>
  A string made from text.  With room on the heap, the string of a nonempty text is equal to exactly that text and
  to no other.  Its buffer has no place left: appending anything writes outside it, and when the text has no zero
  byte there is no terminator either, so reading it as a C string runs past its end.
\<close>

theorem kstring_from_text:
  assumes "0 < room h" and "s \<noteq> []"
  shows "\<exists>k h'. KString_cstr h s = Some (k, h') \<and> (\<forall>t. eq_cstr h' k t = Some (t = s))
    \<and> (\<forall>t. t \<noteq> [] \<longrightarrow> append_cstr h' k t = None) \<and> (0 \<notin> set s \<longrightarrow> cstr_in h' (fData k) = None)"
proof -
  define p where "p = Suc (brk h)"
  define h1 where "h1 = h\<lparr>bufs := (bufs h)(p := Some (replicate (length s) 0)), brk := p, room := room h - 1\<rparr>"
  define h2 where "h2 = h1\<lparr>bufs := (bufs h1)(p \<mapsto> s)\<rparr>"
  have "KString_cstr h s = append_cstr h1 \<lparr>fData = p, fDataSz = length s, fCur = 0\<rparr> s"
    using assms by (simp add: KString_cstr_def heap_new_def p_def h1_def Let_def)
  also have "\<dots> = Some (\<lparr>fData = p, fDataSz = length s, fCur = length s\<rparr>, h2)"
    using append_fresh [of h1 p "length s" s] assms by (simp add: h1_def h2_def)
  finally have mk: "KString_cstr h s = Some (\<lparr>fData = p, fDataSz = length s, fCur = length s\<rparr>, h2)" .
  have b: "bufs h2 p = Some s" by (simp add: h2_def)
  have "eq_cstr h2 \<lparr>fData = p, fDataSz = length s, fCur = length s\<rparr> t = Some (t = s)" for t
    using b assms(2) by (auto simp: eq_cstr_def data_bytes_def)
  moreover have "append_cstr h2 \<lparr>fData = p, fDataSz = length s, fCur = length s\<rparr> t = None" if "t \<noteq> []" for t
    using b that by (auto simp: append_cstr_def buf_write_def)
  moreover have "0 \<notin> set s \<longrightarrow> cstr_in h2 p = None" using b by (simp add: cstr_in_def p_def)
  ultimately show ?thesis using mk by auto
qed

definition demo_heap :: kheap where "demo_heap = \<lparr>bufs = (\<lambda>_. None), brk = 0, room = 100\<rparr>"

theorem kstring_from_text_witness:
  "\<exists>k h'. KString_cstr demo_heap [97, 98] = Some (k, h') \<and> eq_cstr h' k [97, 98] = Some True \<and> append_cstr h' k [99] = None"
proof -
  have "0 < room demo_heap" by (simp add: demo_heap_def)
  from kstring_from_text [OF this, of "[97, 98]"] show ?thesis by auto
qed

text \<open>Two strings of different lengths are neither equal nor different.\<close>

lemma ne_not_negation: "length t \<noteq> fDataSz k \<Longrightarrow> eq_cstr h k t = Some False \<and> ne_cstr h k t = Some False"
  by (simp add: eq_cstr_def ne_cstr_def)

section \<open>Strings that outlive their buffers\<close>



section \<open>Formatting\<close>

text \<open>The condition for the inserted text asks one character to be two, so the format itself is the result.\<close>

lemma format_loop_spec:
  assumes "i + n \<le> length fmt" and "length fmt \<le> length ret"
  shows "take (i + n) (format_loop fmt fmt2 ret i n) = take i ret @ take n (drop i fmt)"
  using assms
proof (induction n arbitrary: i ret)
  case 0
  then show ?case by simp
next
  case (Suc n)
  have "format_loop fmt fmt2 ret i (Suc n) = format_loop fmt fmt2 (ret[i := fmt ! i]) (Suc i) n" by (auto simp: Let_def)
  then have "take (i + Suc n) (format_loop fmt fmt2 ret i (Suc n)) = take (Suc i) (ret[i := fmt ! i]) @ take n (drop (Suc i) fmt)"
    using Suc.IH [of "Suc i" "ret[i := fmt ! i]"] Suc.prems by simp
  also have "take (Suc i) (ret[i := fmt ! i]) = take i ret @ [fmt ! i]"
    using Suc.prems by (simp add: take_Suc_conv_app_nth)
  finally show ?case using Suc.prems by (simp add: Cons_nth_drop_Suc [symmetric])
qed

lemma format_ignores_argument:
  "length fmt2 + length fmt \<le> length stack \<Longrightarrow> take (length fmt) (Format stack fmt fmt2) = fmt"
  using format_loop_spec [of 0 "length fmt" fmt "take (length fmt2 + length fmt) stack" fmt2] by (simp add: Format_def)

section \<open>The list array holds one element\<close>

definition adds :: "'a \<Rightarrow> 'a list \<Rightarrow> 'a mutable_array \<Rightarrow> 'a mutable_array" where
  "adds fresh vs a = fold (\<lambda>v a. fst (Add_ma fresh a v)) vs a"

text \<open>
  Capacity.  The first value added to a new array is stored, and found at index 0; every later \<open>Add\<close> fails and
  changes nothing, however many there are, because no node is ever linked behind the first one.
\<close>

theorem array_holds_one:
  fixes fresh v w :: 'a and vs :: "'a list"
  defines "a \<equiv> adds fresh (v # vs) \<lparr>nodes = [], fNodeCount = 0\<rparr>"
  shows "snd (Add_ma fresh \<lparr>nodes = [], fNodeCount = 0\<rparr> v) \<and> \<not> snd (Add_ma fresh a w) \<and> fst (Add_ma fresh a w) = a
    \<and> Get_ma a 0 = Some v \<and> Count_ma a = 1 \<and> Contains_ma a w = (w = v)"
proof -
  define one where "one = \<lparr>nodes = [\<lparr>fVal = v, fIndex = 0, fUsed = True\<rparr>], fNodeCount = 1\<rparr>"
  have first: "Add_ma fresh \<lparr>nodes = [], fNodeCount = 0\<rparr> v = (one, True)" by (simp add: Add_ma_def one_def)
  have full: "Add_ma fresh one x = (one, False)" for x by (simp add: Add_ma_def one_def)
  have "fold (\<lambda>v a. fst (Add_ma fresh a v)) vs one = one" by (induction vs) (simp_all add: full)
  then have "a = one" by (simp add: a_def adds_def first)
  then show ?thesis by (simp add: first full) (auto simp: one_def Get_ma_def Count_ma_def Contains_ma_def)
qed

section \<open>Indexed files\<close>

text \<open>
  A file is indexed once.  The two flags share bits, so after \<open>fs_unindex_file\<close> the file still counts as claimed,
  a second \<open>fs_unindex_file\<close> changes nothing, and \<open>fs_index_file\<close> neither stores another path nor changes the flags.
\<close>

theorem unindex_keeps_claim:
  assumes "HasFlag kIndexerClaimed fl \<noteq> 0"
  shows "HasFlag kIndexerClaimed (fs_unindex_file fl) \<noteq> 0 \<and> fs_unindex_file (fs_unindex_file fl) = fs_unindex_file fl
    \<and> fs_index_file m path filename len (fs_unindex_file fl) = (m, fs_unindex_file fl)"
proof -
  define g where "g = fs_unindex_file fl"
  have g: "g = (fl AND NOT 0xCF) OR 0xCA"
    using assms by (simp add: g_def fs_unindex_file_def AddFlag_def RemoveFlag_def kIndexerClaimed_def kIndexerUnclaimed_def)
  have "g AND 0xCF = 0xCA"
    by (simp add: g bit.conj_disj_distrib2 and.assoc)
  then have claim: "HasFlag kIndexerClaimed g = 0xCA" by (simp add: HasFlag_def kIndexerClaimed_def)
  have "(g AND NOT 0xCF) OR 0xCA = g" by (simp add: g bit.conj_disj_distrib2 and.assoc)
  then have "fs_unindex_file g = g"
    using claim by (simp add: fs_unindex_file_def AddFlag_def RemoveFlag_def kIndexerClaimed_def kIndexerUnclaimed_def)
  then show ?thesis using claim by (simp add: g_def [symmetric] fs_index_file_def)
qed

theorem unindex_keeps_claim_witness: "HasFlag kIndexerClaimed (fs_unindex_file 0xCF) \<noteq> 0"
proof -
  have "HasFlag kIndexerClaimed 0xCF \<noteq> 0" by (simp add: HasFlag_def kIndexerClaimed_def)
  from unindex_keeps_claim [OF this] show ?thesis by blast
qed

end
