(* ===== verification/Spec2Isabelle.thy ===== *)
theory Spec2Isabelle
  imports PagingBoot UserScheduler SystemCalls AhciDisk Synchronization Messaging UserAccounts KernelTasks FileMgr PE32Loader BootHandover MkfsHefs PciBus KernelContainers
begin

text \<open>
  A verification development of the NeKernel kernel: the AMD64 kernel under
  \<^verbatim>\<open>private/minkernel\<close> and the kernel modules it calls.

  \<^bold>\<open>The program.\<close>  The boot loader hands the kernel a region of memory.  The entry point cuts it into
  the kernel heap and physical frames and builds the kernel's page tables.  The heap is a layer of
  checked pointers over a bitmap allocator; the frames feed the page tables and the loaders of
  executables.  Processes live in the slots of a team; the scheduler visits the slots in turn and
  gives runnable processes to the cores, which the kernel finds in the ACPI tables.  Below the file
  manager and its streams are two file systems, OpenHeFS and NeFS, on a drive manager.  Processes
  exchange messages, wait on mutexes, semaphores and timers, and belong to users.

  \<^bold>\<open>Memory and values.\<close>  \<open>NePrelude\<close> names the integer types of \<^verbatim>\<open>NeKit/Config.h\<close> as words of their
  width, so \<open>+\<close> wraps as in the code, and models memory as a map from 64-bit addresses to bytes with
  little-endian loads and stores.  \<open>KPC\<close> holds the error numbers.  Pointers are addresses, 0 is null.
  Static variables are the fields of a record; a record that extends another is the state of code
  that works on both.  Loops that may run forever are partial functions, whose value \<open>None\<close> is a run
  that never ends; the kernel's stop, an access outside an array and a failed run-time check are
  results of their own (\<open>Halt\<close>, \<open>OutOfBounds\<close> and the like).  No definition uses fuel: where a loop is
  bounded by the code, it is a recursion on the bound, and where it is not, the theorems say when it
  returns.  The spin locks make each operation one step.  Values that hardware or other code supplies
  during a wait, such as a polled register, are parameters: functions from the number of the read to
  the value read.

  \<^bold>\<open>Theories.\<close>
  \<^item> \<open>AsciiUtils\<close> (\<^verbatim>\<open>src/AsciiUtils.cpp\<close>, \<^verbatim>\<open>UtfUtils.cpp\<close>): the string and memory routines; conversion
    of numbers is inverted by parsing, the substring search finds the first occurrence.
  \<^item> \<open>PhysicalMemory\<close> (\<^verbatim>\<open>HALKit/Generic/HalPhysicalMemory.cpp\<close>): the frame allocator.  An invariant
    names the free list and the owned frames; it holds along every history of clients, so frames are
    exclusive and the counters exact.  The locale \<open>frame_allocator\<close> is what its clients rely on.
  \<^item> \<open>Paging\<close>, \<open>PagingBoot\<close> (\<^verbatim>\<open>HALKit/AMD64/HalPagingMgr.cpp\<close>): the walk, map, unmap and translation of
    four-level tables, with an invariant on the tree of tables; mapping and unmapping change exactly
    one page, the boot tables are the identity below their limit.
  \<^item> \<open>Crc32\<close>, \<open>BitMapMgr\<close>, \<open>HeapMgr\<close> (\<^verbatim>\<open>Crc32.cpp\<close>, \<^verbatim>\<open>BitMapMgr.cpp\<close>, \<^verbatim>\<open>PageMgr.cpp\<close>, \<^verbatim>\<open>Pmm.cpp\<close>,
    \<^verbatim>\<open>HeapMgr.cpp\<close>, \<^verbatim>\<open>New+Delete.cpp\<close>): the checksum equals the bit-serial one, the allocator is first
    fit, and the heap's pointers carry valid headers and are freed once.
  \<^item> \<open>HardwareThreads\<close>, \<open>UserProcesses\<close>, \<open>UserScheduler\<close>, \<open>AcpiTables\<close>
    (\<^verbatim>\<open>HardwareThreadScheduler.cpp\<close>, \<^verbatim>\<open>UserProcessScheduler.cpp\<close>, \<^verbatim>\<open>UserProcessTeam.cpp\<close>,
    \<^verbatim>\<open>HalACPIFactoryInterface.cpp\<close>, \<^verbatim>\<open>HalApplicationProcessor.cpp\<close>): cores, processes with
    their heap trees, spawning and scheduling, and the discovery of processors.
  \<^item> \<open>Synchronization\<close>, \<open>Messaging\<close>, \<open>UserAccounts\<close>, \<open>KernelTasks\<close> (\<^verbatim>\<open>SoftwareTimer.cpp\<close>,
    \<^verbatim>\<open>BinaryMutex.cpp\<close>, \<^verbatim>\<open>Semaphore.h\<close>, \<^verbatim>\<open>Network/\<close>, \<^verbatim>\<open>User.cpp\<close>, \<^verbatim>\<open>KernelTask.cpp\<close>, \<^verbatim>\<open>CodeMgr.cpp\<close>):
    timers (locale \<open>itimer\<close>), the mutex with priority inheritance, the semaphore, messages and
    addresses, users and passwords, kernel tasks.
  \<^item> \<open>SystemCalls\<close>, \<open>DmaPool\<close> (\<^verbatim>\<open>HALKit/AMD64/HalCoreInterruptHandler.cpp\<close>, \<^verbatim>\<open>HalDescriptorLoader.cpp\<close>,
    \<^verbatim>\<open>ArchKit.h\<close>, \<^verbatim>\<open>hal/src/\<close>, \<^verbatim>\<open>DmaKit/DmaPool.h\<close>): the gates of the interrupt table, what faults do to
    processes, installing and entering calls, and the pool of memory for device transfers.
  \<^item> \<open>AhciDriver\<close>, \<open>AhciDisk\<close> (\<^verbatim>\<open>HALKit/AMD64/Storage/AHCI+Generic.cpp\<close>, \<^verbatim>\<open>modules/AHCI/AHCI.h\<close>): the
    bytes of the command that a transfer builds in memory, how it waits for the device, which is a
    parameter, and the bring-up of the controller.
  \<^item> \<open>DriveMgr\<close> (\<^verbatim>\<open>DriveMgr.cpp\<close>, \<^verbatim>\<open>IFS.cpp\<close>, \<^verbatim>\<open>PIO+Generic.cpp\<close>): drives over a byte device and mount
    points.  The locale \<open>sector_store\<close> is the contract of a drive, \<open>packed\<close> that of an on-disk structure.
  \<^item> \<open>HeFSLayout\<close>, \<open>OpenHeFS\<close>, \<open>HeFSVolume\<close> and \<open>NeFSLayout\<close>, \<open>NeFS\<close>, \<open>NeFSVolume\<close>
    (\<^verbatim>\<open>FSKit/OpenHeFS.h\<close>, \<^verbatim>\<open>FSKit/NeFS.h\<close>, \<^verbatim>\<open>src/FS/\<close>): for each file system the packed structures with
    their round trips, the operations of the parser, and what the operations do to a volume.  For
    OpenHeFS a directory refines a finite map from names to index nodes and data reads back.  The
    places where an operation destroys what another needs are theorems too.
  \<^item> \<open>FileMgr\<close> (\<^verbatim>\<open>KernelKit/FileMgr.h\<close>, the two file managers, \<^verbatim>\<open>Swap/\<close>): the file system interface as a
    record of operations (locale \<open>fs_manager\<close>), streams and the disk swap.
  \<^item> \<open>PEFLoader\<close>, \<open>PE32Loader\<close> (\<^verbatim>\<open>PEFCodeMgr.cpp\<close>, \<^verbatim>\<open>PE32CodeMgr.cpp\<close>): the checks of the headers of an
    image and its mapping; what is accepted lies inside the container and the image window.
  \<^item> \<open>KernelBoot\<close> (\<^verbatim>\<open>HALKit/AMD64/HalKernelMain.cpp\<close>): the memory setup of the entry point.
  \<^item> \<open>BootLoader\<close>, \<open>BootHandover\<close> (\<^verbatim>\<open>private/minloader/src/\<close>): what the boot loader hands over, reading files, placing
    the kernel's image, and what the kernel's allocator makes of the region it is handed.
  \<^item> \<open>MkfsHefs\<close> (\<^verbatim>\<open>src/tools/mkfs.hefs.cpp\<close>, \<^verbatim>\<open>chk.hefs.cpp\<close>, \<^verbatim>\<open>libmkfs/\<close>): the host tools for OpenHeFS, against each other
    and against the kernel's layout and checks.
  \<^item> \<open>PciBus\<close> (\<^verbatim>\<open>HALKit/AMD64/PCI/\<close>): configuration space and search, over the two ports as an argument.
  \<^item> \<open>KernelContainers\<close> (\<^verbatim>\<open>NeKit/KString.inl\<close>, \<^verbatim>\<open>MutableArray.h\<close>, \<^verbatim>\<open>Json.h\<close>, \<^verbatim>\<open>src/IndexableProperty.cpp\<close>): strings and their
    buffers, the list array, indexed files.
  \<^item> This theory composes boot, frames and loader.

  \<^bold>\<open>Bounds.\<close>  Physical addresses are below \<open>2 ^ 52\<close> where the page tables store them and the boot region
  below \<open>2 ^ 48\<close>, the reach of the four-level tables.  Other bounds in theorems are those of the code's
  own types and checks.

  \<^bold>\<open>Not modelled.\<close>  Assembly (context switch, descriptor loading), the polling of device registers
  beyond the parameters above, the NVMe, SCSI, ATA DMA and network drivers, console and frame
  buffer output, the JSON reader, GUIDs, other architectures, the firmware itself and the variables and disk formats of the boot
  loader, user-space libraries, image scripts and tests.  Failures of the heap for
  the temporary buffers of the file systems are left out.
\<close>

section \<open>Boot memory and images\<close>

text \<open>
  C4. Images never shadow the kernel's memory.  Whatever region the boot loader hands over (below
  \<open>2 ^ 48\<close>), the kernel heap and the frames that the entry point makes of it lie inside the region
  and apart from each other, and a section that \<open>pef_find_section\<close> accepts from any
  container, which the loader maps over the identity map, overlaps neither of them.  The limit of
  the identity map is a whole number of gigabytes that covers the region.
\<close>

theorem images_keep_off_kernel_memory:
  assumes "unat base + unat sz \<le> 2 ^ 48" and "m = hal_init_memory base sz s" and "kPmmCursor (machine m) \<noteq> 0"
    and "length blob < 2 ^ 64" and "pef_find_section blob nm kind = Some hdr"
  shows "unat base \<le> unat (kKernelBitMpStart_boot m)
    \<and> unat (kKernelBitMpStart_boot m) + unat (kKernelBitMpSize_boot m) \<le> unat (kPmmBase (machine m))
    \<and> unat (kPmmEnd (machine m)) \<le> unat base + unat sz
    \<and> (unat (VMAddress_h hdr) + unat (VMSize_h hdr) \<le> unat (kKernelBitMpStart_boot m)
        \<or> unat (kPmmEnd (machine m)) \<le> unat (VMAddress_h hdr))
    \<and> unat base + unat sz \<le> unat (boot_map_limit base sz) \<and> unat (boot_map_limit base sz) mod 2 ^ 30 = 0"
proof -
  obtain rb rs where r: "boot_region base sz = (rb, rs)" by fastforce
  define u where "u = rs div 2"
  have m: "kKernelBitMpStart_boot m = rb" "kKernelBitMpSize_boot m = u" "machine m = pmmi_init (rb + u) (rs - u) s"
    using assms(2) r by (simp_all add: hal_init_memory_def u_def Let_def)
  have "unat base + unat sz < 2 ^ 64" using assms(1) by simp
  note reg = boot_region_clear [OF this r]
  have uu: "unat u = unat rs div 2" by (simp add: u_def unat_div)
  then have sums: "unat (rb + u) = unat rb + unat u" "unat (rs - u) = unat rs - unat u"
    using reg(2) assms(1) by (simp_all add: unat_word_ariths unat_sub_if')
  have "unat (rb + u) + unat (rs - u) \<le> 2 ^ 48" using sums uu reg(2) assms(1) by simp
  from pmmi_init_range [OF this assms(3) [unfolded m(3)]]
  have f: "unat rb + unat u \<le> unat (kPmmBase (machine m))" "unat (kPmmEnd (machine m)) \<le> unat rb + unat rs"
    using sums uu by (simp_all add: m(3))
  have "rs \<noteq> 0"
  proof
    assume "rs = 0"
    then have "kPmmCursor (machine m) = 0" using pmmi_init_zero [of rb s] reg(2) assms(1) by (simp add: m u_def)
    then show False using assms(3) by simp
  qed
  then have "unat rb + unat rs \<le> 0x40000000 \<or> 0x44000000 \<le> unat rb" using reg(3) by blast
  then have "unat (VMAddress_h hdr) + unat (VMSize_h hdr) \<le> unat rb \<or> unat (kPmmEnd (machine m)) \<le> unat (VMAddress_h hdr)"
    using pef_section_window [OF assms(4,5)] f(2) by linarith
  then show ?thesis using reg f m boot_map_limit_covers [OF assms(1)] by simp
qed

theorem images_keep_off_kernel_memory_witness:
  "let m = hal_init_memory 0x3F000000 0x6000000 small_hw; hdr = pef_command_at (sample_pef code_name 0xC 3) 0
   in kKernelBitMpStart_boot m = 0x3F000000 \<and> kPmmEnd (machine m) = 0x40000000 \<and> VMAddress_h hdr = 0x40000000
      \<and> (unat (VMAddress_h hdr) + unat (VMSize_h hdr) \<le> unat (kKernelBitMpStart_boot m)
        \<or> unat (kPmmEnd (machine m)) \<le> unat (VMAddress_h hdr))"
proof -
  have sect: "pef_find_section (sample_pef code_name 0xC 3) code_name kPefCode = Some (pef_command_at (sample_pef code_name 0xC 3) 0)"
    using sample_section [of code_name 3 "0xC"] by (simp add: length_sample kPefCode_def) (simp add: code_name_def)
  have len: "length (sample_pef code_name 0xC 3) < 2 ^ 64" by (simp add: length_sample)
  have m: "kKernelBitMpStart_boot (hal_init_memory 0x3F000000 0x6000000 small_hw) = 0x3F000000"
    "machine (hal_init_memory 0x3F000000 0x6000000 small_hw) = pmmi_init 0x3F800000 0x800000 small_hw"
    by (simp_all add: hal_init_memory_def boot_region_def kImgWinStart_def kImgWinEnd_def kPefBaseOrigin_def kPefMaxImageSz_def)
  have frames: "kPmmCursor (pmmi_init 0x3F800000 0x800000 small_hw) = 0x3F800000"
    "kPmmEnd (pmmi_init 0x3F800000 0x800000 small_hw) = 0x40000000"
    by (simp_all add: pmmi_init_def kPmmAlign_def kPageSize_def)
  have "kPmmCursor (machine (hal_init_memory 0x3F000000 0x6000000 small_hw)) \<noteq> 0" by (simp add: m frames)
  from images_keep_off_kernel_memory [OF _ refl this len sect] show ?thesis
    by (simp add: m frames Let_def sample_command length_sample)
qed

end
